(* ===== verification/Prelude.thy ===== *)
theory Prelude
  imports Main "HOL-Library.List_Lexorder" "HOL-Library.Code_Target_Nat"
begin

text \<open>
  Shared vocabulary of the development: Python strings as lists of code points, their
  UTF-8 encoding, computations that may raise as sums, \<open>str.split\<close> and \<open>str.join\<close>, and
  the generic list facts the component theories rest on.

  A Python \<open>str\<close> is a sequence of Unicode code points, lone surrogates included, so it is
  a \<open>nat list\<close> here and not an Isabelle \<open>string\<close>, whose characters are bytes. A literal
  of the source is written \<open>lit ''...''\<close>. A function of the source that raises returns a
  sum whose left part is the exception.
\<close>

named_theorems result_simps \<open>evaluation rules of the error monad\<close>
named_theorems str_simps \<open>evaluation rules of string literals, splitting and joining\<close>

section \<open>Computations that may raise\<close>

definition bindE :: "'e + 'a \<Rightarrow> ('a \<Rightarrow> 'e + 'b) \<Rightarrow> 'e + 'b" where
  "bindE r f = (case r of Inl e \<Rightarrow> Inl e | Inr a \<Rightarrow> f a)"

lemma bindE_simps [simp, result_simps]:
  "bindE (Inl e) f = Inl e"
  "bindE (Inr a) f = f a"
  by (simp_all add: bindE_def)

lemma bindE_eq_Inr [simp]: "bindE r f = Inr b \<longleftrightarrow> (\<exists>a. r = Inr a \<and> f a = Inr b)"
  by (cases r) simp_all

lemma bindE_eq_Inl: "bindE r f = Inl e \<longleftrightarrow> r = Inl e \<or> (\<exists>a. r = Inr a \<and> f a = Inl e)"
  by (cases r) simp_all

lemma bindE_assoc: "bindE (bindE r f) g = bindE r (\<lambda>a. bindE (f a) g)"
  by (cases r) simp_all

lemma bindE_cong [fundef_cong]:
  "r = r' \<Longrightarrow> (\<And>a. r' = Inr a \<Longrightarrow> f a = f' a) \<Longrightarrow> bindE r f = bindE r' f'"
  by (cases r') simp_all

text \<open>The guard statement \<open>if bad: raise e\<close>.\<close>

definition refuse_if :: "bool \<Rightarrow> 'e \<Rightarrow> 'e + unit" where
  "refuse_if bad e = (if bad then Inl e else Inr ())"

lemma refuse_if_simps [simp, result_simps]:
  "refuse_if True e = Inl e"
  "refuse_if False e = Inr ()"
  "refuse_if b e = Inr u \<longleftrightarrow> \<not> b"
  "refuse_if b e = Inl e' \<longleftrightarrow> b \<and> e' = e"
  by (auto simp: refuse_if_def)

text \<open>A comprehension whose body may raise: the first failure in order wins.\<close>

fun mapE :: "('a \<Rightarrow> 'e + 'b) \<Rightarrow> 'a list \<Rightarrow> 'e + 'b list" where
  "mapE f [] = Inr []"
| "mapE f (x # xs) = bindE (f x) (\<lambda>y. bindE (mapE f xs) (\<lambda>ys. Inr (y # ys)))"

lemma mapE_cong [fundef_cong]:
  "xs = ys \<Longrightarrow> (\<And>x. x \<in> set ys \<Longrightarrow> f x = g x) \<Longrightarrow> mapE f xs = mapE g ys"
  by (induction ys arbitrary: xs) (auto intro!: bindE_cong)

lemma mapE_Inr_iff: "mapE f xs = Inr ys \<longleftrightarrow> list_all2 (\<lambda>x y. f x = Inr y) xs ys"
  by (induction xs arbitrary: ys) (auto simp: list_all2_Cons1)

lemma mapE_length: "mapE f xs = Inr ys \<Longrightarrow> length ys = length xs"
  by (simp add: mapE_Inr_iff list_all2_lengthD)

lemma mapE_InrD: "mapE f xs = Inr ys \<Longrightarrow> x \<in> set xs \<Longrightarrow> \<exists>y \<in> set ys. f x = Inr y"
  by (induction xs arbitrary: ys) auto

lemma mapE_all_Inr: "(\<And>x. x \<in> set xs \<Longrightarrow> f x = Inr (g x)) \<Longrightarrow> mapE f xs = Inr (map g xs)"
  by (induction xs) auto

lemma mapE_append:
  "mapE f (xs @ ys) = bindE (mapE f xs) (\<lambda>as. bindE (mapE f ys) (\<lambda>bs. Inr (as @ bs)))"
  by (induction xs) (simp_all add: bindE_def split: sum.splits)

section \<open>Python strings\<close>

type_synonym pystr = "nat list"

definition lit :: "string \<Rightarrow> pystr" where
  "lit s = map of_char s"

lemma lit_inject [simp, str_simps]: "lit s = lit t \<longleftrightarrow> s = t"
  unfolding lit_def by (rule inj_map_eq_map) (simp add: inj_of_char)

lemma lit_Nil [simp, str_simps]: "lit [] = []" "(lit s = []) = (s = [])" "([] = lit s) = (s = [])"
  by (auto simp: lit_def)

lemma length_lit [simp, str_simps]: "length (lit s) = length s"
  by (simp add: lit_def)

lemma lit_append: "lit (s @ t) = lit s @ lit t"
  by (simp add: lit_def)

lemma set_lit_less: "c \<in> set (lit s) \<Longrightarrow> c < 256"
  by (auto simp: lit_def)

subsection \<open>UTF-8\<close>

text \<open>\<open>str.encode()\<close>: the UTF-8 bytes, or \<open>None\<close> where Python raises UnicodeEncodeError,
  which it does on a surrogate.\<close>

definition is_surrogate :: "nat \<Rightarrow> bool" where
  "is_surrogate c \<longleftrightarrow> 0xD800 \<le> c \<and> c \<le> 0xDFFF"

definition utf8_char :: "nat \<Rightarrow> nat list option" where
  "utf8_char c =
     (if c < 0x80 then Some [c]
      else if c < 0x800 then Some [0xC0 + c div 0x40, 0x80 + c mod 0x40]
      else if is_surrogate c then None
      else if c < 0x10000 then
        Some [0xE0 + c div 0x1000, 0x80 + c div 0x40 mod 0x40, 0x80 + c mod 0x40]
      else if c < 0x110000 then
        Some [0xF0 + c div 0x40000, 0x80 + c div 0x1000 mod 0x40,
              0x80 + c div 0x40 mod 0x40, 0x80 + c mod 0x40]
      else None)"

fun utf8 :: "pystr \<Rightarrow> nat list option" where
  "utf8 [] = Some []"
| "utf8 (c # cs) =
     (case utf8_char c of None \<Rightarrow> None
      | Some bs \<Rightarrow> (case utf8 cs of None \<Rightarrow> None | Some rest \<Rightarrow> Some (bs @ rest)))"

definition ascii :: "pystr \<Rightarrow> bool" where
  "ascii s \<longleftrightarrow> (\<forall>c \<in> set s. c < 0x80)"

lemma ascii_simps [simp]:
  "ascii []" "ascii (c # s) \<longleftrightarrow> c < 0x80 \<and> ascii s" "ascii (s @ t) \<longleftrightarrow> ascii s \<and> ascii t"
  by (auto simp: ascii_def)

lemma utf8_ascii: "ascii s \<Longrightarrow> utf8 s = Some s"
  by (induction s) (auto simp: utf8_char_def)

lemma utf8_char_Some: "utf8_char c = Some bs \<Longrightarrow> bs \<noteq> []"
  by (auto simp: utf8_char_def split: if_splits)

lemma utf8_append:
  "utf8 (s @ t) = (case utf8 s of None \<Rightarrow> None
     | Some a \<Rightarrow> (case utf8 t of None \<Rightarrow> None | Some b \<Rightarrow> Some (a @ b)))"
  by (induction s) (auto split: option.splits)

lemma utf8_length: "utf8 s = Some bs \<Longrightarrow> length s \<le> length bs"
proof (induction s arbitrary: bs)
  case (Cons c s)
  then obtain b rest where "utf8_char c = Some b" "utf8 s = Some rest" "bs = b @ rest"
    by (auto split: option.splits)
  moreover from this have "b \<noteq> []" "length s \<le> length rest"
    by (auto dest: utf8_char_Some intro: Cons.IH)
  ultimately show ?case by (cases b) auto
qed simp

text \<open>The first byte tells how many bytes a character takes, so no encoding of a
  character is a prefix of another one's: the encoding is uniquely readable.\<close>

fun utf8_width :: "nat \<Rightarrow> nat" where
  "utf8_width b = (if b < 0x80 then 1 else if b < 0xE0 then 2 else if b < 0xF0 then 3 else 4)"

fun utf8_value :: "nat list \<Rightarrow> nat" where
  "utf8_value [a] = a"
| "utf8_value [a, b] = (a - 0xC0) * 0x40 + (b - 0x80)"
| "utf8_value [a, b, c] = ((a - 0xE0) * 0x40 + (b - 0x80)) * 0x40 + (c - 0x80)"
| "utf8_value [a, b, c, d] =
     (((a - 0xF0) * 0x40 + (b - 0x80)) * 0x40 + (c - 0x80)) * 0x40 + (d - 0x80)"
| "utf8_value _ = 0"

lemma utf8_char_width: "utf8_char c = Some bs \<Longrightarrow> length bs = utf8_width (hd bs)"
  by (auto simp: utf8_char_def split: if_splits)

lemma utf8_value_char: "utf8_char c = Some bs \<Longrightarrow> utf8_value bs = c"
proof -
  have "c div 0x1000 = c div 0x40 div 0x40" "c div 0x40000 = c div 0x1000 div 0x40"
    by (simp_all add: div_mult2_eq [symmetric])
  then have "c div 0x1000 * 0x40 + c div 0x40 mod 0x40 = c div 0x40"
    "c div 0x40000 * 0x40 + c div 0x1000 mod 0x40 = c div 0x1000"
    by simp_all
  then show "utf8_char c = Some bs \<Longrightarrow> utf8_value bs = c"
    by (auto simp: utf8_char_def split: if_splits)
qed

lemma utf8_char_prefix:
  assumes "utf8_char c = Some bs" "utf8_char d = Some ds" "bs @ xs = ds @ ys"
  shows "c = d \<and> xs = ys"
proof -
  from assms have "hd bs = hd ds" by (metis hd_append utf8_char_Some)
  with assms(1,2) have "length bs = length ds" by (metis utf8_char_width)
  with assms(3) have "bs = ds \<and> xs = ys" by simp
  with assms(1,2) show ?thesis by (metis utf8_value_char)
qed

theorem utf8_inject: "utf8 s = Some bs \<Longrightarrow> utf8 t = Some bs \<Longrightarrow> s = t"
proof (induction s arbitrary: t bs)
  case Nil
  then show ?case
    by (cases t) (auto split: option.splits dest: utf8_char_Some)
next
  case (Cons c s)
  then obtain b rest where b: "utf8_char c = Some b" "utf8 s = Some rest" "bs = b @ rest"
    by (auto split: option.splits)
  with Cons.prems obtain d t' where t: "t = d # t'"
    by (cases t) (auto dest: utf8_char_Some)
  with Cons.prems(2) obtain b' rest' where
    "utf8_char d = Some b'" "utf8 t' = Some rest'" "bs = b' @ rest'"
    by (auto split: option.splits)
  with b have "c = d" "rest = rest'" by (auto dest: utf8_char_prefix)
  with b \<open>utf8 t' = Some rest'\<close> t Cons.IH show ?case by simp
qed

subsection \<open>Splitting and joining\<close>

text \<open>\<open>text.split(sep)\<close> and \<open>sep.join(parts)\<close> for a one-character separator.\<close>

fun split_on :: "nat \<Rightarrow> pystr \<Rightarrow> pystr list" where
  "split_on sep [] = [[]]"
| "split_on sep (c # cs) =
     (if c = sep then [] # split_on sep cs
      else (case split_on sep cs of [] \<Rightarrow> [[c]] | w # ws \<Rightarrow> (c # w) # ws))"

fun join_with :: "nat \<Rightarrow> pystr list \<Rightarrow> pystr" where
  "join_with sep [] = []"
| "join_with sep [w] = w"
| "join_with sep (w # ws) = w @ sep # join_with sep ws"

lemma split_on_nonempty [simp]: "split_on sep s \<noteq> []"
  by (cases s) (auto split: list.splits)

lemma split_on_word: "sep \<notin> set w \<Longrightarrow> split_on sep w = [w]"
  by (induction w) auto

lemma split_on_append: "sep \<notin> set w \<Longrightarrow> split_on sep (w @ sep # rest) = w # split_on sep rest"
  by (induction w) auto

lemma join_with_Cons: "ws \<noteq> [] \<Longrightarrow> join_with sep (w # ws) = w @ sep # join_with sep ws"
  by (cases ws) auto

theorem split_join: "ws \<noteq> [] \<Longrightarrow> (\<And>w. w \<in> set ws \<Longrightarrow> sep \<notin> set w) \<Longrightarrow> split_on sep (join_with sep ws) = ws"
  by (induction sep ws rule: join_with.induct) (auto simp: split_on_word split_on_append)

theorem join_split: "join_with sep (split_on sep s) = s"
proof (induction s)
  case (Cons c s)
  obtain w ws where "split_on sep s = w # ws" by (cases "split_on sep s") auto
  with Cons show ?case by (cases ws) (auto simp: join_with_Cons)
qed simp

lemma split_on_no_sep: "w \<in> set (split_on sep s) \<Longrightarrow> sep \<notin> set w"
  by (induction s arbitrary: w) (auto split: if_splits list.splits)

lemma set_join_with: "set (join_with sep ws) \<subseteq> insert sep (\<Union> (set ` set ws))"
  by (induction sep ws rule: join_with.induct) auto

lemma ascii_join: "sep < 0x80 \<Longrightarrow> (\<And>w. w \<in> set ws \<Longrightarrow> ascii w) \<Longrightarrow> ascii (join_with sep ws)"
  by (induction sep ws rule: join_with.induct) auto

lemma length_join_with:
  "ws \<noteq> [] \<Longrightarrow> length (join_with sep ws) = sum_list (map length ws) + length ws - 1"
  by (induction sep ws rule: join_with.induct) auto

section \<open>Dictionaries as association lists\<close>

text \<open>A dict keeps insertion order and one value per key: an association list, read with
  \<open>map_of\<close>, whose keys are distinct.\<close>

type_synonym ('k, 'v) pydict = "('k \<times> 'v) list"

abbreviation dict_keys :: "('k, 'v) pydict \<Rightarrow> 'k list" where
  "dict_keys d \<equiv> map fst d"

lemma map_of_map_enum: "inj f \<Longrightarrow> x \<in> set xs \<Longrightarrow> map_of (map (\<lambda>m. (f m, m)) xs) (f x) = Some x"
  by (induction xs) (auto simp: inj_eq)

lemma map_of_map_enumD: "map_of (map (\<lambda>m. (f m, m)) xs) k = Some x \<Longrightarrow> f x = k"
  by (induction xs) (auto split: if_splits)

section \<open>Enumerations\<close>

text \<open>An \<open>enum.Enum\<close> class is a datatype; its members in declaration order, the order in which
  \<open>for member in Class\<close> visits them, are the list \<open>Enum.enum\<close> of the type class \<open>enum\<close>.\<close>

lemma enumerated:
  assumes "\<And>x. x \<in> set xs"
  shows "set xs = UNIV" "list_all P xs \<longleftrightarrow> (\<forall>x. P x)" "list_ex P xs \<longleftrightarrow> (\<exists>x. P x)"
  using assms by (auto simp: list_all_iff list_ex_iff)

end
