(* ===== verification/Lifecycle.thy ===== *)
theory Lifecycle
  imports Prelude
begin

text \<open>
  The contract the six state machines of \<open>packages/domain\<close> share. Every one of them is a
  deny-by-default table: \<open>_TRANSITIONS\<close> maps a (state, event) pair to its target,
  \<open>transition\<close> looks the pair up and raises on a miss, \<open>TERMINAL_STATES\<close> are the states no
  row leaves. The locales state what a client of such a machine relies on, prove the
  consequences for whole event sequences once, and are interpreted on the machine of
  each component in that component's theory.
\<close>

section \<open>Table-driven machines\<close>

type_synonym ('s, 'e) transitions = "(('s \<times> 'e) \<times> 's) list"

text \<open>\<open>frozenset(State) - {source for source, _ in _TRANSITIONS}\<close>\<close>

definition terminals_of :: "('s, 'e) transitions \<Rightarrow> 's list \<Rightarrow> 's list" where
  "terminals_of rows members = filter (\<lambda>s. s \<notin> set (map (fst \<circ> fst) rows)) members"

text \<open>Applying events one after the other; the first refusal ends the run.\<close>

fun run :: "('s \<Rightarrow> 'e \<Rightarrow> 'x + 's) \<Rightarrow> 's \<Rightarrow> 'e list \<Rightarrow> 'x + 's" where
  "run step s [] = Inr s"
| "run step s (e # es) = bindE (step s e) (\<lambda>s'. run step s' es)"

lemma run_append: "run step s (es @ fs) = bindE (run step s es) (\<lambda>t. run step t fs)"
  by (induction es arbitrary: s) (simp_all add: bindE_assoc)

lemma run_snoc [simp]: "run step s (es @ [e]) = bindE (run step s es) (\<lambda>t. step t e)"
  by (simp add: run_append bindE_def split: sum.splits)

lemma terminals_of_iff:
  "s \<in> set (terminals_of rows members) \<longleftrightarrow>
     s \<in> set members \<and> (\<forall>e. map_of rows (s, e) = None)"
  by (force simp: terminals_of_def map_of_eq_None_iff image_iff)

section \<open>The contract of a lifecycle\<close>

locale lifecycle =
  fixes step :: "'s \<Rightarrow> 'e \<Rightarrow> 'x + 's"
    and terminal :: "'s \<Rightarrow> bool"
  assumes terminal_iff: "terminal s \<longleftrightarrow> (\<forall>e. \<exists>x. step s e = Inl x)"
begin

lemma terminal_refuses: "terminal s \<Longrightarrow> \<exists>x. step s e = Inl x"
  by (simp add: terminal_iff)

lemma live_progresses: "\<not> terminal s \<Longrightarrow> \<exists>e t. step s e = Inr t"
  using terminal_iff by (metis sum.exhaust)

text \<open>An ending absorbs: no further event is ever accepted.\<close>

lemma run_terminal: "terminal s \<Longrightarrow> run step s es = Inr t \<Longrightarrow> es = [] \<and> t = s"
  by (cases es) (auto dest: terminal_refuses, metis Inl_Inr_False terminal_refuses)

lemma run_through_terminal:
  "run step s (es @ fs) = Inr t \<Longrightarrow> run step s es = Inr u \<Longrightarrow> terminal u \<Longrightarrow> fs = [] \<and> t = u"
  by (simp add: run_append run_terminal)

end

text \<open>A machine that makes progress: from the states of an invariant, some rank grows along
  every accepted event and never passes \<open>top\<close>.\<close>

locale ranked_lifecycle = lifecycle step terminal
  for step :: "'s \<Rightarrow> 'e \<Rightarrow> 'x + 's" and terminal :: "'s \<Rightarrow> bool" +
  fixes inv :: "'s \<Rightarrow> bool" and rank :: "'s \<Rightarrow> nat" and top :: nat
  assumes inv_step: "inv s \<Longrightarrow> step s e = Inr t \<Longrightarrow> inv t"
    and rank_grows: "inv s \<Longrightarrow> step s e = Inr t \<Longrightarrow> rank s < rank t"
    and rank_top: "inv s \<Longrightarrow> rank s \<le> top"
begin

lemma run_inv: "inv s \<Longrightarrow> run step s es = Inr t \<Longrightarrow> inv t"
  by (induction es arbitrary: s) (auto dest: inv_step)

lemma run_rank: "inv s \<Longrightarrow> run step s es = Inr t \<Longrightarrow> rank s + length es \<le> rank t"
proof (induction es arbitrary: s)
  case (Cons e es)
  then obtain s' where "step s e = Inr s'" "run step s' es = Inr t" by auto
  with Cons.prems Cons.IH [of s'] rank_grows [of s e s'] inv_step [of s e s'] show ?case by simp
qed simp

lemma run_bounded: "inv s \<Longrightarrow> run step s es = Inr t \<Longrightarrow> length es \<le> top - rank s"
  using run_rank [of s es t] rank_top [of t] run_inv [of s es t] by linarith

lemma run_never_returns: "inv s \<Longrightarrow> run step s es = Inr s \<Longrightarrow> es = []"
  using run_rank [of s es s] by simp

end

text \<open>A state that is entered only through named edges.\<close>

locale gated_state = lifecycle step terminal
  for step :: "'s \<Rightarrow> 'e \<Rightarrow> 'x + 's" and terminal :: "'s \<Rightarrow> bool" +
  fixes goal :: 's and gates :: "('s \<times> 'e) set"
  assumes gate: "step s e = Inr goal \<Longrightarrow> (s, e) \<in> gates"
begin

lemma run_through_gate:
  assumes "run step s es = Inr goal" "s \<noteq> goal"
  shows "\<exists>pre e u. es = pre @ [e] \<and> run step s pre = Inr u \<and> (u, e) \<in> gates"
proof (cases es rule: rev_cases)
  case Nil
  with assms show ?thesis by simp
next
  case (snoc pre e)
  with assms(1) obtain u where "run step s pre = Inr u" "step u e = Inr goal" by auto
  with snoc gate show ?thesis by blast
qed

end

end
