(* ===== verification/Mission.thy ===== *)
theory Mission
  imports Lifecycle
begin

text \<open>
  \<open>packages/domain/src/aerial_rescue_domain/mission.py\<close>: the mission lifecycle, one
  deny-by-default transition table over six states.
\<close>

datatype MissionState = PLANNED | SEARCHING | ESCALATED | COMPLETED | EXHAUSTED | ABORTED

datatype MissionEvent = START | ESCALATE | EXHAUST | COMPLETE | ABORT

datatype MissionError = TRANSITION MissionState MissionEvent

lemma MissionState_members:
  "s \<in> set [PLANNED, SEARCHING, ESCALATED, COMPLETED, EXHAUSTED, ABORTED]"
  by (cases s) simp_all

instantiation MissionState :: enum
begin

definition enum_MissionState :: "MissionState list" where
  "enum_MissionState = [PLANNED, SEARCHING, ESCALATED, COMPLETED, EXHAUSTED, ABORTED]"

definition enum_all_MissionState :: "(MissionState \<Rightarrow> bool) \<Rightarrow> bool" where
  "enum_all_MissionState P \<longleftrightarrow> list_all P Enum.enum"

definition enum_ex_MissionState :: "(MissionState \<Rightarrow> bool) \<Rightarrow> bool" where
  "enum_ex_MissionState P \<longleftrightarrow> list_ex P Enum.enum"

instance
  by standard (simp_all only: enum_MissionState_def enum_all_MissionState_def
    enum_ex_MissionState_def enumerated [OF MissionState_members], simp_all)

end

definition TRANSITIONS :: "(MissionState, MissionEvent) transitions" where
  "TRANSITIONS =
    [((PLANNED, START), SEARCHING),
     ((SEARCHING, ESCALATE), ESCALATED),
     ((SEARCHING, EXHAUST), EXHAUSTED),
     ((ESCALATED, COMPLETE), COMPLETED),
     ((PLANNED, ABORT), ABORTED),
     ((SEARCHING, ABORT), ABORTED),
     ((ESCALATED, ABORT), ABORTED)]"

definition INITIAL_STATE :: MissionState where
  "INITIAL_STATE = PLANNED"

definition TERMINAL_STATES :: "MissionState list" where
  "TERMINAL_STATES = terminals_of TRANSITIONS Enum.enum"

text \<open>The comprehension \<open>{target: event for (_source, event), target in ...}\<close>: on a repeated
  target the last row would win, which is \<open>map_of\<close> over the reversed rows.\<close>

definition EVENT_REACHING :: "MissionState \<rightharpoonup> MissionEvent" where
  "EVENT_REACHING = map_of (rev (map (\<lambda>((_, event), target). (target, event)) TRANSITIONS))"

definition transition :: "MissionState \<Rightarrow> MissionEvent \<Rightarrow> MissionError + MissionState" where
  "transition state event =
     (case map_of TRANSITIONS (state, event) of
        None \<Rightarrow> Inl (TRANSITION state event)
      | Some target \<Rightarrow> Inr target)"

definition event_reaching :: "MissionState \<Rightarrow> MissionEvent option" where
  "event_reaching state = EVENT_REACHING state"

definition is_terminal :: "MissionState \<Rightarrow> bool" where
  "is_terminal state \<longleftrightarrow> state \<in> set TERMINAL_STATES"

section \<open>The machine meets the lifecycle contract\<close>

lemmas mission_tables = TRANSITIONS_def TERMINAL_STATES_def INITIAL_STATE_def EVENT_REACHING_def

lemma mission_transition_iff:
  "transition s e = Inr t \<longleftrightarrow> ((s, e), t) \<in> set TRANSITIONS"
  by (cases s; cases e) (auto simp: transition_def TRANSITIONS_def)

lemma is_terminal_iff: "is_terminal s \<longleftrightarrow> s \<in> {COMPLETED, EXHAUSTED, ABORTED}"
  by (cases s) (auto simp: is_terminal_def mission_tables terminals_of_def enum_MissionState_def)

fun mission_rank :: "MissionState \<Rightarrow> nat" where
  "mission_rank PLANNED = 0"
| "mission_rank SEARCHING = 1"
| "mission_rank ESCALATED = 2"
| "mission_rank _ = 3"

interpretation mission: ranked_lifecycle transition is_terminal "\<lambda>_. True" mission_rank 3
proof
  show "is_terminal s \<longleftrightarrow> (\<forall>e. \<exists>x. transition s e = Inl x)" for s
    by (simp add: is_terminal_def TERMINAL_STATES_def terminals_of_iff UNIV_enum [symmetric]
        transition_def split: option.splits)
  show "transition s e = Inr t \<Longrightarrow> mission_rank s < mission_rank t" for s e t
    by (auto simp: mission_transition_iff TRANSITIONS_def)
  show "mission_rank s \<le> 3" for s by (cases s) simp_all
qed simp

interpretation completion: gated_state transition is_terminal COMPLETED "{(ESCALATED, COMPLETE)}"
  by unfold_locales (auto simp: mission_transition_iff TRANSITIONS_def)

interpretation escalation: gated_state transition is_terminal ESCALATED "{(SEARCHING, ESCALATE)}"
  by unfold_locales (auto simp: mission_transition_iff TRANSITIONS_def)

interpretation searching: gated_state transition is_terminal SEARCHING "{(PLANNED, START)}"
  by unfold_locales (auto simp: mission_transition_iff TRANSITIONS_def)

lemma run_to_planned: "run transition PLANNED es = Inr PLANNED \<Longrightarrow> es = []"
  by (rule mission.run_never_returns [OF TrueI])

lemma mission_completed_trace: "run transition PLANNED es = Inr COMPLETED \<Longrightarrow> es = [START, ESCALATE, COMPLETE]"
  using completion.run_through_gate [of PLANNED es] escalation.run_through_gate [of PLANNED]
    searching.run_through_gate [of PLANNED]
  by (fastforce dest!: run_to_planned)

section \<open>Properties\<close>

text \<open>A mission completes through exactly one history: it starts, is escalated, and is then
  completed. No other sequence of events is accepted and ends in \<open>COMPLETED\<close>.\<close>

theorem mission_completes_only_after_escalation:
  "run transition INITIAL_STATE es = Inr COMPLETED \<longleftrightarrow> es = [START, ESCALATE, COMPLETE]"
  by (auto simp: INITIAL_STATE_def dest: mission_completed_trace)
    (simp add: transition_def TRANSITIONS_def)

end
