(* ===== verification/Sectors.thy ===== *)
theory Sectors
  imports Lifecycle
begin

text \<open>
  \<open>packages/domain/src/aerial_rescue_domain/sectors.py\<close>: the sector lifecycle. Unlike the
  mission machine it is cyclic: a sector may be imperilled and reassigned any number of times.
\<close>

datatype SectorState = UNASSIGNED | ASSIGNED | AT_RISK | SEARCHED

datatype SectorEvent = ASSIGN | IMPERIL | REASSIGN | RECOVER | SWEEP

datatype SectorError = TRANSITION SectorState SectorEvent

lemma SectorState_members:
  "s \<in> set [UNASSIGNED, ASSIGNED, AT_RISK, SEARCHED]"
  by (cases s) simp_all

instantiation SectorState :: enum
begin

definition enum_SectorState :: "SectorState list" where
  "enum_SectorState = [UNASSIGNED, ASSIGNED, AT_RISK, SEARCHED]"

definition enum_all_SectorState :: "(SectorState \<Rightarrow> bool) \<Rightarrow> bool" where
  "enum_all_SectorState P \<longleftrightarrow> list_all P Enum.enum"

definition enum_ex_SectorState :: "(SectorState \<Rightarrow> bool) \<Rightarrow> bool" where
  "enum_ex_SectorState P \<longleftrightarrow> list_ex P Enum.enum"

instance
  by standard (simp_all only: enum_SectorState_def enum_all_SectorState_def
    enum_ex_SectorState_def enumerated [OF SectorState_members], simp_all)

end

definition TRANSITIONS :: "(SectorState, SectorEvent) transitions" where
  "TRANSITIONS =
    [((UNASSIGNED, ASSIGN), ASSIGNED),
     ((ASSIGNED, IMPERIL), AT_RISK),
     ((AT_RISK, REASSIGN), ASSIGNED),
     ((AT_RISK, RECOVER), ASSIGNED),
     ((ASSIGNED, SWEEP), SEARCHED)]"

definition INITIAL_STATE :: SectorState where
  "INITIAL_STATE = UNASSIGNED"

definition TERMINAL_STATES :: "SectorState list" where
  "TERMINAL_STATES = terminals_of TRANSITIONS Enum.enum"

definition transition :: "SectorState \<Rightarrow> SectorEvent \<Rightarrow> SectorError + SectorState" where
  "transition state event =
     (case map_of TRANSITIONS (state, event) of
        None \<Rightarrow> Inl (TRANSITION state event)
      | Some target \<Rightarrow> Inr target)"

definition is_terminal :: "SectorState \<Rightarrow> bool" where
  "is_terminal state \<longleftrightarrow> state \<in> set TERMINAL_STATES"

section \<open>The machine meets the lifecycle contract\<close>

lemma sector_transition_iff:
  "transition s e = Inr t \<longleftrightarrow> ((s, e), t) \<in> set TRANSITIONS"
  by (cases s; cases e) (auto simp: transition_def TRANSITIONS_def)

lemma sector_terminal_refuses_all: "is_terminal s \<longleftrightarrow> (\<forall>e. \<exists>x. transition s e = Inl x)"
  by (simp add: is_terminal_def TERMINAL_STATES_def terminals_of_iff UNIV_enum [symmetric]
      transition_def split: option.splits)

interpretation swept: gated_state transition is_terminal SEARCHED "{(ASSIGNED, SWEEP)}"
  by unfold_locales (auto simp: sector_terminal_refuses_all sector_transition_iff TRANSITIONS_def)

text \<open>Every imperilment is open exactly while the sector is at risk.\<close>

definition open_perils :: "SectorEvent list \<Rightarrow> int" where
  "open_perils es = int (count_list es IMPERIL)
     - int (count_list es REASSIGN) - int (count_list es RECOVER)"

lemma run_open_perils:
  "run transition UNASSIGNED es = Inr t \<Longrightarrow> open_perils es = (if t = AT_RISK then 1 else 0)"
proof (induction es arbitrary: t rule: rev_induct)
  case Nil
  then show ?case by (auto simp: open_perils_def)
next
  case (snoc e es)
  then obtain u where "run transition UNASSIGNED es = Inr u" "transition u e = Inr t" by auto
  with snoc.IH [of u] show ?case
    by (auto simp: open_perils_def sector_transition_iff TRANSITIONS_def)
qed

section \<open>Properties\<close>

text \<open>A sector is searched only by sweeping it while it is assigned: the run that reaches
  \<open>SEARCHED\<close> ends in \<open>SWEEP\<close>, the events before it leave the sector assigned, and by then every
  imperilment has been answered by one reassignment or one recovery.\<close>

theorem sector_swept_only_when_assigned:
  assumes "run transition INITIAL_STATE es = Inr SEARCHED"
  shows "\<exists>pre. es = pre @ [SWEEP] \<and> run transition INITIAL_STATE pre = Inr ASSIGNED
    \<and> count_list pre IMPERIL = count_list pre REASSIGN + count_list pre RECOVER"
proof -
  from assms swept.run_through_gate [of UNASSIGNED es] obtain pre where
    "es = pre @ [SWEEP]" "run transition UNASSIGNED pre = Inr ASSIGNED"
    by (auto simp: INITIAL_STATE_def)
  moreover from this(2) have "open_perils pre = 0" by (auto dest: run_open_perils)
  ultimately show ?thesis by (auto simp: INITIAL_STATE_def open_perils_def)
qed

theorem sector_swept_only_when_assigned_witness:
  "\<exists>pre. [ASSIGN, IMPERIL, REASSIGN, SWEEP] = pre @ [SWEEP]
    \<and> run transition INITIAL_STATE pre = Inr ASSIGNED
    \<and> count_list pre IMPERIL = count_list pre REASSIGN + count_list pre RECOVER"
  by (rule sector_swept_only_when_assigned)
    (simp add: INITIAL_STATE_def transition_def TRANSITIONS_def)

end
