(* ===== verification/Evidence.thy ===== *)
theory Evidence
  imports Lifecycle
begin

text \<open>
  \<open>packages/domain/src/aerial_rescue_domain/evidence.py\<close>: the evidence lifecycle, one
  deny-by-default table over seven states in which abstention is a state of its own.
\<close>

datatype EvidenceState = REQUESTED | OBSERVED | VALIDATED | MANUAL_REVIEW | CONTRIBUTING | ABSTAINED | REJECTED

datatype EvidenceEvent = OBSERVE | ABSTAIN | VALIDATE | REJECT | REFER | ADMIT | DISMISS

datatype EvidenceError = TRANSITION EvidenceState EvidenceEvent

lemma EvidenceState_members:
  "s \<in> set [REQUESTED, OBSERVED, VALIDATED, MANUAL_REVIEW, CONTRIBUTING, ABSTAINED, REJECTED]"
  by (cases s) simp_all

instantiation EvidenceState :: enum
begin

definition enum_EvidenceState :: "EvidenceState list" where
  "enum_EvidenceState = [REQUESTED, OBSERVED, VALIDATED, MANUAL_REVIEW, CONTRIBUTING, ABSTAINED, REJECTED]"

definition enum_all_EvidenceState :: "(EvidenceState \<Rightarrow> bool) \<Rightarrow> bool" where
  "enum_all_EvidenceState P \<longleftrightarrow> list_all P Enum.enum"

definition enum_ex_EvidenceState :: "(EvidenceState \<Rightarrow> bool) \<Rightarrow> bool" where
  "enum_ex_EvidenceState P \<longleftrightarrow> list_ex P Enum.enum"

instance
  by standard (simp_all only: enum_EvidenceState_def enum_all_EvidenceState_def
    enum_ex_EvidenceState_def enumerated [OF EvidenceState_members], simp_all)

end

definition TRANSITIONS :: "(EvidenceState, EvidenceEvent) transitions" where
  "TRANSITIONS =
    [((REQUESTED, OBSERVE), OBSERVED),
     ((REQUESTED, ABSTAIN), ABSTAINED),
     ((OBSERVED, VALIDATE), VALIDATED),
     ((OBSERVED, REJECT), REJECTED),
     ((VALIDATED, ADMIT), CONTRIBUTING),
     ((VALIDATED, REFER), MANUAL_REVIEW),
     ((MANUAL_REVIEW, ADMIT), CONTRIBUTING),
     ((MANUAL_REVIEW, DISMISS), REJECTED)]"

definition INITIAL_STATE :: EvidenceState where
  "INITIAL_STATE = REQUESTED"

definition TERMINAL_STATES :: "EvidenceState list" where
  "TERMINAL_STATES = terminals_of TRANSITIONS Enum.enum"

definition transition :: "EvidenceState \<Rightarrow> EvidenceEvent \<Rightarrow> EvidenceError + EvidenceState" where
  "transition state event =
     (case map_of TRANSITIONS (state, event) of
        None \<Rightarrow> Inl (TRANSITION state event)
      | Some target \<Rightarrow> Inr target)"

definition is_terminal :: "EvidenceState \<Rightarrow> bool" where
  "is_terminal state \<longleftrightarrow> state \<in> set TERMINAL_STATES"

section \<open>The machine meets the lifecycle contract\<close>

lemma evidence_transition_iff:
  "transition s e = Inr t \<longleftrightarrow> ((s, e), t) \<in> set TRANSITIONS"
  by (cases s; cases e) (auto simp: transition_def TRANSITIONS_def)

lemma evidence_terminal_refuses_all: "is_terminal s \<longleftrightarrow> (\<forall>e. \<exists>x. transition s e = Inl x)"
  by (simp add: is_terminal_def TERMINAL_STATES_def terminals_of_iff UNIV_enum [symmetric]
      transition_def split: option.splits)

fun evidence_rank :: "EvidenceState \<Rightarrow> nat" where
  "evidence_rank REQUESTED = 0"
| "evidence_rank OBSERVED = 1"
| "evidence_rank VALIDATED = 2"
| "evidence_rank MANUAL_REVIEW = 3"
| "evidence_rank _ = 4"

interpretation evidence: ranked_lifecycle transition is_terminal "\<lambda>_. True" evidence_rank 4
proof
  show "is_terminal s \<longleftrightarrow> (\<forall>e. \<exists>x. transition s e = Inl x)" for s
    by (rule evidence_terminal_refuses_all)
  show "transition s e = Inr t \<Longrightarrow> evidence_rank s < evidence_rank t" for s e t
    by (auto simp: evidence_transition_iff TRANSITIONS_def)
  show "evidence_rank s \<le> 4" for s by (cases s) simp_all
qed simp

interpretation contributing: gated_state transition is_terminal CONTRIBUTING
    "{(VALIDATED, ADMIT), (MANUAL_REVIEW, ADMIT)}"
  by unfold_locales (auto simp: evidence_transition_iff TRANSITIONS_def)

interpretation reviewing: gated_state transition is_terminal MANUAL_REVIEW "{(VALIDATED, REFER)}"
  by unfold_locales (auto simp: evidence_transition_iff TRANSITIONS_def)

interpretation validated: gated_state transition is_terminal VALIDATED "{(OBSERVED, VALIDATE)}"
  by unfold_locales (auto simp: evidence_transition_iff TRANSITIONS_def)

interpretation observed: gated_state transition is_terminal OBSERVED "{(REQUESTED, OBSERVE)}"
  by unfold_locales (auto simp: evidence_transition_iff TRANSITIONS_def)

lemma run_to_requested: "run transition REQUESTED es = Inr REQUESTED \<Longrightarrow> es = []"
  by (rule evidence.run_never_returns [OF TrueI])

lemma run_to_validated: "run transition REQUESTED es = Inr VALIDATED \<Longrightarrow> es = [OBSERVE, VALIDATE]"
  using validated.run_through_gate [of REQUESTED es] observed.run_through_gate [of REQUESTED]
  by (fastforce dest!: run_to_requested)

lemma run_to_contributing:
  "run transition REQUESTED es = Inr CONTRIBUTING \<Longrightarrow>
     es = [OBSERVE, VALIDATE, ADMIT] \<or> es = [OBSERVE, VALIDATE, REFER, ADMIT]"
  using contributing.run_through_gate [of REQUESTED es] reviewing.run_through_gate [of REQUESTED]
  by (fastforce dest!: run_to_validated)

section \<open>Properties\<close>

text \<open>An evidence item contributes through exactly two histories, and both observe and
  validate it first: it is admitted directly, or referred to manual review and then admitted.\<close>

theorem evidence_contributes_only_validated:
  "run transition INITIAL_STATE es = Inr CONTRIBUTING \<longleftrightarrow>
     es \<in> {[OBSERVE, VALIDATE, ADMIT], [OBSERVE, VALIDATE, REFER, ADMIT]}"
  by (auto simp: INITIAL_STATE_def dest: run_to_contributing)
    (simp_all add: transition_def TRANSITIONS_def)

end
