(* ===== verification/Outbox.thy ===== *)
theory Outbox
  imports Lifecycle
begin

text \<open>
  \<open>packages/domain/src/aerial_rescue_domain/outbox.py\<close>: the outbox publication lifecycle.
\<close>

datatype OutboxState = STAGED | RECONCILIATION_NEEDED | CONFIRMED

datatype OutboxEvent = CONFIRM | AMBIGUOUS

datatype OutboxError = TRANSITION OutboxState OutboxEvent

lemma OutboxState_members:
  "s \<in> set [STAGED, RECONCILIATION_NEEDED, CONFIRMED]"
  by (cases s) simp_all

instantiation OutboxState :: enum
begin

definition enum_OutboxState :: "OutboxState list" where
  "enum_OutboxState = [STAGED, RECONCILIATION_NEEDED, CONFIRMED]"

definition enum_all_OutboxState :: "(OutboxState \<Rightarrow> bool) \<Rightarrow> bool" where
  "enum_all_OutboxState P \<longleftrightarrow> list_all P Enum.enum"

definition enum_ex_OutboxState :: "(OutboxState \<Rightarrow> bool) \<Rightarrow> bool" where
  "enum_ex_OutboxState P \<longleftrightarrow> list_ex P Enum.enum"

instance
  by standard (simp_all only: enum_OutboxState_def enum_all_OutboxState_def
    enum_ex_OutboxState_def enumerated [OF OutboxState_members], simp_all)

end

definition TRANSITIONS :: "(OutboxState, OutboxEvent) transitions" where
  "TRANSITIONS =
    [((STAGED, CONFIRM), CONFIRMED),
     ((STAGED, AMBIGUOUS), RECONCILIATION_NEEDED),
     ((RECONCILIATION_NEEDED, CONFIRM), CONFIRMED),
     ((RECONCILIATION_NEEDED, AMBIGUOUS), RECONCILIATION_NEEDED)]"

definition INITIAL_STATE :: OutboxState where
  "INITIAL_STATE = STAGED"

definition TERMINAL_STATES :: "OutboxState list" where
  "TERMINAL_STATES = terminals_of TRANSITIONS Enum.enum"

definition transition :: "OutboxState \<Rightarrow> OutboxEvent \<Rightarrow> OutboxError + OutboxState" where
  "transition state event =
     (case map_of TRANSITIONS (state, event) of
        None \<Rightarrow> Inl (TRANSITION state event)
      | Some target \<Rightarrow> Inr target)"

definition is_terminal :: "OutboxState \<Rightarrow> bool" where
  "is_terminal state \<longleftrightarrow> state \<in> set TERMINAL_STATES"

section \<open>The machine meets the lifecycle contract\<close>

lemma outbox_transition_iff:
  "transition s e = Inr t \<longleftrightarrow> ((s, e), t) \<in> set TRANSITIONS"
  by (cases s; cases e) (auto simp: transition_def TRANSITIONS_def)

lemma outbox_terminal_refuses_all: "is_terminal s \<longleftrightarrow> (\<forall>e. \<exists>x. transition s e = Inl x)"
  by (simp add: is_terminal_def TERMINAL_STATES_def terminals_of_iff UNIV_enum [symmetric]
      transition_def split: option.splits)

interpretation confirmed: gated_state transition is_terminal CONFIRMED
    "{(STAGED, CONFIRM), (RECONCILIATION_NEEDED, CONFIRM)}"
  by unfold_locales (auto simp: outbox_terminal_refuses_all outbox_transition_iff TRANSITIONS_def)

lemma run_unconfirmed:
  "run transition STAGED es = Inr s \<Longrightarrow> s \<noteq> CONFIRMED \<Longrightarrow> es = replicate (length es) AMBIGUOUS"
proof (induction es arbitrary: s rule: rev_induct)
  case (snoc e es)
  then obtain u where "run transition STAGED es = Inr u" "transition u e = Inr s" by auto
  with snoc show ?case
    by (auto simp: outbox_transition_iff TRANSITIONS_def replicate_append_same [symmetric])
qed simp

lemma run_ambiguous:
  "run transition STAGED (replicate n AMBIGUOUS) =
     Inr (if n = 0 then STAGED else RECONCILIATION_NEEDED)"
  by (induction n) (auto simp: replicate_append_same [symmetric] outbox_transition_iff TRANSITIONS_def)

section \<open>Properties\<close>

text \<open>A staged record becomes confirmed by a broker confirmation and by nothing else: the
  accepted runs that end confirmed are any number of ambiguous outcomes followed by one
  confirmation, and no further outcome is accepted after it.\<close>

theorem outbox_confirmed_only_by_confirmation:
  "run transition INITIAL_STATE es = Inr CONFIRMED \<longleftrightarrow> (\<exists>n. es = replicate n AMBIGUOUS @ [CONFIRM])"
proof
  assume "run transition INITIAL_STATE es = Inr CONFIRMED"
  with confirmed.run_through_gate [of STAGED es] obtain pre u where
    "es = pre @ [CONFIRM]" "run transition STAGED pre = Inr u" "u \<noteq> CONFIRMED"
    by (auto simp: INITIAL_STATE_def)
  then show "\<exists>n. es = replicate n AMBIGUOUS @ [CONFIRM]" by (auto dest: run_unconfirmed)
next
  assume "\<exists>n. es = replicate n AMBIGUOUS @ [CONFIRM]"
  then show "run transition INITIAL_STATE es = Inr CONFIRMED"
    by (auto simp: INITIAL_STATE_def run_ambiguous transition_def TRANSITIONS_def)
qed

end
