(* ===== verification/Commands.thy ===== *)
theory Commands
  imports Lifecycle
begin

text \<open>
  \<open>packages/domain/src/aerial_rescue_domain/commands.py\<close>: the command dispatch lifecycle, one
  table over six states plus one counted bound on sends.
\<close>

datatype CommandState = ACCEPTED | IN_FLIGHT | ACKNOWLEDGED | SUCCEEDED | FAILED | ABANDONED

datatype CommandEvent = SEND | TIME_OUT | ACKNOWLEDGE | SUCCEED | FAIL

datatype CommandError = TRANSITION CommandState CommandEvent | SEND_BUDGET int

lemma CommandState_members:
  "s \<in> set [ACCEPTED, IN_FLIGHT, ACKNOWLEDGED, SUCCEEDED, FAILED, ABANDONED]"
  by (cases s) simp_all

instantiation CommandState :: enum
begin

definition enum_CommandState :: "CommandState list" where
  "enum_CommandState = [ACCEPTED, IN_FLIGHT, ACKNOWLEDGED, SUCCEEDED, FAILED, ABANDONED]"

definition enum_all_CommandState :: "(CommandState \<Rightarrow> bool) \<Rightarrow> bool" where
  "enum_all_CommandState P \<longleftrightarrow> list_all P Enum.enum"

definition enum_ex_CommandState :: "(CommandState \<Rightarrow> bool) \<Rightarrow> bool" where
  "enum_ex_CommandState P \<longleftrightarrow> list_ex P Enum.enum"

instance
  by standard (simp_all only: enum_CommandState_def enum_all_CommandState_def
    enum_ex_CommandState_def enumerated [OF CommandState_members], simp_all)

end

definition MINIMUM_SENDS :: int where
  "MINIMUM_SENDS = 1"

record SendBudget =
  max_sends :: int

text \<open>The dataclass constructor, whose \<open>__post_init__\<close> refuses a budget below one send.\<close>

definition make_send_budget :: "int \<Rightarrow> CommandError + SendBudget" where
  "make_send_budget n =
     (if n < MINIMUM_SENDS then Inl (SEND_BUDGET n) else Inr \<lparr>max_sends = n\<rparr>)"

record CommandProgress =
  progress_state :: CommandState
  sends :: int

definition TRANSITIONS :: "(CommandState, CommandEvent) transitions" where
  "TRANSITIONS =
    [((ACCEPTED, SEND), IN_FLIGHT),
     ((IN_FLIGHT, TIME_OUT), ACCEPTED),
     ((IN_FLIGHT, ACKNOWLEDGE), ACKNOWLEDGED),
     ((ACKNOWLEDGED, SUCCEED), SUCCEEDED),
     ((ACKNOWLEDGED, FAIL), FAILED)]"

definition INITIAL_PROGRESS :: CommandProgress where
  "INITIAL_PROGRESS = \<lparr>progress_state = ACCEPTED, sends = 0\<rparr>"

definition TERMINAL_STATES :: "CommandState list" where
  "TERMINAL_STATES = terminals_of TRANSITIONS Enum.enum"

definition advance ::
  "CommandProgress \<Rightarrow> CommandEvent \<Rightarrow> SendBudget \<Rightarrow> CommandError + CommandProgress" where
  "advance progress event budget =
     (case map_of TRANSITIONS (progress_state progress, event) of
        None \<Rightarrow> Inl (TRANSITION (progress_state progress) event)
      | Some target \<Rightarrow>
          if event = SEND then Inr \<lparr>progress_state = target, sends = sends progress + 1\<rparr>
          else if event = TIME_OUT \<and> sends progress \<ge> max_sends budget
          then Inr \<lparr>progress_state = ABANDONED, sends = sends progress\<rparr>
          else Inr \<lparr>progress_state = target, sends = sends progress\<rparr>)"

definition is_terminal :: "CommandState \<Rightarrow> bool" where
  "is_terminal state \<longleftrightarrow> state \<in> set TERMINAL_STATES"

section \<open>The dispatch under one budget\<close>

text \<open>What a dispatched command satisfies at every point of its life: it has been sent at most
  as often as the budget allows, is waiting to be sent again only below the budget, and has
  been abandoned only at the budget.\<close>

fun dispatch_inv :: "SendBudget \<Rightarrow> CommandProgress \<Rightarrow> bool" where
  "dispatch_inv b p \<longleftrightarrow> 0 \<le> sends p \<and> sends p \<le> max_sends b
     \<and> (progress_state p = ACCEPTED \<longrightarrow> sends p < max_sends b)
     \<and> (progress_state p \<noteq> ACCEPTED \<longrightarrow> 1 \<le> sends p)
     \<and> (progress_state p = ABANDONED \<longrightarrow> sends p = max_sends b)"

fun dispatch_rank :: "SendBudget \<Rightarrow> CommandProgress \<Rightarrow> nat" where
  "dispatch_rank b p = (case progress_state p of
       ACCEPTED \<Rightarrow> nat (2 * sends p)
     | IN_FLIGHT \<Rightarrow> nat (2 * sends p - 1)
     | ACKNOWLEDGED \<Rightarrow> nat (2 * max_sends b)
     | _ \<Rightarrow> nat (2 * max_sends b + 1))"

lemma advance_terminal:
  "is_terminal (progress_state p) \<longleftrightarrow> (\<forall>e. \<exists>x. advance p e b = Inl x)"
proof -
  have "(\<exists>x. advance p e b = Inl x) \<longleftrightarrow> map_of TRANSITIONS (progress_state p, e) = None" for e
    by (auto simp: advance_def split: option.splits)
  then show ?thesis
    by (simp add: is_terminal_def TERMINAL_STATES_def terminals_of_iff UNIV_enum [symmetric])
qed

lemmas advance_rules = advance_def TRANSITIONS_def

lemma advance_inv: "dispatch_inv b p \<Longrightarrow> advance p e b = Inr q \<Longrightarrow> dispatch_inv b q"
  by (cases "progress_state p"; cases e) (auto simp: advance_rules split: if_splits)

lemma advance_rank: "dispatch_inv b p \<Longrightarrow> advance p e b = Inr q \<Longrightarrow> dispatch_rank b p < dispatch_rank b q"
  by (cases "progress_state p"; cases e) (auto simp: advance_rules split: if_splits)

interpretation dispatch: ranked_lifecycle "\<lambda>p e. advance p e b" "\<lambda>p. is_terminal (progress_state p)"
    "dispatch_inv b" "dispatch_rank b" "nat (2 * max_sends b + 1)" for b
proof
  show "is_terminal (progress_state p) \<longleftrightarrow> (\<forall>e. \<exists>x. advance p e b = Inl x)" for p
    by (rule advance_terminal)
  show "dispatch_inv b p \<Longrightarrow> dispatch_rank b p \<le> nat (2 * max_sends b + 1)" for p
    by (cases "progress_state p") auto
qed (rule advance_inv advance_rank; assumption)+

lemma initial_dispatch_inv: "make_send_budget n = Inr b \<Longrightarrow> dispatch_inv b INITIAL_PROGRESS"
  by (auto simp: make_send_budget_def MINIMUM_SENDS_def INITIAL_PROGRESS_def split: if_splits)

lemma timeouts_below_budget:
  "int k < max_sends b \<Longrightarrow>
     run (\<lambda>p e. advance p e b) INITIAL_PROGRESS (concat (replicate k [SEND, TIME_OUT])) =
       Inr \<lparr>progress_state = ACCEPTED, sends = int k\<rparr>"
proof (induction k)
  case 0
  show ?case by (simp add: INITIAL_PROGRESS_def)
next
  case (Suc k)
  have "concat (replicate (Suc k) [SEND, TIME_OUT])
      = concat (replicate k [SEND, TIME_OUT]) @ [SEND, TIME_OUT]"
    by (simp flip: replicate_append_same)
  with Suc show ?case by (simp add: run_append advance_rules del: replicate_Suc)
qed

section \<open>Properties\<close>

text \<open>C25. Whatever events a command receives under a valid budget, it is put on the wire at most
  \<open>max_sends\<close> times, it is abandoned only after exactly \<open>max_sends\<close> sends, and its whole
  history has at most \<open>2 * max_sends + 1\<close> accepted events.\<close>

theorem command_sends_bounded:
  assumes "make_send_budget n = Inr b"
    and "run (\<lambda>p e. advance p e b) INITIAL_PROGRESS es = Inr p"
  shows "0 \<le> sends p \<and> sends p \<le> n \<and> (progress_state p = ABANDONED \<longrightarrow> sends p = n)
    \<and> int (length es) \<le> 2 * n + 1"
proof -
  from assms(1) have b: "max_sends b = n" "1 \<le> n"
    by (auto simp: make_send_budget_def MINIMUM_SENDS_def split: if_splits)
  from dispatch.run_inv [OF initial_dispatch_inv [OF assms(1)] assms(2)] have "dispatch_inv b p" .
  moreover from dispatch.run_bounded [OF initial_dispatch_inv [OF assms(1)] assms(2)]
  have "length es \<le> nat (2 * max_sends b + 1)" by simp
  ultimately show ?thesis using b by auto
qed

theorem command_sends_bounded_witness:
  "sends \<lparr>progress_state = ABANDONED, sends = 1\<rparr> = 1 \<and> int (length [SEND, TIME_OUT]) \<le> 2 * 1 + 1"
  using command_sends_bounded [of 1 "\<lparr>max_sends = 1\<rparr>" "[SEND, TIME_OUT]"
      "\<lparr>progress_state = ABANDONED, sends = 1\<rparr>"]
  by (simp add: make_send_budget_def MINIMUM_SENDS_def INITIAL_PROGRESS_def advance_rules)

text \<open>C26. A command that is never acknowledged is abandoned: under a budget of \<open>n\<close> sends, \<open>n\<close> send
  and time-out rounds are all accepted, end in \<open>ABANDONED\<close> with \<open>n\<close> sends, and leave a state in
  which every further event is refused.\<close>

theorem command_silence_abandons:
  assumes "make_send_budget n = Inr b"
  shows "run (\<lambda>p e. advance p e b) INITIAL_PROGRESS (concat (replicate (nat n) [SEND, TIME_OUT]))
      = Inr \<lparr>progress_state = ABANDONED, sends = n\<rparr>
    \<and> advance \<lparr>progress_state = ABANDONED, sends = n\<rparr> e b = Inl (TRANSITION ABANDONED e)"
proof -
  from assms have b: "max_sends b = n" "1 \<le> n"
    by (auto simp: make_send_budget_def MINIMUM_SENDS_def split: if_splits)
  define k where "k = nat (n - 1)"
  with b(2) have k: "nat n = Suc k" "int k < n" "n = int k + 1" by auto
  have "concat (replicate (nat n) [SEND, TIME_OUT])
      = concat (replicate k [SEND, TIME_OUT]) @ [SEND, TIME_OUT]"
    by (simp add: k(1) flip: replicate_append_same)
  with timeouts_below_budget [of k b] b k show ?thesis
    by (simp add: run_append advance_rules)
qed

theorem command_silence_abandons_witness:
  "run (\<lambda>p e. advance p e \<lparr>max_sends = 5\<rparr>) INITIAL_PROGRESS
      (concat (replicate (nat 5) [SEND, TIME_OUT])) = Inr \<lparr>progress_state = ABANDONED, sends = 5\<rparr>"
  using command_silence_abandons [of 5 "\<lparr>max_sends = 5\<rparr>"]
  by (simp add: make_send_budget_def MINIMUM_SENDS_def)

end
