(* ===== verification/Connectivity.thy ===== *)
theory Connectivity
  imports Prelude "HOL-Library.Sublist"
begin

text \<open>
  \<open>packages/domain/src/aerial_rescue_domain/connectivity.py\<close>: the drone connectivity machine,
  counted in consecutive heartbeat intervals. The properties relate the streak-counting
  machine to a specification that reads a drone's whole history of intervals.
\<close>

datatype ConnectivityState = CONNECTED | DEGRADED | OFFLINE

datatype ConnectivityError = MISS_THRESHOLDS int int | RECOVERY_COUNT int

definition MINIMUM_COUNT :: int where
  "MINIMUM_COUNT = 1"

record ConnectivityThresholds =
  misses_to_degraded :: int
  misses_to_offline :: int
  heartbeats_to_recover :: int

record ConnectivityStatus =
  link_state :: ConnectivityState
  consecutive_misses :: int
  consecutive_heartbeats :: int

definition INITIAL_STATUS :: ConnectivityStatus where
  "INITIAL_STATUS = \<lparr>link_state = CONNECTED, consecutive_misses = 0, consecutive_heartbeats = 0\<rparr>"

definition check_thresholds :: "ConnectivityThresholds \<Rightarrow> ConnectivityError + unit" where
  "check_thresholds t =
     (if \<not> (MINIMUM_COUNT \<le> misses_to_degraded t \<and> misses_to_degraded t < misses_to_offline t)
      then Inl (MISS_THRESHOLDS (misses_to_degraded t) (misses_to_offline t))
      else if heartbeats_to_recover t < MINIMUM_COUNT
      then Inl (RECOVERY_COUNT (heartbeats_to_recover t))
      else Inr ())"

text \<open>The dataclass constructor, whose \<open>__post_init__\<close> runs the check.\<close>

definition make_thresholds :: "int \<Rightarrow> int \<Rightarrow> int \<Rightarrow> ConnectivityError + ConnectivityThresholds" where
  "make_thresholds d m r =
     (let t = \<lparr>misses_to_degraded = d, misses_to_offline = m, heartbeats_to_recover = r\<rparr>
      in bindE (check_thresholds t) (\<lambda>_. Inr t))"

definition heartbeat_missed :: "ConnectivityStatus \<Rightarrow> ConnectivityThresholds \<Rightarrow> ConnectivityStatus" where
  "heartbeat_missed status thresholds =
     (let misses = consecutive_misses status + 1;
          state = (if link_state status = OFFLINE \<or> misses \<ge> misses_to_offline thresholds
                   then OFFLINE
                   else if link_state status = DEGRADED \<or> misses \<ge> misses_to_degraded thresholds
                   then DEGRADED
                   else CONNECTED)
      in \<lparr>link_state = state, consecutive_misses = misses, consecutive_heartbeats = 0\<rparr>)"

definition heartbeat_received :: "ConnectivityStatus \<Rightarrow> ConnectivityThresholds \<Rightarrow> ConnectivityStatus" where
  "heartbeat_received status thresholds =
     (let heartbeats = consecutive_heartbeats status + 1;
          recovered = (heartbeats \<ge> heartbeats_to_recover thresholds);
          state = (if recovered then CONNECTED else link_state status)
      in \<lparr>link_state = state, consecutive_misses = 0, consecutive_heartbeats = heartbeats\<rparr>)"

section \<open>A history of intervals\<close>

text \<open>The adapter decides once per interval whether a heartbeat was observed and applies
  exactly one transition; a history is the list of those decisions, oldest first.\<close>

definition observe :: "ConnectivityThresholds \<Rightarrow> bool \<Rightarrow> ConnectivityStatus \<Rightarrow> ConnectivityStatus" where
  "observe t heard s = (if heard then heartbeat_received s t else heartbeat_missed s t)"

definition status_after :: "ConnectivityThresholds \<Rightarrow> bool list \<Rightarrow> ConnectivityStatus" where
  "status_after t history = fold (observe t) history INITIAL_STATUS"

text \<open>The specification: at some point the drone missed \<open>k\<close> intervals in a row, and since then it
  has not been heard \<open>r\<close> intervals in a row.\<close>

definition lost :: "nat \<Rightarrow> nat \<Rightarrow> bool list \<Rightarrow> bool" where
  "lost k r history \<longleftrightarrow>
     (\<exists>pre post. history = pre @ replicate k False @ post \<and> \<not> sublist (replicate r True) post)"

definition trailing :: "bool \<Rightarrow> bool list \<Rightarrow> nat" where
  "trailing b history = length (takeWhile (\<lambda>x. x = b) (rev history))"

lemma trailing_snoc [simp]:
  "trailing b [] = 0" "trailing b (h @ [x]) = (if x = b then Suc (trailing b h) else 0)"
  by (simp_all add: trailing_def)

lemma trailing_ge_iff: "k \<le> trailing b h \<longleftrightarrow> suffix (replicate k b) h"
proof (induction k arbitrary: h)
  case (Suc k)
  show ?case
  proof (cases h rule: rev_cases)
    case (snoc xs x)
    with Suc show ?thesis by (simp flip: replicate_append_same)
  qed simp
qed simp

lemma sublist_replicate_snoc:
  "sublist (replicate r b) (xs @ [x]) \<longleftrightarrow>
     r \<le> trailing b (xs @ [x]) \<or> sublist (replicate r b) xs"
  by (simp only: trailing_ge_iff sublist_snoc)

lemma trailing_after_other:
  assumes "0 < k" "b \<noteq> c"
  shows "trailing b (pre @ replicate k c @ ys) = trailing b ys"
proof (induction ys rule: rev_induct)
  case Nil
  from assms(1) obtain j where "replicate k c = replicate j c @ [c]"
    by (cases k) (auto simp: replicate_append_same)
  with assms(2) show ?case by (simp flip: append_assoc)
next
  case (snoc y ys)
  then show ?case by (simp flip: append_assoc)
qed

lemma lost_missed:
  assumes "0 < k" "0 < r"
  shows "lost k r (h @ [False]) \<longleftrightarrow> lost k r h \<or> k \<le> trailing False (h @ [False])" (is "?l \<longleftrightarrow> ?r")
proof
  assume ?l
  then obtain pre post where p: "h @ [False] = pre @ replicate k False @ post"
    "\<not> sublist (replicate r True) post" by (auto simp: lost_def)
  show ?r
  proof (cases post rule: rev_cases)
    case Nil
    with p(1) have "k \<le> trailing False (h @ [False])"
      by (simp only: trailing_ge_iff suffix_def append_Nil2) blast
    then show ?thesis ..
  next
    case (snoc post' x)
    with p have "lost k r h" unfolding lost_def
      by (metis append_assoc butlast_snoc sublist_snoc)
    then show ?thesis ..
  qed
next
  assume ?r
  then show ?l
  proof
    assume "lost k r h"
    then obtain pre post where "h = pre @ replicate k False @ post" "\<not> sublist (replicate r True) post"
      by (auto simp: lost_def)
    with assms(2) show ?l unfolding lost_def
      by (intro exI [of _ pre] exI [of _ "post @ [False]"]) (simp add: sublist_replicate_snoc)
  next
    assume "k \<le> trailing False (h @ [False])"
    then obtain pre where "h @ [False] = pre @ replicate k False"
      by (auto simp only: trailing_ge_iff suffix_def)
    with assms(2) show ?l unfolding lost_def
      by (intro exI [of _ pre] exI [of _ "[]"]) simp
  qed
qed

lemma lost_heard:
  assumes "0 < k"
  shows "lost k r (h @ [True]) \<longleftrightarrow> lost k r h \<and> trailing True (h @ [True]) < r" (is "?l \<longleftrightarrow> ?r")
proof
  assume ?l
  then obtain pre post where p: "h @ [True] = pre @ replicate k False @ post"
    "\<not> sublist (replicate r True) post" by (auto simp: lost_def)
  have "post \<noteq> []"
  proof
    assume "post = []"
    with p(1) have "last (pre @ replicate k False) = True" by (metis append_Nil2 last_snoc)
    with assms show False by simp
  qed
  then obtain post' x where post: "post = post' @ [x]" by (cases post rule: rev_cases) auto
  with p(1) have h: "h = pre @ replicate k False @ post'" "x = True" by auto
  with p(2) post have "lost k r h" "\<not> r \<le> trailing True (post' @ [True])"
    by (auto simp: lost_def sublist_replicate_snoc)
  moreover have "trailing True (h @ [True]) = trailing True (post' @ [True])"
    using trailing_after_other [OF assms, of True False pre "post' @ [True]"] h by simp
  ultimately show ?r by simp
next
  assume r: ?r
  then obtain pre post where p: "h = pre @ replicate k False @ post"
    "\<not> sublist (replicate r True) post" unfolding lost_def by blast
  with r trailing_after_other [OF assms, of True False pre "post @ [True]"]
  have "\<not> sublist (replicate r True) (post @ [True])" by (simp add: sublist_replicate_snoc)
  with p(1) show ?l unfolding lost_def
    by (intro exI [of _ pre] exI [of _ "post @ [True]"]) simp
qed

lemma lost_Nil: "0 < k \<Longrightarrow> \<not> lost k r []"
  by (simp add: lost_def)

section \<open>Properties\<close>

text \<open>C28. The streak-counting machine implements the history specification. After any history of
  intervals the drone is offline exactly when it once missed \<open>misses_to_offline\<close> intervals in a row
  and has not since been heard \<open>heartbeats_to_recover\<close> intervals in a row, degraded exactly when
  that holds of \<open>misses_to_degraded\<close> only, and the two counters are the lengths of the current
  streaks.\<close>

theorem connectivity_refines_history:
  assumes "make_thresholds d m r = Inr t"
  shows "status_after t history =
    \<lparr>link_state = (if lost (nat m) (nat r) history then OFFLINE
                   else if lost (nat d) (nat r) history then DEGRADED else CONNECTED),
     consecutive_misses = int (trailing False history),
     consecutive_heartbeats = int (trailing True history)\<rparr>"
proof -
  from assms have t: "misses_to_degraded t = d" "misses_to_offline t = m" "heartbeats_to_recover t = r"
    and pos: "0 < nat d" "0 < nat m" "0 < nat r" "1 \<le> d" "d < m" "1 \<le> r"
    by (auto simp: make_thresholds_def check_thresholds_def MINIMUM_COUNT_def Let_def split: if_splits)
  show ?thesis
  proof (induction history rule: rev_induct)
    case Nil
    then show ?case using pos by (simp add: status_after_def INITIAL_STATUS_def lost_Nil)
  next
    case (snoc x h)
    have step: "status_after t (h @ [y]) = observe t y (status_after t h)" for y
      by (simp add: status_after_def)
    show ?case
    proof (cases x)
      case True
      then show ?thesis using pos
        by (auto simp: step snoc.IH observe_def heartbeat_received_def t Let_def lost_heard)
    next
      case False
      then show ?thesis using pos
        by (auto simp: step snoc.IH observe_def heartbeat_missed_def t Let_def lost_missed)
    qed
  qed
qed

theorem connectivity_refines_history_witness:
  "link_state (status_after \<lparr>misses_to_degraded = 1, misses_to_offline = 2, heartbeats_to_recover = 2\<rparr>
      [False, False, True]) = OFFLINE
    \<and> lost (nat 2) (nat 2) [False, False, True]"
proof -
  let ?t = "\<lparr>misses_to_degraded = 1, misses_to_offline = 2, heartbeats_to_recover = 2\<rparr>"
  have "make_thresholds 1 2 2 = Inr ?t"
    by (simp add: make_thresholds_def check_thresholds_def MINIMUM_COUNT_def Let_def)
  note refine = connectivity_refines_history [OF this, of "[False, False, True]"]
  have off: "link_state (status_after ?t [False, False, True]) = OFFLINE"
    by (simp add: status_after_def observe_def heartbeat_missed_def heartbeat_received_def
        INITIAL_STATUS_def Let_def)
  with refine show ?thesis by (auto split: if_splits)
qed

end
