(* ===== verification/Idempotency.thy ===== *)
theory Idempotency
  imports Prelude
begin

text \<open>
  \<open>packages/domain/src/aerial_rescue_domain/idempotency.py\<close>: producer-scoped sequence
  admission and the decision on a known identifier.
\<close>

datatype SequenceVerdict = ADVANCES | DUPLICATE | STALE

record Stream =
  last_accepted :: "int option"

record Reception =
  verdict :: SequenceVerdict
  stream :: Stream

datatype IdempotencyKind =
  COMMAND | APPROVAL_CONSUMPTION | DASHBOARD_COMMAND | DASHBOARD_DECISION

definition DASHBOARD_IDEMPOTENCY_KINDS :: "IdempotencyKind list" where
  "DASHBOARD_IDEMPOTENCY_KINDS = [DASHBOARD_COMMAND, DASHBOARD_DECISION]"

datatype IdempotencyDecision = EXECUTE | RETURN_PRIOR_RESULT | DENY

definition receive :: "Stream \<Rightarrow> int \<Rightarrow> Reception" where
  "receive s sequence =
     (case last_accepted s of
        None \<Rightarrow> \<lparr>verdict = ADVANCES, stream = \<lparr>last_accepted = Some sequence\<rparr>\<rparr>
      | Some prior \<Rightarrow>
          if sequence > prior then \<lparr>verdict = ADVANCES, stream = \<lparr>last_accepted = Some sequence\<rparr>\<rparr>
          else if sequence = prior then \<lparr>verdict = DUPLICATE, stream = s\<rparr>
          else \<lparr>verdict = STALE, stream = s\<rparr>)"

definition idempotency_decision :: "IdempotencyKind \<Rightarrow> bool \<Rightarrow> IdempotencyDecision" where
  "idempotency_decision kind known =
     (if \<not> known then EXECUTE
      else if kind = APPROVAL_CONSUMPTION then DENY
      else RETURN_PRIOR_RESULT)"

section \<open>A producer's whole stream\<close>

text \<open>Judging the candidates of one producer in order, carrying the stream forward.\<close>

fun receive_all :: "Stream \<Rightarrow> int list \<Rightarrow> SequenceVerdict list \<times> Stream" where
  "receive_all s [] = ([], s)"
| "receive_all s (x # xs) =
     (let r = receive s x; (vs, s') = receive_all (stream r) xs in (verdict r # vs, s'))"

definition fresh :: Stream where
  "fresh = \<lparr>last_accepted = None\<rparr>"

lemma receive_all_append:
  "receive_all s (xs @ ys) =
     (let (vs, s') = receive_all s xs; (ws, s'') = receive_all s' ys in (vs @ ws, s''))"
  by (induction xs arbitrary: s) (auto simp: Let_def split: prod.splits)

lemma receive_all_snoc:
  "receive_all s (xs @ [x]) =
     (let (vs, s') = receive_all s xs; r = receive s' x in (vs @ [verdict r], stream r))"
  by (simp add: receive_all_append Let_def split: prod.splits)

lemma receive_fresh: "receive fresh x = \<lparr>verdict = ADVANCES, stream = \<lparr>last_accepted = Some x\<rparr>\<rparr>"
  by (simp add: receive_def fresh_def)

lemma receive_some:
  "receive \<lparr>last_accepted = Some m\<rparr> x =
     \<lparr>verdict = (if m < x then ADVANCES else if x = m then DUPLICATE else STALE),
      stream = \<lparr>last_accepted = Some (max x m)\<rparr>\<rparr>"
  by (simp add: receive_def max_def)

lemma receive_all_last:
  "snd (receive_all fresh xs) = \<lparr>last_accepted = (if xs = [] then None else Some (Max (set xs)))\<rparr>"
proof (induction xs rule: rev_induct)
  case (snoc x xs)
  obtain vs s' where r: "receive_all fresh xs = (vs, s')" by fastforce
  with snoc have "s' = \<lparr>last_accepted = (if xs = [] then None else Some (Max (set xs)))\<rparr>" by simp
  with r show ?case
    by (cases "xs = []") (simp_all add: receive_all_snoc receive_fresh receive_some Let_def)
qed (simp add: fresh_def)

section \<open>Properties\<close>

text \<open>A producer's stream judges every candidate against everything that came before it, not
  only against the last one: it advances exactly when the candidate exceeds all earlier
  sequences, is a duplicate exactly when it equals the largest of them, and is stale otherwise;
  and the stream carried forward is the largest sequence seen.\<close>

theorem receive_judges_against_maximum:
  "receive_all fresh (xs @ [x]) =
     (fst (receive_all fresh xs) @
        [if \<forall>y \<in> set xs. y < x then ADVANCES else if x = Max (set xs) then DUPLICATE else STALE],
      \<lparr>last_accepted = Some (Max (insert x (set xs)))\<rparr>)"
proof -
  obtain vs s' where r: "receive_all fresh xs = (vs, s')" by fastforce
  with receive_all_last [of xs]
  have s': "s' = \<lparr>last_accepted = (if xs = [] then None else Some (Max (set xs)))\<rparr>" by simp
  show ?thesis
  proof (cases "xs = []")
    case True
    with r s' show ?thesis by (simp add: receive_all_snoc receive_fresh Let_def)
  next
    case False
    define m where "m = Max (set xs)"
    from False have all: "(\<forall>y \<in> set xs. y < x) \<longleftrightarrow> m < x" and max: "Max (insert x (set xs)) = max x m"
      by (simp_all add: m_def)
    from False s' have "s' = \<lparr>last_accepted = Some m\<rparr>" by (simp add: m_def)
    with r show ?thesis
      unfolding all max m_def [symmetric] by (simp add: receive_all_snoc receive_some Let_def)
  qed
qed

theorem receive_judges_against_maximum_witness:
  "receive_all fresh ([3, 7, 5] @ [7]) =
     (fst (receive_all fresh [3, 7, 5]) @ [DUPLICATE], \<lparr>last_accepted = Some 7\<rparr>)"
  using receive_judges_against_maximum [of "[3, 7, 5]" 7] by simp

end
