(* ===== verification/Scoring.thy ===== *)
theory Scoring
  imports Prelude
begin

text \<open>
  \<open>packages/domain/src/aerial_rescue_domain/scoring.py\<close>: the evidence score, its ordinal bands and
  the two rules that gate an escalation.
\<close>

datatype ObservationOrigin = LIVE_MODEL | LIVE_SENSOR | RECORDED

datatype EvidenceBand = NONE | WEAK | SUPPORTED | CORROBORATED

datatype ScoreError = BOUNDARIES "int \<times> int \<times> int" | WEIGHT int | RECORDED_CONTRIBUTION pystr

definition MINIMUM_SCORE :: int where "MINIMUM_SCORE = 0"

definition MAXIMUM_SCORE :: int where "MAXIMUM_SCORE = 100"

definition SCORE_VERSION :: int where "SCORE_VERSION = 1"

definition MINIMUM_CORROBORATING_SOURCES :: nat where "MINIMUM_CORROBORATING_SOURCES = 2"

definition BAND_ORDER :: "EvidenceBand list" where
  "BAND_ORDER = [NONE, WEAK, SUPPORTED, CORROBORATED]"

definition ESCALATING_BAND :: EvidenceBand where
  "ESCALATING_BAND = CORROBORATED"

record BandBoundaries =
  weak :: int
  supported :: int
  corroborated :: int

record Contribution =
  source_id :: pystr
  origin :: ObservationOrigin
  weight :: int

text \<open>\<open>all(lower < upper for lower, upper in pairwise(steps))\<close>\<close>

fun ascending :: "int list \<Rightarrow> bool" where
  "ascending (a # b # rest) \<longleftrightarrow> a < b \<and> ascending (b # rest)"
| "ascending _ \<longleftrightarrow> True"

definition check_boundaries :: "BandBoundaries \<Rightarrow> ScoreError + unit" where
  "check_boundaries b =
     (let steps = [MINIMUM_SCORE, weak b, supported b, corroborated b]
      in if \<not> ascending steps \<or> corroborated b > MAXIMUM_SCORE
         then Inl (BOUNDARIES (weak b, supported b, corroborated b)) else Inr ())"

text \<open>The two dataclass constructors, whose \<open>__post_init__\<close> methods refuse.\<close>

definition make_boundaries :: "int \<Rightarrow> int \<Rightarrow> int \<Rightarrow> ScoreError + BandBoundaries" where
  "make_boundaries w s c =
     (let b = \<lparr>weak = w, supported = s, corroborated = c\<rparr>
      in bindE (check_boundaries b) (\<lambda>_. Inr b))"

definition make_contribution :: "pystr \<Rightarrow> ObservationOrigin \<Rightarrow> int \<Rightarrow> ScoreError + Contribution" where
  "make_contribution source orig w =
     (if \<not> (MINIMUM_SCORE \<le> w \<and> w \<le> MAXIMUM_SCORE) then Inl (WEIGHT w)
      else Inr \<lparr>source_id = source, origin = orig, weight = w\<rparr>)"

definition score :: "Contribution list \<Rightarrow> int" where
  "score contributions = min MAXIMUM_SCORE (sum_list (map weight contributions))"

definition band_for :: "int \<Rightarrow> BandBoundaries \<Rightarrow> EvidenceBand" where
  "band_for total_score boundaries =
     (if total_score \<ge> corroborated boundaries then CORROBORATED
      else if total_score \<ge> supported boundaries then SUPPORTED
      else if total_score \<ge> weak boundaries then WEAK
      else NONE)"

definition corroborating_sources :: "Contribution list \<Rightarrow> nat" where
  "corroborating_sources contributions = card (set (map source_id contributions))"

fun refuse_recorded :: "Contribution list \<Rightarrow> ScoreError + unit" where
  "refuse_recorded [] = Inr ()"
| "refuse_recorded (item # items) =
     (if origin item = RECORDED then Inl (RECORDED_CONTRIBUTION (source_id item))
      else refuse_recorded items)"

text \<open>\<open>BAND_ORDER.index(band)\<close>\<close>

fun index_of :: "'a list \<Rightarrow> 'a \<Rightarrow> nat" where
  "index_of [] y = 0"
| "index_of (x # xs) y = (if x = y then 0 else Suc (index_of xs y))"

definition decision_band :: "Contribution list \<Rightarrow> BandBoundaries \<Rightarrow> ScoreError + EvidenceBand" where
  "decision_band contributions boundaries =
     bindE (refuse_recorded contributions) (\<lambda>_.
       let band = band_for (score contributions) boundaries;
           uncorroborated = corroborating_sources contributions < MINIMUM_CORROBORATING_SOURCES
       in if band = ESCALATING_BAND \<and> uncorroborated
          then Inr (BAND_ORDER ! (index_of BAND_ORDER ESCALATING_BAND - 1))
          else Inr band)"

section \<open>Facts about scores and bands\<close>

lemmas score_constants = MINIMUM_SCORE_def MAXIMUM_SCORE_def MINIMUM_CORROBORATING_SOURCES_def
  ESCALATING_BAND_def BAND_ORDER_def

abbreviation band_index :: "EvidenceBand \<Rightarrow> nat" where
  "band_index \<equiv> index_of BAND_ORDER"

text \<open>A contribution the constructor admits.\<close>

definition admitted :: "Contribution \<Rightarrow> bool" where
  "admitted c \<longleftrightarrow> MINIMUM_SCORE \<le> weight c \<and> weight c \<le> MAXIMUM_SCORE"

lemma make_contribution_admitted: "make_contribution s og w = Inr c \<Longrightarrow> admitted c"
  by (auto simp: make_contribution_def admitted_def split: if_splits)

lemma refuse_recorded_Inr: "refuse_recorded cs = Inr u \<longleftrightarrow> (\<forall>c \<in> set cs. origin c \<noteq> RECORDED)"
  by (induction cs) auto

lemma refuse_recorded_append: "refuse_recorded (cs @ ds) = bindE (refuse_recorded cs) (\<lambda>_. refuse_recorded ds)"
  by (induction cs) auto

lemma score_nonneg: "(\<And>c. c \<in> set cs \<Longrightarrow> admitted c) \<Longrightarrow> 0 \<le> sum_list (map weight cs)"
  by (induction cs) (auto simp: admitted_def score_constants)

lemma two_sources_iff:
  "2 \<le> card (set xs) \<longleftrightarrow> (\<exists>x \<in> set xs. \<exists>y \<in> set xs. x \<noteq> y)"
  using card_le_Suc0_iff_eq [of "set xs"] by (auto simp: not_le [symmetric] numeral_2_eq_2)

lemma band_for_mono: "t \<le> u \<Longrightarrow> band_index (band_for t b) \<le> band_index (band_for u b)"
  by (auto simp: band_for_def score_constants)

lemma sources_iff:
  "corroborating_sources cs < 2 \<longleftrightarrow> \<not> (\<exists>c \<in> set cs. \<exists>d \<in> set cs. source_id c \<noteq> source_id d)"
proof -
  have "corroborating_sources cs < 2 \<longleftrightarrow> \<not> 2 \<le> card (set (map source_id cs))"
    by (simp only: corroborating_sources_def not_le)
  also have "\<dots> \<longleftrightarrow> \<not> (\<exists>x \<in> set (map source_id cs). \<exists>y \<in> set (map source_id cs). x \<noteq> y)"
    by (simp only: two_sources_iff)
  finally show ?thesis by (simp only: set_map bex_simps)
qed

lemma sources_mono: "corroborating_sources cs \<le> corroborating_sources (d # cs)"
  by (simp add: corroborating_sources_def card_insert_le)

lemma decision_band_eq:
  "decision_band cs b = bindE (refuse_recorded cs) (\<lambda>_.
     Inr (if corroborated b \<le> score cs \<and> corroborating_sources cs < 2 then SUPPORTED
          else band_for (score cs) b))"
  by (simp add: decision_band_def Let_def band_for_def score_constants)

section \<open>Properties\<close>

text \<open>C24. The escalating band is reached exactly when no contribution was replayed, the saturated
  score reaches the injected boundary, and two contributions name different sources. No weights
  and no boundary value replace the second source or admit recorded evidence.\<close>

theorem escalation_needs_two_live_sources:
  "decision_band cs b = Inr ESCALATING_BAND \<longleftrightarrow>
     (\<forall>c \<in> set cs. origin c \<noteq> RECORDED) \<and> score cs \<ge> corroborated b
     \<and> (\<exists>c \<in> set cs. \<exists>d \<in> set cs. source_id c \<noteq> source_id d)"
proof -
  have "decision_band cs b = Inr ESCALATING_BAND \<longleftrightarrow>
      (\<forall>c \<in> set cs. origin c \<noteq> RECORDED) \<and> score cs \<ge> corroborated b \<and> \<not> corroborating_sources cs < 2"
    by (simp add: decision_band_eq refuse_recorded_Inr band_for_def score_constants)
  then show ?thesis by (simp only: sources_iff not_not)
qed

theorem escalation_needs_two_live_sources_witness:
  "decision_band [\<lparr>source_id = lit ''d1'', origin = LIVE_MODEL, weight = 50\<rparr>,
      \<lparr>source_id = lit ''d2'', origin = LIVE_SENSOR, weight = 50\<rparr>]
      \<lparr>weak = 20, supported = 50, corroborated = 80\<rparr> = Inr ESCALATING_BAND"
  by (subst escalation_needs_two_live_sources) (simp add: score_def score_constants, metis Contribution.select_convs(1) lit_inject)

text \<open>Admitting one more live contribution never lowers the decision: the score stays within
  its range and does not fall, and the band a candidate is eligible on does not drop in the band
  order.\<close>

theorem live_contribution_never_lowers_band:
  assumes "\<And>c. c \<in> set (d # cs) \<Longrightarrow> admitted c"
    and "make_boundaries w s k = Inr b"
    and "decision_band cs b = Inr band" and "origin d \<noteq> RECORDED"
  shows "0 \<le> score cs \<and> score cs \<le> score (d # cs) \<and> score (d # cs) \<le> 100
    \<and> (\<exists>band'. decision_band (d # cs) b = Inr band' \<and> band_index band \<le> band_index band')"
proof -
  have le: "score cs \<le> score (d # cs)"
    using assms(1) [of d] by (auto simp: score_def admitted_def score_constants)
  have range: "0 \<le> score cs" "score (d # cs) \<le> 100"
    using assms(1) score_nonneg [of cs] by (auto simp: score_def score_constants)
  from assms(2) have bounds: "supported b < corroborated b"
    by (auto simp: make_boundaries_def check_boundaries_def Let_def split: if_splits)
  let ?band = "\<lambda>cs. if corroborated b \<le> score cs \<and> corroborating_sources cs < 2 then SUPPORTED
    else band_for (score cs) b"
  have "band = ?band cs" "decision_band (d # cs) b = Inr (?band (d # cs))"
    using assms(3,4) by (simp_all add: decision_band_eq refuse_recorded_Inr)
  moreover have "band_index (?band cs) \<le> band_index (?band (d # cs))"
    using le bounds sources_mono [of cs d] by (auto simp: band_for_def score_constants)
  ultimately show ?thesis using le range by blast
qed

theorem live_contribution_never_lowers_band_witness:
  "\<exists>band'. decision_band [\<lparr>source_id = lit ''d2'', origin = LIVE_SENSOR, weight = 50\<rparr>,
      \<lparr>source_id = lit ''d1'', origin = LIVE_MODEL, weight = 60\<rparr>]
      \<lparr>weak = 20, supported = 50, corroborated = 80\<rparr> = Inr band' \<and> band_index SUPPORTED \<le> band_index band'"
proof -
  let ?b = "\<lparr>weak = 20, supported = 50, corroborated = 80\<rparr>"
  let ?c = "\<lparr>source_id = lit ''d1'', origin = LIVE_MODEL, weight = 60\<rparr>"
  let ?d = "\<lparr>source_id = lit ''d2'', origin = LIVE_SENSOR, weight = 50\<rparr>"
  have "decision_band [?c] ?b = Inr SUPPORTED"
    by (simp add: decision_band_eq corroborating_sources_def band_for_def score_def score_constants)
  moreover have "make_boundaries 20 50 80 = Inr ?b"
    by (simp add: make_boundaries_def check_boundaries_def score_constants Let_def)
  moreover have "admitted c" if "c \<in> set [?d, ?c]" for c
    using that by (auto simp: admitted_def score_constants)
  ultimately show ?thesis
    using live_contribution_never_lowers_band [of ?d "[?c]" 20 50 80 ?b SUPPORTED] by simp
qed

end
