(* ===== verification/PyVal.thy ===== *)
theory PyVal
  imports Prelude
begin

text \<open>
  The Python objects that cross the contract boundary. \<open>PList\<close> is a list or a tuple, \<open>PDict\<close>
  a mapping in insertion order, \<open>POther\<close> any object outside the JSON types (a float, a
  \<open>Decimal\<close>, an arbitrary instance), of which the code only ever asks the type. A mapping key
  is a string, or some other object, of which the code asks only its text \<open>str(key)\<close>.
\<close>

datatype pykey = KStr pystr | KObj pystr

datatype pyval =
    PNone
  | PBool bool
  | PInt int
  | PStr pystr
  | PList "pyval list"
  | PDict "(pykey \<times> pyval) list"
  | POther nat

type_synonym members = "(pykey \<times> pyval) list"

text \<open>\<open>mapping.get(name)\<close>, whose default is \<open>None\<close>, and membership \<open>name in mapping\<close>.\<close>

definition get :: "members \<Rightarrow> pystr \<Rightarrow> pyval" where
  "get d name = (case map_of d (KStr name) of None \<Rightarrow> PNone | Some v \<Rightarrow> v)"

definition has_member :: "members \<Rightarrow> pystr \<Rightarrow> bool" where
  "has_member d name \<longleftrightarrow> KStr name \<in> set (dict_keys d)"

text \<open>A dictionary display \<open>{"name": value, ...}\<close> of the source.\<close>

definition obj :: "(string \<times> pyval) list \<Rightarrow> members" where
  "obj fields = map (\<lambda>(name, v). (KStr (lit name), v)) fields"

lemma get_Cons: "get ((k, v) # d) name = (if k = KStr name then v else get d name)"
  by (simp add: get_def)

lemma get_Nil [simp]: "get [] name = PNone"
  by (simp add: get_def)

lemma obj_simps [simp]: "obj [] = []" "obj ((n, v) # fs) = (KStr (lit n), v) # obj fs"
  by (simp_all add: obj_def)

lemma has_member_iff: "has_member d name \<longleftrightarrow> (\<exists>v. map_of d (KStr name) = Some v)"
  by (metis domD domIff has_member_def list.set_map map_of_eq_None_iff option.distinct(1) option.exhaust)

lemma has_member_simps [simp]:
  "has_member [] name \<longleftrightarrow> False"
  "has_member ((k, v) # d) name \<longleftrightarrow> k = KStr name \<or> has_member d name"
  by (auto simp: has_member_def)

section \<open>Python equality\<close>

text \<open>\<open>True == 1\<close>, and dictionaries are equal whatever their order.\<close>

fun number_of :: "pyval \<Rightarrow> int option" where
  "number_of (PInt n) = Some n"
| "number_of (PBool b) = Some (if b then 1 else 0)"
| "number_of v = None"

lemma size_PList_member: "v \<in> set vs \<Longrightarrow> size v < size (PList vs)"
  by (simp add: less_Suc_eq_le size_list_estimation')

lemma size_PDict_member: "p \<in> set d \<Longrightarrow> size (snd p) < size (PDict d)"
  by (induction d) (auto simp: less_Suc_eq_le)

function pyeq :: "pyval \<Rightarrow> pyval \<Rightarrow> bool" where
  "pyeq v w =
     (case (v, w) of
        (PList vs, PList ws) \<Rightarrow> length vs = length ws \<and> (\<forall>p \<in> set (zip vs ws). pyeq (fst p) (snd p))
      | (PDict d, PDict e) \<Rightarrow> length d = length e
          \<and> (\<forall>p \<in> set d. case map_of e (fst p) of None \<Rightarrow> False | Some x \<Rightarrow> pyeq (snd p) x)
      | _ \<Rightarrow> v = w \<or> (number_of v \<noteq> None \<and> number_of v = number_of w))"
  by pat_completeness auto

termination
proof (relation "measure (size \<circ> fst)", goal_cases)
  case (2 v w x y vs ws p)
  then have "fst p \<in> set vs" by (metis prod.collapse set_zip_leftD)
  with 2(1,2) size_PList_member show ?case by force
next
  case (3 v w x y d e p z)
  with size_PDict_member [of p d] show ?case by auto
qed simp

declare pyeq.simps [simp del]

end
