(* ===== verification/Regex.thy ===== *)
theory Regex
  imports Prelude
begin

text \<open>
  The regular expressions the contracts package matches with \<open>re.fullmatch\<close>. A pattern of the
  source is a term of type \<open>regex\<close>; \<open>fullmatch\<close> decides it by taking derivatives and is proved to
  decide membership in the language the pattern denotes. Under \<open>re.fullmatch\<close> the anchors
  \<open>^\<close> and \<open>$\<close> are redundant, so they have no constructor. A negative lookahead
  \<open>(?!p)r\<close> is \<open>Ahead p r\<close>, where \<open>r\<close> is the whole rest of the pattern.
\<close>

datatype regex =
    Never
  | Eps
  | Cls "(char \<times> char) list"
  | Seq regex regex
  | Alt regex regex
  | Star regex
  | Ahead regex regex

definition in_cls :: "(char \<times> char) list \<Rightarrow> nat \<Rightarrow> bool" where
  "in_cls ranges c \<longleftrightarrow> (\<exists>(lo, hi) \<in> set ranges. of_char lo \<le> c \<and> c \<le> (of_char hi :: nat))"

lemma in_cls_simps [simp]:
  "in_cls [] c \<longleftrightarrow> False"
  "in_cls ((lo, hi) # rs) c \<longleftrightarrow> of_char lo \<le> c \<and> c \<le> (of_char hi :: nat) \<or> in_cls rs c"
  by (auto simp: in_cls_def)

section \<open>Derived forms\<close>

fun word_of :: "string \<Rightarrow> regex" where
  "word_of [] = Eps"
| "word_of [c] = Cls [(c, c)]"
| "word_of (c # cs) = Seq (Cls [(c, c)]) (word_of cs)"

definition Plus :: "regex \<Rightarrow> regex" where
  "Plus r = Seq r (Star r)"

fun exactly :: "nat \<Rightarrow> regex \<Rightarrow> regex" where
  "exactly 0 r = Eps"
| "exactly (Suc n) r = Seq r (exactly n r)"

fun up_to :: "nat \<Rightarrow> regex \<Rightarrow> regex" where
  "up_to 0 r = Eps"
| "up_to (Suc n) r = Alt Eps (Seq r (up_to n r))"

definition between :: "nat \<Rightarrow> nat \<Rightarrow> regex \<Rightarrow> regex" where
  "between lo hi r = Seq (exactly lo r) (up_to (hi - lo) r)"

section \<open>The language of a pattern\<close>

inductive_set star :: "pystr set \<Rightarrow> pystr set" for A where
  star_Nil: "[] \<in> star A"
| star_step: "u \<in> A \<Longrightarrow> v \<in> star A \<Longrightarrow> u @ v \<in> star A"

primrec lang :: "regex \<Rightarrow> pystr set" where
  "lang Never = {}"
| "lang Eps = {[]}"
| "lang (Cls rs) = {[c] | c. in_cls rs c}"
| "lang (Seq r s) = {u @ v | u v. u \<in> lang r \<and> v \<in> lang s}"
| "lang (Alt r s) = lang r \<union> lang s"
| "lang (Star r) = star (lang r)"
| "lang (Ahead p r) = {s \<in> lang r. \<not> (\<exists>u v. s = u @ v \<and> u \<in> lang p)}"

section \<open>Matching by derivatives\<close>

primrec nullable :: "regex \<Rightarrow> bool" where
  "nullable Never = False"
| "nullable Eps = True"
| "nullable (Cls rs) = False"
| "nullable (Seq r s) = (nullable r \<and> nullable s)"
| "nullable (Alt r s) = (nullable r \<or> nullable s)"
| "nullable (Star r) = True"
| "nullable (Ahead p r) = (nullable r \<and> \<not> nullable p)"

text \<open>The derivatives are kept small by dropping empty branches as they arise.\<close>

fun seq_of :: "regex \<Rightarrow> regex \<Rightarrow> regex" where
  "seq_of Never s = Never"
| "seq_of Eps s = s"
| "seq_of r s = Seq r s"

fun alt_of :: "regex \<Rightarrow> regex \<Rightarrow> regex" where
  "alt_of Never s = s"
| "alt_of r Never = r"
| "alt_of r s = Alt r s"

primrec residual :: "nat \<Rightarrow> regex \<Rightarrow> regex" where
  "residual c Never = Never"
| "residual c Eps = Never"
| "residual c (Cls rs) = (if in_cls rs c then Eps else Never)"
| "residual c (Seq r s) =
     (if nullable r then alt_of (seq_of (residual c r) s) (residual c s) else seq_of (residual c r) s)"
| "residual c (Alt r s) = alt_of (residual c r) (residual c s)"
| "residual c (Star r) = seq_of (residual c r) (Star r)"
| "residual c (Ahead p r) = (if nullable p then Never else Ahead (residual c p) (residual c r))"

fun fullmatch :: "regex \<Rightarrow> pystr \<Rightarrow> bool" where
  "fullmatch r [] = nullable r"
| "fullmatch r (c # cs) = fullmatch (residual c r) cs"

lemma nullable_lang: "nullable r \<longleftrightarrow> [] \<in> lang r"
  by (induction r) (auto intro: star_Nil)

lemma star_Cons_iff: "c # s \<in> star A \<longleftrightarrow> (\<exists>u v. s = u @ v \<and> c # u \<in> A \<and> v \<in> star A)"
proof
  show "c # s \<in> star A \<Longrightarrow> \<exists>u v. s = u @ v \<and> c # u \<in> A \<and> v \<in> star A"
  proof (induction "c # s" rule: star.induct)
    case (star_step u v)
    then show ?case by (cases u) auto
  qed
next
  assume "\<exists>u v. s = u @ v \<and> c # u \<in> A \<and> v \<in> star A"
  then show "c # s \<in> star A" using star_step by (metis append_Cons)
qed

lemma lang_seq_of [simp]: "lang (seq_of r s) = lang (Seq r s)"
  by (induction r s rule: seq_of.induct) simp_all

lemma lang_alt_of [simp]: "lang (alt_of r s) = lang (Alt r s)"
  by (induction r s rule: alt_of.induct) simp_all

lemma residual_lang: "s \<in> lang (residual c r) \<longleftrightarrow> c # s \<in> lang r"
proof (induction r arbitrary: s)
  case (Seq r t)
  then show ?case by (auto simp: nullable_lang Cons_eq_append_conv)
next
  case (Star r)
  then show ?case by (auto simp: star_Cons_iff)
next
  case (Ahead p r)
  have "(\<exists>u v. c # s = u @ v \<and> u \<in> lang p) \<longleftrightarrow> [] \<in> lang p \<or> (\<exists>u v. s = u @ v \<and> c # u \<in> lang p)"
    by (auto simp: Cons_eq_append_conv)
  with Ahead show ?case by (simp add: nullable_lang) blast
qed auto

theorem fullmatch_iff: "fullmatch r s \<longleftrightarrow> s \<in> lang r"
  by (induction s arbitrary: r) (simp_all add: nullable_lang residual_lang)

section \<open>Languages of the derived forms\<close>

lemma lang_Seq_Cls:
  "s \<in> lang (Seq (Cls rs) t) \<longleftrightarrow> (\<exists>c s'. s = c # s' \<and> in_cls rs c \<and> s' \<in> lang t)"
proof
  assume "\<exists>c s'. s = c # s' \<and> in_cls rs c \<and> s' \<in> lang t"
  then obtain c s' where "s = [c] @ s'" "[c] \<in> lang (Cls rs)" "s' \<in> lang t" by auto
  then show "s \<in> lang (Seq (Cls rs) t)" unfolding lang.simps(4) by blast
qed auto

lemma in_cls_single: "in_cls [(c, c)] d \<longleftrightarrow> d = of_char c"
  by auto

lemma lang_word_of: "s \<in> lang (word_of w) \<longleftrightarrow> s = lit w"
proof (induction w arbitrary: s rule: word_of.induct)
  case (3 c d cs)
  then show ?case
    unfolding word_of.simps lang_Seq_Cls in_cls_single by (auto simp: lit_def)
qed (auto simp: lit_def)

lemma lang_exactly_Cls: "s \<in> lang (exactly n (Cls rs)) \<longleftrightarrow> length s = n \<and> (\<forall>c \<in> set s. in_cls rs c)"
proof (induction n arbitrary: s)
  case (Suc n)
  then show ?case by (cases s) (auto simp: lang_Seq_Cls simp del: lang.simps(4))
qed auto

lemma lang_up_to_Cls: "s \<in> lang (up_to n (Cls rs)) \<longleftrightarrow> length s \<le> n \<and> (\<forall>c \<in> set s. in_cls rs c)"
proof (induction n arbitrary: s)
  case (Suc n)
  then show ?case by (cases s) (auto simp: lang_Seq_Cls simp del: lang.simps(4))
qed auto

lemma lang_between_Cls:
  assumes "lo \<le> hi"
  shows "s \<in> lang (between lo hi (Cls rs)) \<longleftrightarrow>
    lo \<le> length s \<and> length s \<le> hi \<and> (\<forall>c \<in> set s. in_cls rs c)"
proof
  assume "s \<in> lang (between lo hi (Cls rs))"
  with assms show "lo \<le> length s \<and> length s \<le> hi \<and> (\<forall>c \<in> set s. in_cls rs c)"
    by (auto simp: between_def lang_exactly_Cls lang_up_to_Cls)
next
  assume s: "lo \<le> length s \<and> length s \<le> hi \<and> (\<forall>c \<in> set s. in_cls rs c)"
  then have "take lo s \<in> lang (exactly lo (Cls rs))" "drop lo s \<in> lang (up_to (hi - lo) (Cls rs))"
    by (auto simp: lang_exactly_Cls lang_up_to_Cls dest: in_set_takeD in_set_dropD)
  then show "s \<in> lang (between lo hi (Cls rs))"
    unfolding between_def lang.simps by (metis (mono_tags, lifting) append_take_drop_id mem_Collect_eq)
qed

lemma lang_Star_Cls: "s \<in> lang (Star (Cls rs)) \<longleftrightarrow> (\<forall>c \<in> set s. in_cls rs c)"
proof (induction s)
  case Nil
  show ?case by (auto intro: star_Nil)
next
  case (Cons c s)
  then show ?case by (auto simp: star_Cons_iff)
qed

lemma lang_Plus_Cls: "s \<in> lang (Plus (Cls rs)) \<longleftrightarrow> s \<noteq> [] \<and> (\<forall>c \<in> set s. in_cls rs c)"
  by (cases s) (auto simp: Plus_def lang_Seq_Cls lang_Star_Cls simp del: lang.simps)

section \<open>Patterns of one length\<close>

primrec width :: "regex \<Rightarrow> nat option" where
  "width Never = None"
| "width Eps = Some 0"
| "width (Cls rs) = Some 1"
| "width (Seq r s) = (case (width r, width s) of (Some m, Some n) \<Rightarrow> Some (m + n) | _ \<Rightarrow> None)"
| "width (Alt r s) = (if width r = width s then width r else None)"
| "width (Star r) = None"
| "width (Ahead p r) = width r"

lemma width_lang: "width r = Some n \<Longrightarrow> s \<in> lang r \<Longrightarrow> length s = n"
  by (induction r arbitrary: s n) (auto split: option.splits if_splits)

lemma lang_Seq_width:
  assumes "width r = Some n"
  shows "s \<in> lang (Seq r t) \<longleftrightarrow> take n s \<in> lang r \<and> drop n s \<in> lang t"
proof
  assume "s \<in> lang (Seq r t)"
  then obtain u v where "s = u @ v" "u \<in> lang r" "v \<in> lang t" by auto
  moreover from this have "length u = n" using width_lang [OF assms] by blast
  ultimately show "take n s \<in> lang r \<and> drop n s \<in> lang t" by simp
next
  assume "take n s \<in> lang r \<and> drop n s \<in> lang t"
  then have "take n s \<in> lang r" "drop n s \<in> lang t" "s = take n s @ drop n s" by simp_all
  then show "s \<in> lang (Seq r t)" unfolding lang.simps by blast
qed

section \<open>The alphabet of a pattern\<close>

text \<open>Which characters a match can contain; enough to show that a validated level carries no
  separator, no wildcard and nothing outside ASCII.\<close>

primrec alphabet :: "regex \<Rightarrow> nat \<Rightarrow> bool" where
  "alphabet Never c = False"
| "alphabet Eps c = False"
| "alphabet (Cls rs) c = in_cls rs c"
| "alphabet (Seq r s) c = (alphabet r c \<or> alphabet s c)"
| "alphabet (Alt r s) c = (alphabet r c \<or> alphabet s c)"
| "alphabet (Star r) c = alphabet r c"
| "alphabet (Ahead p r) c = alphabet r c"

lemma lang_alphabet: "s \<in> lang r \<Longrightarrow> c \<in> set s \<Longrightarrow> alphabet r c"
proof (induction r arbitrary: s)
  case (Star r)
  from Star.prems have "s \<in> star (lang r)" "c \<in> set s" by simp_all
  then show ?case by (induction rule: star.induct) (auto dest: Star.IH)
next
  case (Seq r t)
  then show ?case by fastforce
qed auto

lemma fullmatch_alphabet: "fullmatch r s \<Longrightarrow> c \<in> set s \<Longrightarrow> alphabet r c"
  by (auto simp: fullmatch_iff intro: lang_alphabet)

lemma alphabet_word_of: "alphabet (word_of w) c \<longleftrightarrow> c \<in> set (lit w)"
  by (induction w rule: word_of.induct) (auto simp: lit_def)

lemma alphabet_exactly: "alphabet (exactly n r) c \<Longrightarrow> alphabet r c"
  by (induction n) auto

lemma alphabet_up_to: "alphabet (up_to n r) c \<Longrightarrow> alphabet r c"
  by (induction n) auto

lemma alphabet_between: "alphabet (between lo hi r) c \<Longrightarrow> alphabet r c"
  by (auto simp: between_def dest: alphabet_exactly alphabet_up_to)

end
