(* ===== verification/Topics.thy ===== *)
theory Topics
  imports PyVal Regex
begin

text \<open>
  \<open>packages/contracts/src/aerial_rescue_contracts/topics.py\<close> and the namespace of the package's
  \<open>__init__.py\<close>: the fifteen application topic families, the grammar of their variable levels, and
  the typed builder and parser of topic text and of the type discriminator derived from a topic.
\<close>

section \<open>The namespace\<close>

definition TOPIC_NAMESPACE_ROOT :: pystr where
  "TOPIC_NAMESPACE_ROOT = lit ''aerial-rescue''"

definition CONTRACT_MAJOR_VERSION :: nat where
  "CONTRACT_MAJOR_VERSION = 1"

text \<open>\<open>str(CONTRACT_MAJOR_VERSION)\<close> is the one digit of the version.\<close>

definition namespace_prefix :: pystr where
  "namespace_prefix = TOPIC_NAMESPACE_ROOT @ lit ''/v'' @ [48 + CONTRACT_MAJOR_VERSION]"

section \<open>The grammar of the levels\<close>

definition MAX_TOPIC_BYTES :: nat where
  "MAX_TOPIC_BYTES = 250"

definition MAX_KIND_LENGTH :: nat where
  "MAX_KIND_LENGTH = 32"

abbreviation lower_alnum :: "(char \<times> char) list" where
  "lower_alnum \<equiv> [(CHR ''a'', CHR ''z''), (CHR ''0'', CHR ''9'')]"

abbreviation lower_alnum_hyphen :: "(char \<times> char) list" where
  "lower_alnum_hyphen \<equiv> [(CHR ''a'', CHR ''z''), (CHR ''0'', CHR ''9''), (CHR ''-'', CHR ''-'')]"

text \<open>\<open>(?:[a-z0-9]|[a-z0-9][a-z0-9-]{0,62}[a-z0-9])\<close>\<close>

definition IDENTIFIER_PATTERN :: regex where
  "IDENTIFIER_PATTERN =
     Alt (Cls lower_alnum)
         (Seq (Cls lower_alnum) (Seq (between 0 62 (Cls lower_alnum_hyphen)) (Cls lower_alnum)))"

text \<open>\<open>[a-z][a-z0-9]*(?:-[a-z0-9]+)*\<close>\<close>

definition KIND_PATTERN :: regex where
  "KIND_PATTERN =
     Seq (Cls [(CHR ''a'', CHR ''z'')])
         (Seq (Star (Cls lower_alnum)) (Star (Seq (word_of ''-'') (Plus (Cls lower_alnum)))))"

text \<open>\<open>[A-Za-z0-9_]{1,64}\<close>\<close>

definition AGENT_NAME_PATTERN :: regex where
  "AGENT_NAME_PATTERN =
     between 1 64 (Cls [(CHR ''A'', CHR ''Z''), (CHR ''a'', CHR ''z''), (CHR ''0'', CHR ''9''),
       (CHR ''_'', CHR ''_'')])"

definition DECISIONS :: "pystr list" where
  "DECISIONS = [lit ''approve'', lit ''reject'']"

definition WILDCARD_CHARACTERS :: "nat list" where
  "WILDCARD_CHARACTERS = lit ''*>''"

definition MISSION_PARAMETER :: pystr where
  "MISSION_PARAMETER = lit ''missionId''"

definition PREFIX_LEVELS :: "pystr list" where
  "PREFIX_LEVELS = split_on 47 namespace_prefix"

text \<open>\<open>namespace_prefix().replace("/", ".") + "."\<close>\<close>

definition TYPE_PREFIX :: pystr where
  "TYPE_PREFIX = map (\<lambda>c. if c = 47 then 46 else c) namespace_prefix @ lit ''.''"

definition IDENTIFIER_PARAMETERS :: "pystr list" where
  "IDENTIFIER_PARAMETERS =
    [MISSION_PARAMETER, lit ''droneId'', lit ''sectorId'', lit ''proposalId'', lit ''requestorId'',
     lit ''commandId'', lit ''requestId'']"

datatype Rule = IDENTIFIER | KIND | AGENT_NAME | DECISION

definition INSTANCE_RULES :: "Rule list" where
  "INSTANCE_RULES = [IDENTIFIER, AGENT_NAME]"

definition rule_for :: "pystr \<Rightarrow> Rule" where
  "rule_for parameter =
     (if parameter \<in> set IDENTIFIER_PARAMETERS then IDENTIFIER
      else if parameter = lit ''agentName'' then AGENT_NAME
      else if parameter = lit ''decision'' then DECISION
      else KIND)"

definition is_placeholder :: "pystr \<Rightarrow> bool" where
  "is_placeholder level \<longleftrightarrow> take 1 level = lit ''{''"

text \<open>\<open>level[1:-1]\<close>\<close>

definition placeholder :: "pystr \<Rightarrow> pystr" where
  "placeholder level = butlast (tl level)"

section \<open>The families\<close>

datatype Family = OPERATOR_COMMAND | OPERATOR_APPROVAL | DRONE_TELEMETRY | DRONE_EVENT |
    DRONE_COMMAND | DRONE_COMMAND_RESULT | GATEWAY_REQUEST | GATEWAY_RESPONSE | GATEWAY_RECORD |
    AGENT_PROPOSAL | AGENT_RESPONSE | EVIDENCE_DECISION | AUDIT | MISSION_EVENT | SECTOR_EVENT

lemma Family_members:
  "s \<in> set [OPERATOR_COMMAND, OPERATOR_APPROVAL, DRONE_TELEMETRY, DRONE_EVENT,
    DRONE_COMMAND, DRONE_COMMAND_RESULT, GATEWAY_REQUEST, GATEWAY_RESPONSE, GATEWAY_RECORD,
    AGENT_PROPOSAL, AGENT_RESPONSE, EVIDENCE_DECISION, AUDIT, MISSION_EVENT, SECTOR_EVENT]"
  by (cases s) simp_all

instantiation Family :: enum
begin

definition enum_Family :: "Family list" where
  "enum_Family = [OPERATOR_COMMAND, OPERATOR_APPROVAL, DRONE_TELEMETRY, DRONE_EVENT,
    DRONE_COMMAND, DRONE_COMMAND_RESULT, GATEWAY_REQUEST, GATEWAY_RESPONSE, GATEWAY_RECORD,
    AGENT_PROPOSAL, AGENT_RESPONSE, EVIDENCE_DECISION, AUDIT, MISSION_EVENT, SECTOR_EVENT]"

definition enum_all_Family :: "(Family \<Rightarrow> bool) \<Rightarrow> bool" where
  "enum_all_Family P \<longleftrightarrow> list_all P Enum.enum"

definition enum_ex_Family :: "(Family \<Rightarrow> bool) \<Rightarrow> bool" where
  "enum_ex_Family P \<longleftrightarrow> list_ex P Enum.enum"

instance
  by standard (simp_all only: enum_Family_def enum_all_Family_def
    enum_ex_Family_def enumerated [OF Family_members], simp_all)

end

text \<open>The value of a member of the class, and its name.\<close>

fun template :: "Family \<Rightarrow> pystr" where
  "template OPERATOR_COMMAND = lit ''operator/command/{commandType}''"
| "template OPERATOR_APPROVAL = lit ''operator/approval/{decision}''"
| "template DRONE_TELEMETRY = lit ''drone/{droneId}/telemetry''"
| "template DRONE_EVENT = lit ''drone/{droneId}/event/{eventType}''"
| "template DRONE_COMMAND = lit ''drone/{droneId}/command/{commandType}''"
| "template DRONE_COMMAND_RESULT = lit ''drone/{droneId}/command-result/{commandId}''"
| "template GATEWAY_REQUEST = lit ''gateway/request/{operation}''"
| "template GATEWAY_RESPONSE = lit ''gateway/response/{requestorId}''"
| "template GATEWAY_RECORD = lit ''gateway/record/{requestId}''"
| "template AGENT_PROPOSAL = lit ''agent/proposal/{agentName}/{proposalType}''"
| "template AGENT_RESPONSE = lit ''agent/response/{agentName}''"
| "template EVIDENCE_DECISION = lit ''evidence/decision/{proposalId}''"
| "template AUDIT = lit ''audit/{recordType}''"
| "template MISSION_EVENT = lit ''mission/event/{eventType}''"
| "template SECTOR_EVENT = lit ''sector/{sectorId}/event/{eventType}''"

fun family_name :: "Family \<Rightarrow> pystr" where
  "family_name OPERATOR_COMMAND = lit ''OPERATOR_COMMAND''"
| "family_name OPERATOR_APPROVAL = lit ''OPERATOR_APPROVAL''"
| "family_name DRONE_TELEMETRY = lit ''DRONE_TELEMETRY''"
| "family_name DRONE_EVENT = lit ''DRONE_EVENT''"
| "family_name DRONE_COMMAND = lit ''DRONE_COMMAND''"
| "family_name DRONE_COMMAND_RESULT = lit ''DRONE_COMMAND_RESULT''"
| "family_name GATEWAY_REQUEST = lit ''GATEWAY_REQUEST''"
| "family_name GATEWAY_RESPONSE = lit ''GATEWAY_RESPONSE''"
| "family_name GATEWAY_RECORD = lit ''GATEWAY_RECORD''"
| "family_name AGENT_PROPOSAL = lit ''AGENT_PROPOSAL''"
| "family_name AGENT_RESPONSE = lit ''AGENT_RESPONSE''"
| "family_name EVIDENCE_DECISION = lit ''EVIDENCE_DECISION''"
| "family_name AUDIT = lit ''AUDIT''"
| "family_name MISSION_EVENT = lit ''MISSION_EVENT''"
| "family_name SECTOR_EVENT = lit ''SECTOR_EVENT''"

definition levels :: "Family \<Rightarrow> pystr list" where
  "levels family = split_on 47 (template family)"

definition parameters :: "Family \<Rightarrow> pystr list" where
  "parameters family = map placeholder (filter is_placeholder (levels family))"

definition literal_suffix :: "Family \<Rightarrow> pystr" where
  "literal_suffix family = join_with 46 (filter (\<lambda>level. \<not> is_placeholder level) (levels family))"

text \<open>\<open>self.name.lower().replace("_", "-")\<close>: the names are ASCII.\<close>

definition outbox_family :: "Family \<Rightarrow> pystr" where
  "outbox_family family =
     map (\<lambda>c. if c = 95 then 45 else c)
       (map (\<lambda>c. if 65 \<le> c \<and> c \<le> 90 then c + 32 else c) (family_name family))"

definition type_suffix :: "Family \<Rightarrow> pystr" where
  "type_suffix family =
     join_with 46 (filter (\<lambda>level. \<not> (is_placeholder level \<and> rule_for (placeholder level) \<in> set INSTANCE_RULES))
       (levels family))"

datatype Delivery = DIRECT | GUARANTEED | REQUEST_REPLY

definition DELIVERY :: "(Family, Delivery) pydict" where
  "DELIVERY =
    [(OPERATOR_COMMAND, GUARANTEED),
     (OPERATOR_APPROVAL, GUARANTEED),
     (DRONE_TELEMETRY, DIRECT),
     (DRONE_EVENT, GUARANTEED),
     (DRONE_COMMAND, GUARANTEED),
     (DRONE_COMMAND_RESULT, GUARANTEED),
     (GATEWAY_REQUEST, REQUEST_REPLY),
     (GATEWAY_RESPONSE, REQUEST_REPLY),
     (GATEWAY_RECORD, DIRECT),
     (AGENT_PROPOSAL, GUARANTEED),
     (AGENT_RESPONSE, DIRECT),
     (EVIDENCE_DECISION, GUARANTEED),
     (AUDIT, GUARANTEED),
     (MISSION_EVENT, GUARANTEED),
     (SECTOR_EVENT, GUARANTEED)]"

text \<open>The subscript \<open>_DELIVERY[family]\<close>, \<open>None\<close> where it would raise.\<close>

definition delivery_for :: "Family \<Rightarrow> Delivery option" where
  "delivery_for family = map_of DELIVERY family"

section \<open>Refusals\<close>

datatype TopicRefusal =
    UNSUPPORTED_TYPE | LENGTH | WILDCARD | PREFIX | SHAPE | IDENTIFIER_FORM | KIND_FORM
  | AGENT_NAME_FORM | DECISION_VALUE | PARAMETER_SET

text \<open>What a topic function raises: a \<open>TopicError\<close> with its refusal, value and parameter, or one of
  Python's own exceptions.\<close>

datatype topic_error =
    TopicError TopicRefusal pyval "pystr option"
  | UnicodeEncodeError pystr
  | KeyError pystr

fun REFUSAL_BY_RULE :: "Rule \<Rightarrow> TopicRefusal" where
  "REFUSAL_BY_RULE IDENTIFIER = IDENTIFIER_FORM"
| "REFUSAL_BY_RULE KIND = KIND_FORM"
| "REFUSAL_BY_RULE AGENT_NAME = AGENT_NAME_FORM"
| "REFUSAL_BY_RULE DECISION = DECISION_VALUE"

record Topic =
  family :: Family
  mission_id :: pystr
  topic_parameters :: "(pystr, pystr) pydict"

section \<open>Building and parsing\<close>

fun conforms :: "Rule \<Rightarrow> pystr \<Rightarrow> bool" where
  "conforms IDENTIFIER val = fullmatch IDENTIFIER_PATTERN val"
| "conforms KIND val = (length val \<le> MAX_KIND_LENGTH \<and> fullmatch KIND_PATTERN val)"
| "conforms AGENT_NAME val = fullmatch AGENT_NAME_PATTERN val"
| "conforms DECISION val = (val \<in> set DECISIONS)"

definition validated_level :: "pystr \<Rightarrow> pystr \<Rightarrow> topic_error + pystr" where
  "validated_level parameter val =
     (if \<not> conforms (rule_for parameter) val
      then Inl (TopicError (REFUSAL_BY_RULE (rule_for parameter)) (PStr val) (Some parameter))
      else Inr val)"

text \<open>One level of a template, filled from the parameters: the loop body that \<open>format_topic\<close> and
  \<open>event_type\<close> share.\<close>

definition fill_level :: "(pystr, pystr) pydict \<Rightarrow> pystr \<Rightarrow> topic_error + pystr" where
  "fill_level ps level =
     (if is_placeholder level then
        (case map_of ps (placeholder level) of
           None \<Rightarrow> Inl (KeyError (placeholder level))
         | Some val \<Rightarrow> validated_level (placeholder level) val)
      else Inr level)"

definition format_topic :: "Topic \<Rightarrow> topic_error + pystr" where
  "format_topic topic =
     (if set (dict_keys (topic_parameters topic)) \<noteq> set (parameters (family topic))
      then Inl (TopicError PARAMETER_SET (PList (map PStr (sort (dict_keys (topic_parameters topic))))) None)
      else bindE (validated_level MISSION_PARAMETER (mission_id topic)) (\<lambda>mission.
        bindE (mapE (fill_level (topic_parameters topic)) (levels (family topic))) (\<lambda>filled.
          Inr (join_with 47 (namespace_prefix # mission # filled)))))"

definition matches_template :: "pystr list \<Rightarrow> pystr list \<Rightarrow> bool" where
  "matches_template tmpl ls \<longleftrightarrow>
     length tmpl = length ls
     \<and> list_all (\<lambda>(expected, level). is_placeholder expected \<or> expected = level) (zip tmpl ls)"

definition bind_levels :: "pystr list \<Rightarrow> pystr list \<Rightarrow> topic_error + (pystr, pystr) pydict" where
  "bind_levels tmpl ls =
     mapE (\<lambda>(expected, level). bindE (validated_level (placeholder expected) level)
            (\<lambda>val. Inr (placeholder expected, val)))
          (filter (\<lambda>(expected, level). is_placeholder expected) (zip tmpl ls))"

definition family_for :: "pystr list \<Rightarrow> pystr \<Rightarrow> topic_error + Family" where
  "family_for ls text =
     (case List.find (\<lambda>f. matches_template (levels f) ls) Enum.enum of
        Some f \<Rightarrow> Inr f
      | None \<Rightarrow> Inl (TopicError SHAPE (PStr text) None))"

text \<open>A text that fits a family has more than three levels, so \<open>levels[2]\<close> exists where it is
  read.\<close>

fun parse_topic :: "pyval \<Rightarrow> topic_error + Topic" where
  "parse_topic (PStr text) =
     (case utf8 text of
        None \<Rightarrow> Inl (UnicodeEncodeError text)
      | Some bytes \<Rightarrow>
          if length bytes > MAX_TOPIC_BYTES then Inl (TopicError LENGTH (PStr text) None)
          else if \<exists>character \<in> set text. character \<in> set WILDCARD_CHARACTERS
          then Inl (TopicError WILDCARD (PStr text) None)
          else
            let ls = split_on 47 text
            in if take 2 ls \<noteq> PREFIX_LEVELS then Inl (TopicError PREFIX (PStr text) None)
               else bindE (family_for (drop 3 ls) text) (\<lambda>fam.
                 bindE (validated_level MISSION_PARAMETER (ls ! 2)) (\<lambda>mission.
                   bindE (bind_levels (levels fam) (drop 3 ls)) (\<lambda>ps.
                     Inr \<lparr>family = fam, mission_id = mission, topic_parameters = ps\<rparr>))))"
| "parse_topic other = Inl (TopicError UNSUPPORTED_TYPE other None)"

section \<open>Type discriminators\<close>

definition event_type :: "Topic \<Rightarrow> topic_error + pystr" where
  "event_type topic =
     bindE (mapE (fill_level (topic_parameters topic)) (split_on 46 (type_suffix (family topic))))
       (\<lambda>segments. Inr (TYPE_PREFIX @ join_with 46 segments))"

fun parse_event_type :: "pyval \<Rightarrow> topic_error + Family \<times> (pystr, pystr) pydict" where
  "parse_event_type (PStr text) =
     (if take (length TYPE_PREFIX) text \<noteq> TYPE_PREFIX then Inl (TopicError PREFIX (PStr text) None)
      else
        let segments = split_on 46 (drop (length TYPE_PREFIX) text)
        in case List.find (\<lambda>f. matches_template (split_on 46 (type_suffix f)) segments) Enum.enum of
             Some f \<Rightarrow> bindE (bind_levels (split_on 46 (type_suffix f)) segments) (\<lambda>ps. Inr (f, ps))
           | None \<Rightarrow> Inl (TopicError SHAPE (PStr text) None))"
| "parse_event_type other = Inl (TopicError UNSUPPORTED_TYPE other None)"

section \<open>The templates, computed\<close>

lemma levels_of [simp]:
  "levels OPERATOR_COMMAND = [lit ''operator'', lit ''command'', lit ''{commandType}'']"
  "levels OPERATOR_APPROVAL = [lit ''operator'', lit ''approval'', lit ''{decision}'']"
  "levels DRONE_TELEMETRY = [lit ''drone'', lit ''{droneId}'', lit ''telemetry'']"
  "levels DRONE_EVENT = [lit ''drone'', lit ''{droneId}'', lit ''event'', lit ''{eventType}'']"
  "levels DRONE_COMMAND = [lit ''drone'', lit ''{droneId}'', lit ''command'', lit ''{commandType}'']"
  "levels DRONE_COMMAND_RESULT = [lit ''drone'', lit ''{droneId}'', lit ''command-result'', lit ''{commandId}'']"
  "levels GATEWAY_REQUEST = [lit ''gateway'', lit ''request'', lit ''{operation}'']"
  "levels GATEWAY_RESPONSE = [lit ''gateway'', lit ''response'', lit ''{requestorId}'']"
  "levels GATEWAY_RECORD = [lit ''gateway'', lit ''record'', lit ''{requestId}'']"
  "levels AGENT_PROPOSAL = [lit ''agent'', lit ''proposal'', lit ''{agentName}'', lit ''{proposalType}'']"
  "levels AGENT_RESPONSE = [lit ''agent'', lit ''response'', lit ''{agentName}'']"
  "levels EVIDENCE_DECISION = [lit ''evidence'', lit ''decision'', lit ''{proposalId}'']"
  "levels AUDIT = [lit ''audit'', lit ''{recordType}'']"
  "levels MISSION_EVENT = [lit ''mission'', lit ''event'', lit ''{eventType}'']"
  "levels SECTOR_EVENT = [lit ''sector'', lit ''{sectorId}'', lit ''event'', lit ''{eventType}'']"
  by code_simp+

lemma type_levels_of [simp]:
  "split_on 46 (type_suffix OPERATOR_COMMAND) = [lit ''operator'', lit ''command'', lit ''{commandType}'']"
  "split_on 46 (type_suffix OPERATOR_APPROVAL) = [lit ''operator'', lit ''approval'', lit ''{decision}'']"
  "split_on 46 (type_suffix DRONE_TELEMETRY) = [lit ''drone'', lit ''telemetry'']"
  "split_on 46 (type_suffix DRONE_EVENT) = [lit ''drone'', lit ''event'', lit ''{eventType}'']"
  "split_on 46 (type_suffix DRONE_COMMAND) = [lit ''drone'', lit ''command'', lit ''{commandType}'']"
  "split_on 46 (type_suffix DRONE_COMMAND_RESULT) = [lit ''drone'', lit ''command-result'']"
  "split_on 46 (type_suffix GATEWAY_REQUEST) = [lit ''gateway'', lit ''request'', lit ''{operation}'']"
  "split_on 46 (type_suffix GATEWAY_RESPONSE) = [lit ''gateway'', lit ''response'']"
  "split_on 46 (type_suffix GATEWAY_RECORD) = [lit ''gateway'', lit ''record'']"
  "split_on 46 (type_suffix AGENT_PROPOSAL) = [lit ''agent'', lit ''proposal'', lit ''{proposalType}'']"
  "split_on 46 (type_suffix AGENT_RESPONSE) = [lit ''agent'', lit ''response'']"
  "split_on 46 (type_suffix EVIDENCE_DECISION) = [lit ''evidence'', lit ''decision'']"
  "split_on 46 (type_suffix AUDIT) = [lit ''audit'', lit ''{recordType}'']"
  "split_on 46 (type_suffix MISSION_EVENT) = [lit ''mission'', lit ''event'', lit ''{eventType}'']"
  "split_on 46 (type_suffix SECTOR_EVENT) = [lit ''sector'', lit ''event'', lit ''{eventType}'']"
  by code_simp+

lemma is_placeholder_lit [simp]: "is_placeholder (lit s) \<longleftrightarrow> take 1 s = ''{''"
  unfolding is_placeholder_def by (simp add: lit_def take_map flip: lit_inject)

lemma placeholder_lit [simp]: "placeholder (lit s) = lit (butlast (tl s))"
  by (simp add: placeholder_def lit_def map_butlast map_tl)

lemma matches_template_simps [simp]:
  "matches_template [] ls \<longleftrightarrow> ls = []"
  "matches_template (t # ts) (l # ls) \<longleftrightarrow> (is_placeholder t \<or> t = l) \<and> matches_template ts ls"
  "matches_template (t # ts) [] \<longleftrightarrow> False"
  by (auto simp: matches_template_def)

lemma matches_template_Cons:
  "matches_template (t # ts) ls \<longleftrightarrow>
     (\<exists>l ls'. ls = l # ls' \<and> (is_placeholder t \<or> t = l) \<and> matches_template ts ls')"
  by (cases ls) simp_all

text \<open>No two families share a topic, and none share a type: two templates that fit the same levels
  agree wherever neither has a placeholder, and no two of the families do.\<close>

fun overlap :: "pystr list \<Rightarrow> pystr list \<Rightarrow> bool" where
  "overlap [] [] \<longleftrightarrow> True"
| "overlap (t # ts) (u # us) \<longleftrightarrow> (is_placeholder t \<or> is_placeholder u \<or> t = u) \<and> overlap ts us"
| "overlap _ _ \<longleftrightarrow> False"

lemma matches_overlap: "matches_template ts ls \<Longrightarrow> matches_template us ls \<Longrightarrow> overlap ts us"
  by (induction ts us arbitrary: ls rule: overlap.induct) (auto simp: matches_template_Cons)

lemma find_only:
  assumes "P x" "x \<in> set xs" "\<And>y. P y \<Longrightarrow> y = x"
  shows "List.find P xs = Some x"
  using assms(2)
proof (induction xs)
  case (Cons y ys)
  with assms(1) assms(3) [of y] show ?case by (cases "P y") auto
qed simp

lemma levels_unambiguous: "\<forall>f g. overlap (levels f) (levels g) \<longrightarrow> f = g"
  by code_simp

lemma types_unambiguous:
  "\<forall>f g. overlap (split_on 46 (type_suffix f)) (split_on 46 (type_suffix g)) \<longrightarrow> f = g"
  by code_simp

lemma find_family:
  assumes "matches_template (levels f) ls"
  shows "List.find (\<lambda>f. matches_template (levels f) ls) Enum.enum = Some f"
  using matches_overlap assms levels_unambiguous by (intro find_only) (auto simp: enum_UNIV)

lemma find_type_family:
  assumes "matches_template (split_on 46 (type_suffix f)) ls"
  shows "List.find (\<lambda>f. matches_template (split_on 46 (type_suffix f)) ls) Enum.enum = Some f"
  using matches_overlap assms types_unambiguous by (intro find_only) (auto simp: enum_UNIV)

section \<open>Valid levels\<close>

definition safe_level :: "pystr \<Rightarrow> bool" where
  "safe_level v \<longleftrightarrow> v \<noteq> [] \<and> length v \<le> 64 \<and> (\<forall>c \<in> set v. c < 128 \<and> c \<notin> {42, 46, 47, 62})"

lemma identifier_length: "fullmatch IDENTIFIER_PATTERN v \<Longrightarrow> v \<noteq> [] \<and> length v \<le> 64"
  by (auto simp: fullmatch_iff IDENTIFIER_PATTERN_def lang_between_Cls [of 0 62, simplified])

lemma conforms_length: "conforms rule v \<Longrightarrow> v \<noteq> [] \<and> length v \<le> 64"
proof (cases rule)
  case KIND
  assume "conforms rule v"
  with KIND show ?thesis
    by (auto simp: MAX_KIND_LENGTH_def fullmatch_iff KIND_PATTERN_def)
next
  case AGENT_NAME
  assume "conforms rule v"
  with AGENT_NAME show ?thesis
    by (auto simp: fullmatch_iff AGENT_NAME_PATTERN_def lang_between_Cls)
qed (auto simp: identifier_length DECISIONS_def)

lemma conforms_alphabet: "conforms rule v \<Longrightarrow> c \<in> set v \<Longrightarrow> c < 128 \<and> c \<notin> {42, 46, 47, 62}"
proof (cases rule)
  case IDENTIFIER
  assume "conforms rule v" "c \<in> set v"
  with IDENTIFIER have "alphabet IDENTIFIER_PATTERN c" by (simp add: fullmatch_alphabet)
  then show ?thesis by (auto simp: IDENTIFIER_PATTERN_def dest!: alphabet_between)
next
  case KIND
  assume "conforms rule v" "c \<in> set v"
  with KIND have "alphabet KIND_PATTERN c" by (auto intro: fullmatch_alphabet)
  then show ?thesis by (auto simp: KIND_PATTERN_def Plus_def)
next
  case AGENT_NAME
  assume "conforms rule v" "c \<in> set v"
  with AGENT_NAME have "alphabet AGENT_NAME_PATTERN c" by (simp add: fullmatch_alphabet)
  then show ?thesis by (auto simp: AGENT_NAME_PATTERN_def dest!: alphabet_between)
qed (auto simp: DECISIONS_def lit_def)

lemma validated_level_Inr [simp]:
  "validated_level p v = Inr w \<longleftrightarrow> w = v \<and> conforms (rule_for p) v"
  by (auto simp: validated_level_def)

lemma conforms_safe: "conforms rule v \<Longrightarrow> safe_level v"
  unfolding safe_level_def using conforms_length conforms_alphabet by blast

section \<open>Filling and binding a template\<close>

lemma bind_levels_simps [simp]:
  "bind_levels [] ls = Inr []"
  "bind_levels (t # ts) (l # ls) =
     (if is_placeholder t then bindE (validated_level (placeholder t) l) (\<lambda>v.
        bindE (bind_levels ts ls) (\<lambda>ps. Inr ((placeholder t, v) # ps)))
      else bind_levels ts ls)"
  by (simp_all add: bind_levels_def bindE_assoc)

lemma fill_level_Inr:
  "fill_level ps t = Inr l \<longleftrightarrow>
     (if is_placeholder t then map_of ps (placeholder t) = Some l \<and> conforms (rule_for (placeholder t)) l
      else l = t)"
  by (auto simp: fill_level_def split: option.splits)

definition names :: "pystr list \<Rightarrow> pystr list" where
  "names tmpl = map placeholder (filter is_placeholder tmpl)"

lemma names_simps [simp]:
  "names [] = []"
  "names (t # ts) = (if is_placeholder t then placeholder t # names ts else names ts)"
  by (simp_all add: names_def)

lemma map_of_map_keys: "map_of (map (\<lambda>n. (n, f n)) ns) n = (if n \<in> set ns then Some (f n) else None)"
  by (induction ns) auto

lemma bind_filled:
  "mapE (fill_level ps) tmpl = Inr ls \<Longrightarrow>
     matches_template tmpl ls \<and> bind_levels tmpl ls = Inr (map (\<lambda>n. (n, the (map_of ps n))) (names tmpl))"
  by (induction tmpl arbitrary: ls) (auto simp: fill_level_Inr split: if_splits)

lemma fill_cong:
  "(\<And>n. n \<in> set (names tmpl) \<Longrightarrow> map_of ps n = map_of qs n) \<Longrightarrow>
     mapE (fill_level ps) tmpl = mapE (fill_level qs) tmpl"
  by (intro mapE_cong) (auto simp: fill_level_def names_def)

lemma bind_levels_names: "bind_levels tmpl ls = Inr ps \<Longrightarrow> length tmpl = length ls \<Longrightarrow> dict_keys ps = names tmpl"
proof (induction tmpl arbitrary: ls ps)
  case (Cons t tmpl)
  then show ?case by (cases ls) (auto simp: split: if_splits)
qed simp

lemma filled_bind:
  assumes "matches_template tmpl ls" "bind_levels tmpl ls = Inr ps" "distinct (names tmpl)"
  shows "mapE (fill_level ps) tmpl = Inr ls"
  using assms
proof (induction tmpl arbitrary: ls ps)
  case (Cons t tmpl)
  from Cons.prems(1) obtain l ls' where ls: "ls = l # ls'" "is_placeholder t \<or> t = l"
    "matches_template tmpl ls'" by (auto simp: matches_template_Cons)
  show ?case
  proof (cases "is_placeholder t")
    case True
    with Cons.prems(2) ls obtain qs where qs: "bind_levels tmpl ls' = Inr qs"
      "ps = (placeholder t, l) # qs" "conforms (rule_for (placeholder t)) l" by auto
    with Cons.IH [OF ls(3) qs(1)] Cons.prems(3) True
    have "mapE (fill_level qs) tmpl = Inr ls'" by simp
    moreover have "mapE (fill_level ps) tmpl = mapE (fill_level qs) tmpl"
      using Cons.prems(3) True qs(2) by (intro fill_cong) auto
    ultimately show ?thesis using True ls qs by (simp add: fill_level_Inr)
  next
    case False
    with Cons ls show ?thesis by (simp add: fill_level_Inr)
  qed
qed simp

lemma filled_safe:
  "mapE (fill_level ps) tmpl = Inr ls \<Longrightarrow> l \<in> set ls \<Longrightarrow> safe_level l \<or> l \<in> set tmpl \<and> \<not> is_placeholder l"
  by (induction tmpl arbitrary: ls) (auto simp: fill_level_Inr split: if_splits intro: conforms_safe)

lemma literal_safe:
  "l \<in> set (levels f) \<Longrightarrow> \<not> is_placeholder l \<Longrightarrow> safe_level l"
  "l \<in> set (split_on 46 (type_suffix f)) \<Longrightarrow> \<not> is_placeholder l \<Longrightarrow> safe_level l"
  by (cases f; force simp: safe_level_def lit_def is_placeholder_def)+

lemma parameters_names: "parameters f = names (levels f)"
  by (simp add: parameters_def names_def)

lemma distinct_parameters: "distinct (names (levels f))"
  by (cases f) simp_all

section \<open>Properties\<close>

lemma PREFIX_LEVELS_eq: "PREFIX_LEVELS = [lit ''aerial-rescue'', lit ''v1'']"
  by code_simp

lemma prefix_join: "join_with 47 (namespace_prefix # ws) = join_with 47 (PREFIX_LEVELS @ ws)" if "ws \<noteq> []"
proof -
  have "namespace_prefix = join_with 47 [lit ''aerial-rescue'', lit ''v1'']"
    unfolding PREFIX_LEVELS_eq [symmetric] PREFIX_LEVELS_def by (rule join_split [symmetric])
  with that show ?thesis by (simp add: PREFIX_LEVELS_eq join_with_Cons)
qed

lemma join_safe:
  assumes "\<And>l. l \<in> set ls \<Longrightarrow> safe_level l" "ls \<noteq> []"
  shows "split_on 47 (join_with 47 ls) = ls" "ascii (join_with 47 ls)"
    "c \<in> set (join_with 47 ls) \<Longrightarrow> c \<notin> set WILDCARD_CHARACTERS"
proof -
  show "split_on 47 (join_with 47 ls) = ls"
    using assms by (intro split_join) (auto simp: safe_level_def)
  show "ascii (join_with 47 ls)"
    using assms(1) by (intro ascii_join) (auto simp: safe_level_def ascii_def)
  show "c \<notin> set WILDCARD_CHARACTERS" if "c \<in> set (join_with 47 ls)"
  proof -
    from that set_join_with [of 47 ls] obtain l where "c = 47 \<or> l \<in> set ls \<and> c \<in> set l" by blast
    with assms(1) [of l] show ?thesis by (auto simp: safe_level_def WILDCARD_CHARACTERS_def lit_def)
  qed
qed

text \<open>The longest topic has four levels after the mission, two of them literals of at most fourteen
  and five characters.\<close>

definition room :: "pystr \<Rightarrow> nat" where
  "room level = (if is_placeholder level then 64 else length level)"

lemma filled_room:
  "mapE (fill_level ps) tmpl = Inr ls \<Longrightarrow> sum_list (map length ls) \<le> sum_list (map room tmpl)"
  by (induction tmpl arbitrary: ls)
     (auto simp: fill_level_Inr room_def dest: conforms_length split: if_splits intro!: add_mono)

lemma template_room: "sum_list (map room (levels f)) + length (levels f) \<le> 151"
  by (cases f) (simp_all add: room_def)

lemma format_topic_Inr:
  assumes "format_topic t = Inr s"
  obtains ls where "set (dict_keys (topic_parameters t)) = set (names (levels (family t)))"
    "conforms IDENTIFIER (mission_id t)" "mapE (fill_level (topic_parameters t)) (levels (family t)) = Inr ls"
    "s = join_with 47 (PREFIX_LEVELS @ mission_id t # ls)"
    "\<forall>l \<in> set (PREFIX_LEVELS @ mission_id t # ls). safe_level l"
proof -
  have rule: "rule_for MISSION_PARAMETER = IDENTIFIER" by code_simp
  from assms obtain ls where ls: "set (dict_keys (topic_parameters t)) = set (names (levels (family t)))"
    "conforms IDENTIFIER (mission_id t)" "mapE (fill_level (topic_parameters t)) (levels (family t)) = Inr ls"
    and s: "s = join_with 47 (namespace_prefix # mission_id t # ls)"
    by (auto simp: format_topic_def rule parameters_names split: if_splits)
  have "safe_level l" if "l \<in> set PREFIX_LEVELS" for l
    using that by (auto simp: PREFIX_LEVELS_eq safe_level_def lit_def)
  moreover have "safe_level l" if "l \<in> set ls" for l
    using filled_safe [OF ls(3) that] literal_safe(1) by blast
  moreover have "safe_level (mission_id t)" using ls(2) by (rule conforms_safe)
  ultimately have "\<forall>l \<in> set (PREFIX_LEVELS @ mission_id t # ls). safe_level l" by auto
  with ls s show thesis by (intro that) (simp_all only: prefix_join list.distinct simp_thms)
qed

lemma format_topic_text:
  assumes "format_topic t = Inr s"
  shows "ascii s" "length s \<le> 232" "\<forall>c \<in> set s. c \<notin> set WILDCARD_CHARACTERS" "[] \<notin> set (split_on 47 s)"
proof -
  from assms obtain ls where "set (dict_keys (topic_parameters t)) = set (names (levels (family t)))"
    and ls: "conforms IDENTIFIER (mission_id t)"
      "mapE (fill_level (topic_parameters t)) (levels (family t)) = Inr ls"
    and s: "s = join_with 47 (PREFIX_LEVELS @ mission_id t # ls)"
    and safe: "\<forall>l \<in> set (PREFIX_LEVELS @ mission_id t # ls). safe_level l"
    by (rule format_topic_Inr)
  let ?ls = "PREFIX_LEVELS @ mission_id t # ls"
  have safes: "\<And>l. l \<in> set ?ls \<Longrightarrow> safe_level l" "?ls \<noteq> []" using safe by auto
  show "ascii s" "\<forall>c \<in> set s. c \<notin> set WILDCARD_CHARACTERS"
    unfolding s using join_safe(2,3) [OF safes] by blast+
  have "\<not> safe_level []" by (simp add: safe_level_def)
  then have "[] \<notin> set ?ls" using safes(1) by blast
  moreover have "split_on 47 s = ?ls" unfolding s by (rule join_safe(1); rule safes; assumption?)
  ultimately show "[] \<notin> set (split_on 47 s)" by simp
  have "length s = sum_list (map length ?ls) + length ?ls - 1"
    unfolding s by (rule length_join_with) simp
  then have "length s = 17 + length (mission_id t) + sum_list (map length ls) + length (levels (family t))"
    by (simp add: PREFIX_LEVELS_eq mapE_length [OF ls(2)])
  then show "length s \<le> 232"
    using filled_room [OF ls(2)] template_room [of "family t"] conforms_length [OF ls(1)] by linarith
qed

text \<open>A formatted topic is publishable: it is ASCII, fits the broker's 250 bytes, carries no
  subscription wildcard, and has no empty level.\<close>

theorem format_topic_publishable:
  assumes "format_topic t = Inr s"
  shows "utf8 s = Some s \<and> length s \<le> MAX_TOPIC_BYTES
    \<and> (\<forall>c \<in> set s. c \<notin> set WILDCARD_CHARACTERS) \<and> [] \<notin> set (split_on 47 s)"
  using format_topic_text [OF assms] by (simp add: MAX_TOPIC_BYTES_def utf8_ascii)

theorem format_topic_publishable_witness:
  "utf8 (lit ''aerial-rescue/v1/m-1/audit/approval-consumed'') = Some (lit ''aerial-rescue/v1/m-1/audit/approval-consumed'')"
proof -
  have "format_topic \<lparr>family = AUDIT, mission_id = lit ''m-1'',
      topic_parameters = [(lit ''recordType'', lit ''approval-consumed'')]\<rparr>
    = Inr (lit ''aerial-rescue/v1/m-1/audit/approval-consumed'')" by code_simp
  from format_topic_publishable [OF this] show ?thesis by blast
qed

lemma format_topic_parses:
  assumes "format_topic t = Inr s"
  shows "\<exists>u. parse_topic (PStr s) = Inr u \<and> family u = family t \<and> mission_id u = mission_id t
    \<and> map_of (topic_parameters u) = map_of (topic_parameters t)"
proof -
  let ?f = "family t" and ?m = "mission_id t" and ?ps = "topic_parameters t"
  from assms obtain ls where keys: "set (dict_keys ?ps) = set (names (levels ?f))"
    and mission: "conforms IDENTIFIER ?m" and filled: "mapE (fill_level ?ps) (levels ?f) = Inr ls"
    and s: "s = join_with 47 (PREFIX_LEVELS @ ?m # ls)"
    and safe: "\<forall>l \<in> set (PREFIX_LEVELS @ ?m # ls). safe_level l"
    by (rule format_topic_Inr)
  let ?qs = "map (\<lambda>n. (n, the (map_of ?ps n))) (names (levels ?f))"
  have "split_on 47 s = PREFIX_LEVELS @ ?m # ls" unfolding s using join_safe(1) [of "PREFIX_LEVELS @ ?m # ls"] safe by blast
  then have split: "take 2 (split_on 47 s) = PREFIX_LEVELS" "split_on 47 s ! 2 = ?m" "drop 3 (split_on 47 s) = ls"
    by (simp_all add: PREFIX_LEVELS_eq numeral_eq_Suc)
  from bind_filled [OF filled] have fits: "matches_template (levels ?f) ls" "bind_levels (levels ?f) ls = Inr ?qs"
    by blast+
  then have "family_for ls s = Inr ?f" by (simp add: family_for_def find_family)
  moreover have "rule_for MISSION_PARAMETER = IDENTIFIER" by code_simp
  ultimately have "parse_topic (PStr s) = Inr \<lparr>family = ?f, mission_id = ?m, topic_parameters = ?qs\<rparr>"
    using format_topic_text [OF assms] mission fits split
    by (simp add: validated_level_def utf8_ascii MAX_TOPIC_BYTES_def)
  moreover have "map_of ?qs = map_of ?ps"
  proof
    fix n
    show "map_of ?qs n = map_of ?ps n"
    proof (cases "n \<in> set (names (levels ?f))")
      case True
      then obtain v where "map_of ?ps n = Some v" using keys by (metis domD dom_map_of_conv_image_fst list.set_map)
      with True show ?thesis by (simp add: map_of_map_keys)
    next
      case False
      with keys have "map_of ?ps n = None" by (simp add: map_of_eq_None_iff)
      with False show ?thesis by (simp add: map_of_map_keys)
    qed
  qed
  ultimately show ?thesis by auto
qed

text \<open>C34. Parsing inverts formatting: the parsed topic has the family, mission and parameter values of the
  formatted one, whatever the order its parameters were given in.\<close>

theorem parse_format_topic:
  assumes "format_topic t = Inr s"
  shows "\<exists>u. parse_topic (PStr s) = Inr u \<and> family u = family t \<and> mission_id u = mission_id t
    \<and> map_of (topic_parameters u) = map_of (topic_parameters t)"
  using assms by (rule format_topic_parses)

theorem parse_format_topic_witness:
  "\<exists>u. parse_topic (PStr (lit ''aerial-rescue/v1/m-1/drone/d-7/command/hold'')) = Inr u
    \<and> family u = DRONE_COMMAND \<and> mission_id u = lit ''m-1''"
proof -
  have "format_topic \<lparr>family = DRONE_COMMAND, mission_id = lit ''m-1'',
      topic_parameters = [(lit ''commandType'', lit ''hold''), (lit ''droneId'', lit ''d-7'')]\<rparr>
    = Inr (lit ''aerial-rescue/v1/m-1/drone/d-7/command/hold'')" by code_simp
  from parse_format_topic [OF this] show ?thesis unfolding Topic.simps by blast
qed

lemma parsed_topic_keys:
  assumes "parse_topic v = Inr t"
  shows "dict_keys (topic_parameters t) = parameters (family t)"
proof -
  from assms obtain s where "v = PStr s" by (cases v) simp_all
  with assms have fam: "family_for (drop 3 (split_on 47 s)) s = Inr (family t)"
    and bound: "bind_levels (levels (family t)) (drop 3 (split_on 47 s)) = Inr (topic_parameters t)"
    by (auto simp: Let_def split: option.splits if_splits)
  from fam have "matches_template (levels (family t)) (drop 3 (split_on 47 s))"
    by (auto simp: family_for_def find_Some_iff split: option.splits)
  with bind_levels_names [OF bound] show ?thesis by (simp add: parameters_names matches_template_def)
qed

text \<open>C35. Formatting inverts parsing: the text of a parsed topic is the text that was parsed, so one
  topic has one spelling.\<close>

theorem format_parse_topic:
  assumes "parse_topic (PStr s) = Inr t"
  shows "format_topic t = Inr s"
proof -
  let ?ls = "split_on 47 s" and ?f = "family t"
  from assms have prefix: "take 2 ?ls = PREFIX_LEVELS" and fam: "family_for (drop 3 ?ls) s = Inr ?f"
    and mission: "mission_id t = ?ls ! 2" "validated_level MISSION_PARAMETER (?ls ! 2) = Inr (?ls ! 2)"
    and bound: "bind_levels (levels ?f) (drop 3 ?ls) = Inr (topic_parameters t)"
    by (auto simp: Let_def split: option.splits if_splits)
  from fam have fits: "matches_template (levels ?f) (drop 3 ?ls)"
    by (auto simp: family_for_def find_Some_iff split: option.splits)
  have "length (levels ?f) = length (drop 3 ?ls)" using fits by (simp add: matches_template_def)
  moreover have "levels ?f \<noteq> []" by (cases ?f) simp_all
  ultimately have "3 < length ?ls" by (cases "levels ?f") auto
  then have "?ls = PREFIX_LEVELS @ ?ls ! 2 # drop 3 ?ls"
    by (metis Cons_nth_drop_Suc Suc_lessD append_take_drop_id eval_nat_numeral(3) prefix)
  then have "join_with 47 (namespace_prefix # ?ls ! 2 # drop 3 ?ls) = s"
    by (metis join_split list.distinct(1) prefix_join)
  moreover have "mapE (fill_level (topic_parameters t)) (levels ?f) = Inr (drop 3 ?ls)"
    by (rule filled_bind [OF fits bound distinct_parameters])
  ultimately show ?thesis using mission parsed_topic_keys [OF assms] by (simp add: format_topic_def)
qed

theorem format_parse_topic_witness:
  "format_topic \<lparr>family = AUDIT, mission_id = lit ''m-1'',
     topic_parameters = [(lit ''recordType'', lit ''approval-consumed'')]\<rparr>
   = Inr (lit ''aerial-rescue/v1/m-1/audit/approval-consumed'')"
  by (rule format_parse_topic) code_simp

lemma event_type_levels:
  assumes "event_type t = Inr s"
  obtains ls where "s = TYPE_PREFIX @ join_with 46 ls" "split_on 46 (join_with 46 ls) = ls"
    "mapE (fill_level (topic_parameters t)) (split_on 46 (type_suffix (family t))) = Inr ls"
    "List.find (\<lambda>f. matches_template (split_on 46 (type_suffix f)) ls) Enum.enum = Some (family t)"
proof -
  let ?tmpl = "split_on 46 (type_suffix (family t))"
  from assms obtain ls where filled: "mapE (fill_level (topic_parameters t)) ?tmpl = Inr ls"
    and s: "s = TYPE_PREFIX @ join_with 46 ls" by (auto simp: event_type_def)
  from filled have "ls \<noteq> []" by (auto dest: mapE_length)
  moreover have "46 \<notin> set l" if "l \<in> set ls" for l
    using filled_safe [OF filled that] literal_safe(2) unfolding safe_level_def by blast
  ultimately have "split_on 46 (join_with 46 ls) = ls" by (rule split_join)
  moreover from bind_filled [OF filled] have "matches_template ?tmpl ls" by blast
  ultimately show thesis by (intro that [OF s _ filled] find_type_family)
qed

lemma event_type_family:
  "event_type t = Inr s \<Longrightarrow> parse_event_type (PStr s) = Inr (f, ps) \<Longrightarrow> family t = f"
  by (erule event_type_levels) auto

text \<open>The type discriminator of a topic names its family and carries its kind levels: parsing it
  gives the family and, for every kind parameter, the value the topic has.\<close>

theorem parse_event_type_of_topic:
  assumes "event_type t = Inr s"
  shows "parse_event_type (PStr s) = Inr (family t,
    map (\<lambda>n. (n, the (map_of (topic_parameters t) n))) (names (split_on 46 (type_suffix (family t)))))"
proof -
  from assms obtain ls where s: "s = TYPE_PREFIX @ join_with 46 ls" "split_on 46 (join_with 46 ls) = ls"
    and filled: "mapE (fill_level (topic_parameters t)) (split_on 46 (type_suffix (family t))) = Inr ls"
    and found: "List.find (\<lambda>f. matches_template (split_on 46 (type_suffix f)) ls) Enum.enum = Some (family t)"
    by (rule event_type_levels)
  with bind_filled [OF filled] show ?thesis by simp
qed

theorem parse_event_type_of_topic_witness:
  "parse_event_type (PStr (lit ''aerial-rescue.v1.drone.command.hold''))
   = Inr (DRONE_COMMAND, [(lit ''commandType'', lit ''hold'')])"
proof -
  let ?t = "\<lparr>family = DRONE_COMMAND, mission_id = lit ''m-1'',
      topic_parameters = [(lit ''commandType'', lit ''hold''), (lit ''droneId'', lit ''d-7'')]\<rparr>"
  have "event_type ?t = Inr (lit ''aerial-rescue.v1.drone.command.hold'')" by code_simp
  from parse_event_type_of_topic [OF this] show ?thesis by (simp del: parse_event_type.simps)
qed

section \<open>Consequences\<close>

lemma delivery_total: "\<forall>f. delivery_for f \<noteq> None"
  by code_simp

text \<open>A text with a lone surrogate leaves \<open>parse_topic\<close> with Python's own exception, not with a
  \<open>TopicError\<close>.\<close>

lemma parse_topic_lone_surrogate: "parse_topic (PStr [0xD800]) = Inl (UnicodeEncodeError [0xD800])"
  by code_simp

end
