(* ===== verification/Principals.thy ===== *)
theory Principals
  imports Topics
begin

text \<open>
  \<open>packages/domain/src/aerial_rescue_domain/principals.py\<close>: which broker role may publish or
  subscribe to which topic family, deny by default.
\<close>

datatype Principal = FLEET_SIMULATOR | COMMAND_GATEWAY | DASHBOARD_API | EVIDENCE_SERVICE |
    RECORDER | EVENT_MESH_GATEWAY | EVENT_MESH_TOOL | AGENT_MESH_AGENT | DISCOVERY

lemma Principal_members:
  "s \<in> set [FLEET_SIMULATOR, COMMAND_GATEWAY, DASHBOARD_API, EVIDENCE_SERVICE, RECORDER,
    EVENT_MESH_GATEWAY, EVENT_MESH_TOOL, AGENT_MESH_AGENT, DISCOVERY]"
  by (cases s) simp_all

instantiation Principal :: enum
begin

definition enum_Principal :: "Principal list" where
  "enum_Principal = [FLEET_SIMULATOR, COMMAND_GATEWAY, DASHBOARD_API, EVIDENCE_SERVICE,
    RECORDER, EVENT_MESH_GATEWAY, EVENT_MESH_TOOL, AGENT_MESH_AGENT, DISCOVERY]"

definition enum_all_Principal :: "(Principal \<Rightarrow> bool) \<Rightarrow> bool" where
  "enum_all_Principal P \<longleftrightarrow> list_all P Enum.enum"

definition enum_ex_Principal :: "(Principal \<Rightarrow> bool) \<Rightarrow> bool" where
  "enum_ex_Principal P \<longleftrightarrow> list_ex P Enum.enum"

instance
  by standard (simp_all only: enum_Principal_def enum_all_Principal_def
    enum_ex_Principal_def enumerated [OF Principal_members], simp_all)

end

fun principal_value :: "Principal \<Rightarrow> pystr" where
  "principal_value FLEET_SIMULATOR = lit ''fleet-simulator''"
| "principal_value COMMAND_GATEWAY = lit ''command-gateway''"
| "principal_value DASHBOARD_API = lit ''dashboard-api''"
| "principal_value EVIDENCE_SERVICE = lit ''evidence-service''"
| "principal_value RECORDER = lit ''recorder''"
| "principal_value EVENT_MESH_GATEWAY = lit ''event-mesh-gateway''"
| "principal_value EVENT_MESH_TOOL = lit ''event-mesh-tool''"
| "principal_value AGENT_MESH_AGENT = lit ''agent-mesh-agent''"
| "principal_value DISCOVERY = lit ''discovery''"

datatype Access = PUBLISH | SUBSCRIBE

datatype PrincipalError = UNKNOWN_PRINCIPAL pyval | DENIED Principal Access Family

definition PUBLISH_GRANTS :: "(Principal, Family list) pydict" where
  "PUBLISH_GRANTS =
    [(FLEET_SIMULATOR, [DRONE_TELEMETRY, DRONE_EVENT, DRONE_COMMAND_RESULT, SECTOR_EVENT]),
     (COMMAND_GATEWAY, [DRONE_COMMAND, GATEWAY_RESPONSE, GATEWAY_RECORD, AGENT_PROPOSAL, AUDIT]),
     (DASHBOARD_API, [OPERATOR_COMMAND, OPERATOR_APPROVAL, MISSION_EVENT]),
     (EVIDENCE_SERVICE, [EVIDENCE_DECISION, AUDIT]),
     (RECORDER, []),
     (EVENT_MESH_GATEWAY, [AGENT_RESPONSE]),
     (EVENT_MESH_TOOL, [GATEWAY_REQUEST]),
     (AGENT_MESH_AGENT, []),
     (DISCOVERY, [])]"

definition SUBSCRIBE_GRANTS :: "(Principal, Family list) pydict" where
  "SUBSCRIBE_GRANTS =
    [(FLEET_SIMULATOR, [DRONE_COMMAND]),
     (COMMAND_GATEWAY,
       [OPERATOR_COMMAND, OPERATOR_APPROVAL, GATEWAY_REQUEST, AGENT_RESPONSE, DRONE_COMMAND_RESULT]),
     (DASHBOARD_API,
       [DRONE_TELEMETRY, DRONE_EVENT, DRONE_COMMAND, DRONE_COMMAND_RESULT, GATEWAY_RECORD, AGENT_PROPOSAL,
        AGENT_RESPONSE, EVIDENCE_DECISION, AUDIT]),
     (EVIDENCE_SERVICE, [DRONE_EVENT, AGENT_PROPOSAL]),
     (RECORDER, filter (\<lambda>f. f \<notin> {GATEWAY_REQUEST, GATEWAY_RESPONSE}) Enum.enum),
     (EVENT_MESH_GATEWAY, [DRONE_EVENT]),
     (EVENT_MESH_TOOL, []),
     (AGENT_MESH_AGENT, []),
     (DISCOVERY, [])]"

fun GRANTS :: "Access \<Rightarrow> (Principal, Family list) pydict" where
  "GRANTS PUBLISH = PUBLISH_GRANTS"
| "GRANTS SUBSCRIBE = SUBSCRIBE_GRANTS"

definition A2A :: "Principal list" where
  "A2A = [AGENT_MESH_AGENT, EVENT_MESH_GATEWAY, EVENT_MESH_TOOL]"

definition REPLY_CHANNEL :: "Principal list" where
  "REPLY_CHANNEL = [EVENT_MESH_TOOL]"

definition BY_NAME :: "(pystr, Principal) pydict" where
  "BY_NAME = map (\<lambda>m. (principal_value m, m)) Enum.enum"

fun principal :: "pyval \<Rightarrow> PrincipalError + Principal" where
  "principal (PStr text) =
     (case map_of BY_NAME text of None \<Rightarrow> Inl (UNKNOWN_PRINCIPAL (PStr text)) | Some m \<Rightarrow> Inr m)"
| "principal other = Inl (UNKNOWN_PRINCIPAL other)"

text \<open>\<open>_GRANTS[access][role]\<close>; the tables are total, as \<open>grants_total\<close> shows.\<close>

definition grants :: "Principal \<Rightarrow> Access \<Rightarrow> Family list" where
  "grants role access = the (map_of (GRANTS access) role)"

definition may_use :: "Principal \<Rightarrow> Access \<Rightarrow> Family \<Rightarrow> bool" where
  "may_use role access f \<longleftrightarrow> f \<in> set (grants role access)"

definition may_use_a2a :: "Principal \<Rightarrow> bool" where
  "may_use_a2a role \<longleftrightarrow> role \<in> set A2A"

definition may_use_reply_channel :: "Principal \<Rightarrow> bool" where
  "may_use_reply_channel role \<longleftrightarrow> role \<in> set REPLY_CHANNEL"

definition authorize :: "Principal \<Rightarrow> Access \<Rightarrow> Family \<Rightarrow> PrincipalError + Family" where
  "authorize role access f = (if \<not> may_use role access f then Inl (DENIED role access f) else Inr f)"

section \<open>Tables\<close>

lemma grants_total: "map_of (GRANTS access) role \<noteq> None"
  by (cases access; cases role) (simp_all add: PUBLISH_GRANTS_def SUBSCRIBE_GRANTS_def)

lemma principal_round_trip: "\<forall>role. principal (PStr (principal_value role)) = Inr role"
  by code_simp

lemma command_publishers: "\<forall>role. may_use role PUBLISH DRONE_COMMAND \<longleftrightarrow> role = COMMAND_GATEWAY"
  by code_simp

lemma rpc_unread: "\<forall>role. may_use role SUBSCRIBE GATEWAY_RESPONSE \<longleftrightarrow> False"
  by code_simp

lemma agents_silent:
  "\<forall>f. \<not> may_use AGENT_MESH_AGENT PUBLISH f \<and> \<not> may_use AGENT_MESH_AGENT SUBSCRIBE f
     \<and> \<not> may_use RECORDER PUBLISH f \<and> \<not> may_use DISCOVERY PUBLISH f"
  by code_simp

lemma telemetry_loop: "\<forall>role f. may_use role PUBLISH f \<and> may_use role SUBSCRIBE f \<longrightarrow> False"
  by code_simp

section \<open>Properties\<close>

text \<open>Only the command gateway commands drones: authorization to publish on the drone-command family
  succeeds for the command gateway and is denied, naming role and family, to every other role; the
  roles an agent runs under publish on no application family but the request of the tool and the
  response of the gateway; and no role both publishes and consumes one family.\<close>

theorem only_gateway_commands_drones:
  "(authorize role PUBLISH DRONE_COMMAND = Inr DRONE_COMMAND \<longleftrightarrow> role = COMMAND_GATEWAY)
   \<and> (role \<noteq> COMMAND_GATEWAY \<longrightarrow> authorize role PUBLISH DRONE_COMMAND = Inl (DENIED role PUBLISH DRONE_COMMAND))
   \<and> (may_use_a2a role \<and> authorize role PUBLISH f = Inr f \<longrightarrow> f \<in> {GATEWAY_REQUEST, AGENT_RESPONSE})
   \<and> \<not> (authorize role PUBLISH f = Inr f \<and> authorize role SUBSCRIBE f = Inr f)"
proof -
  have "\<forall>role f. may_use_a2a role \<and> may_use role PUBLISH f \<longrightarrow> f = GATEWAY_REQUEST \<or> f = AGENT_RESPONSE"
    by code_simp
  then show ?thesis using command_publishers telemetry_loop by (auto simp: authorize_def)
qed

theorem only_gateway_commands_drones_witness:
  "authorize FLEET_SIMULATOR PUBLISH DRONE_COMMAND = Inl (DENIED FLEET_SIMULATOR PUBLISH DRONE_COMMAND)"
  using only_gateway_commands_drones [of FLEET_SIMULATOR] by simp

end
