(* ===== verification/Canonical.thy ===== *)
theory Canonical
  imports PyVal Regex "HOL-Library.Multiset"
begin

text \<open>
  \<open>packages/contracts/src/aerial_rescue_contracts/canonical.py\<close>: the canonical serialization
  of digest-covered payloads. Unicode normalization (\<open>unicodedata.normalize("NFC", ...)\<close>) reads
  the Unicode character database and is the parameter \<open>nfc\<close> of the definitions. The
  interpreter's recursion limit is not modelled.
\<close>

definition MAX_SAFE_INTEGER :: int where
  "MAX_SAFE_INTEGER = 2 ^ 53 - 1"

definition MAX_KEY_LENGTH :: nat where
  "MAX_KEY_LENGTH = 64"

definition MAX_STRING_BYTES :: nat where
  "MAX_STRING_BYTES = 4096"

text \<open>\<open>[a-z][a-zA-Z0-9]*\<close>\<close>

definition CANONICAL_KEY_PATTERN :: regex where
  "CANONICAL_KEY_PATTERN =
     Seq (Cls [(CHR ''a'', CHR ''z'')])
         (Star (Cls [(CHR ''a'', CHR ''z''), (CHR ''A'', CHR ''Z''), (CHR ''0'', CHR ''9'')]))"

definition SURROGATE_FIRST_CODE_POINT :: nat where
  "SURROGATE_FIRST_CODE_POINT = 0xD800"

definition SURROGATE_LAST_CODE_POINT :: nat where
  "SURROGATE_LAST_CODE_POINT = 0xDFFF"

text \<open>The refusals with the value each carries; \<open>UnicodeEncode\<close> is Python's own
  UnicodeEncodeError, which \<open>str.encode\<close> raises.\<close>

datatype CanonicalizationError =
    UNSUPPORTED_TYPE pyval
  | INTEGER_RANGE int
  | KEY_FORM pykey
  | KEY_LENGTH pystr
  | STRING_LENGTH pystr
  | LONE_SURROGATE pystr
  | DUPLICATE_KEY pystr
  | MALFORMED_TEXT
  | UnicodeEncode pystr

section \<open>Encoding\<close>

definition utf8_bytes :: "pystr \<Rightarrow> CanonicalizationError + nat list" where
  "utf8_bytes text = (case utf8 text of None \<Rightarrow> Inl (UnicodeEncode text) | Some bs \<Rightarrow> Inr bs)"

text \<open>\<open>str(n)\<close> for an integer, and \<open>format(n, "04x")\<close>.\<close>

fun decimal :: "nat \<Rightarrow> pystr" where
  "decimal n = (if n < 10 then [48 + n] else decimal (n div 10) @ [48 + n mod 10])"

declare decimal.simps [simp del]

definition str_int :: "int \<Rightarrow> pystr" where
  "str_int n = (if n < 0 then 45 # decimal (nat (- n)) else decimal (nat n))"

definition hex_digit :: "nat \<Rightarrow> nat" where
  "hex_digit d = (if d < 10 then 48 + d else 87 + d)"

definition hex4 :: "nat \<Rightarrow> pystr" where
  "hex4 c = map hex_digit [c div 0x1000 mod 16, c div 0x100 mod 16, c div 0x10 mod 16, c mod 16]"

definition encode_boolean :: "bool \<Rightarrow> pystr" where
  "encode_boolean val = (if val then lit ''true'' else lit ''false'')"

definition encode_integer :: "int \<Rightarrow> CanonicalizationError + pystr" where
  "encode_integer val =
     (if val < - MAX_SAFE_INTEGER \<or> val > MAX_SAFE_INTEGER then Inl (INTEGER_RANGE val)
      else Inr (str_int val))"

definition SHORT_ESCAPES :: "(nat \<times> pystr) list" where
  "SHORT_ESCAPES =
    [(34, [92, 34]), (92, [92, 92]), (8, 92 # lit ''b''), (12, 92 # lit ''f''), (10, 92 # lit ''n''),
     (13, 92 # lit ''r''), (9, 92 # lit ''t'')]"

definition escape :: "nat \<Rightarrow> pystr" where
  "escape character =
     (case map_of SHORT_ESCAPES character of
        Some short \<Rightarrow> short
      | None \<Rightarrow> if character < 32 then 92 # lit ''u'' @ hex4 character else [character])"

definition reject_lone_surrogate :: "pystr \<Rightarrow> CanonicalizationError + unit" where
  "reject_lone_surrogate val =
     (if \<exists>c \<in> set val. SURROGATE_FIRST_CODE_POINT \<le> c \<and> c \<le> SURROGATE_LAST_CODE_POINT
      then Inl (LONE_SURROGATE val) else Inr ())"

definition encode_string :: "(pystr \<Rightarrow> pystr) \<Rightarrow> pystr \<Rightarrow> CanonicalizationError + pystr" where
  "encode_string nfc val =
     bindE (reject_lone_surrogate val) (\<lambda>_.
       let normalized = nfc val
       in bindE (utf8_bytes normalized) (\<lambda>bytes.
            if length bytes > MAX_STRING_BYTES then Inl (STRING_LENGTH val)
            else Inr (34 # concat (map escape normalized) @ [34])))"

fun canonical_key :: "pykey \<Rightarrow> CanonicalizationError + pystr" where
  "canonical_key (KObj k) = Inl (KEY_FORM (KObj k))"
| "canonical_key (KStr key) =
     (if length key > MAX_KEY_LENGTH then Inl (KEY_LENGTH key)
      else if \<not> fullmatch CANONICAL_KEY_PATTERN key then Inl (KEY_FORM (KStr key))
      else Inr key)"

text \<open>\<open>{_canonical_key(key): item for key, item in value.items()}\<close>: every key is validated in
  order before any member is encoded.\<close>

definition canonical_members :: "members \<Rightarrow> CanonicalizationError + (pystr \<times> pyval) list" where
  "canonical_members kvs =
     mapE (\<lambda>(key, item). bindE (canonical_key key) (\<lambda>k. Inr (k, item))) kvs"

lemma canonical_members_values:
  "canonical_members kvs = Inr ms \<Longrightarrow> map snd ms = map snd kvs"
  unfolding canonical_members_def
  by (induction kvs arbitrary: ms) auto

lemma canonical_members_size [termination_simp]:
  assumes "canonical_members kvs = Inr ms" "(k, v) \<in> set ms"
  shows "size v < Suc (size_list (\<lambda>x. Suc (size (snd x))) kvs)"
proof -
  from assms(2) have "v \<in> set (map snd ms)" by force
  with canonical_members_values [OF assms(1)] have "v \<in> snd ` set kvs" by simp
  then obtain x where "x \<in> set kvs" "v = snd x" by blast
  then have "Suc (size v) \<le> size_list (\<lambda>x. Suc (size (snd x))) kvs"
    by (intro size_list_estimation') auto
  then show ?thesis by simp
qed

fun encode :: "(pystr \<Rightarrow> pystr) \<Rightarrow> pyval \<Rightarrow> CanonicalizationError + pystr" where
  "encode nfc PNone = Inr (lit ''null'')"
| "encode nfc (PBool b) = Inr (encode_boolean b)"
| "encode nfc (PInt n) = encode_integer n"
| "encode nfc (PStr s) = encode_string nfc s"
| "encode nfc (PDict kvs) =
     bindE (canonical_members kvs) (\<lambda>ms.
       bindE (mapE (\<lambda>(key, item).
                 bindE (encode_string nfc key) (\<lambda>k.
                   bindE (encode nfc item) (\<lambda>v. Inr (k @ 58 # v))))
               (sort_key fst ms))
         (\<lambda>body. Inr (123 # join_with 44 body @ [125])))"
| "encode nfc (PList vs) =
     bindE (mapE (encode nfc) vs) (\<lambda>body. Inr (91 # join_with 44 body @ [93]))"
| "encode nfc (POther x) = Inl (UNSUPPORTED_TYPE (POther x))"

definition canonical_bytes :: "(pystr \<Rightarrow> pystr) \<Rightarrow> pyval \<Rightarrow> CanonicalizationError + nat list" where
  "canonical_bytes nfc v = bindE (encode nfc v) utf8_bytes"

section \<open>What the bytes determine\<close>

text \<open>The value the canonical text stands for: strings normalized, members in key order.\<close>

fun key_text :: "pykey \<Rightarrow> pystr" where
  "key_text (KStr s) = s"
| "key_text (KObj _) = []"

definition by_key :: "members \<Rightarrow> members" where
  "by_key kvs = sort_key (key_text \<circ> fst) kvs"

lemma set_by_key [simp]: "set (by_key kvs) = set kvs"
  by (simp add: by_key_def)

fun canon :: "(pystr \<Rightarrow> pystr) \<Rightarrow> pyval \<Rightarrow> pyval" where
  "canon nfc (PStr s) = PStr (nfc s)"
| "canon nfc (PList vs) = PList (map (canon nfc) vs)"
| "canon nfc (PDict kvs) = PDict (map (\<lambda>(k, v). (KStr (nfc (key_text k)), canon nfc v)) (by_key kvs))"
| "canon nfc v = v"

subsection \<open>Members\<close>

lemma insort_key_map: "insort_key f (g x) (map g xs) = map g (insort_key (\<lambda>y. f (g y)) x xs)"
  by (induction xs) simp_all

lemma sort_key_map: "sort_key f (map g xs) = map g (sort_key (\<lambda>y. f (g y)) xs)"
  by (induction xs) (simp_all add: insort_key_map)

lemma canonical_key_text: "canonical_key k = Inr t \<Longrightarrow> key_text k = t \<and> k = KStr t"
  by (cases k) (auto split: if_splits)

lemma canonical_members_map:
  "canonical_members kvs = Inr ms \<Longrightarrow> ms = map (\<lambda>(k, v). (key_text k, v)) kvs"
  unfolding canonical_members_def
  by (induction kvs arbitrary: ms) (auto dest: canonical_key_text)

lemma canonical_members_key:
  "canonical_members kvs = Inr ms \<Longrightarrow> (k, v) \<in> set kvs \<Longrightarrow>
     canonical_key k = Inr (key_text k) \<and> k = KStr (key_text k)"
  unfolding canonical_members_def by (fastforce dest: mapE_InrD canonical_key_text)

lemma sort_key_unique:
  assumes "mset xs = mset ys" "distinct (map f xs)"
  shows "sort_key f xs = sort_key f ys"
proof -
  have set: "set xs = set ys" and dist: "distinct (map f ys)"
    using assms by (metis set_mset_mset, metis mset_eq_imp_distinct_iff mset_map)
  have "map f (sort_key f xs) = map f (sort_key f ys)"
    using assms(2) set dist by (intro sorted_distinct_set_unique) (auto simp: distinct_map)
  moreover have "inj_on f (set (sort_key f xs) \<union> set (sort_key f ys))"
    using assms(2) set by (simp add: distinct_map)
  ultimately show ?thesis by (rule map_inj_on)
qed

lemma canonical_members_sorted:
  "canonical_members kvs = Inr ms \<Longrightarrow> sort_key fst ms = map (\<lambda>(k, v). (key_text k, v)) (by_key kvs)"
  by (auto dest!: canonical_members_map simp: sort_key_map by_key_def comp_def case_prod_beta)

definition encode_member :: "(pystr \<Rightarrow> pystr) \<Rightarrow> pystr \<times> pyval \<Rightarrow> CanonicalizationError + pystr" where
  "encode_member nfc = (\<lambda>(key, item). bindE (encode_string nfc key) (\<lambda>k.
     bindE (encode nfc item) (\<lambda>v. Inr (k @ 58 # v))))"

lemma encode_PDict:
  "encode nfc (PDict kvs) = bindE (canonical_members kvs) (\<lambda>ms.
     bindE (mapE (encode_member nfc) (sort_key fst ms)) (\<lambda>body. Inr (123 # join_with 44 body @ [125])))"
  by (simp add: encode_member_def)

declare encode.simps(5) [simp del]

subsection \<open>Texts that can follow a complete element\<close>

definition delim :: "pystr \<Rightarrow> bool" where
  "delim x \<longleftrightarrow> x = [] \<or> hd x \<in> {44, 93, 125}"

lemma delim_simps [simp]: "delim []" "delim (c # x) \<longleftrightarrow> c \<in> {44, 93, 125}"
  by (simp_all add: delim_def)

lemma join_separator:
  "join_with sep (t # ts) @ close # x =
     t @ (if ts = [] then close # x else sep # join_with sep ts @ close # x)"
  by (cases ts) simp_all

lemma mapE_join_prefix:
  assumes "\<And>v w t u x y. v \<in> set vs \<Longrightarrow> E v = Inr t \<Longrightarrow> E w = Inr u \<Longrightarrow> t @ x = u @ y \<Longrightarrow>
      delim x \<Longrightarrow> delim y \<Longrightarrow> C v = C w \<and> x = y"
    and head: "\<And>v t. E v = Inr t \<Longrightarrow> \<exists>c r. t = c # r \<and> c \<notin> {44, 93, 125}"
    and close: "close \<in> {93, 125}"
    and "mapE E vs = Inr ts" "mapE E ws = Inr us"
    and "join_with 44 ts @ close # x = join_with 44 us @ close # y"
  shows "map C vs = map C ws \<and> x = y"
  using assms(1,4-)
proof (induction vs arbitrary: ws ts us)
  case Nil
  show ?case
  proof (cases ws)
    case (Cons w ws')
    with Nil.prems(3) obtain u us' where u: "us = u # us'" "E w = Inr u" by auto
    from head [OF u(2)] obtain c r where "u = c # r" "c \<notin> {44, 93, 125}" by blast
    with Nil.prems(2,4) u(1) close show ?thesis by (auto simp: join_separator)
  qed (use Nil.prems(2-) in simp)
next
  case (Cons v vs)
  from Cons.prems(2) obtain t ts' where t: "ts = t # ts'" "E v = Inr t" "mapE E vs = Inr ts'" by auto
  show ?case
  proof (cases ws)
    case Nil
    from head [OF t(2)] obtain c r where "t = c # r" "c \<notin> {44, 93, 125}" by blast
    with Nil Cons.prems(3,4) t(1) close show ?thesis by (auto simp: join_separator)
  next
    case w: (Cons w ws')
    with Cons.prems(3) obtain u us' where u: "us = u # us'" "E w = Inr u" "mapE E ws' = Inr us'" by auto
    let ?x = "if ts' = [] then close # x else 44 # join_with 44 ts' @ close # x"
    let ?y = "if us' = [] then close # y else 44 # join_with 44 us' @ close # y"
    from Cons.prems(4) t u have "t @ ?x = u @ ?y" by (simp only: join_separator)
    moreover have "delim ?x" "delim ?y" using close by auto
    ultimately have "C v = C w \<and> ?x = ?y"
      by (rule Cons.prems(1) [OF list.set_intros(1) t(2) u(2)])
    then have head_eq: "C v = C w" "?x = ?y" by blast+
    from head_eq(2) close have "join_with 44 ts' @ close # x = join_with 44 us' @ close # y"
      by (auto split: if_splits)
    moreover have "\<And>v w t u x y. v \<in> set vs \<Longrightarrow> E v = Inr t \<Longrightarrow> E w = Inr u \<Longrightarrow> t @ x = u @ y \<Longrightarrow>
        delim x \<Longrightarrow> delim y \<Longrightarrow> C v = C w \<and> x = y"
      by (rule Cons.prems(1)) simp_all
    ultimately have "map C vs = map C ws' \<and> x = y"
      using Cons.IH [OF _ t(3) u(3)] by blast
    with head_eq w show ?thesis by simp
  qed
qed

subsection \<open>Integers\<close>

definition is_digit :: "nat \<Rightarrow> bool" where
  "is_digit c \<longleftrightarrow> 48 \<le> c \<and> c \<le> 57"

definition numeral_of :: "pystr \<Rightarrow> nat" where
  "numeral_of s = foldl (\<lambda>a c. 10 * a + (c - 48)) 0 s"

lemma decimal_digits: "c \<in> set (decimal n) \<Longrightarrow> is_digit c"
  by (induction n rule: decimal.induct) (subst (asm) decimal.simps, auto simp: is_digit_def split: if_splits)

lemma decimal_nonempty [simp]: "decimal n \<noteq> []"
  by (subst decimal.simps) simp

lemma numeral_of_decimal [simp]: "numeral_of (decimal n) = n"
  by (induction n rule: decimal.induct) (subst decimal.simps, simp add: numeral_of_def)

lemma length_decimal: "n < 10 ^ Suc w \<Longrightarrow> length (decimal n) \<le> Suc w"
proof (induction w arbitrary: n)
  case 0
  then show ?case by (subst decimal.simps) simp
next
  case (Suc w)
  then have "n div 10 < 10 ^ Suc w" by (simp add: less_mult_imp_div_less mult.commute)
  with Suc.IH show ?case by (subst decimal.simps) simp
qed

lemma decimal_prefix:
  assumes "decimal n @ x = decimal m @ y" "delim x" "delim y"
  shows "n = m \<and> x = y"
proof -
  have digits: "takeWhile is_digit (decimal k @ z) = decimal k" if "delim z" for k z
  proof -
    have "takeWhile is_digit z = []" using that by (cases z) (auto simp: is_digit_def)
    then show ?thesis by (simp add: takeWhile_append2 decimal_digits)
  qed
  from assms have "decimal n = decimal m" by (metis digits)
  with assms(1) show ?thesis by (metis append_same_eq numeral_of_decimal same_append_eq)
qed

lemma decimal_head: "\<exists>c r. decimal n = c # r \<and> is_digit c"
  by (metis decimal_digits decimal_nonempty list.exhaust list.set_intros(1))

lemma str_int_prefix:
  assumes "str_int n @ x = str_int m @ y" "delim x" "delim y"
  shows "n = m \<and> x = y"
proof -
  have no_minus: "45 # r \<noteq> decimal k @ z" for r k z
    using decimal_head [of k] by (auto simp: is_digit_def)
  consider "n < 0" "m < 0" | "n < 0" "\<not> m < 0" | "\<not> n < 0" "m < 0" | "\<not> n < 0" "\<not> m < 0" by blast
  then show ?thesis
  proof cases
    case 1
    with assms decimal_prefix [of "nat (- n)" x "nat (- m)" y] show ?thesis
      by (simp add: str_int_def eq_nat_nat_iff)
  next
    case 4
    with assms decimal_prefix [of "nat n" x "nat m" y] show ?thesis
      by (simp add: str_int_def eq_nat_nat_iff)
  qed (use assms(1) no_minus no_minus [symmetric] in \<open>simp_all add: str_int_def\<close>)
qed

subsection \<open>Strings\<close>

lemma escape_cases:
  obtains "c \<notin> {34, 92}" "32 \<le> c" "escape c = [c]"
  | d where "c \<in> {34, 92, 8, 12, 10, 13, 9}" "escape c = [92, d]" "d \<noteq> 117"
      "d = (if c \<in> {34, 92} then c else if c = 8 then 98 else if c = 12 then 102 else
            if c = 10 then 110 else if c = 13 then 114 else 116)"
  | "c < 32" "c \<notin> {8, 12, 10, 13, 9}" "escape c = [92, 117] @ hex4 c"
proof (cases "c \<in> {34, 92, 8, 12, 10, 13, 9}")
  case True
  then show thesis by (intro that(2)) (auto simp: escape_def SHORT_ESCAPES_def lit_def)
next
  case False
  then have "map_of SHORT_ESCAPES c = None" by (simp add: SHORT_ESCAPES_def)
  with False show thesis
    by (cases "c < 32") (auto simp: escape_def lit_def intro: that(1,3))
qed

lemma hex_digit_inject: "a < 16 \<Longrightarrow> b < 16 \<Longrightarrow> hex_digit a = hex_digit b \<Longrightarrow> a = b"
  by (auto simp: hex_digit_def split: if_splits)

lemma hex4_control_inject:
  assumes "c < 32" "d < 32" "hex4 c @ x = hex4 d @ y"
  shows "c = d \<and> x = y"
proof -
  from assms(3) have "hex_digit (c div 16 mod 16) = hex_digit (d div 16 mod 16)"
    "hex_digit (c mod 16) = hex_digit (d mod 16)" and xy: "x = y"
    by (simp_all add: hex4_def)
  then have "c div 16 mod 16 = d div 16 mod 16" "c mod 16 = d mod 16"
    by (auto intro: hex_digit_inject)
  with assms(1,2) have "c div 16 = d div 16" "c mod 16 = d mod 16" by simp_all
  with xy show ?thesis by (metis div_mult_mod_eq)
qed

lemma escape_prefix: "escape c @ x = escape d @ y \<Longrightarrow> c = d \<and> x = y"
  by (cases c rule: escape_cases; cases d rule: escape_cases)
     (auto dest: hex4_control_inject split: if_splits)

lemma escape_head: "\<exists>e r. escape c = e # r \<and> e \<noteq> 34"
  by (cases c rule: escape_cases) auto

lemma body_prefix:
  "concat (map escape a) @ 34 # x = concat (map escape b) @ 34 # y \<Longrightarrow> a = b \<and> x = y"
proof (induction a arbitrary: b)
  case Nil
  then show ?case
  proof (cases b)
    case (Cons d ds)
    with Nil escape_head [of d] show ?thesis by auto
  qed simp
next
  case (Cons c a)
  then show ?case
  proof (cases b)
    case Nil
    with Cons.prems escape_head [of c] show ?thesis by auto
  next
    case b: (Cons d ds)
    with Cons.prems have "escape c @ (concat (map escape a) @ 34 # x) =
        escape d @ (concat (map escape ds) @ 34 # y)" by simp
    with escape_prefix Cons.IH [of ds] b show ?thesis by blast
  qed
qed

lemma encode_string_Inr:
  "encode_string nfc s = Inr t \<Longrightarrow> t = 34 # concat (map escape (nfc s)) @ [34]"
  by (auto simp: encode_string_def Let_def split: if_splits)

lemma encode_string_prefix:
  assumes "encode_string nfc a = Inr t" "encode_string nfc b = Inr u" "t @ x = u @ y"
  shows "nfc a = nfc b \<and> x = y"
  using assms(3) encode_string_Inr [OF assms(1)] encode_string_Inr [OF assms(2)]
    body_prefix [of "nfc a" x "nfc b" y] by simp

subsection \<open>The encoding is uniquely readable\<close>

fun head_of :: "pyval \<Rightarrow> nat \<Rightarrow> bool" where
  "head_of PNone c \<longleftrightarrow> c = 110"
| "head_of (PBool b) c \<longleftrightarrow> c = (if b then 116 else 102)"
| "head_of (PInt n) c \<longleftrightarrow> c = 45 \<or> is_digit c"
| "head_of (PStr s) c \<longleftrightarrow> c = 34"
| "head_of (PList vs) c \<longleftrightarrow> c = 91"
| "head_of (PDict kvs) c \<longleftrightarrow> c = 123"
| "head_of (POther x) c \<longleftrightarrow> False"

lemma encode_head: "encode nfc v = Inr t \<Longrightarrow> \<exists>c r. t = c # r \<and> head_of v c"
proof (cases v)
  case (PInt n)
  moreover assume "encode nfc v = Inr t"
  ultimately show ?thesis
    using decimal_head [of "nat n"] by (auto simp: encode_integer_def str_int_def split: if_splits)
qed (auto simp: encode_boolean_def lit_def encode_PDict dest!: encode_string_Inr)

lemma head_of_no_delim: "head_of v c \<Longrightarrow> c \<notin> {44, 93, 125}"
  by (cases v) (auto simp: is_digit_def)

lemma encode_no_delim: "encode nfc v = Inr t \<Longrightarrow> \<exists>c r. t = c # r \<and> c \<notin> {44, 93, 125}"
  using encode_head head_of_no_delim by blast

lemma encode_prefix:
  assumes "encode nfc v = Inr t" "encode nfc w = Inr u" "t @ x = u @ y" "delim x" "delim y"
  shows "canon nfc v = canon nfc w \<and> x = y"
  using assms
proof (induction v arbitrary: w t u x y)
  case PNone
  with encode_head [of nfc w u] show ?case by (cases w) (auto simp: lit_def is_digit_def split: if_splits)
next
  case (PBool b)
  with encode_head [of nfc w u] show ?case
    by (cases w) (auto simp: encode_boolean_def lit_def is_digit_def split: if_splits)
next
  case (PInt n)
  from encode_head [OF PInt.prems(1)] encode_head [OF PInt.prems(2)] PInt.prems(3)
  obtain m where "w = PInt m" by (cases w) (auto simp: is_digit_def split: if_splits)
  with PInt.prems str_int_prefix [of n x m y] show ?case
    by (auto simp: encode_integer_def split: if_splits)
next
  case (PStr s)
  from encode_head [OF PStr.prems(1)] encode_head [OF PStr.prems(2)] PStr.prems(3)
  obtain r where "w = PStr r" by (cases w) (auto simp: is_digit_def split: if_splits)
  with PStr.prems encode_string_prefix [of nfc s t r u x y] show ?case by simp
next
  case (PList vs)
  from encode_head [OF PList.prems(1)] encode_head [OF PList.prems(2)] PList.prems(3)
  obtain ws where w: "w = PList ws" by (cases w) (auto simp: is_digit_def split: if_splits)
  with PList.prems obtain ts us where "mapE (encode nfc) vs = Inr ts" "mapE (encode nfc) ws = Inr us"
    "join_with 44 ts @ 93 # x = join_with 44 us @ 93 # y" by auto
  then have "map (canon nfc) vs = map (canon nfc) ws \<and> x = y"
    by (intro mapE_join_prefix [OF PList.IH encode_no_delim]) auto
  with w show ?case by simp
next
  case (PDict kvs)
  from encode_head [OF PDict.prems(1)] encode_head [OF PDict.prems(2)] PDict.prems(3)
  obtain kvs' where w: "w = PDict kvs'" by (cases w) (auto simp: is_digit_def split: if_splits)
  let ?strip = "map (\<lambda>(k, v). (key_text k, v))"
  let ?C = "\<lambda>(k, v). (KStr (nfc k), canon nfc v)"
  from w PDict.prems obtain ms ms' ts us where ms:
    "canonical_members kvs = Inr ms" "mapE (encode_member nfc) (sort_key fst ms) = Inr ts"
    "canonical_members kvs' = Inr ms'" "mapE (encode_member nfc) (sort_key fst ms') = Inr us"
    and joined: "join_with 44 ts @ 125 # x = join_with 44 us @ 125 # y"
    by (auto simp: encode_PDict)
  have member: "?C a = ?C b \<and> x = y"
    if "a \<in> set (?strip (by_key kvs))" "encode_member nfc a = Inr t" "encode_member nfc b = Inr u"
      "t @ x = u @ y" "delim x" "delim y" for a b t u x y
  proof -
    from that(2,3) obtain k k' i j where e: "encode_string nfc (fst a) = Inr k"
      "encode nfc (snd a) = Inr i" "t = k @ 58 # i" "encode_string nfc (fst b) = Inr k'"
      "encode nfc (snd b) = Inr j" "u = k' @ 58 # j"
      by (auto simp: encode_member_def case_prod_beta)
    with encode_string_prefix [OF e(1,4), of "58 # i @ x" "58 # j @ y"] that(4)
    have k: "nfc (fst a) = nfc (fst b)" and v: "i @ x = j @ y" by auto
    from that(1) obtain p where p: "p \<in> set kvs" "snd a = snd p" by auto
    then have "snd a \<in> Basic_BNFs.snds p" by (simp add: prod_set_defs)
    from PDict.IH [OF p(1) this e(2,5) v that(5,6)] k show ?thesis by (cases a, cases b) simp
  qed
  have head: "\<exists>c r. t = c # r \<and> c \<notin> {44, 93, 125}" if "encode_member nfc a = Inr t" for a t
    using that by (auto simp: encode_member_def case_prod_beta dest!: encode_string_Inr)
  from ms have sorted: "mapE (encode_member nfc) (?strip (by_key kvs)) = Inr ts"
    "mapE (encode_member nfc) (?strip (by_key kvs')) = Inr us"
    by (simp_all only: canonical_members_sorted)
  have "map ?C (?strip (by_key kvs)) = map ?C (?strip (by_key kvs')) \<and> x = y"
    by (rule mapE_join_prefix [OF _ head _ sorted joined]) (erule (5) member, assumption, simp)
  with w show ?case by (simp add: comp_def case_prod_unfold)
qed simp

lemma canonical_bytes_Inr:
  "canonical_bytes nfc v = Inr b \<longleftrightarrow> (\<exists>t. encode nfc v = Inr t \<and> utf8 t = Some b)"
  by (cases "encode nfc v") (auto simp: canonical_bytes_def utf8_bytes_def split: option.splits)

lemma canonical_bytes_inject:
  assumes "canonical_bytes nfc v = Inr b" and "canonical_bytes nfc w = Inr b"
  shows "canon nfc v = canon nfc w"
proof -
  from assms obtain t u where "encode nfc v = Inr t" "encode nfc w = Inr u"
    "utf8 t = Some b" "utf8 u = Some b" by (auto simp only: canonical_bytes_Inr)
  moreover from this have "t = u" by (blast intro: utf8_inject)
  ultimately show ?thesis using encode_prefix [of nfc v t w u "[]" "[]"] by simp
qed

text \<open>The canonical text as a function of the value alone, with none of the checks.\<close>

fun text_of_canon :: "pyval \<Rightarrow> pystr" where
  "text_of_canon PNone = lit ''null''"
| "text_of_canon (PBool b) = encode_boolean b"
| "text_of_canon (PInt n) = str_int n"
| "text_of_canon (PStr s) = 34 # concat (map escape s) @ [34]"
| "text_of_canon (PList vs) = 91 # join_with 44 (map text_of_canon vs) @ [93]"
| "text_of_canon (PDict kvs) =
     123 # join_with 44 (map (\<lambda>(k, v). (34 # concat (map escape (key_text k)) @ [34]) @ 58 # text_of_canon v) kvs) @ [125]"
| "text_of_canon (POther x) = []"

lemma mapE_map: "mapE f xs = Inr ys \<Longrightarrow> (\<And>x y. x \<in> set xs \<Longrightarrow> f x = Inr y \<Longrightarrow> y = g x) \<Longrightarrow> ys = map g xs"
  by (induction xs arbitrary: ys) auto

lemma encode_text: "encode nfc v = Inr t \<Longrightarrow> t = text_of_canon (canon nfc v)"
proof (induction v arbitrary: t)
  case (PList vs)
  then obtain ts where ts: "mapE (encode nfc) vs = Inr ts" "t = 91 # join_with 44 ts @ [93]" by auto
  have "ts = map (\<lambda>v. text_of_canon (canon nfc v)) vs" by (rule mapE_map [OF ts(1)]) (rule PList.IH)
  with ts(2) show ?case by (simp add: comp_def)
next
  case (PDict kvs)
  then obtain ms ts where ms: "canonical_members kvs = Inr ms" "mapE (encode_member nfc) (sort_key fst ms) = Inr ts"
    and t: "t = 123 # join_with 44 ts @ [125]" by (auto simp: encode_PDict)
  let ?g = "\<lambda>(k, v). (34 # concat (map escape (nfc k)) @ [34]) @ 58 # text_of_canon (canon nfc v)"
  have member: "y = ?g x" if x: "x \<in> set (map (\<lambda>(k, v). (key_text k, v)) (by_key kvs))"
    and y: "encode_member nfc x = Inr y" for x y
  proof -
    from y obtain k i where e: "encode_string nfc (fst x) = Inr k" "encode nfc (snd x) = Inr i" "y = k @ 58 # i"
      by (auto simp: encode_member_def case_prod_beta)
    from x obtain p where p: "p \<in> set kvs" "snd x = snd p" by auto
    then have "snd x \<in> Basic_BNFs.snds p" by (simp add: prod_set_defs)
    from PDict.IH [OF p(1) this e(2)] encode_string_Inr [OF e(1)] e(3) show ?thesis by (cases x) simp
  qed
  from ms have "mapE (encode_member nfc) (map (\<lambda>(k, v). (key_text k, v)) (by_key kvs)) = Inr ts"
    by (simp only: canonical_members_sorted)
  then have "ts = map ?g (map (\<lambda>(k, v). (key_text k, v)) (by_key kvs))" by (rule mapE_map) (rule member)
  with t show ?case by (simp add: comp_def case_prod_unfold)
qed (auto simp: encode_integer_def dest: encode_string_Inr split: if_splits)

section \<open>Properties\<close>

text \<open>C32. Canonical bytes are equal exactly when the values are: two encodable values have the same bytes
  if and only if they are equal up to Unicode normalization of their strings and the order of their
  members. In particular no two distinct integers, no two distinct member sets and no two arrays in
  different order share bytes.\<close>

theorem canonical_bytes_determine_value:
  assumes "canonical_bytes nfc v = Inr b" and "canonical_bytes nfc w = Inr c"
  shows "b = c \<longleftrightarrow> canon nfc v = canon nfc w"
proof
  assume "b = c"
  with assms show "canon nfc v = canon nfc w" by (blast intro: canonical_bytes_inject)
next
  assume "canon nfc v = canon nfc w"
  moreover from assms obtain t u where "encode nfc v = Inr t" "encode nfc w = Inr u"
    "utf8 t = Some b" "utf8 u = Some c" by (auto simp only: canonical_bytes_Inr)
  ultimately show "b = c" by (metis encode_text option.inject)
qed

theorem canonical_bytes_determine_value_witness:
  "canon id (PDict (obj [(''b'', PInt 1), (''a'', PNone)])) = canon id (PDict (obj [(''a'', PNone), (''b'', PInt 1)]))"
proof -
  have "canonical_bytes id (PDict (obj [(''b'', PInt 1), (''a'', PNone)])) = Inr (lit ''{\"a\":null,\"b\":1}'')"
    "canonical_bytes id (PDict (obj [(''a'', PNone), (''b'', PInt 1)])) = Inr (lit ''{\"a\":null,\"b\":1}'')"
    by code_simp+
  from canonical_bytes_determine_value [OF this] show ?thesis by blast
qed

text \<open>Member order is not semantic: a mapping whose members are the same in any other order has
  the same canonical bytes.\<close>

theorem canonical_bytes_ignore_member_order:
  assumes "canonical_bytes nfc (PDict kvs) = Inr b"
    and "mset kvs = mset kvs'" and "distinct (dict_keys kvs)"
  shows "canonical_bytes nfc (PDict kvs') = Inr b"
proof -
  from assms(1) obtain ms where ms: "canonical_members kvs = Inr ms"
    by (auto simp: canonical_bytes_def encode_PDict)
  have keys: "canonical_key k = Inr (key_text k)" "k = KStr (key_text k)" if "(k, v) \<in> set kvs" for k v
    using canonical_members_key [OF ms that] by auto
  have "set kvs' = set kvs" using assms(2) by (metis set_mset_mset)
  then have "canonical_members kvs' = Inr (map (\<lambda>(k, v). (key_text k, v)) kvs')"
    unfolding canonical_members_def by (intro mapE_all_Inr) (auto simp: keys)
  moreover have "inj_on key_text (set (dict_keys kvs))"
    by (intro inj_onI) (metis (no_types, lifting) keys(2) imageE list.set_map prod.collapse)
  then have "distinct (map fst ms)"
    using assms(3) by (simp add: canonical_members_map [OF ms] comp_def case_prod_beta distinct_map inj_on_def)
  then have "sort_key fst ms = sort_key fst (map (\<lambda>(k, v). (key_text k, v)) kvs')"
    by (intro sort_key_unique) (simp_all add: canonical_members_map [OF ms] assms(2))
  ultimately show ?thesis using assms(1) ms by (simp add: canonical_bytes_def encode_PDict)
qed

theorem canonical_bytes_ignore_member_order_witness:
  "canonical_bytes id (PDict (obj [(''a'', PNone), (''b'', PInt 1)])) = Inr (lit ''{\"a\":null,\"b\":1}'')"
proof (rule canonical_bytes_ignore_member_order)
  show "canonical_bytes id (PDict (obj [(''b'', PInt 1), (''a'', PNone)])) = Inr (lit ''{\"a\":null,\"b\":1}'')"
    by code_simp
qed simp_all

end
