(* ===== verification/Instant.thy ===== *)
theory Instant
  imports Canonical
begin

text \<open>
  \<open>packages/contracts/src/aerial_rescue_contracts/instant.py\<close>: the one spelling
  \<open>YYYY-MM-DDTHH:MM:SS.sssZ\<close> of an instant, parsed into and formatted from a datetime. The standard
  library's \<open>datetime\<close> is a record of its fields with the class's own range invariant, and
  \<open>strptime\<close> is modelled on the texts it is given here, the ones the pattern admits.
\<close>

section \<open>Datetimes\<close>

text \<open>\<open>tz\<close> is \<open>None\<close> for a naive value; otherwise what \<open>utcoffset()\<close> answers, in microseconds, which
  a custom \<open>tzinfo\<close> may leave undefined.\<close>

record datetime =
  year :: nat
  month :: nat
  day :: nat
  hour :: nat
  minute :: nat
  sec :: nat
  microsecond :: nat
  tz :: "int option option"

definition is_leap :: "nat \<Rightarrow> bool" where
  "is_leap y \<longleftrightarrow> y mod 4 = 0 \<and> (y mod 100 \<noteq> 0 \<or> y mod 400 = 0)"

definition days_in_month :: "nat \<Rightarrow> nat \<Rightarrow> nat" where
  "days_in_month y m =
     (if m = 2 then (if is_leap y then 29 else 28) else if m \<in> {4, 6, 9, 11} then 30 else 31)"

definition datetime_ok :: "datetime \<Rightarrow> bool" where
  "datetime_ok d \<longleftrightarrow> 1 \<le> year d \<and> year d \<le> 9999 \<and> 1 \<le> month d \<and> month d \<le> 12
     \<and> 1 \<le> day d \<and> day d \<le> days_in_month (year d) (month d)
     \<and> hour d < 24 \<and> minute d < 60 \<and> sec d < 60 \<and> microsecond d < 1000000"

section \<open>Operations\<close>

abbreviation digit_class :: regex where
  "digit_class \<equiv> Cls [(CHR ''0'', CHR ''9'')]"

definition MONTHS :: regex where
  "MONTHS = Alt (Seq (word_of ''0'') (Cls [(CHR ''1'', CHR ''9'')]))
                (Seq (word_of ''1'') (Cls [(CHR ''0'', CHR ''2'')]))"

definition DAYS :: regex where
  "DAYS = Alt (Seq (word_of ''0'') (Cls [(CHR ''1'', CHR ''9'')]))
              (Alt (Seq (Cls [(CHR ''1'', CHR ''2'')]) digit_class)
                   (Seq (word_of ''3'') (Cls [(CHR ''0'', CHR ''1'')])))"

definition HOURS :: regex where
  "HOURS = Alt (Seq (Cls [(CHR ''0'', CHR ''1'')]) digit_class)
               (Seq (word_of ''2'') (Cls [(CHR ''0'', CHR ''3'')]))"

definition SIXTIES :: regex where
  "SIXTIES = Seq (Cls [(CHR ''0'', CHR ''5'')]) digit_class"

text \<open>\<open>(?!0000)[0-9]{4}-(?:0[1-9]|1[0-2])-(?:0[1-9]|[12][0-9]|3[01])\<close> followed by
  \<open>T(?:[01][0-9]|2[0-3]):[0-5][0-9]:[0-5][0-9]\.[0-9]{3}Z\<close>\<close>

definition INSTANT_PATTERN :: regex where
  "INSTANT_PATTERN =
     Ahead (word_of ''0000'')
       (Seq (exactly 4 digit_class) (Seq (word_of ''-'') (Seq MONTHS (Seq (word_of ''-'') (Seq DAYS
       (Seq (word_of ''T'') (Seq HOURS (Seq (word_of '':'') (Seq SIXTIES (Seq (word_of '':'') (Seq SIXTIES
       (Seq (word_of ''.'') (Seq (exactly 3 digit_class) (word_of ''Z''))))))))))))))"

datatype InstantError =
    UNSUPPORTED_TYPE pyval
  | FORM pystr
  | CALENDAR pystr
  | NAIVE datetime
  | NOT_UTC datetime

text \<open>\<open>datetime.strptime(text, "%Y-%m-%dT%H:%M:%S.%fZ")\<close> on a text of the pattern: every field is at a
  fixed place, three fractional digits are milliseconds, and \<open>None\<close> is the ValueError of a day the
  month does not have.\<close>

definition field :: "nat \<Rightarrow> nat \<Rightarrow> pystr \<Rightarrow> nat" where
  "field start len text = numeral_of (take len (drop start text))"

definition strptime :: "pystr \<Rightarrow> datetime option" where
  "strptime text =
     (let d = \<lparr>year = field 0 4 text, month = field 5 2 text, day = field 8 2 text,
               hour = field 11 2 text, minute = field 14 2 text, sec = field 17 2 text,
               microsecond = 1000 * field 20 3 text, tz = None\<rparr>
      in if day d \<le> days_in_month (year d) (month d) then Some d else None)"

fun parse_instant :: "pyval \<Rightarrow> InstantError + datetime" where
  "parse_instant (PStr text) =
     (if \<not> fullmatch INSTANT_PATTERN text then Inl (FORM text)
      else (case strptime text of
              None \<Rightarrow> Inl (CALENDAR text)
            | Some naive \<Rightarrow> Inr (naive\<lparr>tz := Some (Some 0)\<rparr>)))"
| "parse_instant other = Inl (InstantError.UNSUPPORTED_TYPE other)"

text \<open>\<open>f"{n:04d}"\<close> and its narrower forms.\<close>

definition padded :: "nat \<Rightarrow> nat \<Rightarrow> pystr" where
  "padded w n = replicate (w - length (decimal n)) 48 @ decimal n"

definition format_instant :: "datetime \<Rightarrow> InstantError + pystr" where
  "format_instant d =
     (if tz d = None then Inl (NAIVE d)
      else if tz d \<noteq> Some (Some 0) then Inl (NOT_UTC d)
      else Inr (padded 4 (year d) @ lit ''-'' @ padded 2 (month d) @ lit ''-'' @ padded 2 (day d)
             @ lit ''T'' @ padded 2 (hour d) @ lit '':'' @ padded 2 (minute d) @ lit '':'' @ padded 2 (sec d)
             @ lit ''.'' @ padded 3 (microsecond d div 1000) @ lit ''Z''))"

section \<open>Digits\<close>

fun digits :: "nat \<Rightarrow> nat \<Rightarrow> pystr" where
  "digits 0 n = []"
| "digits (Suc w) n = digits w (n div 10) @ [48 + n mod 10]"

lemma digits_shape [simp]: "length (digits w n) = w" "\<forall>c \<in> set (digits w n). is_digit c"
  by (induction w arbitrary: n) (auto simp: is_digit_def)

lemma numeral_of_snoc: "numeral_of (s @ [c]) = 10 * numeral_of s + (c - 48)"
  by (simp add: numeral_of_def)

lemma numeral_of_digits: "n < 10 ^ w \<Longrightarrow> numeral_of (digits w n) = n"
proof (induction w arbitrary: n)
  case (Suc w)
  then have "n div 10 < 10 ^ w" by (simp add: less_mult_imp_div_less mult.commute)
  with Suc.IH show ?case by (simp add: numeral_of_snoc)
qed (simp add: numeral_of_def)

lemma digits_numeral_of: "\<forall>c \<in> set s. is_digit c \<Longrightarrow> digits (length s) (numeral_of s) = s"
proof (induction s rule: rev_induct)
  case (snoc c s)
  then obtain d where "c = 48 + d" "d < 10" by (auto simp: is_digit_def nat_le_iff_add)
  with snoc show ?case by (simp add: numeral_of_snoc)
qed simp

lemma numeral_of_less: "\<forall>c \<in> set s. is_digit c \<Longrightarrow> numeral_of s < 10 ^ length s"
proof (induction s rule: rev_induct)
  case (snoc c s)
  then show ?case by (auto simp: numeral_of_snoc is_digit_def)
qed (simp add: numeral_of_def)

lemma digits_zero: "digits w 0 = replicate w 48"
  by (induction w) (simp_all add: replicate_append_same)

lemma padded_digits: "n < 10 ^ Suc w \<Longrightarrow> padded (Suc w) n = digits (Suc w) n"
proof (induction w arbitrary: n)
  case 0
  then show ?case by (simp add: padded_def, subst decimal.simps, subst decimal.simps, simp)
next
  case (Suc w)
  then have less: "n div 10 < 10 ^ Suc w" by (simp add: less_mult_imp_div_less mult.commute)
  show ?case
  proof (cases "n < 10")
    case True
    then have "decimal n = [48 + n]" by (subst decimal.simps) simp
    with True show ?thesis by (simp add: padded_def digits_zero flip: replicate_append_same)
  next
    case False
    then have "decimal n = decimal (n div 10) @ [48 + n mod 10]" by (subst decimal.simps) simp
    with Suc.IH [OF less] length_decimal [OF less] show ?thesis by (simp add: padded_def)
  qed
qed

section \<open>The pattern\<close>

definition number_in :: "nat \<Rightarrow> nat \<Rightarrow> nat \<Rightarrow> pystr \<Rightarrow> bool" where
  "number_in w lo hi s \<longleftrightarrow> length s = w \<and> (\<forall>c \<in> set s. is_digit c) \<and> lo \<le> numeral_of s \<and> numeral_of s \<le> hi"

lemma two_digits: "number_in 2 lo hi s \<longleftrightarrow>
    (\<exists>a b. s = [a, b] \<and> is_digit a \<and> is_digit b \<and> lo \<le> 10 * (a - 48) + (b - 48) \<and> 10 * (a - 48) + (b - 48) \<le> hi)"
  by (auto simp: number_in_def numeral_of_def numeral_2_eq_2 length_Suc_conv)

lemma word_of_single: "word_of [c] = Cls [(c, c)]"
  by simp

lemma lang_two_digit_fields:
  "s \<in> lang MONTHS \<longleftrightarrow> number_in 2 1 12 s"
  "s \<in> lang DAYS \<longleftrightarrow> number_in 2 1 31 s"
  "s \<in> lang HOURS \<longleftrightarrow> number_in 2 0 23 s"
  "s \<in> lang SIXTIES \<longleftrightarrow> number_in 2 0 59 s"
  unfolding MONTHS_def DAYS_def HOURS_def SIXTIES_def two_digits word_of_single lang.simps(5) Un_iff
    lang_Seq_Cls
  by (auto simp: is_digit_def)

lemma lang_digits: "s \<in> lang (exactly n digit_class) \<longleftrightarrow> number_in n 0 (10 ^ n - 1) s"
proof -
  have "in_cls [(CHR ''0'', CHR ''9'')] c \<longleftrightarrow> is_digit c" for c by (simp add: is_digit_def)
  then show ?thesis
    using numeral_of_less [of s] unfolding lang_exactly_Cls number_in_def by fastforce
qed

lemma digits_in_lang: "n < 10 ^ w \<Longrightarrow> digits w n \<in> lang (exactly w digit_class)"
  by (simp add: lang_digits number_in_def numeral_of_digits)

lemma widths [simp]: "width MONTHS = Some 2" "width DAYS = Some 2" "width HOURS = Some 2"
  "width SIXTIES = Some 2" "width (word_of [c]) = Some 1" "width (exactly n digit_class) = Some n"
  by (simp_all add: MONTHS_def DAYS_def HOURS_def SIXTIES_def) (induction n, simp_all)

lemma number_in_digits:
  "hi < 10 ^ w \<Longrightarrow> number_in w lo hi s \<longleftrightarrow> (\<exists>n. lo \<le> n \<and> n \<le> hi \<and> s = digits w n)"
  using digits_numeral_of [of s] numeral_of_digits [of _ w] unfolding number_in_def
  by (metis digits_shape le_less_trans)

definition spelling :: "nat \<Rightarrow> nat \<Rightarrow> nat \<Rightarrow> nat \<Rightarrow> nat \<Rightarrow> nat \<Rightarrow> nat \<Rightarrow> pystr" where
  "spelling y mo d h mi se ms =
     digits 4 y @ lit ''-'' @ digits 2 mo @ lit ''-'' @ digits 2 d @ lit ''T'' @ digits 2 h @ lit '':''
     @ digits 2 mi @ lit '':'' @ digits 2 se @ lit ''.'' @ digits 3 ms @ lit ''Z''"

lemma lang_Seq_iff: "s \<in> lang (Seq r t) \<longleftrightarrow> (\<exists>u v. s = u @ v \<and> u \<in> lang r \<and> v \<in> lang t)"
  by simp

lemma lang_SeqI: "u \<in> lang r \<Longrightarrow> v \<in> lang t \<Longrightarrow> u @ v \<in> lang (Seq r t)"
  unfolding lang_Seq_iff by blast

lemma lang_fields:
  "s \<in> lang (exactly 4 digit_class) \<longleftrightarrow> (\<exists>n. n \<le> 9999 \<and> s = digits 4 n)"
  "s \<in> lang (exactly 3 digit_class) \<longleftrightarrow> (\<exists>n. n \<le> 999 \<and> s = digits 3 n)"
  "s \<in> lang MONTHS \<longleftrightarrow> (\<exists>n. 1 \<le> n \<and> n \<le> 12 \<and> s = digits 2 n)"
  "s \<in> lang DAYS \<longleftrightarrow> (\<exists>n. 1 \<le> n \<and> n \<le> 31 \<and> s = digits 2 n)"
  "s \<in> lang HOURS \<longleftrightarrow> (\<exists>n. n \<le> 23 \<and> s = digits 2 n)"
  "s \<in> lang SIXTIES \<longleftrightarrow> (\<exists>n. n \<le> 59 \<and> s = digits 2 n)"
  by (simp_all add: lang_digits lang_two_digit_fields number_in_digits)

lemma year_zero: "n \<le> 9999 \<Longrightarrow> (\<exists>v. digits 4 n @ r = lit ''0000'' @ v) \<longleftrightarrow> n = 0"
proof -
  assume "n \<le> 9999"
  then have "digits 4 n = digits 4 0 \<longleftrightarrow> n = 0"
    using numeral_of_digits [of n 4] numeral_of_digits [of 0 4] by (auto simp del: digits.simps)
  moreover have "digits 4 0 = lit ''0000''" by code_simp
  ultimately show ?thesis by (auto simp: append_eq_append_conv simp del: digits.simps)
qed

lemma lang_spelling:
  "s \<in> lang (Seq (exactly 4 digit_class) (Seq (word_of ''-'') (Seq MONTHS (Seq (word_of ''-'') (Seq DAYS
       (Seq (word_of ''T'') (Seq HOURS (Seq (word_of '':'') (Seq SIXTIES (Seq (word_of '':'') (Seq SIXTIES
       (Seq (word_of ''.'') (Seq (exactly 3 digit_class) (word_of ''Z'')))))))))))))) \<longleftrightarrow>
     (\<exists>y mo d h mi se ms. s = spelling y mo d h mi se ms \<and> y \<le> 9999 \<and> 1 \<le> mo \<and> mo \<le> 12
        \<and> 1 \<le> d \<and> d \<le> 31 \<and> h \<le> 23 \<and> mi \<le> 59 \<and> se \<le> 59 \<and> ms \<le> 999)"
  (is "_ \<longleftrightarrow> ?R")
proof
  assume "s \<in> lang (Seq (exactly 4 digit_class) (Seq (word_of ''-'') (Seq MONTHS (Seq (word_of ''-'') (Seq DAYS
       (Seq (word_of ''T'') (Seq HOURS (Seq (word_of '':'') (Seq SIXTIES (Seq (word_of '':'') (Seq SIXTIES
       (Seq (word_of ''.'') (Seq (exactly 3 digit_class) (word_of ''Z''))))))))))))))"
  then show ?R
    unfolding lang_Seq_iff lang_word_of lang_fields spelling_def
    by (elim exE conjE, hypsubst) (intro exI conjI, rule refl, assumption+)
next
  assume ?R
  then show "s \<in> lang (Seq (exactly 4 digit_class) (Seq (word_of ''-'') (Seq MONTHS (Seq (word_of ''-'') (Seq DAYS
       (Seq (word_of ''T'') (Seq HOURS (Seq (word_of '':'') (Seq SIXTIES (Seq (word_of '':'') (Seq SIXTIES
       (Seq (word_of ''.'') (Seq (exactly 3 digit_class) (word_of ''Z''))))))))))))))"
    unfolding spelling_def
    by (elim exE conjE, hypsubst_thin, intro lang_SeqI; (unfold lang_word_of lang_fields)?; blast)
qed

lemma fullmatch_instant:
  "fullmatch INSTANT_PATTERN s \<longleftrightarrow>
     (\<exists>y mo d h mi se ms. s = spelling y mo d h mi se ms \<and> 1 \<le> y \<and> y \<le> 9999 \<and> 1 \<le> mo \<and> mo \<le> 12
        \<and> 1 \<le> d \<and> d \<le> 31 \<and> h \<le> 23 \<and> mi \<le> 59 \<and> se \<le> 59 \<and> ms \<le> 999)" (is "?L \<longleftrightarrow> ?R")
proof -
  have zero: "(\<exists>v. spelling y mo d h mi se ms = lit ''0000'' @ v) \<longleftrightarrow> y = 0" if "y \<le> 9999"
    for y mo d h mi se ms unfolding spelling_def by (rule year_zero [OF that])
  have L: "?L \<longleftrightarrow> (\<exists>y mo d h mi se ms. s = spelling y mo d h mi se ms \<and> y \<le> 9999 \<and> 1 \<le> mo \<and> mo \<le> 12
        \<and> 1 \<le> d \<and> d \<le> 31 \<and> h \<le> 23 \<and> mi \<le> 59 \<and> se \<le> 59 \<and> ms \<le> 999)
     \<and> \<not> (\<exists>v. s = lit ''0000'' @ v)"
    unfolding fullmatch_iff INSTANT_PATTERN_def lang.simps(7) mem_Collect_eq lang_spelling lang_word_of by blast
  show ?thesis
  proof
    assume ?L
    then obtain y mo d h mi se ms where f: "s = spelling y mo d h mi se ms" "y \<le> 9999" "1 \<le> mo" "mo \<le> 12"
      "1 \<le> d" "d \<le> 31" "h \<le> 23" "mi \<le> 59" "se \<le> 59" "ms \<le> 999" and "\<not> (\<exists>v. s = lit ''0000'' @ v)"
      unfolding L by blast
    then have "1 \<le> y" using zero by (metis One_nat_def Suc_leI neq0_conv)
    with f show ?R by blast
  next
    assume ?R
    then obtain y mo d h mi se ms where f: "s = spelling y mo d h mi se ms" "1 \<le> y" "y \<le> 9999" "1 \<le> mo" "mo \<le> 12"
      "1 \<le> d" "d \<le> 31" "h \<le> 23" "mi \<le> 59" "se \<le> 59" "ms \<le> 999" by blast
    then have "\<not> (\<exists>v. s = lit ''0000'' @ v)" using zero by (metis not_one_le_zero)
    with f show ?L unfolding L by blast
  qed
qed

section \<open>Properties\<close>

lemma field_spelling:
  assumes "y \<le> 9999" "mo \<le> 12" "d \<le> 31" "h \<le> 23" "mi \<le> 59" "se \<le> 59" "ms \<le> 999"
  shows "field 0 4 (spelling y mo d h mi se ms) = y" "field 5 2 (spelling y mo d h mi se ms) = mo"
    "field 8 2 (spelling y mo d h mi se ms) = d" "field 11 2 (spelling y mo d h mi se ms) = h"
    "field 14 2 (spelling y mo d h mi se ms) = mi" "field 17 2 (spelling y mo d h mi se ms) = se"
    "field 20 3 (spelling y mo d h mi se ms) = ms"
  using assms by (simp_all add: field_def spelling_def numeral_of_digits)

lemma format_spelling:
  assumes "datetime_ok t" "tz t = Some (Some 0)"
  shows "format_instant t =
    Inr (spelling (year t) (month t) (day t) (hour t) (minute t) (sec t) (microsecond t div 1000))"
proof -
  have pad: "padded w n = digits w n" if "0 < w" "n < 10 ^ w" for w n
    using padded_digits [of n "w - 1"] that by simp
  have "days_in_month (year t) (month t) \<le> 31" by (simp add: days_in_month_def)
  with assms(1) have "year t < 10000" "month t < 100" "day t < 100" "hour t < 100" "minute t < 100"
    "sec t < 100" "microsecond t div 1000 < 1000" by (auto simp: datetime_ok_def)
  with assms(2) show ?thesis by (simp add: format_instant_def spelling_def pad)
qed

lemma parse_formatted:
  assumes "datetime_ok t" and "format_instant t = Inr s"
  shows "parse_instant (PStr s) = Inr (t\<lparr>microsecond := microsecond t div 1000 * 1000\<rparr>)"
proof -
  from assms(2) have tz: "tz t = Some (Some 0)" by (auto simp: format_instant_def split: if_splits)
  let ?s = "spelling (year t) (month t) (day t) (hour t) (minute t) (sec t) (microsecond t div 1000)"
  have s: "s = ?s" using format_spelling [OF assms(1) tz] assms(2) by simp
  have month: "days_in_month (year t) (month t) \<le> 31" by (simp add: days_in_month_def)
  with assms(1) have range: "1 \<le> year t" "year t \<le> 9999" "1 \<le> month t" "month t \<le> 12" "1 \<le> day t"
    "day t \<le> 31" "hour t \<le> 23" "minute t \<le> 59" "sec t \<le> 59" "microsecond t div 1000 \<le> 999"
    by (auto simp: datetime_ok_def)
  then have "fullmatch INSTANT_PATTERN ?s" unfolding fullmatch_instant by blast
  moreover have "strptime ?s = Some (t\<lparr>microsecond := microsecond t div 1000 * 1000, tz := None\<rparr>)"
    using assms(1) range by (simp add: strptime_def field_spelling datetime_ok_def)
  ultimately show ?thesis unfolding s using tz by (simp add: s)
qed

text \<open>C36. Formatting an instant and parsing it back floors it to the millisecond and changes nothing
  else.\<close>

theorem parse_format_instant:
  assumes "datetime_ok t" and "format_instant t = Inr s"
  shows "parse_instant (PStr s) = Inr (t\<lparr>microsecond := microsecond t div 1000 * 1000\<rparr>)"
  using assms by (rule parse_formatted)

theorem parse_format_instant_witness:
  "parse_instant (PStr (lit ''2026-02-28T09:05:00.041Z'')) =
    Inr \<lparr>year = 2026, month = 2, day = 28, hour = 9, minute = 5, sec = 0, microsecond = 41000, tz = Some (Some 0)\<rparr>"
proof -
  let ?t = "\<lparr>year = 2026, month = 2, day = 28, hour = 9, minute = 5, sec = 0, microsecond = 41999, tz = Some (Some 0)\<rparr>"
  have "datetime_ok ?t" by code_simp
  moreover have "format_instant ?t = Inr (lit ''2026-02-28T09:05:00.041Z'')" by code_simp
  ultimately have "parse_instant (PStr (lit ''2026-02-28T09:05:00.041Z''))
    = Inr (?t\<lparr>microsecond := microsecond ?t div 1000 * 1000\<rparr>)" by (rule parse_format_instant)
  then show ?thesis by (simp del: parse_instant.simps)
qed

text \<open>C37. One instant has one spelling: a parsed instant is a real UTC date and time of whole
  milliseconds, and formats to the very text it was parsed from.\<close>

theorem format_parse_instant:
  assumes "parse_instant (PStr s) = Inr t"
  shows "datetime_ok t \<and> tz t = Some (Some 0) \<and> 1000 dvd microsecond t \<and> format_instant t = Inr s"
proof -
  from assms have "fullmatch INSTANT_PATTERN s" by (auto split: if_splits)
  then obtain y mo d h mi se ms where s: "s = spelling y mo d h mi se ms" and range: "1 \<le> y" "y \<le> 9999"
    "1 \<le> mo" "mo \<le> 12" "1 \<le> d" "d \<le> 31" "h \<le> 23" "mi \<le> 59" "se \<le> 59" "ms \<le> 999"
    unfolding fullmatch_instant by blast
  from assms have t: "t = \<lparr>year = y, month = mo, day = d, hour = h, minute = mi, sec = se,
      microsecond = 1000 * ms, tz = Some (Some 0)\<rparr>" and day: "d \<le> days_in_month y mo"
    using range by (auto simp: s strptime_def field_spelling Let_def split: if_splits)
  from range day have "datetime_ok t" by (auto simp: t datetime_ok_def)
  moreover from format_spelling [OF this] have "format_instant t = Inr s" by (simp add: t s)
  ultimately show ?thesis by (simp add: t)
qed

theorem format_parse_instant_witness:
  "format_instant \<lparr>year = 2024, month = 2, day = 29, hour = 23, minute = 59, sec = 59, microsecond = 999000,
     tz = Some (Some 0)\<rparr> = Inr (lit ''2024-02-29T23:59:59.999Z'')"
proof -
  have "parse_instant (PStr (lit ''2024-02-29T23:59:59.999Z'')) =
    Inr \<lparr>year = 2024, month = 2, day = 29, hour = 23, minute = 59, sec = 59, microsecond = 999000,
     tz = Some (Some 0)\<rparr>" by code_simp
  from format_parse_instant [OF this] show ?thesis by blast
qed

end
