(* ===== verification/Envelope.thy ===== *)
theory Envelope
  imports Topics Instant
begin

text \<open>
  \<open>packages/contracts/src/aerial_rescue_contracts/envelope.py\<close>: the CloudEvents envelope validated
  at the trust boundary, its binding to a payload schema and a producer, and its binding to the
  topic it arrived on. The JSON parser behind \<open>decode_envelope\<close> is in theory \<open>Json\<close>.
\<close>

section \<open>Patterns and tables\<close>

definition SPEC_VERSION :: pystr where
  "SPEC_VERSION = lit ''1.0''"

definition DATA_CONTENT_TYPE :: pystr where
  "DATA_CONTENT_TYPE = lit ''application/json''"

definition SCHEMA_ID_BASE :: string where
  "SCHEMA_ID_BASE = ''https://aerial-rescue.invalid/''"

definition RESERVED_REPLY_MISSION :: pystr where
  "RESERVED_REPLY_MISSION = lit ''reply''"

text \<open>\<open>aerial-rescue\.v1(?:\.[a-z][a-z0-9]*(?:-[a-z0-9]+)*){2,3}\<close>\<close>

definition TYPE_PATTERN :: regex where
  "TYPE_PATTERN = Seq (word_of ''aerial-rescue.v1'') (between 2 3 (Seq (word_of ''.'') KIND_PATTERN))"

text \<open>\<open>urn:aerial-rescue:[a-z][a-z0-9]*(?:-[a-z0-9]+)*:[A-Za-z0-9][A-Za-z0-9_-]{0,63}\<close>\<close>

definition SOURCE_PATTERN :: regex where
  "SOURCE_PATTERN =
     Seq (word_of ''urn:aerial-rescue:'') (Seq KIND_PATTERN (Seq (word_of '':'')
       (Seq (Cls [(CHR ''A'', CHR ''Z''), (CHR ''a'', CHR ''z''), (CHR ''0'', CHR ''9'')])
            (between 0 63 (Cls [(CHR ''A'', CHR ''Z''), (CHR ''a'', CHR ''z''), (CHR ''0'', CHR ''9''),
               (CHR ''_'', CHR ''_''), (CHR ''-'', CHR ''-'')])))))"

text \<open>\<open>https://aerial-rescue\.invalid/schemas/v1/payload/[a-z][a-z0-9]*(?:-[a-z0-9]+)*\.schema\.json\<close>\<close>

definition DATASCHEMA_PATTERN :: regex where
  "DATASCHEMA_PATTERN =
     Seq (word_of ''https://aerial-rescue.invalid/schemas/v1/payload/'')
         (Seq KIND_PATTERN (word_of ''.schema.json''))"

definition SEQUENCE_DIGITS :: nat where
  "SEQUENCE_DIGITS = 15"

definition SEQUENCE_PATTERN :: regex where
  "SEQUENCE_PATTERN = exactly SEQUENCE_DIGITS digit_class"

definition MAX_SEQUENCE :: int where
  "MAX_SEQUENCE = 10 ^ SEQUENCE_DIGITS - 1"

abbreviation hex_class :: regex where
  "hex_class \<equiv> Cls [(CHR ''0'', CHR ''9''), (CHR ''a'', CHR ''f'')]"

text \<open>\<open>00-(?!0{32})[0-9a-f]{32}-(?!0{16})[0-9a-f]{16}-[0-9a-f]{2}\<close>\<close>

definition TRACEPARENT_PATTERN :: regex where
  "TRACEPARENT_PATTERN =
     Seq (word_of ''00-'')
       (Ahead (exactly 32 (word_of ''0''))
         (Seq (exactly 32 hex_class) (Seq (word_of ''-'')
           (Ahead (exactly 16 (word_of ''0''))
             (Seq (exactly 16 hex_class) (Seq (word_of ''-'') (exactly 2 hex_class)))))))"

text \<open>\<open>[\x20-\x7e]{1,512}\<close>\<close>

definition TRACESTATE_PATTERN :: regex where
  "TRACESTATE_PATTERN = between 1 512 (Cls [(CHR '' '', CHR ''~'')])"

definition REQUIRED_MEMBERS :: "pystr list" where
  "REQUIRED_MEMBERS =
    [lit ''specversion'', lit ''id'', lit ''source'', lit ''type'', lit ''subject'', lit ''time'',
     lit ''datacontenttype'', lit ''dataschema'', lit ''data'', lit ''sequence'',
     lit ''correlationid'', lit ''traceparent'']"

definition OPTIONAL_MEMBERS :: "pystr list" where
  "OPTIONAL_MEMBERS = [lit ''causationid'', lit ''tracestate'']"

definition ALLOWED_MEMBERS :: "pystr list" where
  "ALLOWED_MEMBERS = REQUIRED_MEMBERS @ OPTIONAL_MEMBERS"

definition TEXT_RULES :: "(pystr, regex) pydict" where
  "TEXT_RULES =
    [(lit ''id'', IDENTIFIER_PATTERN), (lit ''source'', SOURCE_PATTERN), (lit ''type'', TYPE_PATTERN),
     (lit ''subject'', IDENTIFIER_PATTERN), (lit ''dataschema'', DATASCHEMA_PATTERN),
     (lit ''sequence'', SEQUENCE_PATTERN), (lit ''correlationid'', IDENTIFIER_PATTERN),
     (lit ''traceparent'', TRACEPARENT_PATTERN)]"

definition OPTIONAL_RULES :: "(pystr, regex) pydict" where
  "OPTIONAL_RULES = [(lit ''causationid'', IDENTIFIER_PATTERN), (lit ''tracestate'', TRACESTATE_PATTERN)]"

definition CONSTANTS :: "(pystr, pystr) pydict" where
  "CONSTANTS = [(lit ''specversion'', SPEC_VERSION), (lit ''datacontenttype'', DATA_CONTENT_TYPE)]"

definition MISSION_KEY :: pystr where
  "MISSION_KEY = lit ''missionId''"

definition TOPIC_PAYLOAD_PATHS :: "(Family, (pystr, pystr list) pydict) pydict" where
  "TOPIC_PAYLOAD_PATHS =
    [(OPERATOR_COMMAND, [(lit ''commandType'', [lit ''action'', lit ''commandType''])]),
     (OPERATOR_APPROVAL, [(lit ''decision'', [lit ''decision''])]),
     (AGENT_PROPOSAL, [(lit ''agentName'', [lit ''agentName'']),
                       (lit ''proposalType'', [lit ''proposalType''])]),
     (EVIDENCE_DECISION, [(lit ''proposalId'', [lit ''proposalId''])]),
     (AUDIT, [(lit ''recordType'', [lit ''recordType''])])]"

datatype EnvelopeRefusal =
    NOT_AN_OBJECT | UNKNOWN_MEMBER | MISSING_ATTRIBUTE | ATTRIBUTE_FORM | DATA_PROFILE
  | RESERVED_MISSION | UNKNOWN_TYPE | SOURCE_BINDING | DATASCHEMA_BINDING | SUBJECT_BINDING
  | PAYLOAD_BINDING | TOPIC_BINDING

text \<open>An \<open>EnvelopeError\<close> with its refusal, attribute and value; otherwise an exception of a function
  that is called, passed on.\<close>

datatype envelope_error =
    EnvelopeError EnvelopeRefusal pystr pyval
  | MemberKeyError pystr
  | FromTopic topic_error
  | FromCanonical CanonicalizationError

record Binding =
  event_type_of :: pystr
  bound_family :: Family
  bound_dataschema :: pystr
  source_pattern :: "regex option"

definition lifecycle_source_pattern :: "string \<Rightarrow> regex" where
  "lifecycle_source_pattern producer_kind =
     Seq (word_of (''urn:aerial-rescue:'' @ producer_kind @ '':'')) IDENTIFIER_PATTERN"

definition bound :: "string \<Rightarrow> Family \<Rightarrow> string \<Rightarrow> regex option \<Rightarrow> pystr \<times> Binding" where
  "bound t f schema pattern =
     (lit t, \<lparr>event_type_of = lit t, bound_family = f, bound_dataschema = lit (SCHEMA_ID_BASE @ schema),
              source_pattern = pattern\<rparr>)"

definition BINDINGS :: "(pystr, Binding) pydict" where
  "BINDINGS =
    [bound ''aerial-rescue.v1.operator.command.assign-sector'' OPERATOR_COMMAND
       ''schemas/v1/payload/operator-command.schema.json'' (Some (lifecycle_source_pattern ''dashboard-api'')),
     bound ''aerial-rescue.v1.operator.command.escalate-rescue'' OPERATOR_COMMAND
       ''schemas/v1/payload/operator-command.schema.json'' (Some (lifecycle_source_pattern ''dashboard-api'')),
     bound ''aerial-rescue.v1.operator.approval.approve'' OPERATOR_APPROVAL
       ''schemas/v1/payload/operator-approval.schema.json'' (Some (lifecycle_source_pattern ''dashboard-api'')),
     bound ''aerial-rescue.v1.operator.approval.reject'' OPERATOR_APPROVAL
       ''schemas/v1/payload/operator-approval.schema.json'' (Some (lifecycle_source_pattern ''dashboard-api'')),
     bound ''aerial-rescue.v1.drone.telemetry'' DRONE_TELEMETRY
       ''schemas/v1/payload/drone-telemetry.schema.json'' None,
     bound ''aerial-rescue.v1.drone.event.salient'' DRONE_EVENT
       ''schemas/v1/payload/drone-event-salient.schema.json'' None,
     bound ''aerial-rescue.v1.drone.event.connectivity-changed'' DRONE_EVENT
       ''schemas/v1/payload/drone-event-connectivity-changed.schema.json'' (Some (lifecycle_source_pattern ''connectivity-lifecycle'')),
     bound ''aerial-rescue.v1.mission.event.lifecycle'' MISSION_EVENT
       ''schemas/v1/payload/mission-event-lifecycle.schema.json'' (Some (lifecycle_source_pattern ''mission-lifecycle'')),
     bound ''aerial-rescue.v1.sector.event.lifecycle'' SECTOR_EVENT
       ''schemas/v1/payload/sector-event-lifecycle.schema.json'' (Some (lifecycle_source_pattern ''sector-lifecycle'')),
     bound ''aerial-rescue.v1.gateway.record'' GATEWAY_RECORD
       ''schemas/v1/payload/gateway-response.schema.json'' (Some (lifecycle_source_pattern ''command-gateway'')),
     bound ''aerial-rescue.v1.agent.proposal.candidate-location'' AGENT_PROPOSAL
       ''schemas/v1/payload/agent-proposal.schema.json'' (Some (lifecycle_source_pattern ''command-gateway'')),
     bound ''aerial-rescue.v1.evidence.decision'' EVIDENCE_DECISION
       ''schemas/v1/payload/evidence-decision.schema.json'' (Some (lifecycle_source_pattern ''evidence-service'')),
     bound ''aerial-rescue.v1.drone.command.assign-sector'' DRONE_COMMAND
       ''schemas/v1/payload/drone-command-assign-sector.schema.json'' None,
     bound ''aerial-rescue.v1.drone.command.escalate-rescue'' DRONE_COMMAND
       ''schemas/v1/payload/drone-command-escalate-rescue.schema.json'' (Some (lifecycle_source_pattern ''command-gateway'')),
     bound ''aerial-rescue.v1.drone.command-result'' DRONE_COMMAND_RESULT
       ''schemas/v1/payload/drone-command-result.schema.json'' None,
     bound ''aerial-rescue.v1.audit.proposal-normalization'' AUDIT
       ''schemas/v1/payload/audit.schema.json'' (Some (lifecycle_source_pattern ''command-gateway'')),
     bound ''aerial-rescue.v1.audit.evidence-decision'' AUDIT
       ''schemas/v1/payload/audit.schema.json'' (Some (lifecycle_source_pattern ''evidence-service'')),
     bound ''aerial-rescue.v1.audit.command-authorization'' AUDIT
       ''schemas/v1/payload/audit.schema.json'' (Some (lifecycle_source_pattern ''command-gateway''))]"

definition binding_for :: "pystr \<Rightarrow> envelope_error + Binding" where
  "binding_for t =
     (case map_of BINDINGS t of
        None \<Rightarrow> Inl (EnvelopeError UNKNOWN_TYPE (lit ''type'') (PStr t))
      | Some b \<Rightarrow> Inr b)"

section \<open>Validation\<close>

record Envelope =
  envelope_id :: pystr
  source :: pystr
  envelope_type :: pystr
  subject :: pystr
  time :: pystr
  dataschema :: pystr
  sequence :: pystr
  correlation_id :: pystr
  traceparent :: pystr
  data :: members
  causation_id :: "pystr option"
  tracestate :: "pystr option"

fun str_key :: "pykey \<Rightarrow> pystr" where
  "str_key (KStr s) = s"
| "str_key (KObj s) = s"

fun find_missing :: "members \<Rightarrow> pystr list \<Rightarrow> pystr option" where
  "find_missing document [] = None"
| "find_missing document (name # rest) =
     (if has_member document name then find_missing document rest else Some name)"

fun envelope_members :: "pyval \<Rightarrow> envelope_error + members" where
  "envelope_members (PDict document) =
     (let unknown = sort (map str_key (filter (\<lambda>key. key \<notin> KStr ` set ALLOWED_MEMBERS) (dict_keys document)))
      in if unknown \<noteq> [] then
           (case map_of document (KStr (hd unknown)) of
              None \<Rightarrow> Inl (MemberKeyError (hd unknown))
            | Some val \<Rightarrow> Inl (EnvelopeError UNKNOWN_MEMBER (hd unknown) val))
         else (case find_missing document REQUIRED_MEMBERS of
                 Some name \<Rightarrow> Inl (EnvelopeError MISSING_ATTRIBUTE name PNone)
               | None \<Rightarrow> Inr document))"
| "envelope_members document = Inl (EnvelopeError NOT_AN_OBJECT (lit ''envelope'') document)"

fun text_member :: "pyval \<Rightarrow> pystr \<Rightarrow> regex \<Rightarrow> envelope_error + pystr" where
  "text_member (PStr val) name pattern =
     (if fullmatch pattern val then Inr val else Inl (EnvelopeError ATTRIBUTE_FORM name (PStr val)))"
| "text_member val name pattern = Inl (EnvelopeError ATTRIBUTE_FORM name val)"

definition time_member :: "pyval \<Rightarrow> envelope_error + pystr" where
  "time_member val =
     bindE (text_member val (lit ''time'') INSTANT_PATTERN) (\<lambda>text.
       case parse_instant (PStr text) of
         Inl error \<Rightarrow> Inl (EnvelopeError ATTRIBUTE_FORM (lit ''time'') val)
       | Inr instant \<Rightarrow> Inr text)"

text \<open>The only exception \<open>canonical_bytes\<close> raises besides its own is Python's UnicodeEncodeError, which
  the handler does not catch.\<close>

fun data_member :: "(pystr \<Rightarrow> pystr) \<Rightarrow> pyval \<Rightarrow> envelope_error + members" where
  "data_member nfc (PDict val) =
     (case canonical_bytes nfc (PDict val) of
        Inr bytes \<Rightarrow> Inr val
      | Inl (UnicodeEncode text) \<Rightarrow> Inl (FromCanonical (UnicodeEncode text))
      | Inl error \<Rightarrow> Inl (EnvelopeError DATA_PROFILE (lit ''data'') (PDict val)))"
| "data_member nfc val = Inl (EnvelopeError ATTRIBUTE_FORM (lit ''data'') val)"

fun constants_hold :: "members \<Rightarrow> (pystr, pystr) pydict \<Rightarrow> envelope_error + unit" where
  "constants_hold ms [] = Inr ()"
| "constants_hold ms ((name, expected) # rest) =
     (if get ms name \<noteq> PStr expected then Inl (EnvelopeError ATTRIBUTE_FORM name (get ms name))
      else constants_hold ms rest)"

definition named_text :: "members \<Rightarrow> pystr \<times> regex \<Rightarrow> envelope_error + pystr \<times> pystr" where
  "named_text ms = (\<lambda>(name, pattern). bindE (text_member (get ms name) name pattern) (\<lambda>t. Inr (name, t)))"

definition forms :: "members \<Rightarrow> envelope_error + (pystr, pystr) pydict" where
  "forms ms =
     bindE (constants_hold ms CONSTANTS) (\<lambda>_.
       bindE (mapE (named_text ms) TEXT_RULES) (\<lambda>texts.
         bindE (time_member (get ms (lit ''time''))) (\<lambda>t.
           bindE (mapE (named_text ms) (filter (\<lambda>(name, pattern). has_member ms name) OPTIONAL_RULES)) (\<lambda>optional.
             Inr (texts @ (lit ''time'', t) # optional)))))"

text \<open>\<open>texts[name]\<close>, for the names \<open>forms\<close> always sets.\<close>

definition text_of :: "(pystr, pystr) pydict \<Rightarrow> string \<Rightarrow> pystr" where
  "text_of texts name = the (map_of texts (lit name))"

definition reserved :: "(pystr, pystr) pydict \<Rightarrow> envelope_error + unit" where
  "reserved texts =
     (if text_of texts ''subject'' = RESERVED_REPLY_MISSION
      then Inl (EnvelopeError RESERVED_MISSION (lit ''subject'') (PStr (text_of texts ''subject'')))
      else Inr ())"

definition bind_envelope :: "(pystr, pystr) pydict \<Rightarrow> members \<Rightarrow> envelope_error + unit" where
  "bind_envelope texts d =
     bindE (binding_for (text_of texts ''type'')) (\<lambda>binding.
       if (case source_pattern binding of None \<Rightarrow> False
           | Some pattern \<Rightarrow> \<not> fullmatch pattern (text_of texts ''source''))
       then Inl (EnvelopeError SOURCE_BINDING (lit ''source'') (PStr (text_of texts ''source'')))
       else if text_of texts ''dataschema'' \<noteq> bound_dataschema binding
       then Inl (EnvelopeError DATASCHEMA_BINDING (lit ''dataschema'') (PStr (text_of texts ''dataschema'')))
       else if get d MISSION_KEY \<noteq> PStr (text_of texts ''subject'')
       then Inl (EnvelopeError SUBJECT_BINDING (lit ''subject'') (PStr (text_of texts ''subject'')))
       else if bound_family binding = OPERATOR_APPROVAL
               \<and> get d (lit ''issuedAt'') \<noteq> PStr (text_of texts ''time'')
       then Inl (EnvelopeError PAYLOAD_BINDING (lit ''data.issuedAt'') (get d (lit ''issuedAt'')))
       else Inr ())"

text \<open>\<open>f"{value:015d}"\<close> inside the range the form can carry.\<close>

definition sequence_text :: "int \<Rightarrow> pystr option" where
  "sequence_text val =
     (if val < 0 \<or> val > MAX_SEQUENCE then None else Some (padded SEQUENCE_DIGITS (nat val)))"

definition parse_envelope :: "(pystr \<Rightarrow> pystr) \<Rightarrow> pyval \<Rightarrow> envelope_error + Envelope" where
  "parse_envelope nfc document =
     bindE (envelope_members document) (\<lambda>ms.
     bindE (forms ms) (\<lambda>texts.
     bindE (reserved texts) (\<lambda>_.
     bindE (data_member nfc (get ms (lit ''data''))) (\<lambda>d.
     bindE (bind_envelope texts d) (\<lambda>_.
       Inr \<lparr>envelope_id = text_of texts ''id'', source = text_of texts ''source'',
            envelope_type = text_of texts ''type'', subject = text_of texts ''subject'',
            time = text_of texts ''time'', dataschema = text_of texts ''dataschema'',
            sequence = text_of texts ''sequence'', correlation_id = text_of texts ''correlationid'',
            traceparent = text_of texts ''traceparent'', data = d,
            causation_id = map_of texts (lit ''causationid''),
            tracestate = map_of texts (lit ''tracestate'')\<rparr>)))))"

definition optional_member :: "string \<Rightarrow> pystr option \<Rightarrow> members" where
  "optional_member name val = (case val of None \<Rightarrow> [] | Some text \<Rightarrow> [(KStr (lit name), PStr text)])"

definition envelope_document :: "Envelope \<Rightarrow> members" where
  "envelope_document e =
     obj [(''specversion'', PStr SPEC_VERSION), (''id'', PStr (envelope_id e)), (''source'', PStr (source e)),
       (''type'', PStr (envelope_type e)), (''subject'', PStr (subject e)), (''time'', PStr (time e)),
       (''datacontenttype'', PStr DATA_CONTENT_TYPE), (''dataschema'', PStr (dataschema e)),
       (''data'', PDict (data e)), (''sequence'', PStr (sequence e)),
       (''correlationid'', PStr (correlation_id e)), (''traceparent'', PStr (traceparent e))]
     @ optional_member ''causationid'' (causation_id e) @ optional_member ''tracestate'' (tracestate e)"

section \<open>Topic binding\<close>

text \<open>\<open>value = value.get(member) if isinstance(value, Mapping) else None\<close> along a path.\<close>

fun follow :: "pyval \<Rightarrow> pystr list \<Rightarrow> pyval" where
  "follow val [] = val"
| "follow (PDict d) (name # path) = follow (get d name) path"
| "follow val (name # path) = follow PNone path"

definition payload_path :: "Family \<Rightarrow> pystr \<Rightarrow> pystr list option" where
  "payload_path f name =
     (case map_of TOPIC_PAYLOAD_PATHS f of
        None \<Rightarrow> if rule_for name = IDENTIFIER then Some [name] else None
      | Some repeated \<Rightarrow>
          (case map_of repeated name of
             Some path \<Rightarrow> Some path
           | None \<Rightarrow> if rule_for name = IDENTIFIER then Some [name] else None))"

fun check_payload :: "Family \<Rightarrow> members \<Rightarrow> (pystr, pystr) pydict \<Rightarrow> envelope_error + unit" where
  "check_payload f d [] = Inr ()"
| "check_payload f d ((name, expected) # rest) =
     (case payload_path f name of
        None \<Rightarrow> check_payload f d rest
      | Some path \<Rightarrow>
          if follow (PDict d) path \<noteq> PStr expected
          then Inl (EnvelopeError TOPIC_BINDING (join_with 46 path) (follow (PDict d) path))
          else check_payload f d rest)"

definition check_topic_binding :: "Envelope \<Rightarrow> Topic \<Rightarrow> envelope_error + unit" where
  "check_topic_binding e topic =
     (case event_type topic of
        Inl error \<Rightarrow> Inl (FromTopic error)
      | Inr t \<Rightarrow>
          if t \<noteq> envelope_type e
          then Inl (EnvelopeError TOPIC_BINDING (lit ''type'') (PStr (envelope_type e)))
          else if mission_id topic \<noteq> subject e
          then Inl (EnvelopeError TOPIC_BINDING (lit ''subject'') (PStr (subject e)))
          else check_payload (family topic) (data e) (topic_parameters topic))"

section \<open>The accepted documents\<close>

text \<open>What the profile asks of an envelope, as one predicate.\<close>

definition envelope_ok :: "(pystr \<Rightarrow> pystr) \<Rightarrow> Envelope \<Rightarrow> bool" where
  "envelope_ok nfc e \<longleftrightarrow>
     fullmatch IDENTIFIER_PATTERN (envelope_id e) \<and> fullmatch SOURCE_PATTERN (source e)
     \<and> fullmatch TYPE_PATTERN (envelope_type e) \<and> fullmatch IDENTIFIER_PATTERN (subject e)
     \<and> fullmatch DATASCHEMA_PATTERN (dataschema e) \<and> fullmatch SEQUENCE_PATTERN (sequence e)
     \<and> fullmatch IDENTIFIER_PATTERN (correlation_id e) \<and> fullmatch TRACEPARENT_PATTERN (traceparent e)
     \<and> (\<exists>t. parse_instant (PStr (time e)) = Inr t)
     \<and> pred_option (fullmatch IDENTIFIER_PATTERN) (causation_id e)
     \<and> pred_option (fullmatch TRACESTATE_PATTERN) (tracestate e)
     \<and> subject e \<noteq> RESERVED_REPLY_MISSION
     \<and> (\<exists>bytes. canonical_bytes nfc (PDict (data e)) = Inr bytes)
     \<and> (\<exists>b. map_of BINDINGS (envelope_type e) = Some b
          \<and> pred_option (\<lambda>pattern. fullmatch pattern (source e)) (source_pattern b)
          \<and> dataschema e = bound_dataschema b
          \<and> (bound_family b = OPERATOR_APPROVAL \<longrightarrow> get (data e) (lit ''issuedAt'') = PStr (time e)))
     \<and> get (data e) MISSION_KEY = PStr (subject e)"

definition text_at :: "members \<Rightarrow> string \<Rightarrow> regex \<Rightarrow> pystr \<Rightarrow> bool" where
  "text_at ms name pattern t \<longleftrightarrow> get ms (lit name) = PStr t \<and> fullmatch pattern t"

definition option_at :: "members \<Rightarrow> string \<Rightarrow> regex \<Rightarrow> pystr option \<Rightarrow> bool" where
  "option_at ms name pattern v \<longleftrightarrow>
     (case v of None \<Rightarrow> \<not> has_member ms (lit name) | Some t \<Rightarrow> text_at ms name pattern t)"

definition option_text :: "string \<Rightarrow> pystr option \<Rightarrow> (pystr, pystr) pydict" where
  "option_text name v = (case v of None \<Rightarrow> [] | Some t \<Rightarrow> [(lit name, t)])"

lemma text_member_Inr: "text_member v name pattern = Inr t \<longleftrightarrow> v = PStr t \<and> fullmatch pattern t"
  by (cases v) auto

lemma named_text_Inr: "named_text ms (lit n, p) = Inr x \<longleftrightarrow> (\<exists>t. text_at ms n p t \<and> x = (lit n, t))"
  by (auto simp: named_text_def text_member_Inr text_at_def)

lemma get_PStr_member: "get ms name = PStr t \<Longrightarrow> has_member ms name"
  by (auto simp: get_def has_member_iff split: option.splits)

lemma optional_Inr:
  "mapE (named_text ms) (filter (\<lambda>(name, pattern). has_member ms name) [(lit n, p)]) = Inr os \<longleftrightarrow>
     (\<exists>v. option_at ms n p v \<and> os = option_text n v)"
proof (cases "has_member ms (lit n)")
  case True
  then have "\<not> option_at ms n p None" by (simp add: option_at_def)
  with True show ?thesis
    by (auto simp: named_text_Inr option_at_def option_text_def split: option.splits)
next
  case False
  then have "\<not> text_at ms n p t" for t by (auto simp: text_at_def dest: get_PStr_member)
  with False show ?thesis by (auto simp: option_at_def option_text_def split: option.splits)
qed

lemma optional_texts:
  "mapE (named_text ms) (filter (\<lambda>(name, pattern). has_member ms name) OPTIONAL_RULES) = Inr os \<longleftrightarrow>
     (\<exists>c s. option_at ms ''causationid'' IDENTIFIER_PATTERN c \<and> option_at ms ''tracestate'' TRACESTATE_PATTERN s
        \<and> os = option_text ''causationid'' c @ option_text ''tracestate'' s)"
proof -
  have rules: "OPTIONAL_RULES = [(lit ''causationid'', IDENTIFIER_PATTERN)] @ [(lit ''tracestate'', TRACESTATE_PATTERN)]"
    by (simp add: OPTIONAL_RULES_def)
  show ?thesis unfolding rules filter_append mapE_append bindE_eq_Inr optional_Inr sum.inject by blast
qed

lemma time_member_Inr:
  "time_member v = Inr t \<longleftrightarrow> v = PStr t \<and> (\<exists>i. parse_instant (PStr t) = Inr i)"
proof -
  have "fullmatch INSTANT_PATTERN t" if "parse_instant (PStr t) = Inr i" for i
    using that by (auto split: if_splits)
  moreover have "(case parse_instant (PStr a) of Inl error \<Rightarrow> Inl (EnvelopeError ATTRIBUTE_FORM (lit ''time'') v)
      | Inr instant \<Rightarrow> Inr a) = Inr t \<longleftrightarrow> a = t \<and> (\<exists>i. parse_instant (PStr t) = Inr i)" for a
    by (cases "parse_instant (PStr a)") (auto simp del: parse_instant.simps)
  ultimately show ?thesis unfolding time_member_def bindE_eq_Inr text_member_Inr by blast
qed

text \<open>The text members of a document against an envelope, and the dictionary \<open>forms\<close> builds of them.\<close>

definition attributes :: "members \<Rightarrow> Envelope \<Rightarrow> bool" where
  "attributes ms e \<longleftrightarrow>
     get ms (lit ''specversion'') = PStr SPEC_VERSION \<and> get ms (lit ''datacontenttype'') = PStr DATA_CONTENT_TYPE
     \<and> text_at ms ''id'' IDENTIFIER_PATTERN (envelope_id e) \<and> text_at ms ''source'' SOURCE_PATTERN (source e)
     \<and> text_at ms ''type'' TYPE_PATTERN (envelope_type e) \<and> text_at ms ''subject'' IDENTIFIER_PATTERN (subject e)
     \<and> text_at ms ''dataschema'' DATASCHEMA_PATTERN (dataschema e)
     \<and> text_at ms ''sequence'' SEQUENCE_PATTERN (sequence e)
     \<and> text_at ms ''correlationid'' IDENTIFIER_PATTERN (correlation_id e)
     \<and> text_at ms ''traceparent'' TRACEPARENT_PATTERN (traceparent e)
     \<and> get ms (lit ''time'') = PStr (time e) \<and> (\<exists>x. parse_instant (PStr (time e)) = Inr x)
     \<and> option_at ms ''causationid'' IDENTIFIER_PATTERN (causation_id e)
     \<and> option_at ms ''tracestate'' TRACESTATE_PATTERN (tracestate e)"

definition texts_of :: "Envelope \<Rightarrow> (pystr, pystr) pydict" where
  "texts_of e =
    [(lit ''id'', envelope_id e), (lit ''source'', source e), (lit ''type'', envelope_type e),
     (lit ''subject'', subject e), (lit ''dataschema'', dataschema e), (lit ''sequence'', sequence e),
     (lit ''correlationid'', correlation_id e), (lit ''traceparent'', traceparent e), (lit ''time'', time e)]
    @ option_text ''causationid'' (causation_id e) @ option_text ''tracestate'' (tracestate e)"

lemma text_rules_Inr:
  "mapE (named_text ms) TEXT_RULES = Inr ts \<longleftrightarrow>
    (\<exists>i s ty su ds sq co tp. text_at ms ''id'' IDENTIFIER_PATTERN i \<and> text_at ms ''source'' SOURCE_PATTERN s
        \<and> text_at ms ''type'' TYPE_PATTERN ty \<and> text_at ms ''subject'' IDENTIFIER_PATTERN su
        \<and> text_at ms ''dataschema'' DATASCHEMA_PATTERN ds \<and> text_at ms ''sequence'' SEQUENCE_PATTERN sq
        \<and> text_at ms ''correlationid'' IDENTIFIER_PATTERN co \<and> text_at ms ''traceparent'' TRACEPARENT_PATTERN tp
        \<and> ts = [(lit ''id'', i), (lit ''source'', s), (lit ''type'', ty), (lit ''subject'', su),
            (lit ''dataschema'', ds), (lit ''sequence'', sq), (lit ''correlationid'', co), (lit ''traceparent'', tp)])"
  (is "?L \<longleftrightarrow> ?R")
proof
  assume ?L
  then show ?R
    unfolding TEXT_RULES_def mapE.simps bindE_eq_Inr named_text_Inr sum.inject
    by (elim exE conjE) (hypsubst, intro exI conjI, assumption+, rule refl)
next
  assume ?R
  then show ?L unfolding TEXT_RULES_def by (elim exE conjE) (simp add: named_text_def text_at_def)
qed

lemma forms_parts:
  "forms ms = Inr texts \<longleftrightarrow>
     get ms (lit ''specversion'') = PStr SPEC_VERSION \<and> get ms (lit ''datacontenttype'') = PStr DATA_CONTENT_TYPE
     \<and> (\<exists>ts t os. mapE (named_text ms) TEXT_RULES = Inr ts \<and> time_member (get ms (lit ''time'')) = Inr t
         \<and> mapE (named_text ms) (filter (\<lambda>(name, pattern). has_member ms name) OPTIONAL_RULES) = Inr os
         \<and> texts = ts @ (lit ''time'', t) # os)"
proof -
  have "constants_hold ms CONSTANTS = Inr u \<longleftrightarrow>
    get ms (lit ''specversion'') = PStr SPEC_VERSION \<and> get ms (lit ''datacontenttype'') = PStr DATA_CONTENT_TYPE" for u
    by (simp add: CONSTANTS_def)
  then show ?thesis unfolding forms_def bindE_eq_Inr by auto
qed

lemma forms_Inr: "forms ms = Inr texts \<longleftrightarrow> (\<exists>e. attributes ms e \<and> texts = texts_of e)"
proof
  assume "forms ms = Inr texts"
  then obtain ts t os where head: "get ms (lit ''specversion'') = PStr SPEC_VERSION"
      "get ms (lit ''datacontenttype'') = PStr DATA_CONTENT_TYPE"
    and parts: "mapE (named_text ms) TEXT_RULES = Inr ts" "time_member (get ms (lit ''time'')) = Inr t"
      "mapE (named_text ms) (filter (\<lambda>(name, pattern). has_member ms name) OPTIONAL_RULES) = Inr os"
    and texts: "texts = ts @ (lit ''time'', t) # os" unfolding forms_parts by blast
  from parts(1) obtain i s ty su ds sq co tp where required: "text_at ms ''id'' IDENTIFIER_PATTERN i"
    "text_at ms ''source'' SOURCE_PATTERN s" "text_at ms ''type'' TYPE_PATTERN ty"
    "text_at ms ''subject'' IDENTIFIER_PATTERN su" "text_at ms ''dataschema'' DATASCHEMA_PATTERN ds"
    "text_at ms ''sequence'' SEQUENCE_PATTERN sq" "text_at ms ''correlationid'' IDENTIFIER_PATTERN co"
    "text_at ms ''traceparent'' TRACEPARENT_PATTERN tp"
    and ts: "ts = [(lit ''id'', i), (lit ''source'', s), (lit ''type'', ty), (lit ''subject'', su),
            (lit ''dataschema'', ds), (lit ''sequence'', sq), (lit ''correlationid'', co), (lit ''traceparent'', tp)]"
    unfolding text_rules_Inr by blast
  from parts(3) obtain c tr where optional: "option_at ms ''causationid'' IDENTIFIER_PATTERN c"
    "option_at ms ''tracestate'' TRACESTATE_PATTERN tr"
    and os: "os = option_text ''causationid'' c @ option_text ''tracestate'' tr" unfolding optional_texts by blast
  let ?e = "\<lparr>envelope_id = i, source = s, envelope_type = ty, subject = su, time = t, dataschema = ds,
    sequence = sq, correlation_id = co, traceparent = tp, data = [], causation_id = c, tracestate = tr\<rparr>"
  have "attributes ms ?e"
    using head required optional parts(2) unfolding attributes_def time_member_Inr by simp
  moreover have "texts = texts_of ?e" by (simp add: texts ts os texts_of_def)
  ultimately show "\<exists>e. attributes ms e \<and> texts = texts_of e" by blast
next
  assume "\<exists>e. attributes ms e \<and> texts = texts_of e"
  then obtain e where e: "attributes ms e" "texts = texts_of e" by blast
  from e(1) have "mapE (named_text ms) TEXT_RULES = Inr (take 8 texts)"
    unfolding text_rules_Inr attributes_def e(2) texts_of_def by simp
  moreover from e(1) have "mapE (named_text ms) (filter (\<lambda>(name, pattern). has_member ms name) OPTIONAL_RULES)
      = Inr (drop 9 texts)"
    unfolding optional_texts attributes_def e(2) texts_of_def by auto
  moreover from e(1) have "time_member (get ms (lit ''time'')) = Inr (time e)"
    unfolding time_member_Inr attributes_def by blast
  moreover have "texts = take 8 texts @ (lit ''time'', time e) # drop 9 texts" by (simp add: e(2) texts_of_def)
  ultimately show "forms ms = Inr texts" using e(1) unfolding forms_parts attributes_def by blast
qed

lemma texts_of_lookup [simp]:
  "text_of (texts_of e) ''id'' = envelope_id e" "text_of (texts_of e) ''source'' = source e"
  "text_of (texts_of e) ''type'' = envelope_type e" "text_of (texts_of e) ''subject'' = subject e"
  "text_of (texts_of e) ''time'' = time e" "text_of (texts_of e) ''dataschema'' = dataschema e"
  "text_of (texts_of e) ''sequence'' = sequence e" "text_of (texts_of e) ''correlationid'' = correlation_id e"
  "text_of (texts_of e) ''traceparent'' = traceparent e"
  "map_of (texts_of e) (lit ''causationid'') = causation_id e"
  "map_of (texts_of e) (lit ''tracestate'') = tracestate e"
  by (simp_all add: text_of_def texts_of_def option_text_def split: option.splits)

lemma find_missing_None: "find_missing d ns = None \<longleftrightarrow> (\<forall>n \<in> set ns. has_member d n)"
  by (induction ns) auto

lemma envelope_members_Inr:
  "envelope_members (PDict d) = Inr ms \<longleftrightarrow>
     ms = d \<and> set (dict_keys d) \<subseteq> KStr ` set ALLOWED_MEMBERS \<and> (\<forall>n \<in> set REQUIRED_MEMBERS. has_member d n)"
proof -
  let ?unknown = "sort (map str_key (filter (\<lambda>key. key \<notin> KStr ` set ALLOWED_MEMBERS) (dict_keys d)))"
  have known: "?unknown = [] \<longleftrightarrow> set (dict_keys d) \<subseteq> KStr ` set ALLOWED_MEMBERS"
    by (auto simp: filter_empty_conv simp flip: set_empty)
  show ?thesis
  proof (cases "?unknown = []")
    case True
    with known show ?thesis
      by (auto simp: Let_def find_missing_None split: option.splits)
         (metis find_missing_None option.distinct(1))+
  next
    case False
    with known show ?thesis by (auto simp: Let_def split: option.splits)
  qed
qed

declare envelope_members.simps [simp del]

lemma reserved_Inr: "reserved texts = Inr u \<longleftrightarrow> text_of texts ''subject'' \<noteq> RESERVED_REPLY_MISSION"
  by (simp add: reserved_def)

lemma data_member_Inr:
  "data_member nfc v = Inr d \<longleftrightarrow> v = PDict d \<and> (\<exists>bytes. canonical_bytes nfc (PDict d) = Inr bytes)"
  by (cases v) (auto split: sum.splits CanonicalizationError.splits)

lemma bind_envelope_Inr:
  "bind_envelope texts d = Inr u \<longleftrightarrow>
     (\<exists>b. map_of BINDINGS (text_of texts ''type'') = Some b
        \<and> pred_option (\<lambda>pattern. fullmatch pattern (text_of texts ''source'')) (source_pattern b)
        \<and> text_of texts ''dataschema'' = bound_dataschema b
        \<and> (bound_family b = OPERATOR_APPROVAL \<longrightarrow> get d (lit ''issuedAt'') = PStr (text_of texts ''time'')))
     \<and> get d MISSION_KEY = PStr (text_of texts ''subject'')"
  by (cases "map_of BINDINGS (text_of texts ''type'')")
     (auto simp: bind_envelope_def binding_for_def split: option.splits)

lemma attributes_data [simp]: "attributes ms (e\<lparr>data := d\<rparr>) = attributes ms e" "texts_of (e\<lparr>data := d\<rparr>) = texts_of e"
  by (simp_all add: attributes_def texts_of_def)

lemma parse_envelope_Inr:
  "parse_envelope nfc (PDict d) = Inr e \<longleftrightarrow>
     set (dict_keys d) \<subseteq> KStr ` set ALLOWED_MEMBERS \<and> (\<forall>n \<in> set REQUIRED_MEMBERS. has_member d n)
     \<and> attributes d e \<and> get d (lit ''data'') = PDict (data e) \<and> subject e \<noteq> RESERVED_REPLY_MISSION
     \<and> (\<exists>bytes. canonical_bytes nfc (PDict (data e)) = Inr bytes) \<and> bind_envelope (texts_of e) (data e) = Inr ()"
  (is "?L \<longleftrightarrow> ?R")
proof
  assume ?L
  then obtain e' d' where parts: "envelope_members (PDict d) = Inr d" "attributes d e'"
    "reserved (texts_of e') = Inr ()" "data_member nfc (get d (lit ''data'')) = Inr d'"
    "bind_envelope (texts_of e') d' = Inr ()"
    and e: "e = e'\<lparr>data := d'\<rparr>"
    unfolding parse_envelope_def bindE_eq_Inr forms_Inr envelope_members_Inr by auto
  then show ?R by (simp add: envelope_members_Inr reserved_Inr data_member_Inr)
next
  assume R: ?R
  then have "envelope_members (PDict d) = Inr d" "forms d = Inr (texts_of e)" "reserved (texts_of e) = Inr ()"
    "data_member nfc (get d (lit ''data'')) = Inr (data e)" "bind_envelope (texts_of e) (data e) = Inr ()"
    unfolding envelope_members_Inr forms_Inr reserved_Inr data_member_Inr by auto
  then show ?L unfolding parse_envelope_def by simp
qed

lemma get_cong: "map_of d = map_of d' \<Longrightarrow> get d n = get d' n"
  by (simp add: get_def)

lemma has_member_cong: "map_of d = map_of d' \<Longrightarrow> has_member d n = has_member d' n"
  by (simp add: has_member_iff)

lemma map_of_document [simp]:
  "map_of (envelope_document e) (KStr (lit ''specversion'')) = Some (PStr SPEC_VERSION)"
  "map_of (envelope_document e) (KStr (lit ''id'')) = Some (PStr (envelope_id e))"
  "map_of (envelope_document e) (KStr (lit ''source'')) = Some (PStr (source e))"
  "map_of (envelope_document e) (KStr (lit ''type'')) = Some (PStr (envelope_type e))"
  "map_of (envelope_document e) (KStr (lit ''subject'')) = Some (PStr (subject e))"
  "map_of (envelope_document e) (KStr (lit ''time'')) = Some (PStr (time e))"
  "map_of (envelope_document e) (KStr (lit ''datacontenttype'')) = Some (PStr DATA_CONTENT_TYPE)"
  "map_of (envelope_document e) (KStr (lit ''dataschema'')) = Some (PStr (dataschema e))"
  "map_of (envelope_document e) (KStr (lit ''data'')) = Some (PDict (data e))"
  "map_of (envelope_document e) (KStr (lit ''sequence'')) = Some (PStr (sequence e))"
  "map_of (envelope_document e) (KStr (lit ''correlationid'')) = Some (PStr (correlation_id e))"
  "map_of (envelope_document e) (KStr (lit ''traceparent'')) = Some (PStr (traceparent e))"
  "map_of (envelope_document e) (KStr (lit ''causationid'')) = map_option PStr (causation_id e)"
  "map_of (envelope_document e) (KStr (lit ''tracestate'')) = map_option PStr (tracestate e)"
  by (simp_all add: envelope_document_def optional_member_def split: option.splits)

lemma get_map_of: "get d n = v \<Longrightarrow> v \<noteq> PNone \<Longrightarrow> map_of d (KStr n) = Some v"
  by (auto simp: get_def split: option.splits)

lemma option_at_map_of: "option_at d n p v \<Longrightarrow> map_of d (KStr (lit n)) = map_option PStr v"
  by (auto simp: option_at_def text_at_def has_member_iff split: option.splits intro: get_map_of)

lemma document_keys: "set (dict_keys (envelope_document e)) \<subseteq> KStr ` set ALLOWED_MEMBERS"
  by (auto simp: envelope_document_def optional_member_def ALLOWED_MEMBERS_def REQUIRED_MEMBERS_def
    OPTIONAL_MEMBERS_def split: option.splits)

lemma attributes_map_of:
  assumes "set (dict_keys d) \<subseteq> KStr ` set ALLOWED_MEMBERS" "attributes d e" "get d (lit ''data'') = PDict (data e)"
  shows "map_of d = map_of (envelope_document e)"
proof
  fix k
  show "map_of d k = map_of (envelope_document e) k"
  proof (cases "k \<in> KStr ` set ALLOWED_MEMBERS")
    case False
    then have "map_of d k = None" "map_of (envelope_document e) k = None"
      using assms(1) document_keys [of e] by (auto simp: map_of_eq_None_iff)
    then show ?thesis by simp
  next
    case True
    then show ?thesis
      using assms(2,3) unfolding attributes_def text_at_def
      by (auto simp: ALLOWED_MEMBERS_def REQUIRED_MEMBERS_def OPTIONAL_MEMBERS_def
        dest!: option_at_map_of intro: get_map_of)
  qed
qed

lemma document_attributes:
  assumes "envelope_ok nfc e"
  shows "attributes (envelope_document e) e" "\<forall>n \<in> set REQUIRED_MEMBERS. has_member (envelope_document e) n"
    "get (envelope_document e) (lit ''data'') = PDict (data e)" "bind_envelope (texts_of e) (data e) = Inr ()"
  using assms
  by (auto simp: attributes_def text_at_def option_at_def get_def has_member_iff REQUIRED_MEMBERS_def
    envelope_ok_def bind_envelope_Inr split: option.splits)

section \<open>Properties\<close>

lemma accepted_ok: "parse_envelope nfc (PDict d) = Inr e \<Longrightarrow> envelope_ok nfc e"
proof -
  assume "parse_envelope nfc (PDict d) = Inr e"
  then have p: "attributes d e" "subject e \<noteq> RESERVED_REPLY_MISSION"
    "\<exists>bytes. canonical_bytes nfc (PDict (data e)) = Inr bytes" "bind_envelope (texts_of e) (data e) = Inr ()"
    unfolding parse_envelope_Inr by blast+
  moreover from p(1) have "pred_option (fullmatch IDENTIFIER_PATTERN) (causation_id e)"
    "pred_option (fullmatch TRACESTATE_PATTERN) (tracestate e)"
    by (auto simp: attributes_def option_at_def text_at_def split: option.splits)
  ultimately show ?thesis unfolding envelope_ok_def attributes_def text_at_def bind_envelope_Inr by simp
qed

lemma envelope_accepts:
  "parse_envelope nfc (PDict d) = Inr e \<longleftrightarrow> envelope_ok nfc e \<and> map_of d = map_of (envelope_document e)"
proof
  assume e: "parse_envelope nfc (PDict d) = Inr e"
  then have p: "set (dict_keys d) \<subseteq> KStr ` set ALLOWED_MEMBERS" "attributes d e" "get d (lit ''data'') = PDict (data e)"
    unfolding parse_envelope_Inr by blast+
  note accepted_ok [OF e]
  with attributes_map_of [OF p(1-3)] show "envelope_ok nfc e \<and> map_of d = map_of (envelope_document e)" by blast
next
  assume ok: "envelope_ok nfc e \<and> map_of d = map_of (envelope_document e)"
  then have eq: "map_of d = map_of (envelope_document e)" by blast
  from eq have "dom (map_of d) = dom (map_of (envelope_document e))" by simp
  then have "set (dict_keys d) \<subseteq> KStr ` set ALLOWED_MEMBERS"
    using document_keys [of e] by (simp add: dom_map_of_conv_image_fst)
  moreover have "attributes d e = attributes (envelope_document e) e"
    unfolding attributes_def text_at_def option_at_def get_cong [OF eq] has_member_cong [OF eq] ..
  ultimately show "parse_envelope nfc (PDict d) = Inr e"
    using ok document_attributes [of nfc e]
    unfolding parse_envelope_Inr envelope_ok_def get_cong [OF eq] has_member_cong [OF eq] by blast
qed

text \<open>C22. The accepted documents are exactly the documents of valid envelopes: parsing returns an envelope
  precisely when the envelope satisfies the profile and the document has the members of that
  envelope and no others. In particular no member of an accepted event is lost or invented.\<close>

theorem parse_envelope_exact:
  "parse_envelope nfc (PDict d) = Inr e \<longleftrightarrow> envelope_ok nfc e \<and> map_of d = map_of (envelope_document e)"
  by (rule envelope_accepts)

lemma payload_path_identifier:
  assumes "rule_for n = IDENTIFIER"
  shows "payload_path f n = Some [n]"
proof -
  have "rule_for (lit m) \<noteq> IDENTIFIER"
    if "m \<in> {''commandType'', ''decision'', ''agentName'', ''proposalType'', ''recordType''}" for m
    using that by (auto simp: rule_for_def IDENTIFIER_PARAMETERS_def MISSION_PARAMETER_def)
  with assms show ?thesis
    by (auto simp: payload_path_def TOPIC_PAYLOAD_PATHS_def split: option.splits if_splits)
qed

lemma check_payload_Inr:
  "check_payload f d ps = Inr u \<longleftrightarrow>
     (\<forall>(n, v) \<in> set ps. \<forall>path. payload_path f n = Some path \<longrightarrow> follow (PDict d) path = PStr v)"
  by (induction f d ps rule: check_payload.induct) (auto split: option.splits)

lemma check_topic_binding_Inr:
  "check_topic_binding e t = Inr u \<longleftrightarrow>
     event_type t = Inr (envelope_type e) \<and> mission_id t = subject e
     \<and> check_payload (family t) (data e) (topic_parameters t) = Inr u"
  by (auto simp: check_topic_binding_def split: sum.splits)

definition binding_families :: "(pystr, Family) pydict" where
  "binding_families = map (\<lambda>(t, b). (t, bound_family b)) BINDINGS"

lemma binding_families_types:
  "list_all (\<lambda>(t, f). case parse_event_type (PStr t) of Inr (g, ps) \<Rightarrow> g = f | Inl e \<Rightarrow> False) binding_families"
  unfolding binding_families_def BINDINGS_def bound_def by code_simp

lemma binding_family_of_type:
  assumes "map_of BINDINGS t = Some b"
  shows "\<exists>ps. parse_event_type (PStr t) = Inr (bound_family b, ps)"
proof -
  from assms have "(t, bound_family b) \<in> set binding_families"
    by (force simp: binding_families_def dest: map_of_SomeD)
  with binding_families_types
  have "case parse_event_type (PStr t) of Inr (g, ps) \<Rightarrow> g = bound_family b | Inl e \<Rightarrow> False"
    by (auto simp: list_all_iff simp del: parse_event_type.simps)
  then show ?thesis by (cases "parse_event_type (PStr t)") (auto simp del: parse_event_type.simps)
qed

lemma bound_topic:
  assumes "parse_envelope nfc document = Inr e" and "check_topic_binding e t = Inr ()"
  shows "\<exists>b. map_of BINDINGS (envelope_type e) = Some b \<and> family t = bound_family b
    \<and> mission_id t = subject e \<and> get (data e) MISSION_KEY = PStr (mission_id t)
    \<and> (\<forall>(n, v) \<in> set (topic_parameters t). rule_for n = IDENTIFIER \<longrightarrow> get (data e) n = PStr v)"
proof -
  from assms(1) obtain d where "document = PDict d"
    by (cases document) (auto simp: parse_envelope_def envelope_members.simps)
  with assms(1) obtain b where b: "map_of BINDINGS (envelope_type e) = Some b"
    "get (data e) MISSION_KEY = PStr (subject e)"
    by (auto simp: parse_envelope_Inr bind_envelope_Inr)
  from assms(2) have t: "event_type t = Inr (envelope_type e)" "mission_id t = subject e"
    and payload: "check_payload (family t) (data e) (topic_parameters t) = Inr ()"
    by (simp_all add: check_topic_binding_Inr)
  from binding_family_of_type [OF b(1)] t(1) have "family t = bound_family b" by (auto dest: event_type_family)
  moreover have "get (data e) n = PStr v" if "(n, v) \<in> set (topic_parameters t)" "rule_for n = IDENTIFIER" for n v
    using payload that payload_path_identifier [OF that(2)] by (fastforce simp: check_payload_Inr)
  ultimately show ?thesis using b t(2) by auto
qed

text \<open>A topic cannot carry a foreign event: when an accepted envelope is admitted on a topic, the topic's
  family is the one its type is bound to, the mission of topic, envelope and payload is one, and
  every identifier the topic names is the payload's.\<close>

theorem topic_binding_agrees:
  assumes "parse_envelope nfc document = Inr e" and "check_topic_binding e t = Inr ()"
  shows "\<exists>b. map_of BINDINGS (envelope_type e) = Some b \<and> family t = bound_family b
    \<and> mission_id t = subject e \<and> get (data e) MISSION_KEY = PStr (mission_id t)
    \<and> (\<forall>(n, v) \<in> set (topic_parameters t). rule_for n = IDENTIFIER \<longrightarrow> get (data e) n = PStr v)"
  using assms by (rule bound_topic)

definition sample_event :: Envelope where
  "sample_event =
    \<lparr>envelope_id = lit ''e-1'', source = lit ''urn:aerial-rescue:mission-lifecycle:run-1'',
     envelope_type = lit ''aerial-rescue.v1.mission.event.lifecycle'', subject = lit ''m-1'',
     time = lit ''2026-01-02T03:04:05.678Z'',
     dataschema = lit ''https://aerial-rescue.invalid/schemas/v1/payload/mission-event-lifecycle.schema.json'',
     sequence = lit ''000000000000007'', correlation_id = lit ''c-1'',
     traceparent = lit ''00-0af7651916cd43dd8448eb211c80319c-b7ad6b7169203331-01'',
     data = obj [(''missionId'', PStr (lit ''m-1''))], causation_id = None, tracestate = None\<rparr>"

lemma sample_event_accepted: "parse_envelope id (PDict (envelope_document sample_event)) = Inr sample_event"
  by code_simp

theorem topic_binding_agrees_witness:
  "\<exists>b. map_of BINDINGS (envelope_type sample_event) = Some b \<and> MISSION_EVENT = bound_family b"
proof -
  have "check_topic_binding sample_event \<lparr>family = MISSION_EVENT, mission_id = lit ''m-1'',
    topic_parameters = [(lit ''eventType'', lit ''lifecycle'')]\<rparr> = Inr ()" by code_simp
  from topic_binding_agrees [OF sample_event_accepted this] show ?thesis by auto
qed

lemma snoc_less:
  fixes x y :: nat
  shows "length xs = length ys \<Longrightarrow> xs @ [x] < ys @ [y] \<longleftrightarrow> xs < ys \<or> xs = ys \<and> x < y"
  by (induction xs ys rule: list_induct2) auto

lemma last_digit_less:
  fixes q r q' r' :: nat
  assumes "r < 10" "r' < 10"
  shows "10 * q + r < 10 * q' + r' \<longleftrightarrow> q < q' \<or> q = q' \<and> r < r'"
  using assms by linarith

lemma digits_less: "a < 10 ^ w \<Longrightarrow> b < 10 ^ w \<Longrightarrow> digits w a < digits w b \<longleftrightarrow> a < b"
proof (induction w arbitrary: a b)
  case (Suc w)
  then have less: "a div 10 < 10 ^ w" "b div 10 < 10 ^ w" by (simp_all add: less_mult_imp_div_less mult.commute)
  then have "digits w (a div 10) = digits w (b div 10) \<longleftrightarrow> a div 10 = b div 10" by (metis numeral_of_digits)
  moreover have "a < b \<longleftrightarrow> a div 10 < b div 10 \<or> a div 10 = b div 10 \<and> a mod 10 < b mod 10"
    using last_digit_less [of "a mod 10" "b mod 10" "a div 10" "b div 10"] by simp
  ultimately show ?case using Suc.IH [OF less] by (simp add: snoc_less)
qed simp

lemma sequence_text_Some: "0 \<le> a \<Longrightarrow> a \<le> MAX_SEQUENCE \<Longrightarrow>
    sequence_text a = Some (digits SEQUENCE_DIGITS (nat a)) \<and> nat a < 10 ^ SEQUENCE_DIGITS"
  using padded_digits [of "nat a" 14]
  by (simp add: sequence_text_def MAX_SEQUENCE_def SEQUENCE_DIGITS_def del: digits.simps)

text \<open>Producer sequences sort as texts the way they count: inside the representable range the text
  exists, has the wire form, and text order is numeric order.\<close>

theorem sequence_text_ordered:
  assumes "0 \<le> a" "a \<le> MAX_SEQUENCE" "0 \<le> b" "b \<le> MAX_SEQUENCE"
  shows "\<exists>s t. sequence_text a = Some s \<and> sequence_text b = Some t
    \<and> fullmatch SEQUENCE_PATTERN s \<and> (s < t \<longleftrightarrow> a < b)"
proof -
  note a = sequence_text_Some [OF assms(1,2)] and b = sequence_text_Some [OF assms(3,4)]
  then have "digits SEQUENCE_DIGITS (nat a) < digits SEQUENCE_DIGITS (nat b) \<longleftrightarrow> a < b"
    using digits_less [of "nat a" SEQUENCE_DIGITS "nat b"] assms by auto
  moreover have "fullmatch SEQUENCE_PATTERN (digits SEQUENCE_DIGITS (nat a))"
    unfolding fullmatch_iff SEQUENCE_PATTERN_def by (rule digits_in_lang) (use a in blast)
  ultimately show ?thesis using a b by blast
qed

theorem sequence_text_ordered_witness: "lit ''000000000000009'' < lit ''000000000000010''"
proof -
  have "sequence_text 9 = Some (lit ''000000000000009'')" "sequence_text 10 = Some (lit ''000000000000010'')"
    by code_simp+
  then show ?thesis using sequence_text_ordered [of 9 10] by (auto simp: MAX_SEQUENCE_def SEQUENCE_DIGITS_def)
qed

end
