(* ===== verification/Sha256.thy ===== *)
theory Sha256
  imports Prelude "HOL-Library.Word"
begin

unbundle bit_operations_syntax

text \<open>
  \<open>hashlib.sha256(...).hexdigest()\<close> of the standard library, as FIPS 180-4 defines it: the padding
  of the message to 512-bit blocks, the message schedule and the 64 rounds over 32-bit words. The
  digest functions of the contracts package are built on it. A byte is a natural number below 256.
\<close>

section \<open>Constants\<close>

definition K :: "32 word list" where
  "K =
    [1116352408, 1899447441, 3049323471, 3921009573, 961987163, 1508970993, 2453635748, 2870763221,
     3624381080, 310598401, 607225278, 1426881987, 1925078388, 2162078206, 2614888103, 3248222580,
     3835390401, 4022224774, 264347078, 604807628, 770255983, 1249150122, 1555081692, 1996064986,
     2554220882, 2821834349, 2952996808, 3210313671, 3336571891, 3584528711, 113926993, 338241895,
     666307205, 773529912, 1294757372, 1396182291, 1695183700, 1986661051, 2177026350, 2456956037,
     2730485921, 2820302411, 3259730800, 3345764771, 3516065817, 3600352804, 4094571909, 275423344,
     430227734, 506948616, 659060556, 883997877, 958139571, 1322822218, 1537002063, 1747873779,
     1955562222, 2024104815, 2227730452, 2361852424, 2428436474, 2756734187, 3204031479, 3329325298]"

type_synonym chain = "32 word \<times> 32 word \<times> 32 word \<times> 32 word \<times> 32 word \<times> 32 word \<times> 32 word \<times> 32 word"

definition H0 :: chain where
  "H0 = (1779033703, 3144134277, 1013904242, 2773480762,
    1359893119, 2600822924, 528734635, 1541459225)"

section \<open>Functions of the rounds\<close>

definition Ch :: "32 word \<Rightarrow> 32 word \<Rightarrow> 32 word \<Rightarrow> 32 word" where
  "Ch x y z = (x AND y) XOR (NOT x AND z)"

definition Maj :: "32 word \<Rightarrow> 32 word \<Rightarrow> 32 word \<Rightarrow> 32 word" where
  "Maj x y z = (x AND y) XOR (x AND z) XOR (y AND z)"

definition Sigma0 :: "32 word \<Rightarrow> 32 word" where
  "Sigma0 x = word_rotr 2 x XOR word_rotr 13 x XOR word_rotr 22 x"

definition Sigma1 :: "32 word \<Rightarrow> 32 word" where
  "Sigma1 x = word_rotr 6 x XOR word_rotr 11 x XOR word_rotr 25 x"

definition sigma0 :: "32 word \<Rightarrow> 32 word" where
  "sigma0 x = word_rotr 7 x XOR word_rotr 18 x XOR drop_bit 3 x"

definition sigma1 :: "32 word \<Rightarrow> 32 word" where
  "sigma1 x = word_rotr 17 x XOR word_rotr 19 x XOR drop_bit 10 x"

section \<open>Padding and blocks\<close>

text \<open>The 64-bit big-endian bit length.\<close>

definition length_bytes :: "nat \<Rightarrow> nat list" where
  "length_bytes n = map (\<lambda>i. 8 * n div 256 ^ (7 - i) mod 256) [0..<8]"

definition padded_message :: "nat list \<Rightarrow> nat list" where
  "padded_message message =
     message @ 0x80 # replicate ((119 - length message mod 64) mod 64) 0 @ length_bytes (length message)"

fun words_of :: "nat list \<Rightarrow> 32 word list" where
  "words_of (a # b # c # d # rest) = of_nat (((a * 256 + b) * 256 + c) * 256 + d) # words_of rest"
| "words_of _ = []"

fun chunks :: "nat \<Rightarrow> 'a list \<Rightarrow> 'a list list" where
  "chunks 0 xs = []"
| "chunks (Suc n) xs = (if xs = [] then [] else take 16 xs # chunks n (drop 16 xs))"

section \<open>Compression\<close>

text \<open>The schedule, grown from the sixteen words of a block to sixty-four.\<close>

fun extend :: "nat \<Rightarrow> 32 word list \<Rightarrow> 32 word list" where
  "extend 0 w = w"
| "extend (Suc n) w =
     (let t = length w
      in extend n (w @ [sigma1 (w ! (t - 2)) + w ! (t - 7) + sigma0 (w ! (t - 15)) + w ! (t - 16)]))"

fun round_step :: "chain \<Rightarrow> 32 word \<times> 32 word \<Rightarrow> chain" where
  "round_step (a, b, c, d, e, f, g, h) (k, w) =
     (let t1 = h + Sigma1 e + Ch e f g + k + w;
          t2 = Sigma0 a + Maj a b c
      in (t1 + t2, a, b, c, d + t1, e, f, g))"

fun add_chain :: "chain \<Rightarrow> chain \<Rightarrow> chain" where
  "add_chain (a, b, c, d, e, f, g, h) (a', b', c', d', e', f', g', h') =
     (a + a', b + b', c + c', d + d', e + e', f + f', g + g', h + h')"

definition compress :: "chain \<Rightarrow> 32 word list \<Rightarrow> chain" where
  "compress chain block = add_chain chain (foldl round_step chain (zip K (extend 48 block)))"

definition sha256_words :: "nat list \<Rightarrow> 32 word list" where
  "sha256_words message =
     (let ws = words_of (padded_message message);
          (a, b, c, d, e, f, g, h) = foldl compress H0 (chunks (length ws) ws)
      in [a, b, c, d, e, f, g, h])"

section \<open>Hexadecimal\<close>

definition nibble_char :: "nat \<Rightarrow> nat" where
  "nibble_char n = (if n < 10 then 48 + n else 87 + n)"

definition word_hex :: "32 word \<Rightarrow> pystr" where
  "word_hex w = map (\<lambda>i. nibble_char (unat w div 16 ^ (7 - i) mod 16)) [0..<8]"

definition sha256_hexdigest :: "nat list \<Rightarrow> pystr" where
  "sha256_hexdigest message = concat (map word_hex (sha256_words message))"

definition is_lower_hex :: "nat \<Rightarrow> bool" where
  "is_lower_hex c \<longleftrightarrow> 48 \<le> c \<and> c \<le> 57 \<or> 97 \<le> c \<and> c \<le> 102"

lemma nibble_char_hex: "n < 16 \<Longrightarrow> is_lower_hex (nibble_char n)"
  by (auto simp: nibble_char_def is_lower_hex_def)

lemma word_hex_shape: "length (word_hex w) = 8" "c \<in> set (word_hex w) \<Longrightarrow> is_lower_hex c"
  by (auto simp: word_hex_def intro!: nibble_char_hex)

lemma length_sha256_words: "length (sha256_words m) = 8"
  by (simp add: sha256_words_def Let_def split: prod.splits)

lemma sha256_hexdigest_shape:
  "length (sha256_hexdigest m) = 64" "c \<in> set (sha256_hexdigest m) \<Longrightarrow> is_lower_hex c"
proof -
  have "length (concat (map word_hex ws)) = 8 * length ws" for ws
    by (induction ws) (simp_all add: word_hex_shape)
  then show "length (sha256_hexdigest m) = 64" by (simp add: sha256_hexdigest_def length_sha256_words)
  show "c \<in> set (sha256_hexdigest m) \<Longrightarrow> is_lower_hex c"
    by (auto simp: sha256_hexdigest_def dest: word_hex_shape(2))
qed

lemma sha256_hexdigest_ascii: "ascii (sha256_hexdigest m)"
  using sha256_hexdigest_shape(2) [of _ m] by (fastforce simp: ascii_def is_lower_hex_def)

lemma padded_message_blocks: "length (padded_message m) mod 64 = 0"
proof -
  let ?r = "length m mod 64"
  have "length (padded_message m) mod 64 = (length m + (119 - ?r) mod 64 + 9) mod 64"
    by (simp add: padded_message_def length_bytes_def ac_simps)
  also have "\<dots> = (?r + (119 - ?r) + 9) mod 64"
    by (metis (no_types, lifting) mod_add_cong mod_add_left_eq mod_mod_trivial)
  also have "?r + (119 - ?r) = 119" by (intro le_add_diff_inverse less_imp_le) (rule less_trans [of _ 64], simp_all)
  finally show ?thesis by simp
qed

end
