(* ===== verification/Digest.thy ===== *)
theory Digest
  imports Envelope Sha256
begin

text \<open>
  \<open>packages/contracts/src/aerial_rescue_contracts/digest.py\<close>: domain-separated SHA-256 digests over
  canonical bytes, and their comparison. As in \<open>Canonical\<close>, Unicode normalization is the parameter
  \<open>nfc\<close>.
\<close>

section \<open>Definitions\<close>

definition CANONICALIZATION_VERSION :: int where
  "CANONICALIZATION_VERSION = 1"

definition VERSION_FIELD :: string where
  "VERSION_FIELD = ''canonicalizationVersion''"

definition DIGEST_FIELD :: pystr where
  "DIGEST_FIELD = lit ''digest''"

definition PROPOSAL_DIGEST_FIELD :: pystr where
  "PROPOSAL_DIGEST_FIELD = lit ''proposalDigest''"

definition EVIDENCE_DECISION_DIGEST_FIELD :: pystr where
  "EVIDENCE_DECISION_DIGEST_FIELD = lit ''evidenceDecisionDigest''"

text \<open>The byte strings \<open>_PREFIX\<close> and \<open>_SEPARATOR\<close>.\<close>

definition PREFIX_BYTES :: "nat list" where
  "PREFIX_BYTES = lit ''aerial-rescue/canonical/v1''"

definition SEPARATOR :: "nat list" where
  "SEPARATOR = [10]"

datatype Context =
    PROPOSAL | SOURCE_EVENT | REPLAY_STATE | ORDERED_DASHBOARD_EVENT | EVIDENCE | IDEMPOTENCY_BODY

fun context_value :: "Context \<Rightarrow> pystr" where
  "context_value PROPOSAL = lit ''proposal-digest''"
| "context_value SOURCE_EVENT = lit ''source-event''"
| "context_value REPLAY_STATE = lit ''replay-state''"
| "context_value ORDERED_DASHBOARD_EVENT = lit ''ordered-dashboard-event''"
| "context_value EVIDENCE = lit ''evidence''"
| "context_value IDEMPOTENCY_BODY = lit ''idempotency-body''"

text \<open>What a digest function raises: its two refusals, an exception of \<open>canonical_bytes\<close>, or the
  TypeError of \<open>hmac.compare_digest\<close> on a string that is not ASCII.\<close>

datatype digest_error =
    NotAnObject pyval
  | Version pyval
  | NotCanonical CanonicalizationError
  | CompareTypeError

text \<open>\<open>_PREFIX + _SEPARATOR + context.value.encode() + _SEPARATOR + bytes\<close>: the contexts are ASCII, so
  encoding is the identity.\<close>

definition material :: "Context \<Rightarrow> nat list \<Rightarrow> nat list" where
  "material context bytes = PREFIX_BYTES @ SEPARATOR @ context_value context @ SEPARATOR @ bytes"

definition digest_covered :: "(pystr \<Rightarrow> pystr) \<Rightarrow> Context \<Rightarrow> members \<Rightarrow> digest_error + pystr" where
  "digest_covered nfc context covered =
     (case canonical_bytes nfc (PDict covered) of
        Inl error \<Rightarrow> Inl (NotCanonical error)
      | Inr bytes \<Rightarrow> Inr (sha256_hexdigest (material context bytes)))"

text \<open>\<open>type(version) is not int\<close> excludes the booleans, which are integers in Python.\<close>

fun covered_members :: "pyval \<Rightarrow> pystr \<Rightarrow> digest_error + members" where
  "covered_members (PDict payload) omitted_field =
     (let version = get payload (lit VERSION_FIELD)
      in if version \<noteq> PInt CANONICALIZATION_VERSION then Inl (Version version)
         else Inr (filter (\<lambda>(key, item). key \<noteq> KStr omitted_field) payload))"
| "covered_members payload omitted_field = Inl (NotAnObject payload)"

definition digest :: "(pystr \<Rightarrow> pystr) \<Rightarrow> Context \<Rightarrow> pyval \<Rightarrow> digest_error + pystr" where
  "digest nfc context payload = bindE (covered_members payload DIGEST_FIELD) (digest_covered nfc context)"

definition proposal_digest :: "(pystr \<Rightarrow> pystr) \<Rightarrow> pyval \<Rightarrow> digest_error + pystr" where
  "proposal_digest nfc payload =
     bindE (covered_members payload PROPOSAL_DIGEST_FIELD) (digest_covered nfc PROPOSAL)"

definition source_event_digest :: "(pystr \<Rightarrow> pystr) \<Rightarrow> Envelope \<Rightarrow> digest_error + pystr" where
  "source_event_digest nfc e =
     digest_covered nfc SOURCE_EVENT
       (obj [(VERSION_FIELD, PInt CANONICALIZATION_VERSION), (''event'', PDict (envelope_document e))])"

definition matches :: "pystr \<Rightarrow> pystr \<Rightarrow> digest_error + bool" where
  "matches expected actual = (if ascii expected \<and> ascii actual then Inr (expected = actual) else Inl CompareTypeError)"

text \<open>\<open>isinstance(supplied, str) and matches(supplied, computed)\<close>\<close>

fun supplied_matches :: "pyval \<Rightarrow> pystr \<Rightarrow> digest_error + bool" where
  "supplied_matches (PStr supplied) computed = matches supplied computed"
| "supplied_matches _ computed = Inr False"

definition proposal_digest_matches :: "(pystr \<Rightarrow> pystr) \<Rightarrow> members \<Rightarrow> digest_error + bool" where
  "proposal_digest_matches nfc payload =
     bindE (proposal_digest nfc (PDict payload)) (supplied_matches (get payload PROPOSAL_DIGEST_FIELD))"

definition evidence_decision_digest :: "(pystr \<Rightarrow> pystr) \<Rightarrow> pyval \<Rightarrow> digest_error + pystr" where
  "evidence_decision_digest nfc payload =
     bindE (covered_members payload EVIDENCE_DECISION_DIGEST_FIELD) (digest_covered nfc EVIDENCE)"

definition evidence_decision_digest_matches :: "(pystr \<Rightarrow> pystr) \<Rightarrow> members \<Rightarrow> digest_error + bool" where
  "evidence_decision_digest_matches nfc payload =
     bindE (evidence_decision_digest nfc (PDict payload))
       (supplied_matches (get payload EVIDENCE_DECISION_DIGEST_FIELD))"

definition ordered_dashboard_event_digest ::
    "(pystr \<Rightarrow> pystr) \<Rightarrow> int \<Rightarrow> members \<Rightarrow> digest_error + pystr" where
  "ordered_dashboard_event_digest nfc audit_ordinal event =
     digest_covered nfc ORDERED_DASHBOARD_EVENT
       (obj [(VERSION_FIELD, PInt CANONICALIZATION_VERSION), (''auditOrdinal'', PInt audit_ordinal),
             (''event'', PDict event)])"

section \<open>Separation\<close>

lemma digest_covered_Inr:
  "digest_covered nfc c d = Inr h \<longleftrightarrow>
     (\<exists>b. canonical_bytes nfc (PDict d) = Inr b \<and> h = sha256_hexdigest (material c b))"
  by (auto simp: digest_covered_def split: sum.splits)

lemma context_no_separator: "10 \<notin> set (context_value c)"
  by (cases c) (simp_all add: lit_def)

lemma context_value_inject: "context_value c = context_value d \<Longrightarrow> c = d"
  by (cases c; cases d) simp_all

lemma append_separator:
  assumes "s \<notin> set xs" "s \<notin> set ys" "xs @ s # as = ys @ s # bs"
  shows "xs = ys \<and> as = bs"
  using assms
proof (induction xs arbitrary: ys)
  case Nil
  then show ?case by (cases ys) auto
next
  case (Cons x xs)
  then show ?case by (cases ys) auto
qed

lemma material_inject: "material c b = material d b' \<Longrightarrow> c = d \<and> b = b'"
  unfolding material_def SEPARATOR_def
  using append_separator [of 10 "context_value c" "context_value d" b b']
  by (auto simp: context_no_separator dest: context_value_inject)

lemma digest_covered_ascii: "digest_covered nfc c d = Inr h \<Longrightarrow> ascii h"
  by (auto simp: digest_covered_Inr sha256_hexdigest_ascii)

definition collision :: "nat list \<Rightarrow> nat list \<Rightarrow> bool" where
  "collision m m' \<longleftrightarrow> m \<noteq> m' \<and> sha256_hexdigest m = sha256_hexdigest m'"

lemma digest_covered_separates:
  assumes "digest_covered nfc c d = Inr h" "digest_covered nfc c' d' = Inr h"
  shows "c = c' \<and> canon nfc (PDict d) = canon nfc (PDict d')
    \<or> (\<exists>b b'. canonical_bytes nfc (PDict d) = Inr b \<and> canonical_bytes nfc (PDict d') = Inr b'
         \<and> collision (material c b) (material c' b'))"
proof -
  from assms obtain b b' where b: "canonical_bytes nfc (PDict d) = Inr b"
    and b': "canonical_bytes nfc (PDict d') = Inr b'"
    and hash: "sha256_hexdigest (material c b) = sha256_hexdigest (material c' b')"
    by (auto simp only: digest_covered_Inr)
  show ?thesis
  proof (cases "material c b = material c' b'")
    case True
    then have "c = c'" "b = b'" by (auto dest: material_inject)
    with b b' show ?thesis by (blast intro: canonical_bytes_inject)
  next
    case False
    with b b' hash show ?thesis by (auto simp only: collision_def)
  qed
qed

section \<open>Properties\<close>

text \<open>C40. A digest names one purpose and one value: if two payloads, for any two contexts, have the same
  digest, then the contexts are the same and the covered members are equal up to normalization and
  order, unless the two hashed byte strings are an explicit SHA-256 collision.\<close>

theorem digest_separates_contexts:
  assumes "digest nfc c p = Inr h" and "digest nfc c' p' = Inr h"
  shows "\<exists>d d'. covered_members p DIGEST_FIELD = Inr d \<and> covered_members p' DIGEST_FIELD = Inr d'
    \<and> (c = c' \<and> canon nfc (PDict d) = canon nfc (PDict d')
       \<or> (\<exists>b b'. canonical_bytes nfc (PDict d) = Inr b \<and> canonical_bytes nfc (PDict d') = Inr b'
            \<and> collision (material c b) (material c' b')))"
proof -
  from assms obtain d d' where "covered_members p DIGEST_FIELD = Inr d" "covered_members p' DIGEST_FIELD = Inr d'"
    "digest_covered nfc c d = Inr h" "digest_covered nfc c' d' = Inr h" by (auto simp: digest_def)
  with digest_covered_separates show ?thesis by blast
qed

definition sample_payload :: pyval where
  "sample_payload = PDict (obj [(VERSION_FIELD, PInt 1), (''digest'', PNone), (''kind'', PInt 7)])"

lemma sample_payload_covered:
  "covered_members sample_payload DIGEST_FIELD = Inr (obj [(VERSION_FIELD, PInt 1), (''kind'', PInt 7)])"
  by code_simp

lemma sample_payload_bytes:
  "canonical_bytes id (PDict (obj [(VERSION_FIELD, PInt 1), (''kind'', PInt 7)]))
   = Inr (lit ''{\"canonicalizationVersion\":1,\"kind\":7}'')"
  by code_simp

theorem digest_separates_contexts_witness:
  "\<exists>h. digest id EVIDENCE sample_payload = Inr h
    \<and> (\<exists>d. covered_members sample_payload DIGEST_FIELD = Inr d)"
proof -
  have "\<exists>h. digest id EVIDENCE sample_payload = Inr h"
    by (simp add: digest_def sample_payload_covered digest_covered_Inr sample_payload_bytes del: obj_simps)
  then obtain h where "digest id EVIDENCE sample_payload = Inr h" by blast
  with digest_separates_contexts [OF this this] show ?thesis by blast
qed

text \<open>Self-integrity of a proposal: a payload with an ASCII \<open>proposalDigest\<close> member matches exactly when
  that member is the digest of the payload without it, whatever the member's own value; and the
  digest is sixty-four lowercase hexadecimal characters.\<close>

theorem proposal_digest_matches_iff:
  assumes "get payload PROPOSAL_DIGEST_FIELD = PStr supplied" and "ascii supplied"
    and "proposal_digest nfc (PDict payload) = Inr h"
  shows "proposal_digest_matches nfc payload = Inr (supplied = h)
    \<and> proposal_digest nfc (PDict (filter (\<lambda>(k, v). k \<noteq> KStr PROPOSAL_DIGEST_FIELD) payload)) = Inr h
    \<and> length h = 64 \<and> (\<forall>c \<in> set h. is_lower_hex c)"
proof -
  let ?d = "filter (\<lambda>(k, v). k \<noteq> KStr PROPOSAL_DIGEST_FIELD) payload"
  from assms(3) have h: "digest_covered nfc PROPOSAL ?d = Inr h"
    and version: "get payload (lit VERSION_FIELD) = PInt CANONICALIZATION_VERSION"
    by (auto simp: proposal_digest_def Let_def split: if_splits)
  have "lit VERSION_FIELD \<noteq> PROPOSAL_DIGEST_FIELD" by code_simp
  then have "map_of ?d (KStr (lit VERSION_FIELD)) = map_of payload (KStr (lit VERSION_FIELD))"
    by (induction payload) auto
  with version have "get ?d (lit VERSION_FIELD) = PInt CANONICALIZATION_VERSION" by (simp add: get_def)
  moreover have "filter (\<lambda>(k, v). k \<noteq> KStr PROPOSAL_DIGEST_FIELD) ?d = ?d" by simp
  ultimately have "proposal_digest nfc (PDict ?d) = Inr h"
    using h by (simp add: proposal_digest_def)
  moreover from h assms(2) digest_covered_ascii [OF h] have "supplied_matches (PStr supplied) h = Inr (supplied = h)"
    by (simp add: matches_def)
  moreover from h have "length h = 64" "\<forall>c \<in> set h. is_lower_hex c"
    by (auto simp: digest_covered_Inr sha256_hexdigest_shape dest: sha256_hexdigest_shape(2))
  ultimately show ?thesis using assms(1,3) by (simp add: proposal_digest_matches_def)
qed

theorem proposal_digest_matches_iff_witness:
  "proposal_digest_matches id (obj [(VERSION_FIELD, PInt 1), (''kind'', PInt 7), (''proposalDigest'', PStr (lit ''x''))])
   = Inr False"
proof -
  let ?p = "obj [(VERSION_FIELD, PInt 1), (''kind'', PInt 7), (''proposalDigest'', PStr (lit ''x''))]"
  let ?h = "sha256_hexdigest (material PROPOSAL (lit ''{\"canonicalizationVersion\":1,\"kind\":7}''))"
  have "covered_members (PDict ?p) PROPOSAL_DIGEST_FIELD = Inr (obj [(VERSION_FIELD, PInt 1), (''kind'', PInt 7)])"
    by code_simp
  then have "proposal_digest id (PDict ?p) = Inr ?h"
    by (simp add: proposal_digest_def digest_covered_Inr sample_payload_bytes
      del: covered_members.simps obj_simps)
  moreover have "get ?p PROPOSAL_DIGEST_FIELD = PStr (lit ''x'')" "ascii (lit ''x'')" by code_simp+
  ultimately have "proposal_digest_matches id ?p = Inr (lit ''x'' = ?h)" "length ?h = 64"
    using proposal_digest_matches_iff by blast+
  moreover from this(2) have "length (lit ''x'') \<noteq> length ?h" by simp
  then have "lit ''x'' \<noteq> ?h" by metis
  ultimately show ?thesis by (simp only:)
qed

text \<open>A supplied digest outside ASCII is not answered with \<open>False\<close>: the comparison raises.\<close>

lemma matches_non_ascii: "matches [0x20AC] h = Inl CompareTypeError"
  by (simp add: matches_def)

end
