(* ===== verification/Approvals.thy ===== *)
theory Approvals
  imports Lifecycle Digest
begin

text \<open>
  \<open>packages/domain/src/aerial_rescue_domain/approvals.py\<close>: the approval protocol. An approval binds
  a mission, a proposal and the digest of the proposal's parameters; it expires by either of two
  clocks and is consumed at most once. An aware wall instant and a \<open>timedelta\<close> are integers, in
  microseconds; the range limits of \<open>datetime\<close> are not modelled.
\<close>

section \<open>Data\<close>

datatype ApprovalState = REQUESTED | APPROVED | REJECTED | EXPIRED | SUPERSEDED | EXECUTED

lemma ApprovalState_members:
  "s \<in> set [REQUESTED, APPROVED, REJECTED, EXPIRED, SUPERSEDED, EXECUTED]"
  by (cases s) simp_all

instantiation ApprovalState :: enum
begin

definition enum_ApprovalState :: "ApprovalState list" where
  "enum_ApprovalState = [REQUESTED, APPROVED, REJECTED, EXPIRED, SUPERSEDED, EXECUTED]"

definition enum_all_ApprovalState :: "(ApprovalState \<Rightarrow> bool) \<Rightarrow> bool" where
  "enum_all_ApprovalState P \<longleftrightarrow> list_all P Enum.enum"

definition enum_ex_ApprovalState :: "(ApprovalState \<Rightarrow> bool) \<Rightarrow> bool" where
  "enum_ex_ApprovalState P \<longleftrightarrow> list_ex P Enum.enum"

instance
  by standard (simp_all only: enum_ApprovalState_def enum_all_ApprovalState_def
    enum_ex_ApprovalState_def enumerated [OF ApprovalState_members], simp_all)

end

datatype ApprovalEvent = APPROVE | REJECT | EXPIRE | SUPERSEDE | EXECUTE

record ClockReading =
  wall :: int
  monotonic :: int

record Proposal =
  proposal_mission :: pystr
  proposal_id :: pystr
  proposal_parameters :: members

record Approval =
  state :: ApprovalState
  operator_identity :: pystr
  issued :: ClockReading
  time_to_live :: int
  approval_mission :: pystr
  approval_proposal :: pystr
  approval_digest :: pystr

text \<open>The refusals, each with the value it carries; \<open>Uncaught\<close> is an exception of the digest that the
  handlers do not catch.\<close>

datatype ApprovalError =
    TRANSITION ApprovalState ApprovalEvent
  | TIME_TO_LIVE int
  | PARAMETERS members
  | NOT_APPROVED pystr
  | ALREADY_CONSUMED pystr
  | WAS_SUPERSEDED pystr
  | HAS_EXPIRED pystr
  | WINDOW_PASSED ClockReading
  | MISSION pystr
  | PROPOSAL_ID pystr
  | DIGEST pystr
  | CLOCK_REGRESSION ClockReading
  | Uncaught digest_error

definition expires_at :: "Approval \<Rightarrow> int" where
  "expires_at a = wall (issued a) + time_to_live a"

section \<open>Operations\<close>

definition TRANSITIONS :: "(ApprovalState, ApprovalEvent) transitions" where
  "TRANSITIONS =
    [((REQUESTED, APPROVE), APPROVED),
     ((REQUESTED, REJECT), REJECTED),
     ((REQUESTED, EXPIRE), EXPIRED),
     ((REQUESTED, SUPERSEDE), SUPERSEDED),
     ((APPROVED, EXECUTE), EXECUTED),
     ((APPROVED, EXPIRE), EXPIRED),
     ((APPROVED, SUPERSEDE), SUPERSEDED)]"

definition CONSUME_REFUSALS :: "(ApprovalState, pystr \<Rightarrow> ApprovalError) pydict" where
  "CONSUME_REFUSALS =
    [(REQUESTED, NOT_APPROVED),
     (REJECTED, NOT_APPROVED),
     (EXPIRED, HAS_EXPIRED),
     (SUPERSEDED, WAS_SUPERSEDED),
     (EXECUTED, ALREADY_CONSUMED)]"

definition transition :: "ApprovalState \<Rightarrow> ApprovalEvent \<Rightarrow> ApprovalError + ApprovalState" where
  "transition s event =
     (case map_of TRANSITIONS (s, event) of
        None \<Rightarrow> Inl (TRANSITION s event)
      | Some target \<Rightarrow> Inr target)"

text \<open>\<open>except (DigestError, CanonicalizationError)\<close> covers every refusal of the digest but Python's own
  UnicodeEncodeError.\<close>

definition digest_of_proposal :: "(pystr \<Rightarrow> pystr) \<Rightarrow> Proposal \<Rightarrow> ApprovalError + pystr" where
  "digest_of_proposal nfc p =
     (case Digest.proposal_digest nfc (PDict (proposal_parameters p)) of
        Inr h \<Rightarrow> Inr h
      | Inl (NotCanonical (UnicodeEncode t)) \<Rightarrow> Inl (Uncaught (NotCanonical (UnicodeEncode t)))
      | Inl error \<Rightarrow> Inl (PARAMETERS (proposal_parameters p)))"

definition approve ::
    "(pystr \<Rightarrow> pystr) \<Rightarrow> ApprovalState \<Rightarrow> Proposal \<Rightarrow> pystr \<Rightarrow> ClockReading \<Rightarrow> int \<Rightarrow> ApprovalError + Approval" where
  "approve nfc s p identity now ttl =
     bindE (transition s APPROVE) (\<lambda>approved.
       if ttl \<le> 0 then Inl (TIME_TO_LIVE ttl)
       else bindE (digest_of_proposal nfc p) (\<lambda>h.
         Inr \<lparr>state = approved, operator_identity = identity, issued = now, time_to_live = ttl,
              approval_mission = proposal_mission p, approval_proposal = proposal_id p,
              approval_digest = h\<rparr>))"

definition supersede :: "Approval \<Rightarrow> ApprovalError + Approval" where
  "supersede a = bindE (transition (state a) SUPERSEDE) (\<lambda>s. Inr (a\<lparr>state := s\<rparr>))"

definition expire :: "Approval \<Rightarrow> ApprovalError + Approval" where
  "expire a = bindE (transition (state a) EXPIRE) (\<lambda>s. Inr (a\<lparr>state := s\<rparr>))"

definition refuse_unless_bound :: "(pystr \<Rightarrow> pystr) \<Rightarrow> Approval \<Rightarrow> Proposal \<Rightarrow> ApprovalError + unit" where
  "refuse_unless_bound nfc a candidate =
     (if proposal_mission candidate \<noteq> approval_mission a then Inl (MISSION (proposal_mission candidate))
      else if proposal_id candidate \<noteq> approval_proposal a then Inl (PROPOSAL_ID (proposal_id candidate))
      else bindE (digest_of_proposal nfc candidate) (\<lambda>computed.
        case matches (approval_digest a) computed of
          Inl error \<Rightarrow> Inl (Uncaught error)
        | Inr same \<Rightarrow> if \<not> same then Inl (DIGEST computed) else Inr ()))"

definition refuse_unless_live :: "Approval \<Rightarrow> ClockReading \<Rightarrow> ApprovalError + unit" where
  "refuse_unless_live a now =
     (if wall now < wall (issued a) \<or> monotonic now < monotonic (issued a) then Inl (CLOCK_REGRESSION now)
      else if wall now - wall (issued a) \<ge> time_to_live a \<or> monotonic now - monotonic (issued a) \<ge> time_to_live a
      then Inl (WINDOW_PASSED now)
      else Inr ())"

definition consume :: "(pystr \<Rightarrow> pystr) \<Rightarrow> Approval \<Rightarrow> Proposal \<Rightarrow> ClockReading \<Rightarrow> ApprovalError + Approval" where
  "consume nfc a candidate now =
     (case map_of CONSUME_REFUSALS (state a) of
        Some refusal \<Rightarrow> Inl (refusal (approval_proposal a))
      | None \<Rightarrow>
          bindE (refuse_unless_bound nfc a candidate) (\<lambda>_.
            bindE (refuse_unless_live a now) (\<lambda>_.
              bindE (transition (state a) EXECUTE) (\<lambda>s. Inr (a\<lparr>state := s\<rparr>)))))"

section \<open>The protocol meets the lifecycle contract\<close>

definition is_terminal :: "ApprovalState \<Rightarrow> bool" where
  "is_terminal s \<longleftrightarrow> s \<in> set (terminals_of TRANSITIONS Enum.enum)"

lemma approval_transition_iff: "transition s e = Inr t \<longleftrightarrow> ((s, e), t) \<in> set TRANSITIONS"
  by (cases s; cases e) (auto simp: transition_def TRANSITIONS_def)

fun approval_rank :: "ApprovalState \<Rightarrow> nat" where
  "approval_rank REQUESTED = 0"
| "approval_rank APPROVED = 1"
| "approval_rank _ = 2"

interpretation approval: ranked_lifecycle transition is_terminal "\<lambda>_. True" approval_rank 2
proof
  show "is_terminal s \<longleftrightarrow> (\<forall>e. \<exists>x. transition s e = Inl x)" for s
    by (simp add: is_terminal_def terminals_of_iff UNIV_enum [symmetric] transition_def split: option.splits)
  show "transition s e = Inr t \<Longrightarrow> approval_rank s < approval_rank t" for s e t
    by (auto simp: approval_transition_iff TRANSITIONS_def)
  show "approval_rank s \<le> 2" for s by (cases s) simp_all
qed simp

interpretation executed: gated_state transition is_terminal EXECUTED "{(APPROVED, EXECUTE)}"
  by unfold_locales (auto simp: approval_transition_iff TRANSITIONS_def)

section \<open>Operations on every branch\<close>

definition within_window :: "Approval \<Rightarrow> ClockReading \<Rightarrow> bool" where
  "within_window a now \<longleftrightarrow>
     wall (issued a) \<le> wall now \<and> wall now < expires_at a
     \<and> monotonic (issued a) \<le> monotonic now \<and> monotonic now < monotonic (issued a) + time_to_live a"

lemma refuse_unless_live_Inr: "refuse_unless_live a now = Inr u \<longleftrightarrow> within_window a now"
  by (auto simp: refuse_unless_live_def within_window_def expires_at_def)

lemma digest_of_proposal_Inr:
  "digest_of_proposal nfc p = Inr h \<longleftrightarrow> Digest.proposal_digest nfc (PDict (proposal_parameters p)) = Inr h"
  by (cases "Digest.proposal_digest nfc (PDict (proposal_parameters p))")
     (auto simp: digest_of_proposal_def split: digest_error.splits CanonicalizationError.splits)

lemma digest_of_proposal_ascii: "digest_of_proposal nfc p = Inr h \<Longrightarrow> ascii h"
  unfolding digest_of_proposal_Inr proposal_digest_def bindE_eq_Inr by (blast intro: digest_covered_ascii)

lemma refuse_unless_bound_Inr:
  "refuse_unless_bound nfc a c = Inr u \<longleftrightarrow>
     proposal_mission c = approval_mission a \<and> proposal_id c = approval_proposal a
     \<and> ascii (approval_digest a) \<and> digest_of_proposal nfc c = Inr (approval_digest a)"
proof (cases "digest_of_proposal nfc c")
  case (Inr h)
  with digest_of_proposal_ascii [OF Inr] show ?thesis
    by (simp add: refuse_unless_bound_def matches_def)
qed (simp add: refuse_unless_bound_def)

lemma consume_Inr:
  "consume nfc a c now = Inr a' \<longleftrightarrow>
     state a = APPROVED \<and> proposal_mission c = approval_mission a \<and> proposal_id c = approval_proposal a
     \<and> ascii (approval_digest a) \<and> digest_of_proposal nfc c = Inr (approval_digest a)
     \<and> within_window a now \<and> a' = a\<lparr>state := EXECUTED\<rparr>"
proof (cases "state a = APPROVED")
  case True
  then have "consume nfc a c now =
    bindE (refuse_unless_bound nfc a c) (\<lambda>_. bindE (refuse_unless_live a now) (\<lambda>_. Inr (a\<lparr>state := EXECUTED\<rparr>)))"
    by (simp add: consume_def CONSUME_REFUSALS_def transition_def TRANSITIONS_def)
  then have "consume nfc a c now = Inr a' \<longleftrightarrow> refuse_unless_bound nfc a c = Inr ()
    \<and> refuse_unless_live a now = Inr () \<and> a' = a\<lparr>state := EXECUTED\<rparr>"
    by (simp only: bindE_eq_Inr) auto
  with True show ?thesis unfolding refuse_unless_live_Inr refuse_unless_bound_Inr by simp
next
  case False
  then have "map_of CONSUME_REFUSALS (state a) \<noteq> None" by (cases "state a") (simp_all add: CONSUME_REFUSALS_def)
  with False show ?thesis by (auto simp: consume_def)
qed

lemma consume_executed: "state a = EXECUTED \<Longrightarrow> consume nfc a c now = Inl (ALREADY_CONSUMED (approval_proposal a))"
  by (simp add: consume_def CONSUME_REFUSALS_def)

lemma approve_Inr:
  "approve nfc s p identity now ttl = Inr a \<longleftrightarrow>
     s = REQUESTED \<and> 0 < ttl \<and> (\<exists>h. digest_of_proposal nfc p = Inr h
       \<and> a = \<lparr>state = APPROVED, operator_identity = identity, issued = now, time_to_live = ttl,
               approval_mission = proposal_mission p, approval_proposal = proposal_id p, approval_digest = h\<rparr>)"
  by (auto simp: approve_def approval_transition_iff TRANSITIONS_def)

lemma digest_of_proposal_covered:
  assumes "digest_of_proposal nfc p = Inr h"
  shows "\<exists>d. covered_members (PDict (proposal_parameters p)) PROPOSAL_DIGEST_FIELD = Inr d
    \<and> digest_covered nfc PROPOSAL d = Inr h"
  using assms unfolding digest_of_proposal_Inr proposal_digest_def bindE_eq_Inr .

section \<open>Attempts in sequence\<close>

text \<open>What may happen to a record: it is superseded, expired by the caller, or a consumption is
  attempted. A refused attempt raises and leaves the record as it was; the number of successes is
  counted.\<close>

datatype attempt = Supersede | Expire | Consume Proposal ClockReading

fun attempt_step :: "(pystr \<Rightarrow> pystr) \<Rightarrow> Approval \<Rightarrow> attempt \<Rightarrow> ApprovalError + Approval" where
  "attempt_step nfc a Supersede = supersede a"
| "attempt_step nfc a Expire = expire a"
| "attempt_step nfc a (Consume c now) = consume nfc a c now"

fun consumptions :: "(pystr \<Rightarrow> pystr) \<Rightarrow> Approval \<Rightarrow> attempt list \<Rightarrow> nat" where
  "consumptions nfc a [] = 0"
| "consumptions nfc a (x # xs) =
     (case attempt_step nfc a x of
        Inl error \<Rightarrow> consumptions nfc a xs
      | Inr a' \<Rightarrow> (if state a' = EXECUTED then 1 else 0) + consumptions nfc a' xs)"

lemma attempt_step_state:
  "attempt_step nfc a x = Inr a' \<Longrightarrow> \<exists>e. transition (state a) e = Inr (state a') \<and> a' = a\<lparr>state := state a'\<rparr>"
proof (cases x)
  case (Consume c now)
  moreover assume "attempt_step nfc a x = Inr a'"
  moreover have "transition APPROVED EXECUTE = Inr EXECUTED" by (simp add: transition_def TRANSITIONS_def)
  ultimately show ?thesis by (auto simp: consume_Inr)
qed (auto simp: supersede_def expire_def)

lemma attempt_from_terminal: "is_terminal (state a) \<Longrightarrow> \<exists>error. attempt_step nfc a x = Inl error"
  using attempt_step_state [of nfc a x] approval.terminal_refuses [of "state a"]
  by (cases "attempt_step nfc a x") (blast, metis Inl_Inr_False)

lemma consumptions_terminal: "is_terminal (state a) \<Longrightarrow> consumptions nfc a xs = 0"
proof (induction xs)
  case (Cons x xs)
  with attempt_from_terminal [of a nfc x] show ?case by auto
qed simp

lemma executed_terminal: "is_terminal EXECUTED" "is_terminal EXPIRED" "is_terminal SUPERSEDED"
  by code_simp+

lemma consumptions_le_1: "consumptions nfc a xs \<le> 1"
proof (induction xs arbitrary: a)
  case (Cons x xs)
  show ?case
  proof (cases "attempt_step nfc a x")
    case (Inr a')
    with Cons.IH [of a'] consumptions_terminal [of a' nfc xs] executed_terminal(1) show ?thesis by auto
  next
    case (Inl error)
    with Cons.IH [of a] show ?thesis by simp
  qed
qed simp

lemma consumptions_need_live:
  assumes "\<And>c now. Consume c now \<in> set xs \<Longrightarrow> monotonic (issued a) + time_to_live a \<le> monotonic now"
  shows "state a \<noteq> EXECUTED \<Longrightarrow> consumptions nfc a xs = 0"
  using assms
proof (induction xs arbitrary: a)
  case (Cons x xs)
  show ?case
  proof (cases "attempt_step nfc a x")
    case (Inl error)
    with Cons.IH [OF Cons.prems(1)] Cons.prems(2) show ?thesis by auto
  next
    case (Inr a')
    from attempt_step_state [OF Inr] have "issued a' = issued a" "time_to_live a' = time_to_live a"
      by (metis Approval.simps(3,4,13) Approval.surjective Approval.update_convs(1))+
    moreover have "state a' \<noteq> EXECUTED"
    proof (cases x)
      case (Consume c now)
      with Cons.prems(2) [of c now] Inr show ?thesis by (auto simp: consume_Inr within_window_def)
    qed (use Inr in \<open>auto simp: supersede_def expire_def approval_transition_iff TRANSITIONS_def\<close>)
    moreover have "\<And>c now. Consume c now \<in> set xs \<Longrightarrow> monotonic (issued a) + time_to_live a \<le> monotonic now"
      using Cons.prems(2) by (metis list.set_intros(2))
    ultimately show ?thesis using Cons.IH [of a'] Inr by simp
  qed
qed simp

section \<open>Properties\<close>

text \<open>C12. What an operator approved is what is executed: a consumption of a recorded approval is for the same
  mission and the same proposal, happens while both clocks are inside the window, and its
  parameters equal the approved ones in every digest-covered member, unless the two digested byte
  strings are an explicit SHA-256 collision.\<close>

theorem approval_binds_execution:
  assumes "approve nfc s p identity at ttl = Inr a" and "consume nfc a c now = Inr a'"
  shows "s = REQUESTED \<and> state a' = EXECUTED \<and> operator_identity a' = identity
    \<and> proposal_mission c = proposal_mission p \<and> proposal_id c = proposal_id p
    \<and> wall at \<le> wall now \<and> wall now < wall at + ttl
    \<and> monotonic at \<le> monotonic now \<and> monotonic now < monotonic at + ttl
    \<and> (\<exists>d d'. covered_members (PDict (proposal_parameters p)) PROPOSAL_DIGEST_FIELD = Inr d
         \<and> covered_members (PDict (proposal_parameters c)) PROPOSAL_DIGEST_FIELD = Inr d'
         \<and> (canon nfc (PDict d) = canon nfc (PDict d')
            \<or> (\<exists>b b'. canonical_bytes nfc (PDict d) = Inr b \<and> canonical_bytes nfc (PDict d') = Inr b'
                 \<and> collision (material PROPOSAL b) (material PROPOSAL b'))))"
proof -
  from assms(1) obtain h where h: "digest_of_proposal nfc p = Inr h" and s: "s = REQUESTED"
    and a: "a = \<lparr>state = APPROVED, operator_identity = identity, issued = at, time_to_live = ttl,
      approval_mission = proposal_mission p, approval_proposal = proposal_id p, approval_digest = h\<rparr>"
    by (auto simp: approve_Inr)
  from assms(2) have c: "digest_of_proposal nfc c = Inr h" "proposal_mission c = proposal_mission p"
    "proposal_id c = proposal_id p" "within_window a now" "a' = a\<lparr>state := EXECUTED\<rparr>"
    by (auto simp: consume_Inr a)
  from digest_of_proposal_covered [OF h] digest_of_proposal_covered [OF c(1)] obtain d d' where
    d: "covered_members (PDict (proposal_parameters p)) PROPOSAL_DIGEST_FIELD = Inr d"
      "covered_members (PDict (proposal_parameters c)) PROPOSAL_DIGEST_FIELD = Inr d'"
      "digest_covered nfc PROPOSAL d = Inr h" "digest_covered nfc PROPOSAL d' = Inr h" by blast
  with digest_covered_separates [OF d(3,4)] c(2-4) s show ?thesis
    unfolding c(5) within_window_def expires_at_def a by (simp del: covered_members.simps)
qed

definition sample_proposal :: Proposal where
  "sample_proposal = \<lparr>proposal_mission = lit ''m-1'', proposal_id = lit ''p-1'',
     proposal_parameters = obj [(VERSION_FIELD, PInt 1), (''kind'', PInt 7)]\<rparr>"

lemma sample_proposal_digest: "\<exists>h. digest_of_proposal id sample_proposal = Inr h \<and> ascii h"
proof -
  have "covered_members (PDict (proposal_parameters sample_proposal)) PROPOSAL_DIGEST_FIELD
    = Inr (obj [(VERSION_FIELD, PInt 1), (''kind'', PInt 7)])" by code_simp
  then show ?thesis
    by (simp add: digest_of_proposal_Inr proposal_digest_def digest_covered_Inr sample_payload_bytes
      sha256_hexdigest_ascii del: covered_members.simps obj_simps)
qed

theorem approval_binds_execution_witness:
  "\<exists>a a'. approve id REQUESTED sample_proposal (lit ''op'') \<lparr>wall = 10, monotonic = 3\<rparr> 5 = Inr a
    \<and> consume id a sample_proposal \<lparr>wall = 14, monotonic = 7\<rparr> = Inr a' \<and> state a' = EXECUTED"
proof -
  obtain h where h: "digest_of_proposal id sample_proposal = Inr h" "ascii h" using sample_proposal_digest by blast
  obtain a where a: "approve id REQUESTED sample_proposal (lit ''op'') \<lparr>wall = 10, monotonic = 3\<rparr> 5 = Inr a"
    using h(1) by (auto simp: approve_Inr)
  then obtain a' where a': "consume id a sample_proposal \<lparr>wall = 14, monotonic = 7\<rparr> = Inr a'"
    using h by (auto simp: approve_Inr consume_Inr within_window_def expires_at_def)
  from approval_binds_execution [OF a a'] a a' show ?thesis by blast
qed

text \<open>C20. An approval executes at most once, whatever is attempted on it and in whatever order; and once the
  window has passed on the monotonic clock it executes never, whatever the wall clock says.\<close>

theorem approval_single_use:
  "consumptions nfc a xs \<le> 1
   \<and> (state a \<noteq> EXECUTED \<and> (\<forall>c now. Consume c now \<in> set xs \<longrightarrow> monotonic (issued a) + time_to_live a \<le> monotonic now)
      \<longrightarrow> consumptions nfc a xs = 0)
   \<and> (is_terminal (state a) \<longrightarrow> consumptions nfc a xs = 0)"
  using consumptions_le_1 consumptions_need_live consumptions_terminal by blast

definition sample_approval :: "pystr \<Rightarrow> Approval" where
  "sample_approval h = \<lparr>state = APPROVED, operator_identity = lit ''op'', issued = \<lparr>wall = 10, monotonic = 3\<rparr>,
     time_to_live = 5, approval_mission = lit ''m-1'', approval_proposal = lit ''p-1'', approval_digest = h\<rparr>"

theorem approval_single_use_witness:
  "consumptions id (sample_approval (lit ''x'')) [Consume sample_proposal \<lparr>wall = 11, monotonic = 8\<rparr>] = 0"
proof -
  have "state (sample_approval (lit ''x'')) \<noteq> EXECUTED" "monotonic (issued (sample_approval (lit ''x''))) + time_to_live (sample_approval (lit ''x'')) \<le> 8"
    by (simp_all add: sample_approval_def)
  with approval_single_use [of id "sample_approval (lit ''x'')" "[Consume sample_proposal \<lparr>wall = 11, monotonic = 8\<rparr>]"]
  show ?thesis by (auto simp del: consumptions.simps)
qed

end
