(* ===== verification/Authority.thy ===== *)
theory Authority
  imports Approvals
begin

text \<open>
  \<open>packages/domain/src/aerial_rescue_domain/authority.py\<close>: the deny-by-default
  table of executable command types.
\<close>

section \<open>Command types\<close>

datatype CommandType = ASSIGN_SECTOR | ESCALATE_RESCUE

lemma CommandType_members:
  "s \<in> set [ASSIGN_SECTOR, ESCALATE_RESCUE]"
  by (cases s) simp_all

instantiation CommandType :: enum
begin

definition enum_CommandType :: "CommandType list" where
  "enum_CommandType = [ASSIGN_SECTOR, ESCALATE_RESCUE]"

definition enum_all_CommandType :: "(CommandType \<Rightarrow> bool) \<Rightarrow> bool" where
  "enum_all_CommandType P \<longleftrightarrow> list_all P Enum.enum"

definition enum_ex_CommandType :: "(CommandType \<Rightarrow> bool) \<Rightarrow> bool" where
  "enum_ex_CommandType P \<longleftrightarrow> list_ex P Enum.enum"

instance
  by standard (simp_all only: enum_CommandType_def enum_all_CommandType_def
    enum_ex_CommandType_def enumerated [OF CommandType_members], simp_all)

end

fun command_value :: "CommandType \<Rightarrow> pystr" where
  "command_value ASSIGN_SECTOR = lit ''assign-sector''"
| "command_value ESCALATE_RESCUE = lit ''escalate-rescue''"

datatype Authority = GATEWAY_POLICY | OPERATOR_APPROVAL

datatype AuthorityError = UNKNOWN_COMMAND_TYPE pyval | APPROVAL_REQUIRED pyval

definition AUTHORITY :: "(CommandType, Authority) pydict" where
  "AUTHORITY = [(ASSIGN_SECTOR, GATEWAY_POLICY), (ESCALATE_RESCUE, OPERATOR_APPROVAL)]"

definition BY_KIND :: "(pystr, CommandType) pydict" where
  "BY_KIND = map (\<lambda>m. (command_value m, m)) Enum.enum"

fun command_type :: "pyval \<Rightarrow> AuthorityError + CommandType" where
  "command_type (PStr text) =
     (case map_of BY_KIND text of None \<Rightarrow> Inl (UNKNOWN_COMMAND_TYPE (PStr text)) | Some m \<Rightarrow> Inr m)"
| "command_type other = Inl (UNKNOWN_COMMAND_TYPE other)"

text \<open>\<open>_AUTHORITY[command]\<close>; the table is total.\<close>

definition authority_for :: "CommandType \<Rightarrow> Authority" where
  "authority_for command = the (map_of AUTHORITY command)"

definition authorize :: "pyval \<Rightarrow> ApprovalState option \<Rightarrow> AuthorityError + CommandType" where
  "authorize text approval =
     bindE (command_type text) (\<lambda>command.
       if authority_for command = OPERATOR_APPROVAL \<and> approval \<noteq> Some EXECUTED
       then Inl (APPROVAL_REQUIRED text) else Inr command)"

lemma authority_total: "map_of AUTHORITY command \<noteq> None"
  by (cases command) (simp_all add: AUTHORITY_def)

lemma command_value_inject: "command_value a = command_value b \<Longrightarrow> a = b"
  by (cases a; cases b) simp_all

lemma command_type_Inr: "command_type v = Inr c \<longleftrightarrow> v = PStr (command_value c)"
proof -
  have inj: "inj command_value" by (rule injI) (rule command_value_inject)
  have "map_of BY_KIND (command_value c) = Some c"
    unfolding BY_KIND_def by (rule map_of_map_enum [OF inj]) (simp add: enum_UNIV)
  then show ?thesis
    by (cases v) (auto split: option.splits simp: BY_KIND_def dest: map_of_map_enumD)
qed

text \<open>Authorization is deny by default: exactly the two spellings of the table are authorized, and the
  rescue escalation only when the approval presented has been consumed; no other state of an
  approval, and no absence of one, is enough.\<close>

theorem authorize_iff:
  "authorize text approval = Inr c \<longleftrightarrow>
     text = PStr (command_value c) \<and> (c = ESCALATE_RESCUE \<longrightarrow> approval = Some EXECUTED)"
proof -
  have "authority_for c = OPERATOR_APPROVAL \<longleftrightarrow> c = ESCALATE_RESCUE"
    by (cases c) (simp_all add: authority_for_def AUTHORITY_def)
  then show ?thesis by (auto simp: authorize_def command_type_Inr)
qed

theorem authorize_iff_witness:
  "authorize (PStr (lit ''escalate-rescue'')) (Some APPROVED) \<noteq> Inr ESCALATE_RESCUE
   \<and> authorize (PStr (lit ''escalate-rescue'')) (Some EXECUTED) = Inr ESCALATE_RESCUE"
  by (simp add: authorize_iff)

end
