(* ===== verification/Operations.thy ===== *)
theory Operations
  imports PyVal
begin

text \<open>
  \<open>packages/domain/src/aerial_rescue_domain/operations.py\<close>: the closed, deny-by-default set of
  command-gateway operations, none of which actuates.
\<close>

datatype Operation = COMMAND_AUTHORITY

datatype OperationError = UNKNOWN_OPERATION pyval

fun operation_value :: "Operation \<Rightarrow> pystr" where
  "operation_value COMMAND_AUTHORITY = lit ''command-authority''"

definition ACTUATES :: "(Operation, bool) pydict" where
  "ACTUATES = [(COMMAND_AUTHORITY, False)]"

definition BY_KIND :: "(pystr, Operation) pydict" where
  "BY_KIND = map (\<lambda>m. (operation_value m, m)) [COMMAND_AUTHORITY]"

fun operation :: "pyval \<Rightarrow> OperationError + Operation" where
  "operation (PStr text) =
     (case map_of BY_KIND text of None \<Rightarrow> Inl (UNKNOWN_OPERATION (PStr text)) | Some m \<Rightarrow> Inr m)"
| "operation other = Inl (UNKNOWN_OPERATION other)"

definition actuates :: "Operation \<Rightarrow> bool" where
  "actuates requested = the (map_of ACTUATES requested)"

lemma operation_Inr: "operation v = Inr r \<longleftrightarrow> v = PStr (lit ''command-authority'')"
  by (cases v; cases r) (auto simp: BY_KIND_def split: option.splits if_splits)

lemma operations_do_not_actuate: "\<not> actuates r"
  by (cases r) (simp add: actuates_def ACTUATES_def)

end
