(* ===== verification/View.thy ===== *)
theory View
  imports Digest
begin

text \<open>
  The projection half of \<open>packages/contracts/src/aerial_rescue_contracts/view.py\<close>: the payload
  validators, the projection table and \<open>project\<close>, which turns a validated envelope into the
  normalized dashboard event. A field whose declared type the code checks again at run time holds
  an arbitrary object here.
\<close>

section \<open>Classes and refusals\<close>

definition MAX_BUFFERED_EVENTS :: nat where
  "MAX_BUFFERED_EVENTS = 256"

definition EVIDENCE_DECISION_DIGEST_KEY :: pystr where
  "EVIDENCE_DECISION_DIGEST_KEY = lit ''evidenceDecisionDigest''"

datatype EventClass = TELEMETRY | CONNECTIVITY | MISSION | COMMAND | EVIDENCE | APPROVAL | AUDIT

fun class_name :: "EventClass \<Rightarrow> pystr" where
  "class_name TELEMETRY = lit ''TELEMETRY''"
| "class_name CONNECTIVITY = lit ''CONNECTIVITY''"
| "class_name MISSION = lit ''MISSION''"
| "class_name COMMAND = lit ''COMMAND''"
| "class_name EVIDENCE = lit ''EVIDENCE''"
| "class_name APPROVAL = lit ''APPROVAL''"
| "class_name AUDIT = lit ''AUDIT''"

definition DROPPABLE_CLASSES :: "EventClass list" where
  "DROPPABLE_CLASSES = [TELEMETRY]"

text \<open>Exceptions of Python and of the digest that no handler of the module catches.\<close>

datatype exn =
    AttributeError
  | UnicodeError pystr
  | DigestRaised digest_error

datatype ViewError =
    UNPROJECTED pystr
  | MALFORMED_PAYLOAD pystr pyval
  | ViewRaised exn

section \<open>Members in byte order\<close>

text \<open>\<open>name.encode()\<close>, the sort key of member names and identifiers.\<close>

fun key_bytes :: "pykey \<Rightarrow> exn + nat list" where
  "key_bytes (KStr s) = (case utf8 s of None \<Rightarrow> Inl (UnicodeError s) | Some b \<Rightarrow> Inr b)"
| "key_bytes (KObj s) = Inl AttributeError"

text \<open>\<open>sorted(..., key=...encode)\<close>: every key is computed before anything is compared.\<close>

definition sorted_by_bytes :: "('a \<Rightarrow> pykey) \<Rightarrow> 'a list \<Rightarrow> exn + 'a list" where
  "sorted_by_bytes key xs =
     bindE (mapE (\<lambda>x. bindE (key_bytes (key x)) (\<lambda>b. Inr (b, x))) xs) (\<lambda>ps. Inr (map snd (sort_key fst ps)))"

text \<open>The closed-member check of \<open>_closed_members\<close> and \<open>_closed_event_data\<close>: the first unknown member in
  byte order with its value, else the first required member that is missing, with \<open>None\<close>.\<close>

definition closed_defect :: "members \<Rightarrow> pystr list \<Rightarrow> exn + (pystr \<times> pyval) option" where
  "closed_defect d required =
     bindE (sorted_by_bytes id (filter (\<lambda>k. k \<notin> KStr ` set required) (dict_keys d))) (\<lambda>unknown.
       case unknown of
         k # ks \<Rightarrow> Inr (Some (str_key k, the (map_of d k)))
       | [] \<Rightarrow> Inr (map_option (\<lambda>name. (name, PNone)) (find_missing d required)))"

section \<open>Payload validators\<close>

definition closed_members :: "members \<Rightarrow> pystr list \<Rightarrow> ViewError + unit" where
  "closed_members d required =
     (case closed_defect d required of
        Inl error \<Rightarrow> Inl (ViewRaised error)
      | Inr (Some (name, val)) \<Rightarrow> Inl (MALFORMED_PAYLOAD name val)
      | Inr None \<Rightarrow> Inr ())"

text \<open>\<open>isinstance(value, str) and re.fullmatch(IDENTIFIER_PATTERN, value)\<close>\<close>

fun is_identifier :: "pyval \<Rightarrow> bool" where
  "is_identifier (PStr s) = fullmatch IDENTIFIER_PATTERN s"
| "is_identifier _ = False"

definition payload_identifier :: "members \<Rightarrow> pystr \<Rightarrow> ViewError + unit" where
  "payload_identifier d name =
     (if is_identifier (get d name) then Inr () else Inl (MALFORMED_PAYLOAD name (get d name)))"

definition payload_choice :: "members \<Rightarrow> pystr \<Rightarrow> pystr list \<Rightarrow> ViewError + unit" where
  "payload_choice d name allowed =
     (if get d name \<in> PStr ` set allowed then Inr () else Inl (MALFORMED_PAYLOAD name (get d name)))"

text \<open>\<open>type(value) is int and minimum <= value <= maximum\<close>: a boolean is refused.\<close>

fun int_between :: "pyval \<Rightarrow> int \<Rightarrow> int \<Rightarrow> bool" where
  "int_between (PInt n) lo hi = (lo \<le> n \<and> n \<le> hi)"
| "int_between _ lo hi = False"

definition payload_integer :: "members \<Rightarrow> pystr \<Rightarrow> int \<Rightarrow> int \<Rightarrow> ViewError + unit" where
  "payload_integer d name lo hi =
     (if int_between (get d name) lo hi then Inr () else Inl (MALFORMED_PAYLOAD name (get d name)))"

definition accept_payload :: "members \<Rightarrow> ViewError + unit" where
  "accept_payload d = Inr ()"

definition validate_connectivity :: "members \<Rightarrow> ViewError + unit" where
  "validate_connectivity d =
     bindE (closed_members d [lit ''missionId'', lit ''droneId'', lit ''connectivity'']) (\<lambda>_.
     bindE (payload_identifier d (lit ''missionId'')) (\<lambda>_.
     bindE (payload_identifier d (lit ''droneId'')) (\<lambda>_.
     payload_choice d (lit ''connectivity'') [lit ''CONNECTED'', lit ''DEGRADED'', lit ''OFFLINE''])))"

definition TELEMETRY_FIELDS :: "pystr list" where
  "TELEMETRY_FIELDS =
    [lit ''droneId'', lit ''latitudeMicrodegrees'', lit ''longitudeMicrodegrees'', lit ''batteryPercent'',
     lit ''altitudeMetres'', lit ''headingDegrees'', lit ''groundSpeedCentimetresPerSecond'']"

definition validate_telemetry :: "members \<Rightarrow> ViewError + unit" where
  "validate_telemetry d =
     bindE (closed_members d (lit ''missionId'' # TELEMETRY_FIELDS)) (\<lambda>_.
     bindE (payload_identifier d (lit ''missionId'')) (\<lambda>_.
     bindE (payload_identifier d (lit ''droneId'')) (\<lambda>_.
     bindE (payload_integer d (lit ''latitudeMicrodegrees'') (- 90000000) 90000000) (\<lambda>_.
     bindE (payload_integer d (lit ''longitudeMicrodegrees'') (- 180000000) 180000000) (\<lambda>_.
     bindE (payload_integer d (lit ''batteryPercent'') 0 100) (\<lambda>_.
     bindE (payload_integer d (lit ''altitudeMetres'') (- 500) 20000) (\<lambda>_.
     bindE (payload_integer d (lit ''headingDegrees'') 0 359) (\<lambda>_.
     payload_integer d (lit ''groundSpeedCentimetresPerSecond'') 0 10000))))))))"

definition validate_mission_lifecycle :: "members \<Rightarrow> ViewError + unit" where
  "validate_mission_lifecycle d =
     bindE (closed_members d [lit ''missionId'', lit ''lifecycle'']) (\<lambda>_.
     bindE (payload_identifier d (lit ''missionId'')) (\<lambda>_.
     payload_choice d (lit ''lifecycle'')
       [lit ''PLANNED'', lit ''SEARCHING'', lit ''EXHAUSTED'', lit ''ABORTED'']))"

definition validate_sector_lifecycle :: "members \<Rightarrow> ViewError + unit" where
  "validate_sector_lifecycle d =
     bindE (closed_members d [lit ''missionId'', lit ''sectorId'', lit ''state'', lit ''assignedMemberId'']) (\<lambda>_.
     bindE (payload_identifier d (lit ''missionId'')) (\<lambda>_.
     bindE (payload_identifier d (lit ''sectorId'')) (\<lambda>_.
     bindE (payload_choice d (lit ''state'')
       [lit ''UNASSIGNED'', lit ''ASSIGNED'', lit ''AT_RISK'', lit ''SEARCHED'']) (\<lambda>_.
     if get d (lit ''state'') = PStr (lit ''UNASSIGNED'') then
       if get d (lit ''assignedMemberId'') \<noteq> PNone
       then Inl (MALFORMED_PAYLOAD (lit ''assignedMemberId'') (get d (lit ''assignedMemberId'')))
       else Inr ()
     else payload_identifier d (lit ''assignedMemberId'')))))"

section \<open>Projection\<close>

record Projection =
  projection_kind :: pystr
  projection_class :: EventClass
  validate_payload :: "members \<Rightarrow> ViewError + unit"
  omitted_data_members :: "pystr list"

definition plain :: "string \<Rightarrow> EventClass \<Rightarrow> Projection" where
  "plain kind c = \<lparr>projection_kind = lit kind, projection_class = c, validate_payload = accept_payload,
     omitted_data_members = [MISSION_KEY]\<rparr>"

definition PROJECTIONS :: "(pystr, Projection) pydict" where
  "PROJECTIONS =
    [(lit ''aerial-rescue.v1.drone.telemetry'',
        (plain ''droneTelemetry'' TELEMETRY)\<lparr>validate_payload := validate_telemetry\<rparr>),
     (lit ''aerial-rescue.v1.drone.event.connectivity-changed'',
        (plain ''connectivityChanged'' CONNECTIVITY)\<lparr>validate_payload := validate_connectivity\<rparr>),
     (lit ''aerial-rescue.v1.mission.event.lifecycle'',
        (plain ''missionLifecycle'' MISSION)\<lparr>validate_payload := validate_mission_lifecycle\<rparr>),
     (lit ''aerial-rescue.v1.sector.event.lifecycle'',
        (plain ''sectorLifecycle'' MISSION)\<lparr>validate_payload := validate_sector_lifecycle\<rparr>),
     (lit ''aerial-rescue.v1.operator.command.assign-sector'', plain ''operatorCommand'' COMMAND),
     (lit ''aerial-rescue.v1.operator.command.escalate-rescue'', plain ''operatorCommand'' COMMAND),
     (lit ''aerial-rescue.v1.operator.approval.approve'', plain ''operatorApproval'' APPROVAL),
     (lit ''aerial-rescue.v1.operator.approval.reject'', plain ''operatorApproval'' APPROVAL),
     (lit ''aerial-rescue.v1.agent.proposal.candidate-location'', plain ''agentProposal'' EVIDENCE),
     (lit ''aerial-rescue.v1.evidence.decision'',
        (plain ''evidenceDecision'' EVIDENCE)
          \<lparr>omitted_data_members := [MISSION_KEY, EVIDENCE_DECISION_DIGEST_KEY]\<rparr>),
     (lit ''aerial-rescue.v1.drone.event.salient'', plain ''salientObservation'' EVIDENCE),
     (lit ''aerial-rescue.v1.gateway.record'', plain ''gatewayResponse'' AUDIT),
     (lit ''aerial-rescue.v1.drone.command.assign-sector'', plain ''droneCommand'' COMMAND),
     (lit ''aerial-rescue.v1.drone.command.escalate-rescue'', plain ''droneCommand'' COMMAND),
     (lit ''aerial-rescue.v1.drone.command-result'', plain ''commandResult'' COMMAND),
     (lit ''aerial-rescue.v1.audit.proposal-normalization'', plain ''auditRecord'' AUDIT),
     (lit ''aerial-rescue.v1.audit.evidence-decision'', plain ''auditRecord'' AUDIT),
     (lit ''aerial-rescue.v1.audit.command-authorization'', plain ''auditRecord'' AUDIT)]"

text \<open>The class member of an event, which may hold something that is no \<open>EventClass\<close>.\<close>

datatype class_value = Class EventClass | NotAClass pyval

record DashboardEvent =
  kind :: pyval
  event_class :: class_value
  mission :: pyval
  event_time :: pyval
  event_data :: members

record OrderedDashboardEvent =
  audit_ordinal :: pyval
  event :: DashboardEvent

definition droppable :: "EventClass \<Rightarrow> bool" where
  "droppable c \<longleftrightarrow> c \<in> set DROPPABLE_CLASSES"

definition projection_for :: "pystr \<Rightarrow> ViewError + Projection" where
  "projection_for t = (case map_of PROJECTIONS t of None \<Rightarrow> Inl (UNPROJECTED t) | Some p \<Rightarrow> Inr p)"

definition project :: "Envelope \<Rightarrow> ViewError + DashboardEvent" where
  "project e =
     bindE (projection_for (envelope_type e)) (\<lambda>projection.
     bindE (validate_payload projection (data e)) (\<lambda>_.
       if get (data e) MISSION_KEY \<noteq> PStr (subject e)
       then Inl (MALFORMED_PAYLOAD MISSION_KEY (get (data e) MISSION_KEY))
       else Inr \<lparr>kind = PStr (projection_kind projection), event_class = Class (projection_class projection),
                 mission = PStr (subject e), event_time = PStr (time e),
                 event_data = filter (\<lambda>(key, val). key \<notin> KStr ` set (omitted_data_members projection)) (data e)\<rparr>))"

section \<open>Member lemmas\<close>

lemma sorted_by_bytes_Nil [simp]: "sorted_by_bytes key xs = Inr [] \<longleftrightarrow> xs = []"
  by (cases xs) (auto simp: sorted_by_bytes_def simp flip: set_empty)

lemma sorted_by_bytes_set: "sorted_by_bytes key xs = Inr ys \<Longrightarrow> set ys = set xs"
proof -
  have "mapE (\<lambda>x. bindE (key_bytes (key x)) (\<lambda>b. Inr (b, x))) xs = Inr ps \<Longrightarrow> map snd ps = xs" for ps
    by (induction xs arbitrary: ps) auto
  then show "sorted_by_bytes key xs = Inr ys \<Longrightarrow> set ys = set xs"
    unfolding sorted_by_bytes_def by (auto simp: image_iff) (metis (no_types) image_eqI list.set_map snd_conv)+
qed

text \<open>A mapping passes the closed-member check exactly when its keys are the required ones.\<close>

lemma closed_defect_None:
  "closed_defect d required = Inr None \<longleftrightarrow>
     set (dict_keys d) \<subseteq> KStr ` set required \<and> (\<forall>n \<in> set required. has_member d n)"
proof -
  let ?unknown = "filter (\<lambda>k. k \<notin> KStr ` set required) (dict_keys d)"
  have known: "?unknown = [] \<longleftrightarrow> set (dict_keys d) \<subseteq> KStr ` set required"
    by (auto simp: filter_empty_conv)
  have "closed_defect d required = Inr None \<longleftrightarrow>
      sorted_by_bytes id ?unknown = Inr [] \<and> find_missing d required = None"
    by (cases "sorted_by_bytes id ?unknown") (auto simp: closed_defect_def split: list.splits)
  then show ?thesis by (simp add: known find_missing_None)
qed

lemma closed_members_Inr:
  "closed_members d required = Inr u \<longleftrightarrow>
     set (dict_keys d) \<subseteq> KStr ` set required \<and> (\<forall>n \<in> set required. has_member d n)"
  unfolding closed_defect_None [symmetric] closed_members_def
  by (cases "closed_defect d required") (auto split: option.splits)

lemmas payload_checks = payload_identifier_def payload_choice_def payload_integer_def closed_members_Inr

lemma project_Inr:
  "project e = Inr ev \<longleftrightarrow> (\<exists>p. map_of PROJECTIONS (envelope_type e) = Some p
     \<and> validate_payload p (data e) = Inr () \<and> get (data e) MISSION_KEY = PStr (subject e)
     \<and> ev = \<lparr>kind = PStr (projection_kind p), event_class = Class (projection_class p),
              mission = PStr (subject e), event_time = PStr (time e),
              event_data = filter (\<lambda>(key, val). key \<notin> KStr ` set (omitted_data_members p)) (data e)\<rparr>)"
  by (cases "map_of PROJECTIONS (envelope_type e)") (auto simp: project_def projection_for_def)

end
