(* ===== verification/Reducer.thy ===== *)
theory Reducer
  imports View
begin

text \<open>
  The reducer half of \<open>packages/contracts/src/aerial_rescue_contracts/view.py\<close>: the reduced mission
  state shared by the live dashboard and by replay, its checkpoints and their anchors, and
  \<open>fold_ordered_event\<close>, which applies, deduplicates or refuses one audit-ordered event. A function
  that can leave with an uncaught exception returns it as \<open>exn\<close>.
\<close>

section \<open>Reduced state\<close>

datatype MissionLifecycle = PLANNED | SEARCHING | EXHAUSTED | ABORTED

fun lifecycle_value :: "MissionLifecycle \<Rightarrow> pystr" where
  "lifecycle_value PLANNED = lit ''PLANNED''"
| "lifecycle_value SEARCHING = lit ''SEARCHING''"
| "lifecycle_value EXHAUSTED = lit ''EXHAUSTED''"
| "lifecycle_value ABORTED = lit ''ABORTED''"

datatype LinkState = CONNECTED | DEGRADED | OFFLINE

fun link_value :: "LinkState \<Rightarrow> pystr" where
  "link_value CONNECTED = lit ''CONNECTED''"
| "link_value DEGRADED = lit ''DEGRADED''"
| "link_value OFFLINE = lit ''OFFLINE''"

datatype SectorPhase = UNASSIGNED | ASSIGNED | AT_RISK | SEARCHED

fun phase_value :: "SectorPhase \<Rightarrow> pystr" where
  "phase_value UNASSIGNED = lit ''UNASSIGNED''"
| "phase_value ASSIGNED = lit ''ASSIGNED''"
| "phase_value AT_RISK = lit ''AT_RISK''"
| "phase_value SEARCHED = lit ''SEARCHED''"

record MissionView =
  mission_identifier :: pystr
  mission_lifecycle :: MissionLifecycle
  predecessor_identifier :: "pystr option"

record Telemetry =
  latitude_microdegrees :: int
  longitude_microdegrees :: int
  battery_percent :: int
  altitude_metres :: int
  heading_degrees :: int
  ground_speed_centimetres_per_second :: int

datatype FleetMember =
    SimulatedFleetMember (member_identifier: pystr) (connectivity: LinkState) (telemetry: "Telemetry option")
  | DeclaredOnlyFleetMember (member_identifier: pystr)

record Sector =
  sector_identifier :: pystr
  sector_state :: SectorPhase
  assigned_member_id :: "pystr option"

record DashboardReducedState =
  current_mission :: "MissionView option"
  fleet :: "FleetMember list"
  latest_audit_ordinal :: int
  sectors :: "Sector list"

record ReducerCheckpoint =
  checkpoint_state :: DashboardReducedState
  latest_event_digest :: "pystr option"

record PreparedMission =
  prepared_identifier :: pystr
  prepared_predecessor :: "pystr option"
  simulated_member_ids :: "pystr list"
  declared_only_member_ids :: "pystr list"
  sector_ids :: "pystr list"

datatype ReducerRefusal =
    DUPLICATE_MEMBER | DUPLICATE_SECTOR | NONCANONICAL_ANCHOR_STATE | WITNESS_FORM | ORDINAL_WITNESS
  | ORDINAL_DIVERGENCE | ORDINAL_REGRESSION | ORDINAL_GAP | MISSION_UNPREPARED | MISSION_MISMATCH
  | UNKNOWN_MEMBER | DECLARED_ONLY_MEMBER | UNKNOWN_SECTOR | ASSIGNMENT_FORBIDDEN | ASSIGNMENT_REQUIRED
  | INVALID_ASSIGNEE | EVENT_DATA | UNPROJECTED | SERVER_DIGEST_FORM | SERVER_DIGEST_MISMATCH

text \<open>The value a refusal carries: an object of the event, or the tuple of the state at fault.\<close>

datatype refusal_value = Val pyval | FleetValue "FleetMember list" | SectorsValue "Sector list"

datatype problem = Problem ReducerRefusal pystr refusal_value | Raised exn

datatype CheckpointOutcome =
    CheckpointAccepted ReducerCheckpoint
  | CheckpointRefused ReducerRefusal pystr refusal_value

datatype FoldOutcome =
    FoldApplied ReducerCheckpoint
  | FoldDuplicate ReducerCheckpoint
  | FoldRefused ReducerCheckpoint ReducerRefusal pystr refusal_value

definition EMPTY_REDUCED_STATE :: DashboardReducedState where
  "EMPTY_REDUCED_STATE = \<lparr>current_mission = None, fleet = [], latest_audit_ordinal = 0, sectors = []\<rparr>"

definition EMPTY_CHECKPOINT :: ReducerCheckpoint where
  "EMPTY_CHECKPOINT = \<lparr>checkpoint_state = EMPTY_REDUCED_STATE, latest_event_digest = None\<rparr>"

section \<open>Preparation\<close>

definition LOWERCASE_SHA256_PATTERN :: regex where
  "LOWERCASE_SHA256_PATTERN = exactly 64 hex_class"

definition is_lowercase_sha256 :: "pystr \<Rightarrow> bool" where
  "is_lowercase_sha256 val = fullmatch LOWERCASE_SHA256_PATTERN val"

fun duplicate_from :: "pystr list \<Rightarrow> pystr list \<Rightarrow> pystr option" where
  "duplicate_from seen [] = None"
| "duplicate_from seen (x # xs) = (if x \<in> set seen then Some x else duplicate_from (x # seen) xs)"

definition duplicate :: "pystr list \<Rightarrow> pystr option" where
  "duplicate values = duplicate_from [] values"

definition prepare_checkpoint :: "PreparedMission \<Rightarrow> problem + ReducerCheckpoint" where
  "prepare_checkpoint prepared =
     (case duplicate (simulated_member_ids prepared @ declared_only_member_ids prepared) of
        Some repeated \<Rightarrow> Inl (Problem DUPLICATE_MEMBER (lit ''identifier'') (Val (PStr repeated)))
      | None \<Rightarrow>
     (case duplicate (sector_ids prepared) of
        Some repeated \<Rightarrow> Inl (Problem DUPLICATE_SECTOR (lit ''identifier'') (Val (PStr repeated)))
      | None \<Rightarrow>
     (case sorted_by_bytes (KStr \<circ> member_identifier)
             (map (\<lambda>i. SimulatedFleetMember i CONNECTED None) (simulated_member_ids prepared)
              @ map DeclaredOnlyFleetMember (declared_only_member_ids prepared)) of
        Inl error \<Rightarrow> Inl (Raised error)
      | Inr members \<Rightarrow>
     (case sorted_by_bytes KStr (sector_ids prepared) of
        Inl error \<Rightarrow> Inl (Raised error)
      | Inr ids \<Rightarrow>
          Inr \<lparr>checkpoint_state =
                 \<lparr>current_mission = Some \<lparr>mission_identifier = prepared_identifier prepared,
                     mission_lifecycle = PLANNED, predecessor_identifier = prepared_predecessor prepared\<rparr>,
                  fleet = members, latest_audit_ordinal = 0,
                  sectors = map (\<lambda>i. \<lparr>sector_identifier = i, sector_state = UNASSIGNED,
                                       assigned_member_id = None\<rparr>) ids\<rparr>,
               latest_event_digest = None\<rparr>))))"

section \<open>Documents and digests\<close>

definition telemetry_document :: "Telemetry \<Rightarrow> pyval" where
  "telemetry_document t =
     PDict (obj [(''latitudeMicrodegrees'', PInt (latitude_microdegrees t)),
       (''longitudeMicrodegrees'', PInt (longitude_microdegrees t)),
       (''batteryPercent'', PInt (battery_percent t)), (''altitudeMetres'', PInt (altitude_metres t)),
       (''headingDegrees'', PInt (heading_degrees t)),
       (''groundSpeedCentimetresPerSecond'', PInt (ground_speed_centimetres_per_second t))])"

definition optional_text :: "pystr option \<Rightarrow> pyval" where
  "optional_text v = (case v of None \<Rightarrow> PNone | Some s \<Rightarrow> PStr s)"

fun member_document :: "FleetMember \<Rightarrow> pyval" where
  "member_document (DeclaredOnlyFleetMember i) =
     PDict (obj [(''identifier'', PStr i), (''participation'', PStr (lit ''DECLARED_ONLY''))])"
| "member_document (SimulatedFleetMember i c t) =
     PDict (obj [(''identifier'', PStr i), (''participation'', PStr (lit ''SIMULATED'')),
       (''connectivity'', PStr (link_value c)),
       (''telemetry'', case t of None \<Rightarrow> PNone | Some reading \<Rightarrow> telemetry_document reading)])"

definition sector_document :: "Sector \<Rightarrow> pyval" where
  "sector_document s =
     PDict (obj [(''identifier'', PStr (sector_identifier s)), (''state'', PStr (phase_value (sector_state s))),
       (''assignedMemberId'', optional_text (assigned_member_id s))])"

definition mission_document :: "MissionView option \<Rightarrow> pyval" where
  "mission_document m =
     (case m of None \<Rightarrow> PNone
      | Some v \<Rightarrow> PDict (obj [(''identifier'', PStr (mission_identifier v)),
          (''lifecycle'', PStr (lifecycle_value (mission_lifecycle v))),
          (''predecessorIdentifier'', optional_text (predecessor_identifier v))]))"

definition state_document :: "DashboardReducedState \<Rightarrow> pyval" where
  "state_document s =
     PDict (obj [(''canonicalizationVersion'', PInt 1), (''stateVersion'', PInt 1),
       (''currentMission'', mission_document (current_mission s)),
       (''fleet'', PList (map member_document (fleet s))),
       (''latestAuditOrdinal'', PInt (latest_audit_ordinal s)),
       (''sectors'', PList (map sector_document (sectors s)))])"

definition state_digest :: "(pystr \<Rightarrow> pystr) \<Rightarrow> DashboardReducedState \<Rightarrow> digest_error + pystr" where
  "state_digest nfc s = digest nfc REPLAY_STATE (state_document s)"

text \<open>\<open>event.event_class.name\<close> raises on a value that is no class.\<close>

definition ordered_event_document :: "OrderedDashboardEvent \<Rightarrow> exn + pyval" where
  "ordered_event_document oe =
     (let e = event oe
      in case event_class e of
           NotAClass v \<Rightarrow> Inl AttributeError
         | Class c \<Rightarrow>
             Inr (PDict (obj [(''canonicalizationVersion'', PInt 1), (''auditOrdinal'', audit_ordinal oe),
               (''event'', PDict (obj [(''kind'', kind e), (''eventClass'', PStr (class_name c)),
                  (''mission'', mission e), (''time'', event_time e), (''data'', PDict (event_data e))]))])))"

definition from_digest :: "digest_error + 'a \<Rightarrow> exn + 'a" where
  "from_digest r = (case r of Inl e \<Rightarrow> Inl (DigestRaised e) | Inr a \<Rightarrow> Inr a)"

definition ordered_event_digest :: "(pystr \<Rightarrow> pystr) \<Rightarrow> OrderedDashboardEvent \<Rightarrow> exn + pystr" where
  "ordered_event_digest nfc oe =
     bindE (ordered_event_document oe) (\<lambda>document. from_digest (digest nfc ORDERED_DASHBOARD_EVENT document))"

section \<open>Anchors\<close>

text \<open>\<open>identifiers == tuple(sorted(set(identifiers), key=_byte_key))\<close>\<close>

definition strictly_sorted_identifiers :: "pystr list \<Rightarrow> exn + bool" where
  "strictly_sorted_identifiers ids = bindE (sorted_by_bytes KStr (remdups ids)) (\<lambda>s. Inr (ids = s))"

definition simulated_ids :: "FleetMember list \<Rightarrow> pystr list" where
  "simulated_ids ms = map member_identifier (filter is_SimulatedFleetMember ms)"

fun sector_assignment_defect :: "pystr list \<Rightarrow> Sector list \<Rightarrow> (pystr \<times> refusal_value) option" where
  "sector_assignment_defect simulated [] = None"
| "sector_assignment_defect simulated (s # rest) =
     (if sector_state s = UNASSIGNED \<and> assigned_member_id s \<noteq> None
      then Some (lit ''assignedMemberId'', Val (optional_text (assigned_member_id s)))
      else if sector_state s \<noteq> UNASSIGNED \<and> assigned_member_id s = None
      then Some (lit ''assignedMemberId'', Val PNone)
      else if assigned_member_id s \<noteq> None \<and> the (assigned_member_id s) \<notin> set simulated
      then Some (lit ''assignedMemberId'', Val (optional_text (assigned_member_id s)))
      else sector_assignment_defect simulated rest)"

definition mission_anchor_defect :: "DashboardReducedState \<Rightarrow> (pystr \<times> refusal_value) option" where
  "mission_anchor_defect s =
     (if current_mission s = None \<and> (fleet s \<noteq> [] \<or> sectors s \<noteq> [] \<or> latest_audit_ordinal s \<noteq> 0)
      then Some (lit ''currentMission'', Val PNone) else None)"

definition noncanonical_anchor :: "DashboardReducedState \<Rightarrow> exn + (pystr \<times> refusal_value) option" where
  "noncanonical_anchor s =
     bindE (strictly_sorted_identifiers (map member_identifier (fleet s))) (\<lambda>fleet_order.
     bindE (strictly_sorted_identifiers (map sector_identifier (sectors s))) (\<lambda>sector_order.
       Inr (if \<not> fleet_order then Some (lit ''fleet'', FleetValue (fleet s))
            else if \<not> sector_order then Some (lit ''sectors'', SectorsValue (sectors s))
            else case sector_assignment_defect (simulated_ids (fleet s)) (sectors s) of
                   Some defect \<Rightarrow> Some defect
                 | None \<Rightarrow> mission_anchor_defect s)))"

definition anchor_digest_outcome ::
    "(pystr \<Rightarrow> pystr) \<Rightarrow> ReducerCheckpoint \<Rightarrow> pystr option \<Rightarrow> exn + CheckpointOutcome" where
  "anchor_digest_outcome nfc cp expected =
     (case expected of
        None \<Rightarrow> Inr (CheckpointAccepted cp)
      | Some h \<Rightarrow>
          if \<not> is_lowercase_sha256 h
          then Inr (CheckpointRefused SERVER_DIGEST_FORM (lit ''digest'') (Val (PStr h)))
          else bindE (from_digest (state_digest nfc (checkpoint_state cp))) (\<lambda>actual.
                 bindE (from_digest (matches h actual)) (\<lambda>same.
                   if \<not> same then Inr (CheckpointRefused SERVER_DIGEST_MISMATCH (lit ''digest'') (Val (PStr h)))
                   else Inr (CheckpointAccepted cp))))"

definition checkpoint_from_anchor ::
    "(pystr \<Rightarrow> pystr) \<Rightarrow> DashboardReducedState \<Rightarrow> pystr option \<Rightarrow> pystr option \<Rightarrow> exn + CheckpointOutcome" where
  "checkpoint_from_anchor nfc s witness expected =
     (if witness \<noteq> None \<and> \<not> is_lowercase_sha256 (the witness)
      then Inr (CheckpointRefused WITNESS_FORM (lit ''latestEventDigest'') (Val (optional_text witness)))
      else bindE (noncanonical_anchor s) (\<lambda>defect.
        case defect of
          Some (attribute, val) \<Rightarrow> Inr (CheckpointRefused NONCANONICAL_ANCHOR_STATE attribute val)
        | None \<Rightarrow>
            if (latest_audit_ordinal s \<noteq> 0) \<noteq> (witness \<noteq> None)
            then Inr (CheckpointRefused ORDINAL_WITNESS (lit ''latestEventDigest'') (Val (optional_text witness)))
            else anchor_digest_outcome nfc \<lparr>checkpoint_state = s, latest_event_digest = witness\<rparr> expected))"

definition checkpoint_from_snapshot ::
    "(pystr \<Rightarrow> pystr) \<Rightarrow> DashboardReducedState \<Rightarrow> pystr option \<Rightarrow> pystr option \<Rightarrow> exn + CheckpointOutcome" where
  "checkpoint_from_snapshot nfc s witness expected = checkpoint_from_anchor nfc s witness expected"

definition checkpoint_from_replay ::
    "(pystr \<Rightarrow> pystr) \<Rightarrow> DashboardReducedState \<Rightarrow> pystr option \<Rightarrow> pystr option \<Rightarrow> exn + CheckpointOutcome" where
  "checkpoint_from_replay nfc s witness expected = checkpoint_from_anchor nfc s witness expected"

section \<open>The event boundary\<close>

datatype state_event =
    TimelineEvent
  | MissionLifecycleEvent MissionLifecycle
  | ConnectivityEvent pystr LinkState
  | TelemetryEvent pystr Telemetry
  | SectorLifecycleEvent pystr SectorPhase "pystr option"

definition closed_event_data :: "members \<Rightarrow> pystr list \<Rightarrow> problem + unit" where
  "closed_event_data d required =
     (case closed_defect d required of
        Inl error \<Rightarrow> Inl (Raised error)
      | Inr (Some (name, val)) \<Rightarrow> Inl (Problem EVENT_DATA name (Val val))
      | Inr None \<Rightarrow> Inr ())"

fun event_class_value :: "class_value \<Rightarrow> pyval" where
  "event_class_value (Class c) = PStr (class_name c)"
| "event_class_value (NotAClass v) = v"

definition require_event_class :: "DashboardEvent \<Rightarrow> EventClass \<Rightarrow> problem + unit" where
  "require_event_class e expected =
     (if event_class e \<noteq> Class expected
      then Inl (Problem EVENT_DATA (lit ''eventClass'') (Val (event_class_value (event_class e))))
      else Inr ())"

text \<open>\<open>enum_type(value)\<close> for an enumeration given by its members and their values; any other object is
  the TypeError or ValueError the source turns into a refusal.\<close>

definition enum_member :: "('e \<Rightarrow> pystr) \<Rightarrow> 'e list \<Rightarrow> members \<Rightarrow> pystr \<Rightarrow> problem + 'e" where
  "enum_member value_of all_members d name =
     (case List.find (\<lambda>m. get d name = PStr (value_of m)) all_members of
        Some m \<Rightarrow> Inr m
      | None \<Rightarrow> Inl (Problem EVENT_DATA name (Val (get d name))))"

fun event_identifier_of :: "pystr \<Rightarrow> pyval \<Rightarrow> problem + pystr" where
  "event_identifier_of name (PStr s) =
     (if is_identifier (PStr s) then Inr s else Inl (Problem EVENT_DATA name (Val (PStr s))))"
| "event_identifier_of name v = Inl (Problem EVENT_DATA name (Val v))"

definition event_identifier :: "members \<Rightarrow> pystr \<Rightarrow> problem + pystr" where
  "event_identifier d name = event_identifier_of name (get d name)"

fun bounded_integer_of :: "pystr \<Rightarrow> int \<Rightarrow> int \<Rightarrow> pyval \<Rightarrow> problem + int" where
  "bounded_integer_of name lo hi (PInt n) =
     (if lo \<le> n \<and> n \<le> hi then Inr n else Inl (Problem EVENT_DATA name (Val (PInt n))))"
| "bounded_integer_of name lo hi v = Inl (Problem EVENT_DATA name (Val v))"

definition bounded_integer :: "members \<Rightarrow> pystr \<Rightarrow> int \<Rightarrow> int \<Rightarrow> problem + int" where
  "bounded_integer d name lo hi = bounded_integer_of name lo hi (get d name)"

definition validate_mission_event :: "DashboardEvent \<Rightarrow> problem + state_event" where
  "validate_mission_event e =
     bindE (require_event_class e MISSION) (\<lambda>_.
     bindE (closed_event_data (event_data e) [lit ''lifecycle'']) (\<lambda>_.
     bindE (enum_member lifecycle_value [PLANNED, SEARCHING, EXHAUSTED, ABORTED] (event_data e) (lit ''lifecycle''))
       (\<lambda>l. Inr (MissionLifecycleEvent l))))"

definition validate_connectivity_event :: "DashboardEvent \<Rightarrow> problem + state_event" where
  "validate_connectivity_event e =
     bindE (require_event_class e CONNECTIVITY) (\<lambda>_.
     bindE (closed_event_data (event_data e) [lit ''droneId'', lit ''connectivity'']) (\<lambda>_.
     bindE (event_identifier (event_data e) (lit ''droneId'')) (\<lambda>i.
     bindE (enum_member link_value [CONNECTED, DEGRADED, OFFLINE] (event_data e) (lit ''connectivity''))
       (\<lambda>c. Inr (ConnectivityEvent i c)))))"

definition validate_telemetry_event :: "DashboardEvent \<Rightarrow> problem + state_event" where
  "validate_telemetry_event e =
     bindE (require_event_class e TELEMETRY) (\<lambda>_.
     bindE (closed_event_data (event_data e) TELEMETRY_FIELDS) (\<lambda>_.
     bindE (event_identifier (event_data e) (lit ''droneId'')) (\<lambda>i.
     bindE (bounded_integer (event_data e) (lit ''latitudeMicrodegrees'') (- 90000000) 90000000) (\<lambda>lat.
     bindE (bounded_integer (event_data e) (lit ''longitudeMicrodegrees'') (- 180000000) 180000000) (\<lambda>lon.
     bindE (bounded_integer (event_data e) (lit ''batteryPercent'') 0 100) (\<lambda>battery.
     bindE (bounded_integer (event_data e) (lit ''altitudeMetres'') (- 500) 20000) (\<lambda>altitude.
     bindE (bounded_integer (event_data e) (lit ''headingDegrees'') 0 359) (\<lambda>heading.
     bindE (bounded_integer (event_data e) (lit ''groundSpeedCentimetresPerSecond'') 0 10000) (\<lambda>speed.
       Inr (TelemetryEvent i \<lparr>latitude_microdegrees = lat, longitude_microdegrees = lon,
         battery_percent = battery, altitude_metres = altitude, heading_degrees = heading,
         ground_speed_centimetres_per_second = speed\<rparr>))))))))))"

definition validate_sector_event :: "DashboardEvent \<Rightarrow> problem + state_event" where
  "validate_sector_event e =
     bindE (require_event_class e MISSION) (\<lambda>_.
     bindE (closed_event_data (event_data e) [lit ''sectorId'', lit ''state'', lit ''assignedMemberId'']) (\<lambda>_.
     bindE (event_identifier (event_data e) (lit ''sectorId'')) (\<lambda>i.
     bindE (enum_member phase_value [UNASSIGNED, ASSIGNED, AT_RISK, SEARCHED] (event_data e) (lit ''state'')) (\<lambda>phase.
       let assignee = get (event_data e) (lit ''assignedMemberId'')
       in if phase = UNASSIGNED then
            if assignee \<noteq> PNone then Inl (Problem ASSIGNMENT_FORBIDDEN (lit ''assignedMemberId'') (Val assignee))
            else Inr (SectorLifecycleEvent i phase None)
          else if assignee = PNone then Inl (Problem ASSIGNMENT_REQUIRED (lit ''assignedMemberId'') (Val PNone))
          else bindE (event_identifier (event_data e) (lit ''assignedMemberId'')) (\<lambda>a.
                 Inr (SectorLifecycleEvent i phase (Some a)))))))"

definition TIMELINE_EVENT_CLASSES :: "(pystr, EventClass) pydict" where
  "TIMELINE_EVENT_CLASSES =
    [(lit ''operatorCommand'', COMMAND), (lit ''operatorApproval'', APPROVAL),
     (lit ''agentProposal'', View.EVIDENCE), (lit ''evidenceDecision'', View.EVIDENCE),
     (lit ''salientObservation'', View.EVIDENCE), (lit ''gatewayResponse'', View.AUDIT),
     (lit ''droneCommand'', COMMAND), (lit ''commandResult'', COMMAND), (lit ''auditRecord'', View.AUDIT)]"

text \<open>\<open>TIMELINE_EVENT_CLASSES[event.kind]\<close>: the validator is registered for exactly those kinds.\<close>

definition validate_timeline_event :: "EventClass \<Rightarrow> DashboardEvent \<Rightarrow> problem + state_event" where
  "validate_timeline_event expected e = bindE (require_event_class e expected) (\<lambda>_. Inr TimelineEvent)"

definition BOUNDARY_VALIDATORS :: "(pystr, DashboardEvent \<Rightarrow> problem + state_event) pydict" where
  "BOUNDARY_VALIDATORS =
    [(lit ''missionLifecycle'', validate_mission_event),
     (lit ''connectivityChanged'', validate_connectivity_event),
     (lit ''droneTelemetry'', validate_telemetry_event),
     (lit ''sectorLifecycle'', validate_sector_event)]
    @ map (\<lambda>(k, expected). (k, validate_timeline_event expected)) TIMELINE_EVENT_CLASSES"

fun validator_for :: "pyval \<Rightarrow> (DashboardEvent \<Rightarrow> problem + state_event) option" where
  "validator_for (PStr k) = map_of BOUNDARY_VALIDATORS k"
| "validator_for _ = None"

definition validate_ordered_event_boundary :: "OrderedDashboardEvent \<Rightarrow> problem + state_event" where
  "validate_ordered_event_boundary oe =
     (let e = event oe
      in if \<not> int_between (audit_ordinal oe) 1 MAX_SAFE_INTEGER
         then Inl (Problem EVENT_DATA (lit ''auditOrdinal'') (Val (audit_ordinal oe)))
         else case validator_for (kind e) of
           None \<Rightarrow> Inl (Problem UNPROJECTED (lit ''kind'') (Val (kind e)))
         | Some validator \<Rightarrow>
             if \<not> is_identifier (mission e) then Inl (Problem EVENT_DATA (lit ''mission'') (Val (mission e)))
             else case parse_instant (event_time e) of
               Inl error \<Rightarrow> Inl (Problem EVENT_DATA (lit ''time'') (Val (event_time e)))
             | Inr instant \<Rightarrow> validator e)"

section \<open>Reduction\<close>

text \<open>\<open>_simulated_target\<close>: the index of the first member with the identifier.\<close>

fun simulated_target_from :: "nat \<Rightarrow> FleetMember list \<Rightarrow> pystr \<Rightarrow> problem + nat \<times> FleetMember" where
  "simulated_target_from i [] identifier = Inl (Problem UNKNOWN_MEMBER (lit ''droneId'') (Val (PStr identifier)))"
| "simulated_target_from i (m # ms) identifier =
     (if member_identifier m = identifier then
        (case m of
           DeclaredOnlyFleetMember _ \<Rightarrow> Inl (Problem DECLARED_ONLY_MEMBER (lit ''droneId'') (Val (PStr identifier)))
         | SimulatedFleetMember _ _ _ \<Rightarrow> Inr (i, m))
      else simulated_target_from (Suc i) ms identifier)"

fun sector_index_from :: "nat \<Rightarrow> Sector list \<Rightarrow> pystr \<Rightarrow> problem + nat" where
  "sector_index_from i [] identifier = Inl (Problem UNKNOWN_SECTOR (lit ''sectorId'') (Val (PStr identifier)))"
| "sector_index_from i (s # ss) identifier =
     (if sector_identifier s = identifier then Inr i else sector_index_from (Suc i) ss identifier)"

definition simulated_assignee :: "DashboardReducedState \<Rightarrow> pystr \<Rightarrow> bool" where
  "simulated_assignee s identifier \<longleftrightarrow>
     (\<exists>m \<in> set (fleet s). member_identifier m = identifier \<and> is_SimulatedFleetMember m)"

text \<open>\<open>replace(member, connectivity=...)\<close> and \<open>replace(member, telemetry=...)\<close> on a simulated member.\<close>

fun with_connectivity :: "LinkState \<Rightarrow> FleetMember \<Rightarrow> FleetMember" where
  "with_connectivity c (SimulatedFleetMember i _ t) = SimulatedFleetMember i c t"
| "with_connectivity c m = m"

fun with_telemetry :: "Telemetry \<Rightarrow> FleetMember \<Rightarrow> FleetMember" where
  "with_telemetry t (SimulatedFleetMember i c _) = SimulatedFleetMember i c (Some t)"
| "with_telemetry t m = m"

definition replace_member :: "FleetMember list \<Rightarrow> nat \<Rightarrow> FleetMember \<Rightarrow> FleetMember list" where
  "replace_member ms index member = take index ms @ member # drop (index + 1) ms"

fun reduce :: "state_event \<Rightarrow> DashboardReducedState \<Rightarrow> MissionView \<Rightarrow> problem + DashboardReducedState" where
  "reduce TimelineEvent s m = Inr s"
| "reduce (MissionLifecycleEvent l) s m = Inr (s\<lparr>current_mission := Some (m\<lparr>mission_lifecycle := l\<rparr>)\<rparr>)"
| "reduce (ConnectivityEvent i c) s m =
     bindE (simulated_target_from 0 (fleet s) i) (\<lambda>(index, member).
       Inr (s\<lparr>fleet := replace_member (fleet s) index (with_connectivity c member)\<rparr>))"
| "reduce (TelemetryEvent i t) s m =
     bindE (simulated_target_from 0 (fleet s) i) (\<lambda>(index, member).
       Inr (s\<lparr>fleet := replace_member (fleet s) index (with_telemetry t member)\<rparr>))"
| "reduce (SectorLifecycleEvent i phase assignee) s m =
     bindE (sector_index_from 0 (sectors s) i) (\<lambda>index.
       if assignee \<noteq> None \<and> \<not> simulated_assignee s (the assignee)
       then Inl (Problem INVALID_ASSIGNEE (lit ''assignedMemberId'') (Val (optional_text assignee)))
       else Inr (s\<lparr>sectors := take index (sectors s)
              @ \<lparr>sector_identifier = i, sector_state = phase, assigned_member_id = assignee\<rparr>
              # drop (index + 1) (sectors s)\<rparr>))"

section \<open>Folding one event\<close>

fun outcome_checkpoint :: "FoldOutcome \<Rightarrow> ReducerCheckpoint" where
  "outcome_checkpoint (FoldApplied cp) = cp"
| "outcome_checkpoint (FoldDuplicate cp) = cp"
| "outcome_checkpoint (FoldRefused cp _ _ _) = cp"

definition verify_server_digest ::
    "(pystr \<Rightarrow> pystr) \<Rightarrow> ReducerCheckpoint \<Rightarrow> FoldOutcome \<Rightarrow> pystr option \<Rightarrow> exn + FoldOutcome" where
  "verify_server_digest nfc prior outcome expected =
     (case expected of
        None \<Rightarrow> Inr outcome
      | Some h \<Rightarrow>
          if \<not> is_lowercase_sha256 h
          then Inr (FoldRefused prior SERVER_DIGEST_FORM (lit ''digest'') (Val (PStr h)))
          else bindE (from_digest (state_digest nfc (checkpoint_state (outcome_checkpoint outcome)))) (\<lambda>actual.
                 bindE (from_digest (matches h actual)) (\<lambda>same.
                   if \<not> same then Inr (FoldRefused prior SERVER_DIGEST_MISMATCH (lit ''digest'') (Val (PStr h)))
                   else Inr outcome)))"

fun ordinal_value :: "pyval \<Rightarrow> int" where
  "ordinal_value (PInt n) = n"
| "ordinal_value _ = 0"

text \<open>\<open>latest_event_digest is not None and matches(latest_event_digest, incoming)\<close>\<close>

definition witnessed :: "pystr option \<Rightarrow> pystr \<Rightarrow> exn + bool" where
  "witnessed witness incoming =
     (case witness of None \<Rightarrow> Inr False | Some h \<Rightarrow> from_digest (matches h incoming))"

definition fold_ordinal_control ::
    "(pystr \<Rightarrow> pystr) \<Rightarrow> ReducerCheckpoint \<Rightarrow> OrderedDashboardEvent \<Rightarrow> pystr option \<Rightarrow> exn + FoldOutcome option" where
  "fold_ordinal_control nfc cp oe expected =
     (let ordinal = ordinal_value (audit_ordinal oe);
          current = latest_audit_ordinal (checkpoint_state cp)
      in if ordinal < current
         then Inr (Some (FoldRefused cp ORDINAL_REGRESSION (lit ''auditOrdinal'') (Val (PInt ordinal))))
         else if ordinal = current then
           bindE (ordered_event_digest nfc oe) (\<lambda>incoming.
             bindE (witnessed (latest_event_digest cp) incoming) (\<lambda>same.
               if same then bindE (verify_server_digest nfc cp (FoldDuplicate cp) expected) (\<lambda>outcome. Inr (Some outcome))
               else Inr (Some (FoldRefused cp ORDINAL_DIVERGENCE (lit ''auditOrdinal'') (Val (PInt ordinal))))))
         else if ordinal \<noteq> current + 1
         then Inr (Some (FoldRefused cp ORDINAL_GAP (lit ''auditOrdinal'') (Val (PInt ordinal))))
         else Inr None)"

definition checkpoint_fold_refusal :: "(pystr \<Rightarrow> pystr) \<Rightarrow> ReducerCheckpoint \<Rightarrow> exn + FoldOutcome option" where
  "checkpoint_fold_refusal nfc cp =
     bindE (checkpoint_from_anchor nfc (checkpoint_state cp) (latest_event_digest cp) None) (\<lambda>outcome.
       case outcome of
         CheckpointRefused refusal attribute val \<Rightarrow> Inr (Some (FoldRefused cp refusal attribute val))
       | CheckpointAccepted _ \<Rightarrow> Inr None)"

text \<open>The preflight returns a refusal or the validated event.\<close>

definition fold_preflight ::
    "(pystr \<Rightarrow> pystr) \<Rightarrow> ReducerCheckpoint \<Rightarrow> OrderedDashboardEvent \<Rightarrow> exn + (FoldOutcome + state_event)" where
  "fold_preflight nfc cp oe =
     (case validate_ordered_event_boundary oe of
        Inl (Raised error) \<Rightarrow> Inl error
      | Inl (Problem refusal attribute val) \<Rightarrow> Inr (Inl (FoldRefused cp refusal attribute val))
      | Inr validated \<Rightarrow>
          bindE (checkpoint_fold_refusal nfc cp) (\<lambda>refused.
            case refused of Some outcome \<Rightarrow> Inr (Inl outcome) | None \<Rightarrow> Inr (Inr validated)))"

definition apply_event ::
    "(pystr \<Rightarrow> pystr) \<Rightarrow> ReducerCheckpoint \<Rightarrow> OrderedDashboardEvent \<Rightarrow> pystr option \<Rightarrow> state_event \<Rightarrow> exn + FoldOutcome" where
  "apply_event nfc cp oe expected validated =
     (case current_mission (checkpoint_state cp) of
        None \<Rightarrow> Inr (FoldRefused cp MISSION_UNPREPARED (lit ''mission'') (Val PNone))
      | Some m \<Rightarrow>
          if mission (event oe) \<noteq> PStr (mission_identifier m)
          then Inr (FoldRefused cp MISSION_MISMATCH (lit ''mission'') (Val (mission (event oe))))
          else case reduce validated (checkpoint_state cp) m of
            Inl (Raised error) \<Rightarrow> Inl error
          | Inl (Problem refusal attribute val) \<Rightarrow> Inr (FoldRefused cp refusal attribute val)
          | Inr reduced \<Rightarrow>
              bindE (ordered_event_digest nfc oe) (\<lambda>witness.
                verify_server_digest nfc cp
                  (FoldApplied \<lparr>checkpoint_state = reduced\<lparr>latest_audit_ordinal := ordinal_value (audit_ordinal oe)\<rparr>,
                                latest_event_digest = Some witness\<rparr>) expected))"

definition fold_ordered_event ::
    "(pystr \<Rightarrow> pystr) \<Rightarrow> ReducerCheckpoint \<Rightarrow> OrderedDashboardEvent \<Rightarrow> pystr option \<Rightarrow> exn + FoldOutcome" where
  "fold_ordered_event nfc cp oe expected =
     bindE (fold_preflight nfc cp oe) (\<lambda>preflight.
       case preflight of
         Inl refused \<Rightarrow> Inr refused
       | Inr validated \<Rightarrow>
           bindE (fold_ordinal_control nfc cp oe expected) (\<lambda>resolved.
             case resolved of
               Some outcome \<Rightarrow> Inr outcome
             | None \<Rightarrow> apply_event nfc cp oe expected validated))"

end
