(* ===== verification/Replay.thy ===== *)
theory Replay
  imports Reducer
begin

text \<open>
  What the dashboard reducer of \<open>Reducer\<close> guarantees: checkpoints that pass the anchor check stay
  canonical under every event, an event moves a checkpoint only from its predecessor ordinal, and
  redelivery is harmless. The guarantees of one step are the laws of the locale \<open>ordinal_fold\<close>,
  where the consequences for whole streams are proved.
\<close>

section \<open>Streams of ordinal-stamped events\<close>

locale ordinal_fold =
  fixes step :: "'c \<Rightarrow> 'e \<Rightarrow> 'c" and position :: "'c \<Rightarrow> int" and ordinal :: "'e \<Rightarrow> int"
    and good :: "'c \<Rightarrow> bool"
  assumes moves: "step c e \<noteq> c \<Longrightarrow> ordinal e = position c + 1 \<and> position (step c e) = position c + 1"
    and keeps: "good c \<Longrightarrow> good (step c e)"
begin

lemma stale: "ordinal e \<le> position c \<Longrightarrow> step c e = c"
  using moves [of c e] by force

lemma position_mono: "position c \<le> position (step c e)"
  using moves [of c e] by (cases "step c e = c") simp_all

lemma run_good: "good c \<Longrightarrow> good (foldl step c es)"
  by (induction es arbitrary: c) (simp_all add: keeps)

lemma run_mono: "position c \<le> position (foldl step c es)"
  by (induction es arbitrary: c) (auto intro: order_trans position_mono)

lemma run_stale: "(\<And>e. e \<in> set es \<Longrightarrow> ordinal e \<le> position c) \<Longrightarrow> foldl step c es = c"
  by (induction es) (simp_all add: stale)

text \<open>Redelivering events at or below the position reached, anywhere in a stream, changes nothing.\<close>

lemma redelivery:
  assumes "\<And>e. e \<in> set old \<Longrightarrow> ordinal e \<le> position (foldl step c before)"
  shows "foldl step c (before @ old @ after) = foldl step c (before @ after)"
  using run_stale [OF assms] by simp

text \<open>Every position between start and end was reached by an event of that ordinal.\<close>

lemma run_reaches:
  "position c < n \<Longrightarrow> n \<le> position (foldl step c es) \<Longrightarrow> \<exists>e \<in> set es. ordinal e = n"
proof (induction es arbitrary: c)
  case (Cons e es)
  show ?case
  proof (cases "position (step c e) < n")
    case True
    with Cons.IH [of "step c e"] Cons.prems show ?thesis by auto
  next
    case False
    with Cons.prems(1) have "step c e \<noteq> c" by auto
    with moves [OF this] Cons.prems(1) False show ?thesis by auto
  qed
qed simp

end

section \<open>Canonical anchors\<close>

definition canonical_state :: "DashboardReducedState \<Rightarrow> bool" where
  "canonical_state s \<longleftrightarrow>
     strictly_sorted_identifiers (map member_identifier (fleet s)) = Inr True
     \<and> strictly_sorted_identifiers (map sector_identifier (sectors s)) = Inr True
     \<and> (\<forall>x \<in> set (sectors s). (sector_state x = UNASSIGNED \<longleftrightarrow> assigned_member_id x = None)
          \<and> (\<forall>a. assigned_member_id x = Some a \<longrightarrow> a \<in> set (simulated_ids (fleet s))))
     \<and> (current_mission s = None \<longrightarrow> fleet s = [] \<and> sectors s = [] \<and> latest_audit_ordinal s = 0)"

definition anchored :: "ReducerCheckpoint \<Rightarrow> bool" where
  "anchored cp \<longleftrightarrow> canonical_state (checkpoint_state cp)
     \<and> (latest_event_digest cp = None \<longleftrightarrow> latest_audit_ordinal (checkpoint_state cp) = 0)
     \<and> pred_option is_lowercase_sha256 (latest_event_digest cp)"

lemma sector_assignment_defect_None:
  "sector_assignment_defect ids ss = None \<longleftrightarrow>
     (\<forall>x \<in> set ss. (sector_state x = UNASSIGNED \<longleftrightarrow> assigned_member_id x = None)
        \<and> (\<forall>a. assigned_member_id x = Some a \<longrightarrow> a \<in> set ids))"
  by (induction ids ss rule: sector_assignment_defect.induct) auto

lemma noncanonical_anchor_None: "noncanonical_anchor s = Inr None \<longleftrightarrow> canonical_state s"
proof -
  have "noncanonical_anchor s = Inr None \<longleftrightarrow>
      strictly_sorted_identifiers (map member_identifier (fleet s)) = Inr True
      \<and> strictly_sorted_identifiers (map sector_identifier (sectors s)) = Inr True
      \<and> sector_assignment_defect (simulated_ids (fleet s)) (sectors s) = None \<and> mission_anchor_defect s = None"
    unfolding noncanonical_anchor_def bindE_eq_Inr
    by (auto split: if_splits option.splits)
  then show ?thesis
    by (auto simp: canonical_state_def sector_assignment_defect_None mission_anchor_defect_def)
qed

lemma anchored_iff:
  "checkpoint_from_anchor nfc (checkpoint_state cp) (latest_event_digest cp) None = Inr (CheckpointAccepted cp')
     \<longleftrightarrow> cp' = cp \<and> anchored cp"
proof (cases "canonical_state (checkpoint_state cp)")
  case True
  then have "noncanonical_anchor (checkpoint_state cp) = Inr None" by (simp add: noncanonical_anchor_None)
  with True show ?thesis
    by (cases "latest_event_digest cp") (auto simp: checkpoint_from_anchor_def anchored_def anchor_digest_outcome_def)
next
  case False
  then have "noncanonical_anchor (checkpoint_state cp) \<noteq> Inr None" by (simp add: noncanonical_anchor_None)
  with False show ?thesis
    by (auto simp: checkpoint_from_anchor_def anchored_def split: option.splits)
qed

lemma checkpoint_fold_refusal_None: "checkpoint_fold_refusal nfc cp = Inr None \<longleftrightarrow> anchored cp"
proof (cases "checkpoint_from_anchor nfc (checkpoint_state cp) (latest_event_digest cp) None")
  case (Inr outcome)
  have "anchored cp" if "outcome = CheckpointAccepted cp'" for cp'
    using Inr that anchored_iff [of nfc cp cp'] by simp
  with Inr anchored_iff [of nfc cp cp] show ?thesis
    by (cases outcome) (simp_all add: checkpoint_fold_refusal_def)
next
  case (Inl error)
  with anchored_iff [of nfc cp cp] show ?thesis by (simp add: checkpoint_fold_refusal_def)
qed

section \<open>Preparation builds a canonical anchor\<close>

definition byte_rank :: "pykey \<Rightarrow> nat list" where
  "byte_rank k = (case key_bytes k of Inl _ \<Rightarrow> [] | Inr b \<Rightarrow> b)"

lemma sort_key_tagged: "sort_key fst (map (\<lambda>x. (f x, x)) xs) = map (\<lambda>x. (f x, x)) (sort_key f xs)"
proof -
  have "insort_key fst (f x, x) (map (\<lambda>x. (f x, x)) ys) = map (\<lambda>x. (f x, x)) (insort_key f x ys)" for x ys
    by (induction ys) simp_all
  then show ?thesis by (induction xs) simp_all
qed

lemma sorted_by_bytes_Inr:
  "sorted_by_bytes key xs = Inr ys \<longleftrightarrow>
     (\<forall>x \<in> set xs. \<exists>b. key_bytes (key x) = Inr b) \<and> ys = sort_key (\<lambda>x. byte_rank (key x)) xs"
proof -
  have "mapE (\<lambda>x. bindE (key_bytes (key x)) (\<lambda>b. Inr (b, x))) xs = Inr ps \<longleftrightarrow>
      (\<forall>x \<in> set xs. \<exists>b. key_bytes (key x) = Inr b) \<and> ps = map (\<lambda>x. (byte_rank (key x), x)) xs" for ps
    by (induction xs arbitrary: ps) (auto simp: byte_rank_def)
  then show ?thesis by (auto simp: sorted_by_bytes_def sort_key_tagged comp_def)
qed

lemma strictly_sorted_Inr_True:
  "strictly_sorted_identifiers ids = Inr True \<longleftrightarrow>
     (\<forall>i \<in> set ids. \<exists>b. key_bytes (KStr i) = Inr b) \<and> distinct ids \<and> sorted (map (\<lambda>i. byte_rank (KStr i)) ids)"
proof -
  have "ids = sort_key f (remdups ids) \<longleftrightarrow> distinct ids \<and> sorted (map f ids)" for f :: "pystr \<Rightarrow> nat list"
    by (metis distinct_remdups distinct_remdups_id distinct_sort sorted_sort_key sorted_sort_id sort_key_id_if_sorted)
  then show ?thesis by (auto simp: strictly_sorted_identifiers_def sorted_by_bytes_Inr)
qed

lemma duplicate_None: "duplicate xs = None \<longleftrightarrow> distinct xs"
proof -
  have "duplicate_from seen xs = None \<longleftrightarrow> distinct xs \<and> set xs \<inter> set seen = {}" for seen
    by (induction xs arbitrary: seen) auto
  then show ?thesis by (simp add: duplicate_def)
qed

lemma sorted_by_bytes_strict:
  assumes "sorted_by_bytes (KStr \<circ> f) xs = Inr ys" "distinct (map f xs)"
  shows "strictly_sorted_identifiers (map f ys) = Inr True"
  using assms
  by (auto simp: sorted_by_bytes_Inr strictly_sorted_Inr_True distinct_map comp_def)

lemma prepare_checkpoint_Inr:
  assumes "prepare_checkpoint p = Inr cp"
  shows "anchored cp" "set (simulated_ids (fleet (checkpoint_state cp))) = set (simulated_member_ids p)"
    "set (map sector_identifier (sectors (checkpoint_state cp))) = set (sector_ids p)"
proof -
  let ?members = "map (\<lambda>i. SimulatedFleetMember i CONNECTED None) (simulated_member_ids p)
    @ map DeclaredOnlyFleetMember (declared_only_member_ids p)"
  from assms obtain ms ids where ms: "sorted_by_bytes (KStr \<circ> member_identifier) ?members = Inr ms"
    and ids: "sorted_by_bytes KStr (sector_ids p) = Inr ids"
    and dm: "distinct (simulated_member_ids p @ declared_only_member_ids p)" and ds: "distinct (sector_ids p)"
    and cp: "cp = \<lparr>checkpoint_state = \<lparr>current_mission = Some \<lparr>mission_identifier = prepared_identifier p,
        mission_lifecycle = PLANNED, predecessor_identifier = prepared_predecessor p\<rparr>, fleet = ms,
        latest_audit_ordinal = 0, sectors = map (\<lambda>i. \<lparr>sector_identifier = i, sector_state = UNASSIGNED,
          assigned_member_id = None\<rparr>) ids\<rparr>, latest_event_digest = None\<rparr>"
    by (auto simp: prepare_checkpoint_def duplicate_None simp flip: duplicate_None split: option.splits sum.splits)
  have "strictly_sorted_identifiers (map member_identifier ms) = Inr True"
    by (rule sorted_by_bytes_strict [OF ms]) (use dm in \<open>simp add: comp_def\<close>)
  moreover have "strictly_sorted_identifiers ids = Inr True"
    using sorted_by_bytes_strict [of id] ids ds by (simp add: comp_def id_def)
  ultimately show "anchored cp" by (simp add: anchored_def canonical_state_def cp comp_def)
  from sorted_by_bytes_set [OF ms] show "set (simulated_ids (fleet (checkpoint_state cp))) = set (simulated_member_ids p)"
    by (force simp: cp simulated_ids_def image_iff)
  from sorted_by_bytes_set [OF ids] show "set (map sector_identifier (sectors (checkpoint_state cp))) = set (sector_ids p)"
    by (simp add: cp comp_def)
qed

section \<open>Reduction keeps the state canonical\<close>

lemma simulated_target_Inr:
  "simulated_target_from i ms x = Inr (k, m) \<Longrightarrow>
     i \<le> k \<and> k - i < length ms \<and> ms ! (k - i) = m \<and> is_SimulatedFleetMember m \<and> member_identifier m = x"
proof (induction i ms x rule: simulated_target_from.induct)
  case (2 i m' ms x)
  show ?case
  proof (cases "member_identifier m' = x")
    case True
    with 2(2) show ?thesis by (cases m') auto
  next
    case False
    with 2 show ?thesis by (auto simp: nth_Cons' Suc_le_eq)
  qed
qed simp

lemma sector_index_Inr:
  "sector_index_from i ss x = Inr k \<Longrightarrow> i \<le> k \<and> k - i < length ss \<and> sector_identifier (ss ! (k - i)) = x"
proof (induction i ss x rule: sector_index_from.induct)
  case (2 i s ss x)
  then show ?case by (auto simp: nth_Cons' Suc_le_eq split: if_splits)
qed simp

lemma replace_member_update: "k < length ms \<Longrightarrow> replace_member ms k m = ms[k := m]"
  by (simp add: replace_member_def upd_conv_take_nth_drop)

definition roster :: "FleetMember list \<Rightarrow> (pystr \<times> bool) list" where
  "roster ms = map (\<lambda>m. (member_identifier m, is_SimulatedFleetMember m)) ms"

lemma roster_determines:
  "map member_identifier ms = map fst (roster ms)"
  "simulated_ids ms = map fst (filter snd (roster ms))"
  by (simp_all add: roster_def simulated_ids_def filter_map comp_def)

lemma roster_update:
  "k < length ms \<Longrightarrow> member_identifier m = member_identifier (ms ! k) \<Longrightarrow>
     is_SimulatedFleetMember m = is_SimulatedFleetMember (ms ! k) \<Longrightarrow> roster (ms[k := m]) = roster ms"
  unfolding roster_def map_update by (simp add: list_update_same_conv)

lemma with_member [simp]:
  "member_identifier (with_connectivity c m) = member_identifier m"
  "is_SimulatedFleetMember (with_connectivity c m) = is_SimulatedFleetMember m"
  "member_identifier (with_telemetry t m) = member_identifier m"
  "is_SimulatedFleetMember (with_telemetry t m) = is_SimulatedFleetMember m"
  by (cases m; simp)+

fun event_ok :: "state_event \<Rightarrow> bool" where
  "event_ok (SectorLifecycleEvent i phase assignee) \<longleftrightarrow> (phase = UNASSIGNED \<longleftrightarrow> assignee = None)"
| "event_ok _ \<longleftrightarrow> True"

definition same_frame :: "DashboardReducedState \<Rightarrow> DashboardReducedState \<Rightarrow> bool" where
  "same_frame s t \<longleftrightarrow> roster (fleet t) = roster (fleet s)
     \<and> map sector_identifier (sectors t) = map sector_identifier (sectors s)
     \<and> latest_audit_ordinal t = latest_audit_ordinal s
     \<and> map_option mission_identifier (current_mission t) = map_option mission_identifier (current_mission s)
     \<and> map_option predecessor_identifier (current_mission t) = map_option predecessor_identifier (current_mission s)"

lemma reduce_frame:
  assumes "reduce se s m = Inr t" "current_mission s = Some m"
  shows "same_frame s t"
proof (cases se)
  case (ConnectivityEvent i c)
  with assms(1) obtain k x where "simulated_target_from 0 (fleet s) i = Inr (k, x)"
    and t: "t = s\<lparr>fleet := replace_member (fleet s) k (with_connectivity c x)\<rparr>" by auto
  from simulated_target_Inr [OF this(1)] have "k < length (fleet s)" "fleet s ! k = x" by simp_all
  then show ?thesis unfolding t same_frame_def by (simp add: replace_member_update roster_update)
next
  case (TelemetryEvent i r)
  with assms(1) obtain k x where "simulated_target_from 0 (fleet s) i = Inr (k, x)"
    and t: "t = s\<lparr>fleet := replace_member (fleet s) k (with_telemetry r x)\<rparr>" by auto
  from simulated_target_Inr [OF this(1)] have "k < length (fleet s)" "fleet s ! k = x" by simp_all
  then show ?thesis unfolding t same_frame_def by (simp add: replace_member_update roster_update)
next
  case (SectorLifecycleEvent i phase a)
  with assms(1) obtain k where "sector_index_from 0 (sectors s) i = Inr k"
    and t: "t = s\<lparr>sectors := take k (sectors s) @ \<lparr>sector_identifier = i, sector_state = phase,
      assigned_member_id = a\<rparr> # drop (k + 1) (sectors s)\<rparr>" by (auto split: if_splits)
  from sector_index_Inr [OF this(1)] have k: "k < length (sectors s)" "sector_identifier (sectors s ! k) = i"
    by simp_all
  then have "map sector_identifier (sectors s) = map sector_identifier (take k (sectors s) @ sectors s ! k # drop (k + 1) (sectors s))"
    by (simp flip: id_take_nth_drop)
  with k(2) show ?thesis unfolding t same_frame_def by simp
qed (use assms in \<open>auto simp: same_frame_def\<close>)

lemma reduce_assignments:
  assumes "reduce se s m = Inr t" "event_ok se" "canonical_state s" "current_mission s = Some m" "x \<in> set (sectors t)"
  shows "(sector_state x = UNASSIGNED \<longleftrightarrow> assigned_member_id x = None)
    \<and> (\<forall>a. assigned_member_id x = Some a \<longrightarrow> a \<in> set (simulated_ids (fleet s)))"
proof (cases "x \<in> set (sectors s)")
  case True
  with assms(3) show ?thesis by (simp add: canonical_state_def)
next
  case False
  with assms(1,5) obtain i phase a where se: "se = SectorLifecycleEvent i phase a"
    by (cases se) auto
  with assms(1,5) False have "x = \<lparr>sector_identifier = i, sector_state = phase, assigned_member_id = a\<rparr>"
    and "a = None \<or> simulated_assignee s (the a)"
    by (auto split: if_splits dest: in_set_takeD in_set_dropD)
  with assms(2) se show ?thesis by (auto simp: simulated_assignee_def simulated_ids_def)
qed

lemma reduce_canonical:
  assumes "reduce se s m = Inr t" "event_ok se" "canonical_state s" "current_mission s = Some m"
  shows "canonical_state (t\<lparr>latest_audit_ordinal := n\<rparr>)"
proof -
  from reduce_frame [OF assms(1,4)] have frame: "roster (fleet t) = roster (fleet s)"
    "map sector_identifier (sectors t) = map sector_identifier (sectors s)" "current_mission t \<noteq> None"
    using assms(4) by (auto simp: same_frame_def)
  with assms(3) reduce_assignments [OF assms] show ?thesis
    unfolding canonical_state_def by (auto simp: roster_determines)
qed

section \<open>Validated events\<close>

lemma validated_event_ok: "validate_ordered_event_boundary oe = Inr se \<Longrightarrow> event_ok se"
proof -
  assume "validate_ordered_event_boundary oe = Inr se"
  then obtain validator where v: "validator_for (kind (event oe)) = Some validator" "validator (event oe) = Inr se"
    by (auto simp: validate_ordered_event_boundary_def Let_def split: if_splits option.splits sum.splits)
  then obtain k where "map_of BOUNDARY_VALIDATORS k = Some validator" by (cases "kind (event oe)") auto
  then have "validator \<in> {validate_mission_event, validate_connectivity_event, validate_telemetry_event,
      validate_sector_event} \<or> (\<exists>c. validator = validate_timeline_event c)"
    by (force simp: BOUNDARY_VALIDATORS_def dest: map_of_SomeD split: if_splits)
  with v(2) show ?thesis
    by (auto simp: validate_mission_event_def validate_connectivity_event_def validate_telemetry_event_def
      validate_sector_event_def validate_timeline_event_def Let_def split: if_splits)
qed

lemma validated_ordinal:
  assumes "validate_ordered_event_boundary oe = Inr se"
  obtains n where "audit_ordinal oe = PInt n" "1 \<le> n" "n \<le> MAX_SAFE_INTEGER"
proof -
  from assms have "int_between (audit_ordinal oe) 1 MAX_SAFE_INTEGER"
    by (auto simp: validate_ordered_event_boundary_def Let_def split: if_splits)
  then show thesis by (cases "audit_ordinal oe") (auto intro: that)
qed

lemma digest_lowercase: "digest nfc c p = Inr h \<Longrightarrow> is_lowercase_sha256 h \<and> ascii h"
proof -
  assume "digest nfc c p = Inr h"
  then obtain m where h: "h = sha256_hexdigest m" by (auto simp: digest_def digest_covered_Inr)
  have "in_cls [(CHR ''0'', CHR ''9''), (CHR ''a'', CHR ''f'')] x \<longleftrightarrow> is_lower_hex x" for x
    by (auto simp: is_lower_hex_def)
  then show ?thesis
    using sha256_hexdigest_shape(1) [of m] sha256_hexdigest_shape(2) [of _ m] sha256_hexdigest_ascii [of m]
    unfolding h is_lowercase_sha256_def LOWERCASE_SHA256_PATTERN_def fullmatch_iff lang_exactly_Cls by blast
qed

lemma from_digest_Inr: "from_digest r = Inr a \<longleftrightarrow> r = Inr a"
  by (cases r) (simp_all add: from_digest_def)

lemma ordered_event_digest_form: "ordered_event_digest nfc oe = Inr w \<Longrightarrow> is_lowercase_sha256 w \<and> ascii w"
  unfolding ordered_event_digest_def bindE_eq_Inr from_digest_Inr by (blast dest: digest_lowercase)

section \<open>One fold\<close>

text \<open>A supplied server digest is the digest of the state it vouches for.\<close>

definition vouched :: "(pystr \<Rightarrow> pystr) \<Rightarrow> ReducerCheckpoint \<Rightarrow> pystr option \<Rightarrow> bool" where
  "vouched nfc cp expected \<longleftrightarrow> (\<forall>h. expected = Some h \<longrightarrow> state_digest nfc (checkpoint_state cp) = Inr h)"

lemma verify_server_digest_Inr:
  assumes "verify_server_digest nfc prior outcome expected = Inr result"
  shows "result = outcome \<and> vouched nfc (outcome_checkpoint outcome) expected
    \<or> (\<exists>r a v. result = FoldRefused prior r a v)"
  using assms
  by (auto simp: verify_server_digest_def vouched_def from_digest_Inr matches_def split: option.splits if_splits)

lemma verify_server_digest_vouched:
  assumes "vouched nfc (outcome_checkpoint outcome) expected"
  shows "verify_server_digest nfc prior outcome expected = Inr outcome"
proof (cases expected)
  case (Some h)
  with assms have "state_digest nfc (checkpoint_state (outcome_checkpoint outcome)) = Inr h" by (simp add: vouched_def)
  moreover from this have "is_lowercase_sha256 h \<and> ascii h" unfolding state_digest_def by (rule digest_lowercase)
  ultimately show ?thesis using Some by (simp add: verify_server_digest_def from_digest_def matches_def)
qed (simp add: verify_server_digest_def)

definition applies ::
    "(pystr \<Rightarrow> pystr) \<Rightarrow> ReducerCheckpoint \<Rightarrow> OrderedDashboardEvent \<Rightarrow> ReducerCheckpoint \<Rightarrow> bool" where
  "applies nfc cp oe cp' \<longleftrightarrow>
     anchored cp \<and> (\<exists>se m s w. validate_ordered_event_boundary oe = Inr se
       \<and> audit_ordinal oe = PInt (latest_audit_ordinal (checkpoint_state cp) + 1)
       \<and> current_mission (checkpoint_state cp) = Some m \<and> mission (event oe) = PStr (mission_identifier m)
       \<and> reduce se (checkpoint_state cp) m = Inr s \<and> ordered_event_digest nfc oe = Inr w
       \<and> cp' = \<lparr>checkpoint_state = s\<lparr>latest_audit_ordinal := latest_audit_ordinal (checkpoint_state cp) + 1\<rparr>,
                latest_event_digest = Some w\<rparr>)"

lemma fold_preflight_cases:
  assumes "fold_preflight nfc cp oe = Inr r"
  obtains (refused) x a v where "r = Inl (FoldRefused cp x a v)"
  | (valid) se where "r = Inr se" "validate_ordered_event_boundary oe = Inr se" "anchored cp"
proof -
  have "\<exists>x a v. outcome = FoldRefused cp x a v" if "checkpoint_fold_refusal nfc cp = Inr (Some outcome)" for outcome
  proof -
    from that obtain o' where "(case o' of CheckpointAccepted _ \<Rightarrow> Inr None
        | CheckpointRefused x a v \<Rightarrow> Inr (Some (FoldRefused cp x a v))) = (Inr (Some outcome) :: exn + FoldOutcome option)"
      by (auto simp: checkpoint_fold_refusal_def)
    then show ?thesis by (cases o') auto
  qed
  with assms show thesis
    using checkpoint_fold_refusal_None [of nfc cp]
    by (auto simp: fold_preflight_def split: sum.splits problem.splits option.splits
        intro: refused valid)
qed

lemma fold_outcome:
  assumes "fold_ordered_event nfc cp oe expected = Inr outcome"
  shows "case outcome of
      FoldApplied cp' \<Rightarrow> applies nfc cp oe cp' \<and> vouched nfc cp' expected
    | FoldDuplicate cp' \<Rightarrow> cp' = cp \<and> vouched nfc cp expected
    | FoldRefused cp' r a v \<Rightarrow> cp' = cp"
proof -
  from assms obtain r where pre: "fold_preflight nfc cp oe = Inr r" by (auto simp: fold_ordered_event_def)
  from pre show ?thesis
  proof (cases rule: fold_preflight_cases)
    case (refused x a v)
    with assms pre show ?thesis by (auto simp: fold_ordered_event_def)
  next
    case (valid se)
    from valid(2) obtain n where n: "audit_ordinal oe = PInt n" by (rule validated_ordinal)
    from assms pre valid(1) obtain resolved where
      control: "fold_ordinal_control nfc cp oe expected = Inr resolved"
      and rest: "(case resolved of Some out \<Rightarrow> Inr out | None \<Rightarrow> apply_event nfc cp oe expected se) = Inr outcome"
      by (auto simp: fold_ordered_event_def)
    show ?thesis
    proof (cases resolved)
      case (Some out)
      with control rest show ?thesis
        by (auto simp: fold_ordinal_control_def Let_def split: if_splits dest!: verify_server_digest_Inr)
    next
      case None
      with control n have n1: "n = latest_audit_ordinal (checkpoint_state cp) + 1"
        by (auto simp: fold_ordinal_control_def Let_def split: if_splits)
      from None rest have "apply_event nfc cp oe expected se = Inr outcome" by simp
      with valid n n1 show ?thesis
        unfolding apply_event_def applies_def
        by (auto split: option.splits if_splits sum.splits problem.splits dest!: verify_server_digest_Inr)
    qed
  qed
qed

lemma applies_anchored:
  assumes "applies nfc cp oe cp'"
  shows "anchored cp'" "same_frame (checkpoint_state cp)
    ((checkpoint_state cp')\<lparr>latest_audit_ordinal := latest_audit_ordinal (checkpoint_state cp)\<rparr>)"
proof -
  from assms obtain se m s w where cp: "anchored cp" and e: "validate_ordered_event_boundary oe = Inr se"
    "audit_ordinal oe = PInt (latest_audit_ordinal (checkpoint_state cp) + 1)"
    and m: "current_mission (checkpoint_state cp) = Some m"
    and r: "reduce se (checkpoint_state cp) m = Inr s" and w: "ordered_event_digest nfc oe = Inr w"
    and cp': "cp' = \<lparr>checkpoint_state = s\<lparr>latest_audit_ordinal := latest_audit_ordinal (checkpoint_state cp) + 1\<rparr>,
                latest_event_digest = Some w\<rparr>" unfolding applies_def by blast
  from e(1) obtain n where "audit_ordinal oe = PInt n" "1 \<le> n" by (rule validated_ordinal)
  with e(2) have "latest_audit_ordinal (checkpoint_state cp) + 1 \<noteq> 0" by simp
  moreover have "canonical_state (checkpoint_state cp')"
    using reduce_canonical [OF r validated_event_ok [OF e(1)] _ m] cp by (simp add: cp' anchored_def)
  ultimately show "anchored cp'" using ordered_event_digest_form [OF w] by (simp add: anchored_def cp')
  from reduce_frame [OF r m] show "same_frame (checkpoint_state cp)
    ((checkpoint_state cp')\<lparr>latest_audit_ordinal := latest_audit_ordinal (checkpoint_state cp)\<rparr>)"
    by (simp add: same_frame_def cp')
qed

lemma applied_again:
  assumes "applies nfc cp oe cp'" "vouched nfc cp' expected"
  shows "fold_ordered_event nfc cp' oe expected = Inr (FoldDuplicate cp')"
proof -
  from assms(1) obtain se s w where e: "validate_ordered_event_boundary oe = Inr se"
    "audit_ordinal oe = PInt (latest_audit_ordinal (checkpoint_state cp'))"
    and w: "ordered_event_digest nfc oe = Inr w" and cp': "latest_event_digest cp' = Some w"
    unfolding applies_def by auto
  have "checkpoint_fold_refusal nfc cp' = Inr None"
    using applies_anchored(1) [OF assms(1)] by (simp add: checkpoint_fold_refusal_None)
  moreover have "witnessed (latest_event_digest cp') w = Inr True"
    using ordered_event_digest_form [OF w] by (simp add: witnessed_def cp' from_digest_def matches_def)
  moreover have "verify_server_digest nfc cp' (FoldDuplicate cp') expected = Inr (FoldDuplicate cp')"
    using assms(2) by (simp add: verify_server_digest_vouched)
  ultimately show ?thesis
    using e w by (simp add: fold_ordered_event_def fold_preflight_def fold_ordinal_control_def)
qed

lemma fold_of_applies:
  assumes "applies nfc cp oe cp'" "vouched nfc cp' expected"
  shows "fold_ordered_event nfc cp oe expected = Inr (FoldApplied cp')"
proof -
  from assms(1) obtain se m s w where e: "validate_ordered_event_boundary oe = Inr se" "anchored cp"
    "audit_ordinal oe = PInt (latest_audit_ordinal (checkpoint_state cp) + 1)"
    "current_mission (checkpoint_state cp) = Some m" "mission (event oe) = PStr (mission_identifier m)"
    "reduce se (checkpoint_state cp) m = Inr s" "ordered_event_digest nfc oe = Inr w"
    "cp' = \<lparr>checkpoint_state = s\<lparr>latest_audit_ordinal := latest_audit_ordinal (checkpoint_state cp) + 1\<rparr>,
       latest_event_digest = Some w\<rparr>"
    unfolding applies_def by auto
  have "checkpoint_fold_refusal nfc cp = Inr None" using e(2) by (simp add: checkpoint_fold_refusal_None)
  moreover have "verify_server_digest nfc cp (FoldApplied cp') expected = Inr (FoldApplied cp')"
    using assms(2) by (simp add: verify_server_digest_vouched)
  ultimately show ?thesis
    using e by (simp add: fold_ordered_event_def fold_preflight_def fold_ordinal_control_def apply_event_def)
qed

section \<open>Streams\<close>

text \<open>The checkpoint held after one more delivered event by a consumer that goes on, as the dashboard's projection hub does: the
  checkpoint of the outcome, and its own when the fold refuses or raises. Consumers that stop at the first refusal hold a
  checkpoint of a prefix.\<close>

definition advance :: "(pystr \<Rightarrow> pystr) \<Rightarrow> ReducerCheckpoint \<Rightarrow> OrderedDashboardEvent \<Rightarrow> ReducerCheckpoint" where
  "advance nfc cp oe =
     (case fold_ordered_event nfc cp oe None of Inl error \<Rightarrow> cp | Inr outcome \<Rightarrow> outcome_checkpoint outcome)"

lemma advance_cases: "advance nfc cp oe = cp \<or> applies nfc cp oe (advance nfc cp oe)"
proof (cases "fold_ordered_event nfc cp oe None")
  case (Inr outcome)
  with fold_outcome [OF Inr] show ?thesis by (cases outcome) (simp_all add: advance_def)
qed (simp add: advance_def)

lemma applies_ordinal:
  assumes "applies nfc cp oe cp'"
  shows "ordinal_value (audit_ordinal oe) = latest_audit_ordinal (checkpoint_state cp) + 1"
    "latest_audit_ordinal (checkpoint_state cp') = latest_audit_ordinal (checkpoint_state cp) + 1"
  using assms by (auto simp: applies_def)

interpretation replay: ordinal_fold "advance nfc" "\<lambda>cp. latest_audit_ordinal (checkpoint_state cp)"
    "\<lambda>oe. ordinal_value (audit_ordinal oe)" anchored for nfc
proof
  fix cp oe
  show "ordinal_value (audit_ordinal oe) = latest_audit_ordinal (checkpoint_state cp) + 1
      \<and> latest_audit_ordinal (checkpoint_state (advance nfc cp oe)) = latest_audit_ordinal (checkpoint_state cp) + 1"
    if "advance nfc cp oe \<noteq> cp"
    using that advance_cases [of nfc cp oe] applies_ordinal by blast
  show "anchored (advance nfc cp oe)" if "anchored cp"
    using that advance_cases [of nfc cp oe] applies_anchored(1) by metis
qed

section \<open>Properties\<close>

text \<open>Preparing a mission with no repeated member or sector gives a checkpoint that the anchor check accepts
  (roster and sectors in strict byte order, every sector unassigned, ordinal zero without a witness), holding
  exactly the simulated members and sectors it was prepared with.\<close>

theorem prepared_checkpoint_anchors:
  assumes "prepare_checkpoint p = Inr cp"
  shows "checkpoint_from_snapshot nfc (checkpoint_state cp) (latest_event_digest cp) None = Inr (CheckpointAccepted cp)
    \<and> set (simulated_ids (fleet (checkpoint_state cp))) = set (simulated_member_ids p)
    \<and> set (map sector_identifier (sectors (checkpoint_state cp))) = set (sector_ids p)
    \<and> distinct (simulated_member_ids p @ declared_only_member_ids p) \<and> distinct (sector_ids p)"
proof -
  from assms have "distinct (simulated_member_ids p @ declared_only_member_ids p) \<and> distinct (sector_ids p)"
    unfolding duplicate_None [symmetric] by (auto simp: prepare_checkpoint_def split: option.splits)
  with prepare_checkpoint_Inr [OF assms] show ?thesis
    unfolding checkpoint_from_snapshot_def anchored_iff by blast
qed

definition sample_mission :: PreparedMission where
  "sample_mission = \<lparr>prepared_identifier = lit ''m-1'', prepared_predecessor = None,
     simulated_member_ids = [lit ''d-2'', lit ''d-1''], declared_only_member_ids = [lit ''d-3''],
     sector_ids = [lit ''s-1'']\<rparr>"

definition sample_checkpoint :: ReducerCheckpoint where
  "sample_checkpoint = \<lparr>checkpoint_state =
     \<lparr>current_mission = Some \<lparr>mission_identifier = lit ''m-1'', mission_lifecycle = PLANNED, predecessor_identifier = None\<rparr>,
      fleet = [SimulatedFleetMember (lit ''d-1'') CONNECTED None, SimulatedFleetMember (lit ''d-2'') CONNECTED None,
        DeclaredOnlyFleetMember (lit ''d-3'')],
      latest_audit_ordinal = 0,
      sectors = [\<lparr>sector_identifier = lit ''s-1'', sector_state = UNASSIGNED, assigned_member_id = None\<rparr>]\<rparr>,
     latest_event_digest = None\<rparr>"

lemma sample_prepared: "prepare_checkpoint sample_mission = Inr sample_checkpoint"
  by code_simp

theorem prepared_checkpoint_anchors_witness:
  "checkpoint_from_snapshot id (checkpoint_state sample_checkpoint) None None = Inr (CheckpointAccepted sample_checkpoint)"
  using prepared_checkpoint_anchors [OF sample_prepared, of id] by (simp add: sample_checkpoint_def)

text \<open>C15. One fold, on every branch. An applied event is the successor of the checkpoint's ordinal, moves it
  by exactly one to a checkpoint the anchor check accepts, and leaves the roster, the sector identifiers, the
  mission and its predecessor as they were; a duplicate or a refusal returns the checkpoint unchanged; and
  where a server digest was supplied, an applied or duplicate outcome has the state that digest is of.\<close>

theorem fold_ordered_event_step:
  assumes "fold_ordered_event nfc cp oe expected = Inr outcome"
  shows "case outcome of
      FoldApplied cp' \<Rightarrow>
        audit_ordinal oe = PInt (latest_audit_ordinal (checkpoint_state cp) + 1)
        \<and> latest_audit_ordinal (checkpoint_state cp') = latest_audit_ordinal (checkpoint_state cp) + 1
        \<and> checkpoint_from_anchor nfc (checkpoint_state cp') (latest_event_digest cp') None = Inr (CheckpointAccepted cp')
        \<and> same_frame (checkpoint_state cp)
            ((checkpoint_state cp')\<lparr>latest_audit_ordinal := latest_audit_ordinal (checkpoint_state cp)\<rparr>)
        \<and> (\<forall>h. expected = Some h \<longrightarrow> state_digest nfc (checkpoint_state cp') = Inr h)
    | FoldDuplicate cp' \<Rightarrow>
        cp' = cp \<and> (\<forall>h. expected = Some h \<longrightarrow> state_digest nfc (checkpoint_state cp) = Inr h)
    | FoldRefused cp' refusal attribute val \<Rightarrow> cp' = cp"
proof (cases outcome)
  case (FoldApplied cp')
  with fold_outcome [OF assms] have a: "applies nfc cp oe cp'" and v: "vouched nfc cp' expected" by simp_all
  from a have "audit_ordinal oe = PInt (latest_audit_ordinal (checkpoint_state cp) + 1)" by (auto simp: applies_def)
  with FoldApplied v applies_anchored [OF a] applies_ordinal(2) [OF a] show ?thesis
    by (simp add: anchored_iff vouched_def)
next
  case (FoldDuplicate cp')
  with fold_outcome [OF assms] show ?thesis by (simp add: vouched_def)
next
  case (FoldRefused cp' r a v)
  with fold_outcome [OF assms] show ?thesis by simp
qed

definition sample_ordered_event :: OrderedDashboardEvent where
  "sample_ordered_event = \<lparr>audit_ordinal = PInt 1, event = \<lparr>kind = PStr (lit ''missionLifecycle''),
     event_class = Class MISSION, mission = PStr (lit ''m-1''), event_time = PStr (lit ''2026-01-01T00:00:00.000Z''),
     event_data = obj [(''lifecycle'', PStr (lit ''SEARCHING''))]\<rparr>\<rparr>"

lemma sample_event_valid:
  "validate_ordered_event_boundary sample_ordered_event = Inr (MissionLifecycleEvent SEARCHING)"
  by code_simp

lemma ordered_event_digest_exists:
  assumes "bindE (ordered_event_document oe) (\<lambda>document. bindE (from_digest (covered_members document DIGEST_FIELD))
    (\<lambda>covered. case canonical_bytes nfc (PDict covered) of Inl _ \<Rightarrow> Inl AttributeError | Inr _ \<Rightarrow> Inr ())) = Inr ()"
  shows "\<exists>w. ordered_event_digest nfc oe = Inr w"
proof -
  from assms obtain document covered where d: "ordered_event_document oe = Inr document"
    "covered_members document DIGEST_FIELD = Inr covered"
    and b: "(case canonical_bytes nfc (PDict covered) of Inl _ \<Rightarrow> Inl AttributeError | Inr _ \<Rightarrow> Inr ()) = (Inr () :: exn + unit)"
    unfolding bindE_eq_Inr from_digest_Inr by blast
  from b obtain bytes where "canonical_bytes nfc (PDict covered) = Inr bytes"
    by (cases "canonical_bytes nfc (PDict covered)") simp_all
  with d show ?thesis
    by (simp add: ordered_event_digest_def digest_def digest_covered_def from_digest_def del: covered_members.simps)
qed

lemma sample_event_digest: "\<exists>w. ordered_event_digest id sample_ordered_event = Inr w"
  by (rule ordered_event_digest_exists) code_simp

lemma sample_applies: "\<exists>cp'. applies id sample_checkpoint sample_ordered_event cp'"
proof -
  obtain w where "ordered_event_digest id sample_ordered_event = Inr w" using sample_event_digest by blast
  moreover have "anchored sample_checkpoint" using prepare_checkpoint_Inr(1) [OF sample_prepared] .
  ultimately show ?thesis
    by (auto simp: applies_def sample_event_valid) (auto simp: sample_checkpoint_def sample_ordered_event_def)
qed

theorem fold_ordered_event_step_witness:
  "\<exists>cp'. fold_ordered_event id sample_checkpoint sample_ordered_event None = Inr (FoldApplied cp')
    \<and> latest_audit_ordinal (checkpoint_state cp') = 1"
proof -
  obtain cp' where "applies id sample_checkpoint sample_ordered_event cp'" using sample_applies by blast
  then have "fold_ordered_event id sample_checkpoint sample_ordered_event None = Inr (FoldApplied cp')"
    by (rule fold_of_applies) (simp add: vouched_def)
  with fold_ordered_event_step [OF this] show ?thesis by (simp add: sample_checkpoint_def)
qed

text \<open>Folding is idempotent: the event that was applied, delivered again with the same server digest,
  is recognised as a duplicate and the checkpoint stands.\<close>

theorem fold_again_is_duplicate:
  assumes "fold_ordered_event nfc cp oe expected = Inr (FoldApplied cp')"
  shows "fold_ordered_event nfc cp' oe expected = Inr (FoldDuplicate cp')"
  using fold_outcome [OF assms] applied_again by auto

theorem fold_again_is_duplicate_witness:
  "\<exists>cp'. fold_ordered_event id sample_checkpoint sample_ordered_event None = Inr (FoldApplied cp')
    \<and> fold_ordered_event id cp' sample_ordered_event None = Inr (FoldDuplicate cp')"
proof -
  obtain cp' where "applies id sample_checkpoint sample_ordered_event cp'" using sample_applies by blast
  then have "fold_ordered_event id sample_checkpoint sample_ordered_event None = Inr (FoldApplied cp')"
    by (rule fold_of_applies) (simp add: vouched_def)
  with fold_again_is_duplicate [OF this] show ?thesis by blast
qed

text \<open>C38. At-least-once delivery is harmless: in a stream folded from a checkpoint, redelivering any events whose
  ordinals were already reached changes nothing; a stream from an accepted anchor ends in an accepted anchor; and
  every ordinal it advanced through was carried by an event of the stream, so no event is skipped.\<close>

theorem replay_at_least_once:
  assumes "\<And>e. e \<in> set old \<Longrightarrow>
      ordinal_value (audit_ordinal e) \<le> latest_audit_ordinal (checkpoint_state (foldl (advance nfc) cp before))"
  shows "foldl (advance nfc) cp (before @ old @ after) = foldl (advance nfc) cp (before @ after)
    \<and> (checkpoint_from_anchor nfc (checkpoint_state cp) (latest_event_digest cp) None = Inr (CheckpointAccepted cp) \<longrightarrow>
        (let cp' = foldl (advance nfc) cp before
         in checkpoint_from_anchor nfc (checkpoint_state cp') (latest_event_digest cp') None = Inr (CheckpointAccepted cp')))
    \<and> (\<forall>n. latest_audit_ordinal (checkpoint_state cp) < n
          \<and> n \<le> latest_audit_ordinal (checkpoint_state (foldl (advance nfc) cp before)) \<longrightarrow>
        (\<exists>e \<in> set before. ordinal_value (audit_ordinal e) = n))"
  using replay.redelivery [OF assms] replay.run_good [of cp nfc before] replay.run_reaches [of cp _ nfc before]
  by (simp add: anchored_iff Let_def)

lemma advance_applies: "applies nfc cp oe cp' \<Longrightarrow> advance nfc cp oe = cp'"
  by (simp add: advance_def fold_of_applies vouched_def)

theorem replay_at_least_once_witness:
  "foldl (advance id) sample_checkpoint ([sample_ordered_event] @ [sample_ordered_event] @ [])
    = foldl (advance id) sample_checkpoint ([sample_ordered_event] @ [])
   \<and> latest_audit_ordinal (checkpoint_state (foldl (advance id) sample_checkpoint [sample_ordered_event])) = 1"
proof -
  obtain cp' where a: "applies id sample_checkpoint sample_ordered_event cp'" using sample_applies by blast
  have "latest_audit_ordinal (checkpoint_state (foldl (advance id) sample_checkpoint [sample_ordered_event])) = 1"
    using advance_applies [OF a] applies_ordinal(2) [OF a] by (simp add: sample_checkpoint_def)
  moreover from this have "\<And>e. e \<in> set [sample_ordered_event] \<Longrightarrow> ordinal_value (audit_ordinal e)
      \<le> latest_audit_ordinal (checkpoint_state (foldl (advance id) sample_checkpoint [sample_ordered_event]))"
    by (simp add: sample_ordered_event_def)
  ultimately show ?thesis using replay_at_least_once [of "[sample_ordered_event]" id sample_checkpoint "[sample_ordered_event]" "[]"] by blast
qed

end
