(* ===== verification/Feed.thy ===== *)
theory Feed
  imports Replay
begin

text \<open>
  The dashboard feed end to end: an accepted envelope (\<open>Envelope\<close>) is projected (\<open>View\<close>) and folded
  (\<open>Reducer\<close>). The projection validates what the reducer's boundary asks for, and a payload that was
  canonical stays canonical when members are omitted, so the fold of a projected event raises nothing.
  The Unicode normalization \<open>nfc\<close> is assumed to leave ASCII text alone, as the Unicode standard says.
\<close>

section \<open>Canonical values\<close>

definition encodes :: "(pystr \<Rightarrow> pystr) \<Rightarrow> pyval \<Rightarrow> bool" where
  "encodes nfc v \<longleftrightarrow> (\<exists>t. encode nfc v = Inr t)"

lemma mapE_total: "(\<exists>ys. mapE f xs = Inr ys) \<longleftrightarrow> (\<forall>x \<in> set xs. \<exists>y. f x = Inr y)"
  by (induction xs) auto

lemma mapE_member: "mapE f xs = Inr ys \<Longrightarrow> y \<in> set ys \<Longrightarrow> \<exists>x \<in> set xs. f x = Inr y"
  by (induction xs arbitrary: ys) auto

lemma encodes_PDict:
  "encodes nfc (PDict d) \<longleftrightarrow>
     (\<forall>(k, v) \<in> set d. canonical_key k = Inr (key_text k) \<and> (\<exists>t. encode_string nfc (key_text k) = Inr t) \<and> encodes nfc v)"
proof -
  have keys: "(\<exists>ms. canonical_members d = Inr ms) \<longleftrightarrow> (\<forall>(k, v) \<in> set d. canonical_key k = Inr (key_text k))"
    unfolding canonical_members_def mapE_total by (fastforce dest: canonical_key_text)
  have body: "(\<exists>b. mapE (encode_member nfc) (sort_key fst ms) = Inr b) \<longleftrightarrow>
      (\<forall>(k, v) \<in> set d. (\<exists>t. encode_string nfc (key_text k) = Inr t) \<and> encodes nfc v)"
    if "canonical_members d = Inr ms" for ms
    unfolding mapE_total canonical_members_map [OF that] by (fastforce simp: encode_member_def encodes_def)
  have "encodes nfc (PDict d) \<longleftrightarrow>
      (\<exists>ms. canonical_members d = Inr ms \<and> (\<exists>b. mapE (encode_member nfc) (sort_key fst ms) = Inr b))"
    by (auto simp: encodes_def encode_PDict)
  with keys body show ?thesis by fast
qed

text \<open>The text of an encoded value has only characters that UTF-8 can encode.\<close>

definition encodable :: "pystr \<Rightarrow> bool" where
  "encodable s \<longleftrightarrow> (\<forall>c \<in> set s. utf8_char c \<noteq> None)"

lemma utf8_encodable: "utf8 s \<noteq> None \<longleftrightarrow> encodable s"
  by (induction s) (auto simp: encodable_def split: option.splits)

lemma encodable_append [simp]: "encodable (s @ t) \<longleftrightarrow> encodable s \<and> encodable t"
  by (auto simp: encodable_def)

lemma encodable_Cons [simp]: "encodable (c # t) \<longleftrightarrow> utf8_char c \<noteq> None \<and> encodable t"
  by (auto simp: encodable_def)

lemma encodable_ascii: "ascii s \<Longrightarrow> encodable s"
  by (auto simp: encodable_def ascii_def utf8_char_def)

lemma utf8_char_ascii [simp]: "c < 0x80 \<Longrightarrow> utf8_char c = Some [c]"
  by (simp add: utf8_char_def)

lemma encodable_join: "(\<And>x. x \<in> set xs \<Longrightarrow> encodable x) \<Longrightarrow> encodable (join_with 44 xs)"
proof (induction "44::nat" xs rule: join_with.induct)
  case 1
  show ?case by (simp add: encodable_def)
qed simp_all

lemma encodable_escape: "utf8_char c \<noteq> None \<Longrightarrow> encodable (escape c)"
  by (auto simp: escape_def SHORT_ESCAPES_def hex4_def hex_digit_def lit_def encodable_def utf8_char_def split: if_splits)

lemma encodable_string: "encode_string nfc s = Inr t \<Longrightarrow> encodable t"
proof -
  assume "encode_string nfc s = Inr t"
  then have "utf8 (nfc s) \<noteq> None" and t: "t = 34 # concat (map escape (nfc s)) @ [34]"
    by (auto simp: encode_string_def utf8_bytes_def Let_def split: option.splits if_splits)
  from this(1) have "encodable (concat (map escape (nfc s)))"
    unfolding utf8_encodable using encodable_escape by (auto simp: encodable_def)
  then show ?thesis by (simp add: t encodable_def)
qed

lemma encodable_str_int: "encodable (str_int n)"
  using decimal_digits by (fastforce simp: str_int_def encodable_def is_digit_def)

lemma encode_encodable: "encode nfc v = Inr t \<Longrightarrow> encodable t"
proof (induction nfc v arbitrary: t rule: encode.induct)
  case (5 nfc d)
  then obtain ms body where ms: "canonical_members d = Inr ms"
    and body: "mapE (encode_member nfc) (sort_key fst ms) = Inr body"
    and t: "t = 123 # join_with 44 body @ [125]" by (auto simp: encode_PDict)
  have "encodable x" if "x \<in> set body" for x
  proof -
    from mapE_member [OF body that] obtain k v where kv: "(k, v) \<in> set ms" "encode_member nfc (k, v) = Inr x"
      by auto
    then obtain a b where "encode_string nfc k = Inr a" "encode nfc v = Inr b" "x = a @ 58 # b"
      by (auto simp: encode_member_def)
    moreover have "(k, v) \<in> set (sort_key fst ms)" using kv(1) by simp
    ultimately show ?thesis using 5(1) [OF ms _ refl] encodable_string by simp
  qed
  then show ?case by (simp add: t encodable_join) (simp add: encodable_def)
next
  case (6 nfc vs)
  then obtain body where body: "mapE (encode nfc) vs = Inr body" and t: "t = 91 # join_with 44 body @ [93]" by auto
  have "encodable x" if "x \<in> set body" for x
    using mapE_member [OF body that] 6(1) by blast
  then show ?case by (simp add: t encodable_join) (simp add: encodable_def)
qed (auto simp: encodable_str_int encode_integer_def encode_boolean_def lit_def encodable_string encodable_ascii
    split: if_splits) 

lemma canonical_bytes_total: "(\<exists>b. canonical_bytes nfc v = Inr b) \<longleftrightarrow> encodes nfc v"
  using encode_encodable [of nfc v]
  by (fastforce simp: canonical_bytes_def encodes_def utf8_bytes_def simp flip: utf8_encodable split: option.splits)

section \<open>Projected events pass the reducer's boundary\<close>

definition without :: "pystr list \<Rightarrow> members \<Rightarrow> members" where
  "without omitted d = filter (\<lambda>(key, val). key \<notin> KStr ` set omitted) d"

lemma get_without: "n \<notin> set omitted \<Longrightarrow> get (without omitted d) n = get d n"
  by (induction d) (auto simp: without_def get_Cons split: if_splits)

lemma has_member_without: "n \<notin> set omitted \<Longrightarrow> has_member (without omitted d) n = has_member d n"
  by (induction d) (auto simp: without_def)

lemma without_closed:
  assumes "closed_members d (omitted @ required) = Inr ()" "set omitted \<inter> set required = {}"
  shows "closed_event_data (without omitted d) required = Inr ()"
proof -
  from assms(1) have "set (dict_keys (without omitted d)) \<subseteq> KStr ` set required"
    by (auto simp: closed_members_Inr without_def)
  moreover have "\<forall>n \<in> set required. has_member (without omitted d) n"
    using assms has_member_without unfolding closed_members_Inr by fastforce
  ultimately have "closed_defect (without omitted d) required = Inr None" by (simp add: closed_defect_None)
  then show ?thesis by (simp add: closed_event_data_def)
qed

lemma event_identifier_valid: "is_identifier (get d n) \<Longrightarrow> \<exists>s. event_identifier d n = Inr s"
  by (cases "get d n") (simp_all add: event_identifier_def)

lemma bounded_integer_valid: "int_between (get d n) lo hi \<Longrightarrow> \<exists>i. bounded_integer d n lo hi = Inr i"
  by (cases "get d n") (simp_all add: bounded_integer_def)

lemma enum_member_valid:
  "get d n \<in> PStr ` value_of ` set ms \<Longrightarrow> \<exists>m \<in> set ms. enum_member value_of ms d n = Inr m \<and> get d n = PStr (value_of m)"
proof -
  assume "get d n \<in> PStr ` value_of ` set ms"
  then have "List.find (\<lambda>m. get d n = PStr (value_of m)) ms \<noteq> None" by (auto simp: find_None_iff)
  then obtain m where m: "List.find (\<lambda>m. get d n = PStr (value_of m)) ms = Some m" by blast
  then have "m \<in> set ms" "get d n = PStr (value_of m)" by (auto simp: find_Some_iff)
  with m show ?thesis by (auto simp: enum_member_def)
qed

lemma payload_Inr:
  "payload_identifier d n = Inr u \<longleftrightarrow> is_identifier (get d n)"
  "payload_choice d n choices = Inr u \<longleftrightarrow> get d n \<in> PStr ` set choices"
  "payload_integer d n lo hi = Inr u \<longleftrightarrow> int_between (get d n) lo hi"
  by (auto simp: payload_checks)

abbreviation published :: "Projection \<Rightarrow> Envelope \<Rightarrow> DashboardEvent" where
  "published p e \<equiv> \<lparr>kind = PStr (projection_kind p), event_class = Class (projection_class p),
     mission = PStr (subject e), event_time = PStr (time e), event_data = without (omitted_data_members p) (data e)\<rparr>"

lemma mission_event_valid:
  assumes "validate_mission_lifecycle d = Inr ()" "event_data ev = without [MISSION_KEY] d" "event_class ev = Class MISSION"
  shows "\<exists>se. validate_mission_event ev = Inr se"
proof -
  from assms(1) have "closed_members d ([MISSION_KEY] @ [lit ''lifecycle'']) = Inr ()"
    and l: "get d (lit ''lifecycle'') \<in> PStr ` lifecycle_value ` set [PLANNED, SEARCHING, EXHAUSTED, ABORTED]"
    by (auto simp: validate_mission_lifecycle_def payload_Inr MISSION_KEY_def)
  from without_closed [OF this(1)] have "closed_event_data (event_data ev) [lit ''lifecycle''] = Inr ()"
    by (simp add: assms(2) MISSION_KEY_def)
  moreover have "get (event_data ev) (lit ''lifecycle'') = get d (lit ''lifecycle'')"
    by (simp add: assms(2) get_without MISSION_KEY_def)
  ultimately show ?thesis
    using enum_member_valid [of "event_data ev" _ lifecycle_value] l
    by (fastforce simp: validate_mission_event_def require_event_class_def assms(3))
qed

lemma connectivity_event_valid:
  assumes "validate_connectivity d = Inr ()" "event_data ev = without [MISSION_KEY] d" "event_class ev = Class CONNECTIVITY"
  shows "\<exists>se. validate_connectivity_event ev = Inr se"
proof -
  from assms(1) have "closed_members d ([MISSION_KEY] @ [lit ''droneId'', lit ''connectivity'']) = Inr ()"
    and i: "is_identifier (get d (lit ''droneId''))"
    and c: "get d (lit ''connectivity'') \<in> PStr ` link_value ` set [CONNECTED, DEGRADED, OFFLINE]"
    by (auto simp: validate_connectivity_def payload_Inr MISSION_KEY_def)
  from without_closed [OF this(1)]
  have "closed_event_data (event_data ev) [lit ''droneId'', lit ''connectivity''] = Inr ()"
    by (simp add: assms(2) MISSION_KEY_def)
  moreover have get: "get (event_data ev) (lit n) = get d (lit n)" if "n \<noteq> ''missionId''" for n
    using that by (simp add: assms(2) get_without MISSION_KEY_def)
  moreover obtain s where "event_identifier (event_data ev) (lit ''droneId'') = Inr s"
    using event_identifier_valid [of "event_data ev" "lit ''droneId''"] i by (auto simp: get)
  moreover obtain l where "enum_member link_value [CONNECTED, DEGRADED, OFFLINE] (event_data ev) (lit ''connectivity'') = Inr l"
    using enum_member_valid [of "event_data ev" "lit ''connectivity''" link_value "[CONNECTED, DEGRADED, OFFLINE]"] c
    by (auto simp: get)
  ultimately show ?thesis by (simp add: validate_connectivity_event_def require_event_class_def assms(3))
qed

lemma telemetry_event_valid:
  assumes "validate_telemetry d = Inr ()" "event_data ev = without [MISSION_KEY] d" "event_class ev = Class TELEMETRY"
  shows "\<exists>se. validate_telemetry_event ev = Inr se"
proof -
  from assms(1) have "closed_members d ([MISSION_KEY] @ TELEMETRY_FIELDS) = Inr ()"
    and i: "is_identifier (get d (lit ''droneId''))"
    and n: "int_between (get d (lit ''latitudeMicrodegrees'')) (- 90000000) 90000000"
      "int_between (get d (lit ''longitudeMicrodegrees'')) (- 180000000) 180000000"
      "int_between (get d (lit ''batteryPercent'')) 0 100" "int_between (get d (lit ''altitudeMetres'')) (- 500) 20000"
      "int_between (get d (lit ''headingDegrees'')) 0 359"
      "int_between (get d (lit ''groundSpeedCentimetresPerSecond'')) 0 10000"
    by (simp_all add: validate_telemetry_def payload_Inr MISSION_KEY_def)
  from without_closed [OF this(1)] have closed: "closed_event_data (event_data ev) TELEMETRY_FIELDS = Inr ()"
    by (simp add: assms(2) MISSION_KEY_def TELEMETRY_FIELDS_def)
  have get: "get (event_data ev) (lit n) = get d (lit n)" if "n \<noteq> ''missionId''" for n
    using that by (simp add: assms(2) get_without MISSION_KEY_def)
  have i': "\<exists>s. event_identifier (event_data ev) (lit ''droneId'') = Inr s"
    using i by (intro event_identifier_valid) (simp add: get)
  have n': "\<exists>i. bounded_integer (event_data ev) (lit f) lo hi = Inr i"
    if "int_between (get d (lit f)) lo hi" "f \<noteq> ''missionId''" for f lo hi
    using that by (intro bounded_integer_valid) (simp add: get)
  from n'[OF n(1)] n'[OF n(2)] n'[OF n(3)] n'[OF n(4)] n'[OF n(5)] n'[OF n(6)] i' closed show ?thesis
    by (auto simp: validate_telemetry_event_def require_event_class_def assms(3))
qed

lemma sector_event_valid:
  assumes "validate_sector_lifecycle d = Inr ()" "event_data ev = without [MISSION_KEY] d" "event_class ev = Class MISSION"
  shows "\<exists>se. validate_sector_event ev = Inr se"
proof -
  let ?state = "get d (lit ''state'')" and ?assignee = "get d (lit ''assignedMemberId'')"
  from assms(1) have "closed_members d ([MISSION_KEY] @ [lit ''sectorId'', lit ''state'', lit ''assignedMemberId'']) = Inr ()"
    and i: "is_identifier (get d (lit ''sectorId''))"
    and st: "?state \<in> PStr ` phase_value ` set [UNASSIGNED, ASSIGNED, AT_RISK, SEARCHED]"
    and a: "if ?state = PStr (phase_value UNASSIGNED) then ?assignee = PNone else is_identifier ?assignee"
    by (auto simp: validate_sector_lifecycle_def payload_Inr MISSION_KEY_def split: if_splits)
  from without_closed [OF this(1)]
  have closed: "closed_event_data (event_data ev) [lit ''sectorId'', lit ''state'', lit ''assignedMemberId''] = Inr ()"
    by (simp add: assms(2) MISSION_KEY_def)
  have get: "get (event_data ev) (lit n) = get d (lit n)" if "n \<noteq> ''missionId''" for n
    using that by (simp add: assms(2) get_without MISSION_KEY_def)
  obtain s where s: "event_identifier (event_data ev) (lit ''sectorId'') = Inr s"
    using event_identifier_valid [of "event_data ev" "lit ''sectorId''"] i by (auto simp: get)
  obtain phase where phase: "enum_member phase_value [UNASSIGNED, ASSIGNED, AT_RISK, SEARCHED] (event_data ev) (lit ''state'') = Inr phase"
    "?state = PStr (phase_value phase)"
    using enum_member_valid [of "event_data ev" "lit ''state''" phase_value "[UNASSIGNED, ASSIGNED, AT_RISK, SEARCHED]"] st
    by (auto simp: get)
  show ?thesis
  proof (cases "phase = UNASSIGNED")
    case True
    with a phase(2) have "?assignee = PNone" by simp
    with True closed s phase(1) show ?thesis
      by (simp add: validate_sector_event_def require_event_class_def assms(3) get)
  next
    case False
    then have "phase_value phase \<noteq> phase_value UNASSIGNED" by (cases phase) simp_all
    with a phase(2) have a: "is_identifier ?assignee" by simp
    then obtain m where "event_identifier (event_data ev) (lit ''assignedMemberId'') = Inr m"
      using event_identifier_valid [of "event_data ev" "lit ''assignedMemberId''"] by (auto simp: get)
    moreover from a have "?assignee \<noteq> PNone" by auto
    ultimately show ?thesis using False closed s phase(1)
      by (simp add: validate_sector_event_def require_event_class_def assms(3) get)
  qed
qed

lemma projection_cases:
  assumes "map_of PROJECTIONS t = Some p"
  obtains (telemetry) "p = (plain ''droneTelemetry'' TELEMETRY)\<lparr>validate_payload := validate_telemetry\<rparr>"
  | (connectivity) "p = (plain ''connectivityChanged'' CONNECTIVITY)\<lparr>validate_payload := validate_connectivity\<rparr>"
  | (mission) "p = (plain ''missionLifecycle'' MISSION)\<lparr>validate_payload := validate_mission_lifecycle\<rparr>"
  | (sector) "p = (plain ''sectorLifecycle'' MISSION)\<lparr>validate_payload := validate_sector_lifecycle\<rparr>"
  | (timeline) "(projection_kind p, projection_class p) \<in> set TIMELINE_EVENT_CLASSES"
proof -
  have "p \<in> snd ` set PROJECTIONS" using map_of_SomeD [OF assms] by force
  then show thesis
    unfolding PROJECTIONS_def TIMELINE_EVENT_CLASSES_def
    by (simp only: list.set image_insert image_empty insert_iff empty_iff snd_conv)
      (elim disjE; (erule telemetry connectivity mission sector | rule timeline; simp add: plain_def TIMELINE_EVENT_CLASSES_def))
qed

lemma timeline_validator:
  "(k, c) \<in> set TIMELINE_EVENT_CLASSES \<Longrightarrow> validator_for (PStr k) = Some (validate_timeline_event c)"
  by (auto simp: TIMELINE_EVENT_CLASSES_def BOUNDARY_VALIDATORS_def)

lemma published_valid:
  assumes "map_of PROJECTIONS t = Some p" "validate_payload p (data e) = Inr ()"
  shows "\<exists>v se. validator_for (PStr (projection_kind p)) = Some v \<and> v (published p e) = Inr se"
  using assms(1)
proof (cases rule: projection_cases)
  case timeline
  then show ?thesis
    by (simp add: timeline_validator validate_timeline_event_def require_event_class_def del: validator_for.simps)
next
  case telemetry
  with assms(2) telemetry_event_valid [of "data e" "published p e"] show ?thesis
    by (simp add: plain_def BOUNDARY_VALIDATORS_def)
next
  case connectivity
  with assms(2) connectivity_event_valid [of "data e" "published p e"] show ?thesis
    by (simp add: plain_def BOUNDARY_VALIDATORS_def)
next
  case mission
  with assms(2) mission_event_valid [of "data e" "published p e"] show ?thesis
    by (simp add: plain_def BOUNDARY_VALIDATORS_def)
next
  case sector
  with assms(2) sector_event_valid [of "data e" "published p e"] show ?thesis
    by (simp add: plain_def BOUNDARY_VALIDATORS_def)
qed

lemma projected_valid:
  assumes "envelope_ok nfc e" "project e = Inr ev" "1 \<le> n" "n \<le> MAX_SAFE_INTEGER"
  shows "\<exists>se. validate_ordered_event_boundary \<lparr>audit_ordinal = PInt n, event = ev\<rparr> = Inr se"
proof -
  from assms(2) obtain p where p: "map_of PROJECTIONS (envelope_type e) = Some p" "validate_payload p (data e) = Inr ()"
    and ev: "ev = published p e" by (auto simp: project_Inr without_def)
  from assms(1) obtain x where x: "parse_instant (PStr (time e)) = Inr x" "fullmatch IDENTIFIER_PATTERN (subject e)"
    by (auto simp: envelope_ok_def)
  from published_valid [OF p] obtain v se where
    v: "validator_for (PStr (projection_kind p)) = Some v" "v (published p e) = Inr se" by blast
  from v x assms(3,4) show ?thesis
    by (simp add: validate_ordered_event_boundary_def ev del: parse_instant.simps validator_for.simps)
qed

section \<open>Projected events have a digest\<close>

lemma encodes_ascii:
  assumes "\<forall>s. ascii s \<longrightarrow> nfc s = s" "ascii s" "length s \<le> MAX_STRING_BYTES"
  shows "\<exists>t. encode_string nfc s = Inr t"
proof -
  have "reject_lone_surrogate s = Inr ()"
    using assms(2) by (fastforce simp: reject_lone_surrogate_def SURROGATE_FIRST_CODE_POINT_def ascii_def)
  with assms utf8_ascii [OF assms(2)] show ?thesis by (simp add: encode_string_def utf8_bytes_def)
qed

lemma identifier_text: "fullmatch IDENTIFIER_PATTERN s \<Longrightarrow> ascii s \<and> length s \<le> 64"
proof
  assume s: "fullmatch IDENTIFIER_PATTERN s"
  show "ascii s" unfolding ascii_def
  proof
    fix c assume "c \<in> set s"
    from fullmatch_alphabet [OF s this] show "c < 128"
      by (auto simp: IDENTIFIER_PATTERN_def dest!: alphabet_between)
  qed
  from s show "length s \<le> 64"
    unfolding fullmatch_iff IDENTIFIER_PATTERN_def lang.simps(4) lang_Seq_iff
    by (auto simp: lang_between_Cls)
qed

lemma instant_text: "parse_instant (PStr s) = Inr x \<Longrightarrow> ascii s \<and> length s \<le> 64"
proof
  assume "parse_instant (PStr s) = Inr x"
  then have "fullmatch INSTANT_PATTERN s" by (simp split: if_splits)
  then obtain y mo d h mi se ms where s: "s = spelling y mo d h mi se ms" unfolding fullmatch_instant by blast
  show "length s \<le> 64" by (simp add: s spelling_def)
  have "ascii (digits w n)" for w n using digits_shape(2) [of w n] by (auto simp: ascii_def is_digit_def)
  then show "ascii s" by (simp add: s spelling_def ascii_def lit_def ball_Un)
qed

lemma published_data_encodes: "encodes nfc (PDict d) \<Longrightarrow> encodes nfc (PDict (without omitted d))"
  by (auto simp: encodes_PDict without_def)

definition document_members :: "string set" where
  "document_members =
     {''canonicalizationVersion'', ''auditOrdinal'', ''event'', ''kind'', ''eventClass'', ''mission'', ''time'', ''data''}"

lemma document_keys_canonical:
  "\<forall>k \<in> document_members.
     canonical_key (KStr (lit k)) = Inr (lit k) \<and> ascii (lit k) \<and> length (lit k) \<le> MAX_STRING_BYTES"
  by code_simp

lemma document_encodes:
  assumes "\<forall>s. ascii s \<longrightarrow> nfc s = s" "fst ` set fs \<subseteq> document_members" "\<forall>v \<in> snd ` set fs. encodes nfc v"
  shows "encodes nfc (PDict (obj fs))"
proof -
  have "canonical_key (KStr (lit k)) = Inr (lit k) \<and> (\<exists>t. encode_string nfc (lit k) = Inr t)" if "(k, v) \<in> set fs" for k v
  proof -
    from that assms(2) have "k \<in> document_members" by force
    with document_keys_canonical encodes_ascii [OF assms(1)] show ?thesis by blast
  qed
  with assms(3) show ?thesis unfolding encodes_PDict obj_def by (force simp del: canonical_key.simps)
qed

lemma projection_texts:
  "\<forall>(t, p) \<in> set PROJECTIONS. ascii (projection_kind p) \<and> length (projection_kind p) \<le> MAX_STRING_BYTES
     \<and> ascii (class_name (projection_class p)) \<and> length (class_name (projection_class p)) \<le> MAX_STRING_BYTES"
  by code_simp

lemma projected_digest:
  assumes nfc: "\<forall>s. ascii s \<longrightarrow> nfc s = s"
    and "envelope_ok nfc e" "project e = Inr ev" "1 \<le> n" "n \<le> MAX_SAFE_INTEGER"
  shows "\<exists>w. ordered_event_digest nfc \<lparr>audit_ordinal = PInt n, event = ev\<rparr> = Inr w"
proof -
  from assms(3) obtain p where p: "map_of PROJECTIONS (envelope_type e) = Some p"
    and ev: "ev = published p e" by (auto simp: project_Inr without_def)
  let ?event = "obj [(''kind'', kind ev), (''eventClass'', PStr (class_name (projection_class p))),
    (''mission'', mission ev), (''time'', event_time ev), (''data'', PDict (event_data ev))]"
  let ?doc = "obj [(''canonicalizationVersion'', PInt 1), (''auditOrdinal'', PInt n), (''event'', PDict ?event)]"
  note short = encodes_ascii [OF nfc]
  from projection_texts map_of_SomeD [OF p] have "encodes nfc (kind ev)"
    "encodes nfc (PStr (class_name (projection_class p)))"
    using short by (fastforce simp: ev encodes_def)+
  moreover from assms(2) obtain x where "fullmatch IDENTIFIER_PATTERN (subject e)" "parse_instant (PStr (time e)) = Inr x"
    by (auto simp: envelope_ok_def)
  with identifier_text instant_text have "encodes nfc (mission ev)" "encodes nfc (event_time ev)"
    using short by (fastforce simp: ev encodes_def MAX_STRING_BYTES_def)+
  moreover have "encodes nfc (PDict (event_data ev))"
    using assms(2) published_data_encodes by (auto simp: ev envelope_ok_def canonical_bytes_total)
  moreover have "encodes nfc (PInt n)" "encodes nfc (PInt 1)"
    using assms(4,5) by (simp_all add: encodes_def encode_integer_def MAX_SAFE_INTEGER_def)
  moreover from calculation(1-5) have "encodes nfc (PDict ?event)"
    by (intro document_encodes [OF nfc]) (simp_all add: document_members_def del: obj_simps)
  ultimately have "encodes nfc (PDict ?doc)"
    by (intro document_encodes [OF nfc]) (simp_all add: document_members_def del: obj_simps)
  then obtain b where "canonical_bytes nfc (PDict ?doc) = Inr b" using canonical_bytes_total by blast
  moreover have "covered_members (PDict ?doc) DIGEST_FIELD = Inr ?doc"
    by (simp add: get_Cons VERSION_FIELD_def DIGEST_FIELD_def CANONICALIZATION_VERSION_def)
  ultimately show ?thesis
    by (simp add: ordered_event_digest_def ordered_event_document_def ev digest_def digest_covered_def from_digest_def
        del: covered_members.simps)
qed

section \<open>Totality\<close>

lemma lowercase_ascii: "is_lowercase_sha256 h \<Longrightarrow> ascii h"
proof -
  assume h: "is_lowercase_sha256 h"
  show "ascii h" unfolding ascii_def
  proof
    fix c assume "c \<in> set h"
    with h have "alphabet LOWERCASE_SHA256_PATTERN c" unfolding is_lowercase_sha256_def by (rule fullmatch_alphabet)
    then show "c < 128" by (auto simp: LOWERCASE_SHA256_PATTERN_def dest!: alphabet_exactly)
  qed
qed

definition feed_refusals :: "ReducerRefusal set" where
  "feed_refusals = {ORDINAL_REGRESSION, ORDINAL_DIVERGENCE, ORDINAL_GAP, MISSION_UNPREPARED, MISSION_MISMATCH,
     UNKNOWN_MEMBER, DECLARED_ONLY_MEMBER, UNKNOWN_SECTOR, INVALID_ASSIGNEE}"

lemma reduce_Inl:
  "reduce se s m = Inl x \<Longrightarrow> \<exists>r a v. x = Problem r a v \<and> r \<in> feed_refusals"
proof -
  have target: "simulated_target_from i ms y = Inl x \<Longrightarrow> \<exists>r a v. x = Problem r a v \<and> r \<in> feed_refusals" for i ms y
    by (induction i ms y rule: simulated_target_from.induct) (auto simp: feed_refusals_def split: if_splits FleetMember.splits)
  have index: "sector_index_from i ss y = Inl x \<Longrightarrow> \<exists>r a v. x = Problem r a v \<and> r \<in> feed_refusals" for i ss y
    by (induction i ss y rule: sector_index_from.induct) (auto simp: feed_refusals_def split: if_splits)
  show "reduce se s m = Inl x \<Longrightarrow> \<exists>r a v. x = Problem r a v \<and> r \<in> feed_refusals"
    using target index
    by (cases se) (auto simp: bindE_def feed_refusals_def split: sum.splits if_splits)
qed

lemma fold_projected:
  assumes nfc: "\<forall>s. ascii s \<longrightarrow> nfc s = s" and e: "envelope_ok nfc e" "project e = Inr ev"
    and n: "1 \<le> n" "n \<le> MAX_SAFE_INTEGER" and cp: "anchored cp"
  shows "\<exists>outcome. fold_ordered_event nfc cp \<lparr>audit_ordinal = PInt n, event = ev\<rparr> None = Inr outcome
    \<and> (\<forall>cp' r a v. outcome = FoldRefused cp' r a v \<longrightarrow> r \<in> feed_refusals)"
proof -
  define oe where "oe = \<lparr>audit_ordinal = PInt n, event = ev\<rparr>"
  then have ordinal: "audit_ordinal oe = PInt n" by simp
  obtain se where se: "validate_ordered_event_boundary oe = Inr se" using projected_valid [OF e n] by (auto simp: oe_def)
  obtain w where w: "ordered_event_digest nfc oe = Inr w" using projected_digest [OF nfc e n] by (auto simp: oe_def)
  have "\<exists>same. witnessed (latest_event_digest cp) w = Inr same"
    using cp ordered_event_digest_form [OF w]
    by (auto simp: witnessed_def anchored_def matches_def from_digest_def lowercase_ascii split: option.splits)
  then obtain same where same: "witnessed (latest_event_digest cp) w = Inr same" ..
  have control: "\<exists>r. fold_ordinal_control nfc cp oe None = Inr r
      \<and> (\<forall>cp' x a v. r = Some (FoldRefused cp' x a v) \<longrightarrow> x \<in> feed_refusals)"
    by (cases same) (simp_all add: fold_ordinal_control_def Let_def w same ordinal verify_server_digest_def feed_refusals_def)
  have apply': "\<exists>out. apply_event nfc cp oe None se = Inr out
      \<and> (\<forall>cp' x a v. out = FoldRefused cp' x a v \<longrightarrow> x \<in> feed_refusals)"
    using reduce_Inl [of se "checkpoint_state cp"]
    by (fastforce simp: apply_event_def w verify_server_digest_def feed_refusals_def
        split: option.splits sum.splits problem.splits)
  from cp have "checkpoint_fold_refusal nfc cp = Inr None" by (simp add: checkpoint_fold_refusal_None)
  then have "fold_preflight nfc cp oe = Inr (Inr se)" by (simp add: fold_preflight_def se)
  moreover from control obtain r where "fold_ordinal_control nfc cp oe None = Inr r"
    "\<forall>cp' x a v. r = Some (FoldRefused cp' x a v) \<longrightarrow> x \<in> feed_refusals" by blast
  ultimately show ?thesis
    using apply' unfolding oe_def [symmetric] by (cases r) (auto simp: fold_ordered_event_def)
qed

text \<open>C14. The feed is total and closed: folding the projection of any accepted envelope, at any ordinal and onto any
  checkpoint that passes the anchor check, raises nothing, and is refused, if at all, only for its ordinal, its
  mission or a member, sector or assignee the mission does not have; never for its form.\<close>

theorem projected_events_fold:
  assumes nfc: "\<forall>s. ascii s \<longrightarrow> nfc s = s" and e: "parse_envelope nfc (PDict d) = Inr e" "project e = Inr ev"
    and n: "1 \<le> n" "n \<le> MAX_SAFE_INTEGER"
    and cp: "checkpoint_from_anchor nfc (checkpoint_state cp) (latest_event_digest cp) None = Inr (CheckpointAccepted cp)"
  shows "\<exists>outcome. fold_ordered_event nfc cp \<lparr>audit_ordinal = PInt n, event = ev\<rparr> None = Inr outcome
    \<and> (\<forall>cp' r a v. outcome = FoldRefused cp' r a v \<longrightarrow>
         r \<in> {ORDINAL_REGRESSION, ORDINAL_DIVERGENCE, ORDINAL_GAP, MISSION_UNPREPARED, MISSION_MISMATCH,
               UNKNOWN_MEMBER, DECLARED_ONLY_MEMBER, UNKNOWN_SECTOR, INVALID_ASSIGNEE})"
proof -
  from e(1) have "envelope_ok nfc e" by (rule accepted_ok)
  moreover from cp have "anchored cp" by (simp add: anchored_iff)
  ultimately show ?thesis using fold_projected [OF nfc _ e(2) n] unfolding feed_refusals_def by blast
qed

definition searching_event :: Envelope where
  "searching_event = sample_event\<lparr>data := obj [(''missionId'', PStr (lit ''m-1'')), (''lifecycle'', PStr (lit ''SEARCHING''))]\<rparr>"

theorem projected_events_fold_witness:
  "\<exists>ev outcome. project searching_event = Inr ev
     \<and> fold_ordered_event id sample_checkpoint \<lparr>audit_ordinal = PInt 1, event = ev\<rparr> None = Inr outcome"
proof -
  have e: "parse_envelope id (PDict (envelope_document searching_event)) = Inr searching_event" by code_simp
  have ev: "project searching_event = Inr \<lparr>kind = PStr (lit ''missionLifecycle''), event_class = Class MISSION,
      mission = PStr (lit ''m-1''), event_time = PStr (lit ''2026-01-02T03:04:05.678Z''),
      event_data = obj [(''lifecycle'', PStr (lit ''SEARCHING''))]\<rparr>"
    by code_simp
  have "checkpoint_from_anchor id (checkpoint_state sample_checkpoint) (latest_event_digest sample_checkpoint) None
    = Inr (CheckpointAccepted sample_checkpoint)"
    using prepare_checkpoint_Inr(1) [OF sample_prepared] by (simp add: anchored_iff)
  from projected_events_fold [OF _ e ev _ _ this, of 1] ev show ?thesis
    by (auto simp: MAX_SAFE_INTEGER_def)
qed

end
