(* ===== verification/Timeline.thy ===== *)
theory Timeline
  imports Reducer
begin

text \<open>
  The operator timeline of \<open>view.py\<close>: the ordered events a dashboard shows, without telemetry. A dashboard
  rebuilds it from a snapshot or extends it event by event; both give the same timeline. The ordinal
  of an event is the integer its type declares, read by \<open>ordinal_value\<close>.
\<close>

abbreviation ordinal_of :: "OrderedDashboardEvent \<Rightarrow> int" where
  "ordinal_of oe \<equiv> ordinal_value (audit_ordinal oe)"

definition is_timeline_event :: "DashboardEvent \<Rightarrow> bool" where
  "is_timeline_event e \<longleftrightarrow> event_class e \<noteq> Class TELEMETRY"

definition timeline_from_events :: "OrderedDashboardEvent list \<Rightarrow> OrderedDashboardEvent list" where
  "timeline_from_events events = filter (\<lambda>ordered. is_timeline_event (event ordered)) events"

text \<open>The loop of \<open>replace_timeline_from_snapshot\<close>.\<close>

fun retained :: "int list \<Rightarrow> OrderedDashboardEvent list \<Rightarrow> OrderedDashboardEvent list" where
  "retained seen_ordinals [] = []"
| "retained seen_ordinals (item # rest) =
     (if ordinal_of item \<notin> set seen_ordinals \<and> is_timeline_event (event item)
      then item # retained (ordinal_of item # seen_ordinals) rest
      else retained seen_ordinals rest)"

definition replace_timeline_from_snapshot :: "OrderedDashboardEvent list \<Rightarrow> OrderedDashboardEvent list" where
  "replace_timeline_from_snapshot events = retained [] (sort_key ordinal_of events)"

definition append_meaningful_timeline_event ::
    "OrderedDashboardEvent list \<Rightarrow> OrderedDashboardEvent \<Rightarrow> OrderedDashboardEvent list" where
  "append_meaningful_timeline_event timeline ordered_event =
     (if \<not> is_timeline_event (event ordered_event) \<or> (\<exists>item \<in> set timeline. ordinal_of item = ordinal_of ordered_event)
      then timeline else sort_key ordinal_of (timeline @ [ordered_event]))"

section \<open>Stable selection\<close>

text \<open>Per ordinal, the loop keeps the first event that belongs on a timeline.\<close>

lemma filter_retained:
  "filter (\<lambda>x. ordinal_of x = k) (retained seen xs) =
     (if k \<in> set seen then [] else take 1 (filter (\<lambda>x. ordinal_of x = k) (timeline_from_events xs)))"
proof (induction seen xs rule: retained.induct)
  case (2 seen x xs)
  then show ?case by (cases "ordinal_of x = k") (auto simp: timeline_from_events_def)
qed (simp add: timeline_from_events_def)

lemma mset_by_key:
  assumes "\<And>k. filter (\<lambda>x. f x = k) xs = filter (\<lambda>x. f x = k) ys"
  shows "mset xs = mset ys"
proof (rule multiset_eqI)
  fix a
  have "count (mset zs) a = count (mset (filter (\<lambda>x. f x = f a) zs)) a" for zs by simp
  with assms show "count (mset xs) a = count (mset ys) a" by metis
qed

lemma sort_key_by_key:
  assumes "sorted (map f ys)" "\<And>k. filter (\<lambda>x. f x = k) ys = filter (\<lambda>x. f x = k) xs"
  shows "sort_key f xs = ys"
proof (rule properties_for_sort_key)
  show "mset ys = mset xs" using assms(2) by (rule mset_by_key)
  show "filter (\<lambda>x. f k = f x) ys = filter (\<lambda>x. f k = f x) xs" for k using assms(2) [of "f k"] by (simp add: eq_commute)
qed (rule assms(1))

lemma set_retained: "set (retained seen xs) \<subseteq> set xs"
  by (induction seen xs rule: retained.induct) auto

lemma sorted_retained: "sorted (map ordinal_of xs) \<Longrightarrow> sorted (map ordinal_of (retained seen xs))"
proof (induction seen xs rule: retained.induct)
  case (2 seen x xs)
  then show ?case by (auto dest: subsetD [OF set_retained])
qed simp

lemma distinct_retained:
  "distinct (map ordinal_of (retained seen xs)) \<and> ordinal_of ` set (retained seen xs) \<inter> set seen = {}"
  by (induction seen xs rule: retained.induct) auto

lemma timeline_by_ordinal:
  "filter (\<lambda>x. ordinal_of x = k) (timeline_from_events xs) = timeline_from_events (filter (\<lambda>x. ordinal_of x = k) xs)"
  by (auto simp: timeline_from_events_def intro: filter_cong)

lemma snapshot_sorts: "replace_timeline_from_snapshot xs = sort_key ordinal_of (retained [] xs)"
proof -
  have "sorted (map ordinal_of (retained [] (sort_key ordinal_of xs)))" by (simp add: sorted_retained)
  moreover have "filter (\<lambda>x. ordinal_of x = k) (retained [] (sort_key ordinal_of xs))
      = filter (\<lambda>x. ordinal_of x = k) (retained [] xs)" for k
    by (simp add: filter_retained timeline_by_ordinal sort_key_stable)
  ultimately show ?thesis unfolding replace_timeline_from_snapshot_def by (intro sort_key_by_key [symmetric])
qed

lemma retained_snoc:
  "retained [] (xs @ [x]) = retained [] xs @
     (if is_timeline_event (event x) \<and> ordinal_of x \<notin> ordinal_of ` set (retained [] xs) then [x] else [])"
proof -
  have "retained seen (xs @ [x]) = retained seen xs @
      (if is_timeline_event (event x) \<and> ordinal_of x \<notin> ordinal_of ` set (retained seen xs) \<union> set seen then [x] else [])" for seen
    by (induction seen xs rule: retained.induct) auto
  from this [of "[]"] show ?thesis by simp
qed

lemma append_sorted:
  "append_meaningful_timeline_event (sort_key ordinal_of (retained [] xs)) x = sort_key ordinal_of (retained [] (xs @ [x]))"
proof (cases "is_timeline_event (event x) \<and> ordinal_of x \<notin> ordinal_of ` set (retained [] xs)")
  case True
  have "sort_key ordinal_of (sort_key ordinal_of ys @ [x]) = sort_key ordinal_of (ys @ [x])" for ys
    by (rule sort_key_by_key) (simp_all add: sort_key_stable)
  with True show ?thesis by (auto simp: append_meaningful_timeline_event_def retained_snoc image_iff)
next
  case False
  then show ?thesis by (auto simp: append_meaningful_timeline_event_def retained_snoc image_iff)
qed

section \<open>Properties\<close>

text \<open>C39. Extending an empty timeline event by event, in any order of arrival and with any redelivery, gives the
  very timeline that a snapshot of the same events is replaced with: strictly increasing in the
  ordinal, without telemetry, and holding every ordinal of a delivered event that is not telemetry.\<close>

theorem timeline_incremental_is_snapshot:
  "foldl append_meaningful_timeline_event [] xs = replace_timeline_from_snapshot xs
   \<and> sorted_wrt (\<lambda>x y. ordinal_of x < ordinal_of y) (replace_timeline_from_snapshot xs)
   \<and> set (replace_timeline_from_snapshot xs) \<subseteq> set (timeline_from_events xs)
   \<and> ordinal_of ` set (replace_timeline_from_snapshot xs) = ordinal_of ` set (timeline_from_events xs)"
proof -
  have "foldl append_meaningful_timeline_event [] xs = sort_key ordinal_of (retained [] xs)"
    by (induction xs rule: rev_induct) (simp_all add: append_sorted)
  moreover have "sorted_wrt (<) (map ordinal_of (retained [] (sort_key ordinal_of xs)))"
    by (simp add: strict_sorted_iff sorted_retained distinct_retained)
  then have "sorted_wrt (\<lambda>x y. ordinal_of x < ordinal_of y) (replace_timeline_from_snapshot xs)"
    by (simp add: replace_timeline_from_snapshot_def sorted_wrt_map)
  moreover have "set (retained [] xs) \<subseteq> set (timeline_from_events xs)"
  proof -
    have "set (retained seen xs) \<subseteq> set (timeline_from_events xs)" for seen
      by (induction seen xs rule: retained.induct) (auto simp: timeline_from_events_def)
    then show ?thesis .
  qed
  moreover have "k \<in> ordinal_of ` set (retained [] xs)" if "k \<in> ordinal_of ` set (timeline_from_events xs)" for k
  proof -
    from that have "filter (\<lambda>x. ordinal_of x = k) (timeline_from_events xs) \<noteq> []" by (auto simp: filter_empty_conv)
    with filter_retained [of k "[]" xs] have "filter (\<lambda>x. ordinal_of x = k) (retained [] xs) \<noteq> []" by simp
    then show ?thesis by (auto simp: filter_empty_conv)
  qed
  ultimately show ?thesis by (auto simp: snapshot_sorts)
qed

end
