(* ===== verification/Codec.thy ===== *)
theory Codec
  imports Envelope
begin

text \<open>
  What the wire documents of the contracts package have in common. A body is a closed object: a set of allowed
  members, some of them required. A codec is a validator and a document builder that are inverse to
  each other; the locale \<open>closed_codec\<close> states that as one law, and what the services rely on (round
  trip, one document per value, insensitivity to member order) is proved from it once. The envelope
  is its first instance; the gateway bodies (\<open>Rpc\<close>) and the agent response (\<open>Integration\<close>) are the others.
\<close>

section \<open>Closed objects\<close>

lemma map_of_get: "map_of d (KStr n) = (if has_member d n then Some (get d n) else None)"
  by (cases "map_of d (KStr n)") (auto simp: has_member_iff get_def)

lemma closed_object_eq:
  assumes "set (dict_keys d) \<subseteq> KStr ` set allowed" "set (dict_keys d') \<subseteq> KStr ` set allowed"
    and "\<forall>n \<in> set allowed. has_member d n = has_member d' n \<and> get d n = get d' n"
  shows "map_of d = map_of d'"
proof
  fix k
  show "map_of d k = map_of d' k"
  proof (cases "k \<in> KStr ` set allowed")
    case True
    with assms(3) show ?thesis by (auto simp: map_of_get)
  next
    case False
    with assms(1,2) have "k \<notin> fst ` set d" "k \<notin> fst ` set d'" by auto
    then show ?thesis by (simp add: map_of_eq_None_iff [THEN iffD2])
  qed
qed

lemma keys_cong: "map_of d = map_of d' \<Longrightarrow> set (dict_keys d) = set (dict_keys d')"
  by (metis dom_map_of_conv_image_fst list.set_map)

text \<open>The unknown members by the text of their keys, least first.\<close>

definition unknown_members :: "pystr list \<Rightarrow> members \<Rightarrow> pystr list" where
  "unknown_members allowed d = sort (map str_key (filter (\<lambda>key. key \<notin> KStr ` set allowed) (dict_keys d)))"

lemma unknown_members_Nil: "unknown_members allowed d = [] \<longleftrightarrow> set (dict_keys d) \<subseteq> KStr ` set allowed"
  by (auto simp: unknown_members_def filter_empty_conv simp flip: set_empty)

text \<open>Two bodies are the same document when they have the same members, and a member that is itself an object
  has the same members.\<close>

fun same_value :: "pyval \<Rightarrow> pyval \<Rightarrow> bool" where
  "same_value (PDict d) (PDict d') \<longleftrightarrow> map_of d = map_of d'"
| "same_value v w \<longleftrightarrow> v = w"

definition same_document :: "members \<Rightarrow> members \<Rightarrow> bool" where
  "same_document d d' \<longleftrightarrow> (\<forall>k. rel_option same_value (map_of d k) (map_of d' k))"

lemma same_value_simps [simp]:
  "same_value v (PStr s) \<longleftrightarrow> v = PStr s" "same_value v (PInt i) \<longleftrightarrow> v = PInt i"
  "same_value v (PDict x) \<longleftrightarrow> (\<exists>d. v = PDict d \<and> map_of d = map_of x)"
  by (cases v; simp)+

lemma same_document_keys: "same_document d d' \<Longrightarrow> set (dict_keys d) = set (dict_keys d')"
proof -
  assume "same_document d d'"
  then have "map_of d k = None \<longleftrightarrow> map_of d' k = None" for k
    unfolding same_document_def by (metis option.rel_distinct(1,2) not_None_eq)
  then show ?thesis by (simp add: map_of_eq_None_iff set_eq_iff)
qed

lemma closed_document_same:
  assumes "set (dict_keys d) \<subseteq> KStr ` set allowed" "set (dict_keys d') \<subseteq> KStr ` set allowed"
  shows "same_document d d' \<longleftrightarrow> (\<forall>n \<in> set allowed. has_member d n = has_member d' n
    \<and> (has_member d n \<longrightarrow> same_value (get d n) (get d' n)))"
proof -
  have outside: "map_of d k = None" "map_of d' k = None" if "k \<notin> KStr ` set allowed" for k
    using assms that by (auto simp: map_of_eq_None_iff)
  have inside: "rel_option same_value (map_of d (KStr n)) (map_of d' (KStr n)) \<longleftrightarrow>
      has_member d n = has_member d' n \<and> (has_member d n \<longrightarrow> same_value (get d n) (get d' n))" for n
    by (auto simp: map_of_get)
  have "same_document d d' \<longleftrightarrow> (\<forall>k \<in> KStr ` set allowed. rel_option same_value (map_of d k) (map_of d' k))"
    unfolding same_document_def using outside by (metis option.rel_inject(1))
  then show ?thesis by (simp add: inside)
qed

definition same_members :: "members \<Rightarrow> members \<Rightarrow> bool" where
  "same_members d d' \<longleftrightarrow> map_of d = map_of d'"

lemma equivp_same_members: "equivp same_members"
  by (auto intro!: equivpI reflpI sympI transpI simp: same_members_def)

lemma equivp_same_value: "equivp same_value"
proof (rule equivpI)
  show "reflp same_value" by (rule reflpI) (metis pyval.exhaust same_value.simps)
  show "symp same_value"
  proof (rule sympI)
    show "same_value v w \<Longrightarrow> same_value w v" for v w by (cases v; cases w) auto
  qed
  show "transp same_value"
  proof (rule transpI)
    show "same_value u v \<Longrightarrow> same_value v w \<Longrightarrow> same_value u w" for u v w by (cases u; cases v; cases w) auto
  qed
qed

lemma equivp_same_document: "equivp same_document"
proof -
  note v = equivp_same_value
  have "rel_option same_value a a" for a
    using v by (cases a) (simp_all add: equivp_reflp)
  moreover have "rel_option same_value a b \<Longrightarrow> rel_option same_value b a" for a b
    using v by (cases a; cases b) (auto dest: equivp_symp)
  moreover have "rel_option same_value a b \<Longrightarrow> rel_option same_value b c \<Longrightarrow> rel_option same_value a c" for a b c
    using v by (cases a; cases b; cases c) (auto dest: equivp_transp)
  ultimately show ?thesis
    unfolding same_document_def by (intro equivpI reflpI sympI transpI) blast+
qed

section \<open>Codecs\<close>

locale closed_codec =
  fixes parse :: "members \<Rightarrow> 'e + 'a" and document :: "'a \<Rightarrow> members" and valid :: "'a \<Rightarrow> bool"
    and same :: "members \<Rightarrow> members \<Rightarrow> bool"
  assumes exact: "parse d = Inr x \<longleftrightarrow> valid x \<and> same d (document x)" and same: "equivp same"
begin

lemma round_trip: "valid x \<Longrightarrow> parse (document x) = Inr x"
  by (simp add: exact equivp_reflp [OF same])

lemma accepted_valid: "parse d = Inr x \<Longrightarrow> valid x"
  by (simp add: exact)

lemma reparse: "parse d = Inr x \<Longrightarrow> parse (document x) = Inr x"
  by (simp add: accepted_valid round_trip)

lemma presentation_irrelevant: "same d d' \<Longrightarrow> parse d = Inr x \<longleftrightarrow> parse d' = Inr x"
  unfolding exact by (meson equivp_symp equivp_transp same)

lemma one_document: "valid x \<Longrightarrow> valid y \<Longrightarrow> same (document x) (document y) \<Longrightarrow> x = y"
  by (metis exact round_trip sum.inject(2))

end

interpretation envelope: closed_codec "\<lambda>d. parse_envelope nfc (PDict d)" envelope_document "envelope_ok nfc" same_members for nfc
  by unfold_locales (simp_all add: envelope_accepts same_members_def [symmetric] equivp_same_members)

end
