(* ===== verification/Integration.thy ===== *)
theory Integration
  imports Codec
begin

text \<open>
  \<open>packages/contracts/src/aerial_rescue_contracts/integration.py\<close>: the closed response of the Agent Mesh at the
  application boundary, its validator, its document and its topic check. \<open>decode_agent_response\<close> composes
  the JSON decoder of the standard library with the validator.
\<close>

definition AGENT_RESPONSE_VERSION :: int where
  "AGENT_RESPONSE_VERSION = 1"

definition VERSION_MEMBER :: pystr where
  "VERSION_MEMBER = lit ''agentResponseVersion''"

definition COMMON_MEMBERS :: "pystr list" where
  "COMMON_MEMBERS = [VERSION_MEMBER, lit ''missionId'', lit ''agentName'', lit ''invocationId'', lit ''correlationId'',
     lit ''outcome'']"

definition OPTIONAL_MEMBERS :: "pystr list" where
  "OPTIONAL_MEMBERS = [lit ''result'', lit ''reason'']"

definition ALLOWED_MEMBERS :: "pystr list" where
  "ALLOWED_MEMBERS = COMMON_MEMBERS @ OPTIONAL_MEMBERS"

definition RESULT_MEMBERS :: "pystr list" where
  "RESULT_MEMBERS = [lit ''proposalType'', lit ''sourceEventId'', lit ''sourceEventDigest'', lit ''droneId'',
     lit ''latitudeMicrodegrees'', lit ''longitudeMicrodegrees'', lit ''commandType'']"

text \<open>\<open>^[0-9a-f]{64}$\<close>, which \<open>fullmatch\<close> makes the exact form.\<close>

definition DIGEST_PATTERN :: regex where
  "DIGEST_PATTERN = exactly 64 (Cls [(CHR ''0'', CHR ''9''), (CHR ''a'', CHR ''f'')])"

definition MAX_LATITUDE_MICRODEGREES :: int where
  "MAX_LATITUDE_MICRODEGREES = 90000000"

definition MIN_LATITUDE_MICRODEGREES :: int where
  "MIN_LATITUDE_MICRODEGREES = - 90000000"

definition MAX_LONGITUDE_MICRODEGREES :: int where
  "MAX_LONGITUDE_MICRODEGREES = 180000000"

definition MIN_LONGITUDE_MICRODEGREES :: int where
  "MIN_LONGITUDE_MICRODEGREES = - 180000000"

datatype AgentOutcome = CANDIDATE | ABSTAINED

fun outcome_value :: "AgentOutcome \<Rightarrow> pystr" where
  "outcome_value CANDIDATE = lit ''candidate''"
| "outcome_value ABSTAINED = lit ''abstained''"

datatype AgentResponseReason = TIMEOUT | TRANSPORT_ERROR | MODEL_ERROR | INVALID_OUTPUT | IDENTITY_MISMATCH

fun reason_value :: "AgentResponseReason \<Rightarrow> pystr" where
  "reason_value TIMEOUT = lit ''timeout''"
| "reason_value TRANSPORT_ERROR = lit ''transport-error''"
| "reason_value MODEL_ERROR = lit ''model-error''"
| "reason_value INVALID_OUTPUT = lit ''invalid-output''"
| "reason_value IDENTITY_MISMATCH = lit ''identity-mismatch''"

datatype IntegrationRefusal =
    NOT_AN_OBJECT | UNKNOWN_MEMBER | MISSING_MEMBER | VERSION | MEMBER_FORM | OUTCOME_BINDING | TOPIC_BINDING

datatype refused_value = BodyValue pyval | FamilyValue Family

datatype IntegrationError = IntegrationError (refusal_of: IntegrationRefusal) pystr refused_value

record AgentCandidate =
  proposal_type :: pystr
  source_event_id :: pystr
  candidate_digest :: pystr
  drone_id :: pystr
  candidate_latitude :: int
  candidate_longitude :: int
  candidate_command :: pystr

record AgentResponse =
  agent_mission :: pystr
  agent_name :: pystr
  invocation_id :: pystr
  agent_correlation :: pystr
  agent_outcome :: AgentOutcome
  candidate :: "AgentCandidate option"
  reason :: "AgentResponseReason option"

definition OUTCOMES :: "(pystr, AgentOutcome) pydict" where
  "OUTCOMES = map (\<lambda>m. (outcome_value m, m)) [CANDIDATE, ABSTAINED]"

definition REASONS :: "(pystr, AgentResponseReason) pydict" where
  "REASONS = map (\<lambda>m. (reason_value m, m)) [TIMEOUT, TRANSPORT_ERROR, MODEL_ERROR, INVALID_OUTPUT, IDENTITY_MISMATCH]"

section \<open>Validation\<close>

abbreviation refuse :: "IntegrationRefusal \<Rightarrow> pystr \<Rightarrow> pyval \<Rightarrow> IntegrationError + 'a" where
  "refuse r member val \<equiv> Inl (IntegrationError r member (BodyValue val))"

text \<open>\<open>min(unknown, key=...)\<close> takes the first of the least, as a stable sort does.\<close>

definition unknown_member :: "members \<Rightarrow> pystr list \<Rightarrow> (pystr \<times> pyval) option" where
  "unknown_member document allowed =
     (case sort_key fst (map (\<lambda>(key, val). (str_key key, val)) (filter (\<lambda>(key, val). key \<notin> KStr ` set allowed) document)) of
        [] \<Rightarrow> None
      | selected # rest \<Rightarrow> Some selected)"

fun integration_members :: "pyval \<Rightarrow> string \<Rightarrow> pystr list \<Rightarrow> pystr list \<Rightarrow> IntegrationError + members" where
  "integration_members (PDict document) label allowed required =
     (case unknown_member document allowed of
        Some (name, val) \<Rightarrow> refuse UNKNOWN_MEMBER name val
      | None \<Rightarrow>
          (case find_missing document required of
             Some name \<Rightarrow> refuse MISSING_MEMBER name PNone
           | None \<Rightarrow> Inr document))"
| "integration_members document label allowed required = refuse NOT_AN_OBJECT (lit label) document"

fun version_of :: "pyval \<Rightarrow> IntegrationError + unit" where
  "version_of (PInt n) = (if n \<noteq> AGENT_RESPONSE_VERSION then refuse VERSION VERSION_MEMBER (PInt n) else Inr ())"
| "version_of val = refuse MEMBER_FORM VERSION_MEMBER val"

definition version :: "members \<Rightarrow> IntegrationError + unit" where
  "version ms = version_of (get ms VERSION_MEMBER)"

fun pattern_text :: "pyval \<Rightarrow> string \<Rightarrow> regex \<Rightarrow> IntegrationError + pystr" where
  "pattern_text (PStr val) member pattern =
     (if fullmatch pattern val then Inr val else refuse MEMBER_FORM (lit member) (PStr val))"
| "pattern_text val member pattern = refuse MEMBER_FORM (lit member) val"

fun text_constant :: "pyval \<Rightarrow> string \<Rightarrow> string \<Rightarrow> IntegrationError + pystr" where
  "text_constant (PStr val) member expected =
     (if val = lit expected then Inr val else refuse MEMBER_FORM (lit member) (PStr val))"
| "text_constant val member expected = refuse MEMBER_FORM (lit member) val"

fun bounded :: "pyval \<Rightarrow> string \<Rightarrow> int \<Rightarrow> int \<Rightarrow> IntegrationError + int" where
  "bounded (PInt n) member lower upper =
     (if n < lower \<or> n > upper then refuse MEMBER_FORM (lit member) (PInt n) else Inr n)"
| "bounded val member lower upper = refuse MEMBER_FORM (lit member) val"

fun outcome_of :: "pyval \<Rightarrow> IntegrationError + AgentOutcome" where
  "outcome_of (PStr val) =
     (case map_of OUTCOMES val of None \<Rightarrow> refuse MEMBER_FORM (lit ''outcome'') (PStr val) | Some oc \<Rightarrow> Inr oc)"
| "outcome_of val = refuse MEMBER_FORM (lit ''outcome'') val"

fun reason_of :: "pyval \<Rightarrow> IntegrationError + AgentResponseReason" where
  "reason_of (PStr val) =
     (case map_of REASONS val of None \<Rightarrow> refuse MEMBER_FORM (lit ''reason'') (PStr val) | Some r \<Rightarrow> Inr r)"
| "reason_of val = refuse MEMBER_FORM (lit ''reason'') val"

fun in_result :: "IntegrationError \<Rightarrow> IntegrationError" where
  "in_result (IntegrationError r member val) =
     (if r \<in> {UNKNOWN_MEMBER, MISSING_MEMBER} then IntegrationError r (lit ''result.'' @ member) val
      else IntegrationError r member val)"

definition candidate_of :: "pyval \<Rightarrow> IntegrationError + AgentCandidate" where
  "candidate_of val =
     (case integration_members val ''result'' RESULT_MEMBERS RESULT_MEMBERS of
        Inl error \<Rightarrow> Inl (in_result error)
      | Inr ms \<Rightarrow>
          bindE (text_constant (get ms (lit ''proposalType'')) ''result.proposalType'' ''candidate-location'') (\<lambda>proposal.
          bindE (pattern_text (get ms (lit ''sourceEventId'')) ''result.sourceEventId'' IDENTIFIER_PATTERN) (\<lambda>event_id.
          bindE (pattern_text (get ms (lit ''sourceEventDigest'')) ''result.sourceEventDigest'' DIGEST_PATTERN) (\<lambda>event_digest.
          bindE (pattern_text (get ms (lit ''droneId'')) ''result.droneId'' IDENTIFIER_PATTERN) (\<lambda>drone.
          bindE (bounded (get ms (lit ''latitudeMicrodegrees'')) ''result.latitudeMicrodegrees''
                   MIN_LATITUDE_MICRODEGREES MAX_LATITUDE_MICRODEGREES) (\<lambda>latitude.
          bindE (bounded (get ms (lit ''longitudeMicrodegrees'')) ''result.longitudeMicrodegrees''
                   MIN_LONGITUDE_MICRODEGREES MAX_LONGITUDE_MICRODEGREES) (\<lambda>longitude.
          bindE (text_constant (get ms (lit ''commandType'')) ''result.commandType'' ''escalate-rescue'') (\<lambda>command.
            Inr \<lparr>proposal_type = proposal, source_event_id = event_id, candidate_digest = event_digest, drone_id = drone,
                 candidate_latitude = latitude, candidate_longitude = longitude, candidate_command = command\<rparr>))))))))"

text \<open>A branch that is present is validated: \<open>check(members[name]) if name in members else None\<close>.\<close>

definition if_present :: "members \<Rightarrow> string \<Rightarrow> (pyval \<Rightarrow> IntegrationError + 'a) \<Rightarrow> IntegrationError + 'a option" where
  "if_present ms name check =
     (if has_member ms (lit name) then bindE (check (get ms (lit name))) (\<lambda>a. Inr (Some a)) else Inr None)"

definition optionals :: "members \<Rightarrow> IntegrationError + AgentCandidate option \<times> AgentResponseReason option" where
  "optionals ms =
     bindE (if_present ms ''result'' candidate_of) (\<lambda>c.
     bindE (if_present ms ''reason'' reason_of) (\<lambda>r. Inr (c, r)))"

definition bind_outcome ::
    "AgentOutcome \<Rightarrow> AgentCandidate option \<Rightarrow> AgentResponseReason option \<Rightarrow> members \<Rightarrow> IntegrationError + unit" where
  "bind_outcome oc c r ms =
     (case oc of
        CANDIDATE \<Rightarrow>
          if c = None then refuse OUTCOME_BINDING (lit ''result'') PNone
          else if r \<noteq> None then refuse OUTCOME_BINDING (lit ''reason'') (get ms (lit ''reason''))
          else Inr ()
      | ABSTAINED \<Rightarrow>
          if r = None then refuse OUTCOME_BINDING (lit ''reason'') PNone
          else if c \<noteq> None then refuse OUTCOME_BINDING (lit ''result'') (get ms (lit ''result''))
          else Inr ())"

definition parse_agent_response :: "pyval \<Rightarrow> IntegrationError + AgentResponse" where
  "parse_agent_response document =
     bindE (integration_members document ''response'' ALLOWED_MEMBERS COMMON_MEMBERS) (\<lambda>ms.
     bindE (version ms) (\<lambda>_.
     bindE (pattern_text (get ms (lit ''missionId'')) ''missionId'' IDENTIFIER_PATTERN) (\<lambda>mission.
     bindE (pattern_text (get ms (lit ''agentName'')) ''agentName'' AGENT_NAME_PATTERN) (\<lambda>name.
     bindE (pattern_text (get ms (lit ''invocationId'')) ''invocationId'' IDENTIFIER_PATTERN) (\<lambda>invocation.
     bindE (pattern_text (get ms (lit ''correlationId'')) ''correlationId'' IDENTIFIER_PATTERN) (\<lambda>correlation.
     bindE (outcome_of (get ms (lit ''outcome''))) (\<lambda>oc.
     bindE (optionals ms) (\<lambda>(c, r).
     bindE (bind_outcome oc c r ms) (\<lambda>_.
       Inr \<lparr>agent_mission = mission, agent_name = name, invocation_id = invocation, agent_correlation = correlation,
            agent_outcome = oc, candidate = c, reason = r\<rparr>)))))))))"

definition candidate_document :: "AgentCandidate \<Rightarrow> members" where
  "candidate_document c =
     obj [(''proposalType'', PStr (proposal_type c)), (''sourceEventId'', PStr (source_event_id c)),
       (''sourceEventDigest'', PStr (candidate_digest c)), (''droneId'', PStr (drone_id c)),
       (''latitudeMicrodegrees'', PInt (candidate_latitude c)), (''longitudeMicrodegrees'', PInt (candidate_longitude c)),
       (''commandType'', PStr (candidate_command c))]"

definition agent_response_document :: "AgentResponse \<Rightarrow> members" where
  "agent_response_document a =
     (KStr VERSION_MEMBER, PInt AGENT_RESPONSE_VERSION) #
     obj [(''missionId'', PStr (agent_mission a)), (''agentName'', PStr (agent_name a)),
       (''invocationId'', PStr (invocation_id a)), (''correlationId'', PStr (agent_correlation a)),
       (''outcome'', PStr (outcome_value (agent_outcome a)))]
     @ (case candidate a of None \<Rightarrow> [] | Some c \<Rightarrow> obj [(''result'', PDict (candidate_document c))])
     @ (case reason a of None \<Rightarrow> [] | Some r \<Rightarrow> obj [(''reason'', PStr (reason_value r))])"

definition check_agent_response_topic :: "AgentResponse \<Rightarrow> Topic \<Rightarrow> IntegrationError + unit" where
  "check_agent_response_topic a topic =
     (if family topic \<noteq> AGENT_RESPONSE
      then Inl (IntegrationError TOPIC_BINDING (lit ''family'') (FamilyValue (family topic)))
      else if mission_id topic \<noteq> agent_mission a
      then refuse TOPIC_BINDING (lit ''missionId'') (PStr (agent_mission a))
      else if map_of (topic_parameters topic) (lit ''agentName'') \<noteq> Some (agent_name a)
      then refuse TOPIC_BINDING (lit ''agentName'') (PStr (agent_name a))
      else Inr ())"

section \<open>The accepted responses\<close>

definition candidate_valid :: "AgentCandidate \<Rightarrow> bool" where
  "candidate_valid c \<longleftrightarrow> proposal_type c = lit ''candidate-location'' \<and> candidate_command c = lit ''escalate-rescue''
     \<and> fullmatch IDENTIFIER_PATTERN (source_event_id c) \<and> fullmatch DIGEST_PATTERN (candidate_digest c)
     \<and> fullmatch IDENTIFIER_PATTERN (drone_id c)
     \<and> - 90000000 \<le> candidate_latitude c \<and> candidate_latitude c \<le> 90000000
     \<and> - 180000000 \<le> candidate_longitude c \<and> candidate_longitude c \<le> 180000000"

text \<open>A candidate carries a valid result and no reason, an abstention a reason and no result.\<close>

definition response_valid :: "AgentResponse \<Rightarrow> bool" where
  "response_valid a \<longleftrightarrow> fullmatch IDENTIFIER_PATTERN (agent_mission a) \<and> fullmatch AGENT_NAME_PATTERN (agent_name a)
     \<and> fullmatch IDENTIFIER_PATTERN (invocation_id a) \<and> fullmatch IDENTIFIER_PATTERN (agent_correlation a)
     \<and> pred_option candidate_valid (candidate a)
     \<and> (candidate a \<noteq> None \<longleftrightarrow> agent_outcome a = CANDIDATE) \<and> (reason a \<noteq> None \<longleftrightarrow> agent_outcome a = ABSTAINED)"

lemma unknown_member_None: "unknown_member d allowed = None \<longleftrightarrow> set (dict_keys d) \<subseteq> KStr ` set allowed"
proof -
  let ?unknown = "filter (\<lambda>(key, val). key \<notin> KStr ` set allowed) d"
  have "sort_key f xs = [] \<longleftrightarrow> xs = []" for f :: "pystr \<times> pyval \<Rightarrow> pystr" and xs
    by (simp flip: set_empty)
  then have "unknown_member d allowed = None \<longleftrightarrow> ?unknown = []"
    unfolding unknown_member_def by (metis (no_types, lifting) list.case(1,2) list.exhaust map_is_Nil_conv option.distinct(1))
  then show ?thesis by (auto simp: filter_empty_conv)
qed

lemma integration_members_Inr:
  "integration_members v label allowed required = Inr ms \<longleftrightarrow>
     v = PDict ms \<and> set (dict_keys ms) \<subseteq> KStr ` set allowed \<and> (\<forall>n \<in> set required. has_member ms n)"
  unfolding unknown_member_None [symmetric] find_missing_None [symmetric]
  by (cases v) (auto split: option.splits)

lemma member_checks_Inr:
  "version ms = Inr u \<longleftrightarrow> get ms VERSION_MEMBER = PInt AGENT_RESPONSE_VERSION"
  "pattern_text v m p = Inr t \<longleftrightarrow> v = PStr t \<and> fullmatch p t"
  "text_constant v m e = Inr t \<longleftrightarrow> v = PStr t \<and> t = lit e"
  "bounded v m lo hi = Inr n \<longleftrightarrow> v = PInt n \<and> lo \<le> n \<and> n \<le> hi"
  by (cases "get ms VERSION_MEMBER"; simp add: version_def) (cases v; auto)+

lemma outcome_of_Inr: "outcome_of v = Inr oc \<longleftrightarrow> v = PStr (outcome_value oc)"
  by (cases v; cases oc) (auto simp: OUTCOMES_def split: option.splits)

lemma reason_of_Inr: "reason_of v = Inr r \<longleftrightarrow> v = PStr (reason_value r)"
  by (cases v; cases r) (auto simp: REASONS_def split: option.splits)

definition candidate_at :: "members \<Rightarrow> AgentCandidate \<Rightarrow> bool" where
  "candidate_at d c \<longleftrightarrow> (\<forall>n \<in> set RESULT_MEMBERS. has_member d n)
     \<and> get d (lit ''proposalType'') = PStr (proposal_type c) \<and> get d (lit ''sourceEventId'') = PStr (source_event_id c)
     \<and> get d (lit ''sourceEventDigest'') = PStr (candidate_digest c) \<and> get d (lit ''droneId'') = PStr (drone_id c)
     \<and> get d (lit ''latitudeMicrodegrees'') = PInt (candidate_latitude c)
     \<and> get d (lit ''longitudeMicrodegrees'') = PInt (candidate_longitude c)
     \<and> get d (lit ''commandType'') = PStr (candidate_command c)"

lemma candidate_document_at:
  "candidate_at (candidate_document c) c" "set (dict_keys (candidate_document c)) \<subseteq> KStr ` set RESULT_MEMBERS"
  by (simp_all add: candidate_at_def candidate_document_def get_Cons RESULT_MEMBERS_def)

lemma candidate_at_iff:
  "set (dict_keys d) \<subseteq> KStr ` set RESULT_MEMBERS \<and> candidate_at d c \<longleftrightarrow> map_of d = map_of (candidate_document c)"
proof
  assume L: "set (dict_keys d) \<subseteq> KStr ` set RESULT_MEMBERS \<and> candidate_at d c"
  with candidate_document_at show "map_of d = map_of (candidate_document c)"
    by (intro closed_object_eq [where allowed = RESULT_MEMBERS]) (auto simp: candidate_at_def RESULT_MEMBERS_def)
next
  assume eq: "map_of d = map_of (candidate_document c)"
  have "candidate_at d c = candidate_at (candidate_document c) c"
    unfolding candidate_at_def get_cong [OF eq] has_member_cong [OF eq] ..
  with candidate_document_at keys_cong [OF eq]
  show "set (dict_keys d) \<subseteq> KStr ` set RESULT_MEMBERS \<and> candidate_at d c" by auto
qed

lemma candidate_of_Inr:
  "candidate_of v = Inr c \<longleftrightarrow> candidate_valid c \<and> (\<exists>d. v = PDict d \<and> map_of d = map_of (candidate_document c))"
proof -
  have "candidate_of v = Inr c \<longleftrightarrow> candidate_valid c
      \<and> (\<exists>d. v = PDict d \<and> set (dict_keys d) \<subseteq> KStr ` set RESULT_MEMBERS \<and> candidate_at d c)"
  proof (cases "integration_members v ''result'' RESULT_MEMBERS RESULT_MEMBERS")
    case (Inl e)
    then have "\<not> (\<exists>d. v = PDict d \<and> set (dict_keys d) \<subseteq> KStr ` set RESULT_MEMBERS \<and> candidate_at d c)"
      using integration_members_Inr [of v "''result''" RESULT_MEMBERS RESULT_MEMBERS] by (auto simp: candidate_at_def)
    with Inl show ?thesis by (simp add: candidate_of_def)
  next
    case (Inr ms)
    then have ms: "v = PDict ms" "set (dict_keys ms) \<subseteq> KStr ` set RESULT_MEMBERS" "\<forall>n \<in> set RESULT_MEMBERS. has_member ms n"
      unfolding integration_members_Inr by blast+
    have "candidate_of v = Inr c \<longleftrightarrow> candidate_valid c \<and> candidate_at ms c"
      using ms(3) by (cases c) (auto simp: candidate_of_def Inr member_checks_Inr candidate_valid_def candidate_at_def
          MIN_LATITUDE_MICRODEGREES_def MAX_LATITUDE_MICRODEGREES_def MIN_LONGITUDE_MICRODEGREES_def
          MAX_LONGITUDE_MICRODEGREES_def)
    with ms show ?thesis by auto
  qed
  then show ?thesis unfolding candidate_at_iff .
qed

lemma if_present_Inr:
  "if_present ms name check = Inr v \<longleftrightarrow>
     (case v of None \<Rightarrow> \<not> has_member ms (lit name) | Some a \<Rightarrow> has_member ms (lit name) \<and> check (get ms (lit name)) = Inr a)"
  by (auto simp: if_present_def split: option.splits)

lemma bind_outcome_Inr:
  "bind_outcome oc c r ms = Inr u \<longleftrightarrow> (c \<noteq> None \<longleftrightarrow> oc = CANDIDATE) \<and> (r \<noteq> None \<longleftrightarrow> oc = ABSTAINED)"
  by (cases oc; cases c; cases r) (simp_all add: bind_outcome_def)

definition response_at :: "members \<Rightarrow> AgentResponse \<Rightarrow> bool" where
  "response_at d a \<longleftrightarrow> (\<forall>n \<in> set COMMON_MEMBERS. has_member d n) \<and> get d VERSION_MEMBER = PInt AGENT_RESPONSE_VERSION
     \<and> get d (lit ''missionId'') = PStr (agent_mission a) \<and> get d (lit ''agentName'') = PStr (agent_name a)
     \<and> get d (lit ''invocationId'') = PStr (invocation_id a) \<and> get d (lit ''correlationId'') = PStr (agent_correlation a)
     \<and> get d (lit ''outcome'') = PStr (outcome_value (agent_outcome a))
     \<and> (case candidate a of None \<Rightarrow> \<not> has_member d (lit ''result'')
        | Some c \<Rightarrow> has_member d (lit ''result'') \<and> same_value (get d (lit ''result'')) (PDict (candidate_document c)))
     \<and> (case reason a of None \<Rightarrow> \<not> has_member d (lit ''reason'')
        | Some r \<Rightarrow> has_member d (lit ''reason'') \<and> same_value (get d (lit ''reason'')) (PStr (reason_value r)))"

lemma parse_agent_response_Inr:
  "parse_agent_response (PDict d) = Inr a \<longleftrightarrow>
     response_valid a \<and> set (dict_keys d) \<subseteq> KStr ` set ALLOWED_MEMBERS \<and> response_at d a"
proof
  assume "parse_agent_response (PDict d) = Inr a"
  then obtain mi na iv co oc c r where p: "set (dict_keys d) \<subseteq> KStr ` set ALLOWED_MEMBERS"
    "\<forall>n \<in> set COMMON_MEMBERS. has_member d n" "get d VERSION_MEMBER = PInt AGENT_RESPONSE_VERSION"
    "get d (lit ''missionId'') = PStr mi" "fullmatch IDENTIFIER_PATTERN mi"
    "get d (lit ''agentName'') = PStr na" "fullmatch AGENT_NAME_PATTERN na"
    "get d (lit ''invocationId'') = PStr iv" "fullmatch IDENTIFIER_PATTERN iv"
    "get d (lit ''correlationId'') = PStr co" "fullmatch IDENTIFIER_PATTERN co"
    "get d (lit ''outcome'') = PStr (outcome_value oc)"
    and opt: "optionals d = Inr (c, r)" and b: "bind_outcome oc c r d = Inr ()"
    and a: "a = \<lparr>agent_mission = mi, agent_name = na, invocation_id = iv, agent_correlation = co, agent_outcome = oc,
      candidate = c, reason = r\<rparr>"
    unfolding parse_agent_response_def bindE_eq_Inr integration_members_Inr member_checks_Inr outcome_of_Inr
    by (auto simp: bindE_eq_Inr)
  from opt have "if_present d ''result'' candidate_of = Inr c" "if_present d ''reason'' reason_of = Inr r"
    by (auto simp: optionals_def)
  then have cr: "case c of None \<Rightarrow> \<not> has_member d (lit ''result'') | Some x \<Rightarrow> has_member d (lit ''result'')
      \<and> candidate_valid x \<and> same_value (get d (lit ''result'')) (PDict (candidate_document x))"
    "case r of None \<Rightarrow> \<not> has_member d (lit ''reason'') | Some x \<Rightarrow> has_member d (lit ''reason'')
      \<and> same_value (get d (lit ''reason'')) (PStr (reason_value x))"
    unfolding if_present_Inr by (auto simp: candidate_of_Inr reason_of_Inr split: option.splits)
  have "response_valid a" using p b cr(1) unfolding a response_valid_def bind_outcome_Inr by (cases c) simp_all
  moreover have "response_at d a" using p cr unfolding a response_at_def by (cases c; cases r) simp_all
  ultimately show "response_valid a \<and> set (dict_keys d) \<subseteq> KStr ` set ALLOWED_MEMBERS \<and> response_at d a" using p(1) by blast
next
  assume R: "response_valid a \<and> set (dict_keys d) \<subseteq> KStr ` set ALLOWED_MEMBERS \<and> response_at d a"
  then have "integration_members (PDict d) ''response'' ALLOWED_MEMBERS COMMON_MEMBERS = Inr d"
    unfolding integration_members_Inr response_at_def by blast
  moreover from R have "if_present d ''result'' candidate_of = Inr (candidate a)" "if_present d ''reason'' reason_of = Inr (reason a)"
    unfolding if_present_Inr
    by (auto simp: candidate_of_Inr reason_of_Inr response_at_def response_valid_def split: option.splits)
  then have "optionals d = Inr (candidate a, reason a)" by (simp add: optionals_def)
  moreover from R have "version d = Inr ()" "outcome_of (get d (lit ''outcome'')) = Inr (agent_outcome a)"
    "bind_outcome (agent_outcome a) (candidate a) (reason a) d = Inr ()"
    unfolding member_checks_Inr outcome_of_Inr bind_outcome_Inr response_at_def response_valid_def by blast+
  moreover from R have "get d (lit ''missionId'') = PStr (agent_mission a)" "get d (lit ''agentName'') = PStr (agent_name a)"
    "get d (lit ''invocationId'') = PStr (invocation_id a)" "get d (lit ''correlationId'') = PStr (agent_correlation a)"
    "fullmatch IDENTIFIER_PATTERN (agent_mission a)" "fullmatch AGENT_NAME_PATTERN (agent_name a)"
    "fullmatch IDENTIFIER_PATTERN (invocation_id a)" "fullmatch IDENTIFIER_PATTERN (agent_correlation a)"
    unfolding response_at_def response_valid_def by blast+
  ultimately show "parse_agent_response (PDict d) = Inr a"
    by (simp add: parse_agent_response_def del: integration_members.simps outcome_of.simps)
qed

lemma response_document_at:
  "response_at (agent_response_document a) a"
  "set (dict_keys (agent_response_document a)) \<subseteq> KStr ` set ALLOWED_MEMBERS"
  by (cases "candidate a"; cases "reason a";
    simp add: response_at_def agent_response_document_def get_Cons VERSION_MEMBER_def COMMON_MEMBERS_def
      ALLOWED_MEMBERS_def OPTIONAL_MEMBERS_def)+

lemma response_at_iff:
  assumes keys: "set (dict_keys d) \<subseteq> KStr ` set ALLOWED_MEMBERS"
  shows "response_at d a \<longleftrightarrow> same_document d (agent_response_document a)"
proof -
  let ?doc = "agent_response_document a"
  note doc = response_document_at [of a]
  have required: "has_member d n" if "n \<in> set COMMON_MEMBERS" "has_member d n = has_member ?doc n" for n
    using that doc(1) by (auto simp: response_at_def)
  have parts: "same_document d ?doc \<longleftrightarrow> (\<forall>n \<in> set COMMON_MEMBERS. has_member d n \<and> same_value (get d n) (get ?doc n))
      \<and> (\<forall>n \<in> {lit ''result'', lit ''reason''}. has_member d n = has_member ?doc n
           \<and> (has_member d n \<longrightarrow> same_value (get d n) (get ?doc n)))"
    unfolding closed_document_same [OF keys doc(2)] ALLOWED_MEMBERS_def OPTIONAL_MEMBERS_def
    using doc(1) by (auto simp: response_at_def)
  show ?thesis
    using doc(1) unfolding parts response_at_def COMMON_MEMBERS_def
    by (cases "candidate a"; cases "reason a") auto
qed

lemma agent_response_accepts:
  "parse_agent_response (PDict d) = Inr a \<longleftrightarrow> response_valid a \<and> same_document d (agent_response_document a)"
  using response_at_iff [of d a] same_document_keys [of d "agent_response_document a"] response_document_at(2) [of a]
  unfolding parse_agent_response_Inr by blast

interpretation agent_response:
    closed_codec "\<lambda>d. parse_agent_response (PDict d)" agent_response_document response_valid same_document
  by unfold_locales (simp_all add: agent_response_accepts equivp_same_document)

section \<open>Properties\<close>

text \<open>C31. The agent responses that are accepted are exactly the documents of valid responses, whatever the order of
  members: a candidate always carries a location within the globe, the source event's digest form and
  the one command type it may propose, and never a reason; an abstention always carries a reason and never
  a result. A response that also passes the topic check came on the agent-response topic of
  its own mission and agent.\<close>

theorem agent_response_exact:
  "(parse_agent_response (PDict d) = Inr a \<longleftrightarrow> response_valid a \<and> same_document d (agent_response_document a))
   \<and> {x. parse_agent_response (PDict d) = Inr x} \<subseteq>
       {x. (agent_outcome x = CANDIDATE \<and> reason x = None \<and> (\<exists>c. candidate x = Some c \<and> candidate_valid c)
            \<or> agent_outcome x = ABSTAINED \<and> candidate x = None \<and> reason x \<noteq> None)
           \<and> parse_agent_response (PDict (agent_response_document x)) = Inr x}
   \<and> (check_agent_response_topic a topic = Inr () \<longleftrightarrow> family topic = AGENT_RESPONSE
        \<and> mission_id topic = agent_mission a \<and> map_of (topic_parameters topic) (lit ''agentName'') = Some (agent_name a))"
proof -
  have "agent_outcome x = CANDIDATE \<and> reason x = None \<and> (\<exists>c. candidate x = Some c \<and> candidate_valid c)
      \<or> agent_outcome x = ABSTAINED \<and> candidate x = None \<and> reason x \<noteq> None"
    if "parse_agent_response (PDict d) = Inr x" for x
    using agent_response.accepted_valid [OF that] by (cases "agent_outcome x") (auto simp: response_valid_def)
  with agent_response.reparse have "{x. parse_agent_response (PDict d) = Inr x} \<subseteq>
       {x. (agent_outcome x = CANDIDATE \<and> reason x = None \<and> (\<exists>c. candidate x = Some c \<and> candidate_valid c)
            \<or> agent_outcome x = ABSTAINED \<and> candidate x = None \<and> reason x \<noteq> None)
           \<and> parse_agent_response (PDict (agent_response_document x)) = Inr x}" by blast
  then show ?thesis by (simp add: agent_response_accepts check_agent_response_topic_def)
qed

end
