(* ===== verification/Dispatch.thy ===== *)
theory Dispatch
  imports Commands
begin

text \<open>
  \<open>services/command_gateway/src/aerial_rescue_command_gateway/dispatch.py\<close>: the retry schedule of one dispatched
  command. Durations are integers of milliseconds, the jitter draws arrive as arguments.
\<close>

definition MAX_COMMAND_SENDS :: int where
  "MAX_COMMAND_SENDS = 5"

definition ACKNOWLEDGEMENT_TIMEOUT_SECONDS :: int where
  "ACKNOWLEDGEMENT_TIMEOUT_SECONDS = 6"

definition BACKOFF_BASE_SECONDS :: int where
  "BACKOFF_BASE_SECONDS = ACKNOWLEDGEMENT_TIMEOUT_SECONDS"

definition JITTER_BOUND_SECONDS :: int where
  "JITTER_BOUND_SECONDS = BACKOFF_BASE_SECONDS"

definition MILLISECONDS_PER_SECOND :: int where
  "MILLISECONDS_PER_SECOND = 1000"

definition JITTER_BOUND_MILLISECONDS :: int where
  "JITTER_BOUND_MILLISECONDS = JITTER_BOUND_SECONDS * MILLISECONDS_PER_SECOND"

definition MINIMUM_JITTER_MILLISECONDS :: int where
  "MINIMUM_JITTER_MILLISECONDS = 0"

definition FIRST_TIMEOUT :: int where
  "FIRST_TIMEOUT = 1"

definition BACKOFF_FACTOR :: int where
  "BACKOFF_FACTOR = 2"

definition REQUIRED_DRAWS :: int where
  "REQUIRED_DRAWS = MAX_COMMAND_SENDS - FIRST_TIMEOUT"

datatype ScheduleError = TIMEOUT_COUNT int | JITTER_RANGE int | DRAW_COUNT int

lemmas schedule_values = MAX_COMMAND_SENDS_def ACKNOWLEDGEMENT_TIMEOUT_SECONDS_def BACKOFF_BASE_SECONDS_def
  JITTER_BOUND_SECONDS_def MILLISECONDS_PER_SECOND_def JITTER_BOUND_MILLISECONDS_def
  MINIMUM_JITTER_MILLISECONDS_def FIRST_TIMEOUT_def BACKOFF_FACTOR_def REQUIRED_DRAWS_def

definition checked_draw :: "int \<Rightarrow> ScheduleError + int" where
  "checked_draw val =
     (if \<not> (MINIMUM_JITTER_MILLISECONDS \<le> val \<and> val < JITTER_BOUND_MILLISECONDS) then Inl (JITTER_RANGE val) else Inr val)"

text \<open>\<open>for _ in range(n): backoff *= BACKOFF_FACTOR\<close>\<close>

fun doubled :: "nat \<Rightarrow> int \<Rightarrow> int" where
  "doubled 0 backoff = backoff"
| "doubled (Suc n) backoff = doubled n (backoff * BACKOFF_FACTOR)"

definition wait_milliseconds :: "int \<Rightarrow> int \<Rightarrow> ScheduleError + int" where
  "wait_milliseconds timeouts jitter =
     (if \<not> (FIRST_TIMEOUT \<le> timeouts \<and> timeouts < MAX_COMMAND_SENDS) then Inl (TIMEOUT_COUNT timeouts)
      else bindE (checked_draw jitter) (\<lambda>draw.
        Inr (doubled (nat (timeouts - FIRST_TIMEOUT)) (BACKOFF_BASE_SECONDS * MILLISECONDS_PER_SECOND) + draw)))"

text \<open>\<open>enumerate(draws, start=n)\<close>\<close>

fun waits_from :: "int \<Rightarrow> int list \<Rightarrow> ScheduleError + int list" where
  "waits_from n [] = Inr []"
| "waits_from n (draw # draws) =
     bindE (wait_milliseconds n draw) (\<lambda>w. bindE (waits_from (n + 1) draws) (\<lambda>ws. Inr (w # ws)))"

definition abandon_instant_milliseconds :: "int list \<Rightarrow> ScheduleError + int" where
  "abandon_instant_milliseconds draws =
     (if int (length draws) \<noteq> REQUIRED_DRAWS then Inl (DRAW_COUNT (int (length draws)))
      else bindE (waits_from FIRST_TIMEOUT draws) (\<lambda>waits.
        Inr (MAX_COMMAND_SENDS * ACKNOWLEDGEMENT_TIMEOUT_SECONDS * MILLISECONDS_PER_SECOND + sum_list waits)))"

section \<open>The schedule\<close>

lemma doubled_power: "doubled n b = b * 2 ^ n"
  by (induction n arbitrary: b) (simp_all add: BACKOFF_FACTOR_def)

lemma checked_draw_Inr: "checked_draw j = Inr d \<longleftrightarrow> d = j \<and> 0 \<le> j \<and> j < 6000"
  by (auto simp: checked_draw_def schedule_values)

lemma wait_milliseconds_Inr:
  "wait_milliseconds n j = Inr w \<longleftrightarrow> 1 \<le> n \<and> n \<le> 4 \<and> 0 \<le> j \<and> j < 6000 \<and> w = 6000 * 2 ^ nat (n - 1) + j"
  by (auto simp: wait_milliseconds_def checked_draw_Inr doubled_power) (auto simp: schedule_values)

lemma waits_from_Inr:
  "waits_from n draws = Inr ws \<Longrightarrow> 1 \<le> n \<Longrightarrow>
     (\<forall>j \<in> set draws. 0 \<le> j \<and> j < 6000) \<and> sum_list ws = 6000 * 2 ^ nat (n - 1) * (2 ^ length draws - 1) + sum_list draws"
proof (induction draws arbitrary: n ws)
  case (Cons j js)
  then obtain w ws' where w: "wait_milliseconds n j = Inr w" and ws': "waits_from (n + 1) js = Inr ws'" "ws = w # ws'"
    by auto
  from Cons.prems(2) have "nat n = Suc (nat (n - 1))" by simp
  with Cons.IH [OF ws'(1)] Cons.prems(2) w ws'(2) show ?case
    by (auto simp: wait_milliseconds_Inr algebra_simps)
qed simp

text \<open>C27. The dispatch envelope. Exactly one draw per backoff, each below the jitter bound, schedules a command;
  it is then abandoned no earlier than two minutes after its first send, later by exactly the
  jitter drawn, and always within two minutes and twenty-four seconds.\<close>

theorem abandon_instant_bounds:
  assumes "abandon_instant_milliseconds draws = Inr t"
  shows "length draws = 4 \<and> (\<forall>j \<in> set draws. 0 \<le> j \<and> j < 6000) \<and> t = 120000 + sum_list draws
    \<and> 120000 \<le> t \<and> t \<le> 143996"
proof -
  from assms obtain ws where len: "length draws = 4" and ws: "waits_from 1 draws = Inr ws" and t: "t = 30000 + sum_list ws"
    by (auto simp: abandon_instant_milliseconds_def schedule_values split: if_splits)
  from waits_from_Inr [OF ws] have range: "\<forall>j \<in> set draws. 0 \<le> j \<and> j < 6000"
    and sum: "sum_list ws = 90000 + sum_list draws" by (simp_all add: len)
  from len obtain a b c d where draws: "draws = [a, b, c, d]"
    by (auto simp: numeral_eq_Suc length_Suc_conv)
  from range show ?thesis by (simp add: t sum draws)
qed

theorem abandon_instant_bounds_witness:
  "abandon_instant_milliseconds [0, 5999, 17, 0] = Inr 126016 \<and> (126016::int) = 120000 + sum_list [0, 5999, 17, 0]"
proof -
  have e: "abandon_instant_milliseconds [0, 5999, 17, 0] = Inr 126016" by code_simp
  from abandon_instant_bounds [OF e] e show ?thesis by simp
qed

end
