(* ===== verification/Rpc.thy ===== *)
theory Rpc
  imports Codec
begin

text \<open>
  \<open>packages/contracts/src/aerial_rescue_contracts/rpc.py\<close>: the request and response bodies of the command
  gateway, their validators and their documents. The two \<open>decode\<close> functions compose the JSON
  decoder of the standard library with the validators.
\<close>

definition RPC_VERSION :: int where
  "RPC_VERSION = 1"

definition VERSION_MEMBER :: pystr where
  "VERSION_MEMBER = lit ''rpcVersion''"

definition REQUEST_MEMBERS :: "pystr list" where
  "REQUEST_MEMBERS = [VERSION_MEMBER, lit ''missionId'', lit ''operation'', lit ''commandType'']"

definition RESPONSE_REQUIRED_MEMBERS :: "pystr list" where
  "RESPONSE_REQUIRED_MEMBERS = REQUEST_MEMBERS @ [lit ''requestId'', lit ''outcome'', lit ''actuated'']"

definition RESPONSE_OPTIONAL_MEMBERS :: "pystr list" where
  "RESPONSE_OPTIONAL_MEMBERS = [lit ''authority'', lit ''refusal'']"

definition REQUEST_ALLOWED :: "pystr list" where
  "REQUEST_ALLOWED = REQUEST_MEMBERS"

definition RESPONSE_ALLOWED :: "pystr list" where
  "RESPONSE_ALLOWED = RESPONSE_REQUIRED_MEMBERS @ RESPONSE_OPTIONAL_MEMBERS"

definition MAX_IDENTIFIER_LENGTH :: nat where
  "MAX_IDENTIFIER_LENGTH = 64"

type_synonym text_rule = "regex \<times> nat"

definition IDENTIFIER_RULE :: text_rule where
  "IDENTIFIER_RULE = (IDENTIFIER_PATTERN, MAX_IDENTIFIER_LENGTH)"

definition KIND_RULE :: text_rule where
  "KIND_RULE = (KIND_PATTERN, MAX_KIND_LENGTH)"

definition REQUEST_TEXT_RULES :: "(pystr, text_rule) pydict" where
  "REQUEST_TEXT_RULES =
    [(lit ''missionId'', IDENTIFIER_RULE), (lit ''operation'', KIND_RULE), (lit ''commandType'', KIND_RULE)]"

definition RESPONSE_TEXT_RULES :: "(pystr, text_rule) pydict" where
  "RESPONSE_TEXT_RULES =
    [(lit ''missionId'', IDENTIFIER_RULE), (lit ''requestId'', IDENTIFIER_RULE), (lit ''operation'', KIND_RULE),
     (lit ''commandType'', KIND_RULE)]"

definition OPTIONAL_RULES :: "(pystr, text_rule) pydict" where
  "OPTIONAL_RULES = [(lit ''authority'', KIND_RULE), (lit ''refusal'', KIND_RULE)]"

datatype Outcome = ANSWERED | REFUSED

fun outcome_value :: "Outcome \<Rightarrow> pystr" where
  "outcome_value ANSWERED = lit ''answered''"
| "outcome_value REFUSED = lit ''refused''"

datatype RpcRefusal =
    NOT_AN_OBJECT | UNKNOWN_MEMBER | MISSING_MEMBER | VERSION | MEMBER_FORM | OUTCOME_BINDING

text \<open>\<open>RpcKeyError\<close> is the KeyError of \<open>document[unknown[0]]\<close> when the unknown key is no string.\<close>

datatype RpcError = RpcError RpcRefusal pystr pyval | RpcKeyError pystr

record GatewayRequest =
  request_mission :: pystr
  request_operation :: pystr
  request_command :: pystr

record GatewayResponse =
  response_mission :: pystr
  response_request :: pystr
  response_operation :: pystr
  response_command :: pystr
  outcome :: Outcome
  actuated :: bool
  authority :: "pystr option"
  refusal :: "pystr option"

definition OUTCOMES :: "(pystr, Outcome) pydict" where
  "OUTCOMES = map (\<lambda>m. (outcome_value m, m)) [ANSWERED, REFUSED]"

fun BINDING_ORDER :: "Outcome \<Rightarrow> pystr \<times> pystr" where
  "BINDING_ORDER ANSWERED = (lit ''authority'', lit ''refusal'')"
| "BINDING_ORDER REFUSED = (lit ''refusal'', lit ''authority'')"

section \<open>Validation\<close>

fun rpc_members :: "pyval \<Rightarrow> string \<Rightarrow> pystr list \<Rightarrow> pystr list \<Rightarrow> RpcError + members" where
  "rpc_members (PDict document) label allowed required =
     (case unknown_members allowed document of
        name # rest \<Rightarrow>
          (case map_of document (KStr name) of
             None \<Rightarrow> Inl (RpcKeyError name)
           | Some val \<Rightarrow> Inl (RpcError UNKNOWN_MEMBER name val))
      | [] \<Rightarrow>
          (case find_missing document required of
             Some name \<Rightarrow> Inl (RpcError MISSING_MEMBER name PNone)
           | None \<Rightarrow> Inr document))"
| "rpc_members document label allowed required = Inl (RpcError NOT_AN_OBJECT (lit label) document)"

fun version_of :: "pyval \<Rightarrow> RpcError + unit" where
  "version_of (PInt n) = (if n \<noteq> RPC_VERSION then Inl (RpcError VERSION VERSION_MEMBER (PInt n)) else Inr ())"
| "version_of val = Inl (RpcError MEMBER_FORM VERSION_MEMBER val)"

definition version :: "members \<Rightarrow> RpcError + unit" where
  "version ms = version_of (get ms VERSION_MEMBER)"

fun rule_text :: "pystr \<Rightarrow> text_rule \<Rightarrow> pyval \<Rightarrow> RpcError + pystr" where
  "rule_text name (pattern, limit) (PStr val) =
     (if length val > limit \<or> \<not> fullmatch pattern val then Inl (RpcError MEMBER_FORM name (PStr val)) else Inr val)"
| "rule_text name rule val = Inl (RpcError MEMBER_FORM name val)"

definition rpc_text :: "members \<Rightarrow> pystr \<Rightarrow> text_rule \<Rightarrow> RpcError + pystr" where
  "rpc_text ms name rule = rule_text name rule (get ms name)"

definition rule_texts :: "members \<Rightarrow> (pystr, text_rule) pydict \<Rightarrow> RpcError + (pystr, pystr) pydict" where
  "rule_texts ms rules = mapE (\<lambda>(name, rule). bindE (rpc_text ms name rule) (\<lambda>t. Inr (name, t))) rules"

definition texts :: "members \<Rightarrow> (pystr, text_rule) pydict \<Rightarrow> RpcError + (pystr, pystr) pydict" where
  "texts ms rules = bindE (version ms) (\<lambda>_. rule_texts ms rules)"

fun outcome_of :: "pyval \<Rightarrow> RpcError + Outcome" where
  "outcome_of (PStr val) =
     (case map_of OUTCOMES val of
        None \<Rightarrow> Inl (RpcError MEMBER_FORM (lit ''outcome'') (PStr val))
      | Some member \<Rightarrow> Inr member)"
| "outcome_of val = Inl (RpcError MEMBER_FORM (lit ''outcome'') val)"

definition outcome_member :: "members \<Rightarrow> RpcError + Outcome" where
  "outcome_member ms = outcome_of (get ms (lit ''outcome''))"

fun actuated_of :: "pyval \<Rightarrow> RpcError + bool" where
  "actuated_of (PBool b) = Inr b"
| "actuated_of val = Inl (RpcError MEMBER_FORM (lit ''actuated'') val)"

definition actuated_member :: "members \<Rightarrow> RpcError + bool" where
  "actuated_member ms = actuated_of (get ms (lit ''actuated''))"

definition optionals :: "members \<Rightarrow> RpcError + (pystr, pystr) pydict" where
  "optionals ms = rule_texts ms (filter (\<lambda>(name, rule). has_member ms name) OPTIONAL_RULES)"

definition binding :: "Outcome \<Rightarrow> (pystr, pystr) pydict \<Rightarrow> RpcError + unit" where
  "binding oc present =
     (let (required, forbidden) = BINDING_ORDER oc
      in case map_of present required of
           None \<Rightarrow> Inl (RpcError OUTCOME_BINDING required PNone)
         | Some _ \<Rightarrow>
             (case map_of present forbidden of
                Some val \<Rightarrow> Inl (RpcError OUTCOME_BINDING forbidden (PStr val))
              | None \<Rightarrow> Inr ()))"

definition parse_gateway_request :: "pyval \<Rightarrow> RpcError + GatewayRequest" where
  "parse_gateway_request document =
     bindE (rpc_members document ''request'' REQUEST_ALLOWED REQUEST_MEMBERS) (\<lambda>ms.
     bindE (texts ms REQUEST_TEXT_RULES) (\<lambda>ts.
       Inr \<lparr>request_mission = text_of ts ''missionId'', request_operation = text_of ts ''operation'',
            request_command = text_of ts ''commandType''\<rparr>))"

definition parse_gateway_response :: "pyval \<Rightarrow> RpcError + GatewayResponse" where
  "parse_gateway_response document =
     bindE (rpc_members document ''response'' RESPONSE_ALLOWED RESPONSE_REQUIRED_MEMBERS) (\<lambda>ms.
     bindE (texts ms RESPONSE_TEXT_RULES) (\<lambda>ts.
     bindE (outcome_member ms) (\<lambda>oc.
     bindE (actuated_member ms) (\<lambda>act.
     bindE (optionals ms) (\<lambda>present.
     bindE (binding oc present) (\<lambda>_.
       Inr \<lparr>response_mission = text_of ts ''missionId'', response_request = text_of ts ''requestId'',
            response_operation = text_of ts ''operation'', response_command = text_of ts ''commandType'',
            outcome = oc, actuated = act, authority = map_of present (lit ''authority''),
            refusal = map_of present (lit ''refusal'')\<rparr>))))))"

definition gateway_request_document :: "GatewayRequest \<Rightarrow> members" where
  "gateway_request_document r =
     [(KStr VERSION_MEMBER, PInt RPC_VERSION), (KStr (lit ''missionId''), PStr (request_mission r)),
      (KStr (lit ''operation''), PStr (request_operation r)), (KStr (lit ''commandType''), PStr (request_command r))]"

definition gateway_response_document :: "GatewayResponse \<Rightarrow> members" where
  "gateway_response_document r =
     [(KStr VERSION_MEMBER, PInt RPC_VERSION), (KStr (lit ''missionId''), PStr (response_mission r)),
      (KStr (lit ''requestId''), PStr (response_request r)), (KStr (lit ''operation''), PStr (response_operation r)),
      (KStr (lit ''commandType''), PStr (response_command r)),
      (KStr (lit ''outcome''), PStr (outcome_value (outcome r))), (KStr (lit ''actuated''), PBool (actuated r))]
     @ optional_member ''authority'' (authority r) @ optional_member ''refusal'' (refusal r)"

section \<open>The accepted bodies\<close>

fun obeys :: "text_rule \<Rightarrow> pystr \<Rightarrow> bool" where
  "obeys (pattern, limit) t \<longleftrightarrow> length t \<le> limit \<and> fullmatch pattern t"

definition request_valid :: "GatewayRequest \<Rightarrow> bool" where
  "request_valid r \<longleftrightarrow> obeys IDENTIFIER_RULE (request_mission r) \<and> obeys KIND_RULE (request_operation r)
     \<and> obeys KIND_RULE (request_command r)"

text \<open>An answer names the authority and no refusal, a refusal the refusal and no authority.\<close>

definition response_valid :: "GatewayResponse \<Rightarrow> bool" where
  "response_valid r \<longleftrightarrow> obeys IDENTIFIER_RULE (response_mission r) \<and> obeys IDENTIFIER_RULE (response_request r)
     \<and> obeys KIND_RULE (response_operation r) \<and> obeys KIND_RULE (response_command r)
     \<and> pred_option (obeys KIND_RULE) (authority r) \<and> pred_option (obeys KIND_RULE) (refusal r)
     \<and> (authority r \<noteq> None \<longleftrightarrow> outcome r = ANSWERED) \<and> (refusal r \<noteq> None \<longleftrightarrow> outcome r = REFUSED)"

lemma rpc_members_Inr:
  "rpc_members (PDict d) label allowed required = Inr ms \<longleftrightarrow>
     ms = d \<and> set (dict_keys d) \<subseteq> KStr ` set allowed \<and> (\<forall>n \<in> set required. has_member d n)"
  unfolding unknown_members_Nil [symmetric] find_missing_None [symmetric]
  by (auto split: list.splits option.splits)

lemma version_Inr: "version ms = Inr u \<longleftrightarrow> get ms VERSION_MEMBER = PInt RPC_VERSION"
  by (cases "get ms VERSION_MEMBER") (simp_all add: version_def)

lemma rpc_text_Inr: "rpc_text ms name rule = Inr t \<longleftrightarrow> get ms name = PStr t \<and> obeys rule t"
  by (cases rule; cases "get ms name") (auto simp: rpc_text_def)

lemma rule_texts_Cons:
  "rule_texts ms [] = Inr ts \<longleftrightarrow> ts = []"
  "rule_texts ms ((name, rule) # rest) = Inr ts \<longleftrightarrow>
     (\<exists>t ts'. get ms name = PStr t \<and> obeys rule t \<and> rule_texts ms rest = Inr ts' \<and> ts = (name, t) # ts')"
  by (auto simp: rule_texts_def rpc_text_Inr)

lemma texts_Inr: "texts ms rules = Inr ts \<longleftrightarrow> get ms VERSION_MEMBER = PInt RPC_VERSION \<and> rule_texts ms rules = Inr ts"
  by (auto simp: texts_def version_Inr)

lemma outcome_member_Inr: "outcome_member ms = Inr oc \<longleftrightarrow> get ms (lit ''outcome'') = PStr (outcome_value oc)"
  by (cases "get ms (lit ''outcome'')"; cases oc) (auto simp: outcome_member_def OUTCOMES_def split: option.splits)

lemma actuated_member_Inr: "actuated_member ms = Inr b \<longleftrightarrow> get ms (lit ''actuated'') = PBool b"
  by (cases "get ms (lit ''actuated'')") (auto simp: actuated_member_def)

lemma request_accepts:
  "parse_gateway_request (PDict d) = Inr r \<longleftrightarrow> request_valid r \<and> map_of d = map_of (gateway_request_document r)"
proof -
  have doc: "get (gateway_request_document r) VERSION_MEMBER = PInt RPC_VERSION"
    "get (gateway_request_document r) (lit ''missionId'') = PStr (request_mission r)"
    "get (gateway_request_document r) (lit ''operation'') = PStr (request_operation r)"
    "get (gateway_request_document r) (lit ''commandType'') = PStr (request_command r)"
    "\<forall>n \<in> set REQUEST_MEMBERS. has_member (gateway_request_document r) n"
    "set (dict_keys (gateway_request_document r)) \<subseteq> KStr ` set REQUEST_MEMBERS"
    by (simp_all add: gateway_request_document_def get_Cons VERSION_MEMBER_def REQUEST_MEMBERS_def)
  have "parse_gateway_request (PDict d) = Inr r \<longleftrightarrow> request_valid r
      \<and> set (dict_keys d) \<subseteq> KStr ` set REQUEST_MEMBERS \<and> (\<forall>n \<in> set REQUEST_MEMBERS. has_member d n)
      \<and> get d VERSION_MEMBER = PInt RPC_VERSION \<and> get d (lit ''missionId'') = PStr (request_mission r)
      \<and> get d (lit ''operation'') = PStr (request_operation r) \<and> get d (lit ''commandType'') = PStr (request_command r)"
    by (cases r) (auto simp: parse_gateway_request_def rpc_members_Inr texts_Inr rule_texts_Cons REQUEST_TEXT_RULES_def
        request_valid_def REQUEST_ALLOWED_def text_of_def simp del: rpc_members.simps)
  also have "\<dots> \<longleftrightarrow> request_valid r \<and> map_of d = map_of (gateway_request_document r)" (is "?L \<longleftrightarrow> ?R")
  proof
    assume L: ?L
    with doc have "map_of d = map_of (gateway_request_document r)"
      by (intro closed_object_eq [where allowed = REQUEST_MEMBERS]) (auto simp: REQUEST_MEMBERS_def)
    with L show ?R by blast
  next
    assume ?R
    then have eq: "map_of d = map_of (gateway_request_document r)" and v: "request_valid r" by blast+
    from doc v show ?L unfolding get_cong [OF eq] has_member_cong [OF eq] keys_cong [OF eq] by blast
  qed
  finally show ?thesis .
qed

definition optional_at :: "members \<Rightarrow> string \<Rightarrow> pystr option \<Rightarrow> bool" where
  "optional_at d name v \<longleftrightarrow> (case v of None \<Rightarrow> \<not> has_member d (lit name)
     | Some t \<Rightarrow> has_member d (lit name) \<and> get d (lit name) = PStr t)"

definition named_option :: "string \<Rightarrow> pystr option \<Rightarrow> (pystr, pystr) pydict" where
  "named_option name v = (case v of None \<Rightarrow> [] | Some t \<Rightarrow> [(lit name, t)])"

lemma optionals_Inr:
  "optionals ms = Inr present \<longleftrightarrow> (\<exists>a f. optional_at ms ''authority'' a \<and> optional_at ms ''refusal'' f
     \<and> pred_option (obeys KIND_RULE) a \<and> pred_option (obeys KIND_RULE) f
     \<and> present = named_option ''authority'' a @ named_option ''refusal'' f)"
proof -
  have one: "(\<exists>v. optional_at ms name v \<and> P v) \<longleftrightarrow>
      (if has_member ms (lit name) then \<exists>t. get ms (lit name) = PStr t \<and> P (Some t) else P None)" for name P
    by (auto simp: optional_at_def split: option.splits)
  have rules: "OPTIONAL_RULES = [(lit ''authority'', KIND_RULE), (lit ''refusal'', KIND_RULE)]"
    by (simp add: OPTIONAL_RULES_def)
  have "(\<exists>a f. optional_at ms ''authority'' a \<and> optional_at ms ''refusal'' f
     \<and> pred_option (obeys KIND_RULE) a \<and> pred_option (obeys KIND_RULE) f
     \<and> present = named_option ''authority'' a @ named_option ''refusal'' f) \<longleftrightarrow>
    (\<exists>a. optional_at ms ''authority'' a \<and> (\<exists>f. optional_at ms ''refusal'' f
     \<and> pred_option (obeys KIND_RULE) a \<and> pred_option (obeys KIND_RULE) f
     \<and> present = named_option ''authority'' a @ named_option ''refusal'' f))" by blast
  also have "\<dots> \<longleftrightarrow> optionals ms = Inr present"
    unfolding one by (auto simp: optionals_def rules rule_texts_Cons named_option_def)
  finally show ?thesis by blast
qed

lemma binding_Inr:
  "binding oc (named_option ''authority'' a @ named_option ''refusal'' f) = Inr u \<longleftrightarrow>
     (a \<noteq> None \<longleftrightarrow> oc = ANSWERED) \<and> (f \<noteq> None \<longleftrightarrow> oc = REFUSED)"
  by (cases oc; cases a; cases f) (simp_all add: binding_def named_option_def)

lemma named_option_lookup:
  "map_of (named_option ''authority'' a @ named_option ''refusal'' f) (lit ''authority'') = a"
  "map_of (named_option ''authority'' a @ named_option ''refusal'' f) (lit ''refusal'') = f"
  by (cases a; cases f; simp add: named_option_def)+

definition response_members :: "members \<Rightarrow> GatewayResponse \<Rightarrow> bool" where
  "response_members d r \<longleftrightarrow>
     (\<forall>n \<in> set RESPONSE_REQUIRED_MEMBERS. has_member d n) \<and> get d VERSION_MEMBER = PInt RPC_VERSION
     \<and> get d (lit ''missionId'') = PStr (response_mission r) \<and> get d (lit ''requestId'') = PStr (response_request r)
     \<and> get d (lit ''operation'') = PStr (response_operation r) \<and> get d (lit ''commandType'') = PStr (response_command r)
     \<and> get d (lit ''outcome'') = PStr (outcome_value (outcome r)) \<and> get d (lit ''actuated'') = PBool (actuated r)
     \<and> optional_at d ''authority'' (authority r) \<and> optional_at d ''refusal'' (refusal r)"

lemma parse_gateway_response_Inr:
  "parse_gateway_response (PDict d) = Inr r \<longleftrightarrow>
     response_valid r \<and> set (dict_keys d) \<subseteq> KStr ` set RESPONSE_ALLOWED \<and> response_members d r"
proof
  assume "parse_gateway_response (PDict d) = Inr r"
  then obtain ts oc act present where parts: "set (dict_keys d) \<subseteq> KStr ` set RESPONSE_ALLOWED"
    "\<forall>n \<in> set RESPONSE_REQUIRED_MEMBERS. has_member d n" "texts d RESPONSE_TEXT_RULES = Inr ts"
    "outcome_member d = Inr oc" "actuated_member d = Inr act" "optionals d = Inr present" "binding oc present = Inr ()"
    and r: "r = \<lparr>response_mission = text_of ts ''missionId'', response_request = text_of ts ''requestId'',
      response_operation = text_of ts ''operation'', response_command = text_of ts ''commandType'', outcome = oc,
      actuated = act, authority = map_of present (lit ''authority''), refusal = map_of present (lit ''refusal'')\<rparr>"
    unfolding parse_gateway_response_def bindE_eq_Inr rpc_members_Inr by auto
  from parts(6) obtain a f where af: "optional_at d ''authority'' a" "optional_at d ''refusal'' f"
    "pred_option (obeys KIND_RULE) a" "pred_option (obeys KIND_RULE) f"
    and present: "present = named_option ''authority'' a @ named_option ''refusal'' f" unfolding optionals_Inr by blast
  from parts(3) obtain mi rq op cm where version: "get d VERSION_MEMBER = PInt RPC_VERSION"
    and ts: "ts = [(lit ''missionId'', mi), (lit ''requestId'', rq), (lit ''operation'', op), (lit ''commandType'', cm)]"
    and given: "get d (lit ''missionId'') = PStr mi" "get d (lit ''requestId'') = PStr rq" "get d (lit ''operation'') = PStr op"
      "get d (lit ''commandType'') = PStr cm" "obeys IDENTIFIER_RULE mi" "obeys IDENTIFIER_RULE rq" "obeys KIND_RULE op" "obeys KIND_RULE cm"
    unfolding texts_Inr RESPONSE_TEXT_RULES_def rule_texts_Cons by blast
  have r': "r = \<lparr>response_mission = mi, response_request = rq, response_operation = op, response_command = cm, outcome = oc,
      actuated = act, authority = a, refusal = f\<rparr>"
    by (simp add: r ts present text_of_def named_option_lookup del: map_of_append)
  from parts(7) have "response_valid r" using given af by (simp add: r' response_valid_def present binding_Inr)
  moreover have "response_members d r"
    using parts(2,4,5) version given af by (simp add: r' response_members_def outcome_member_Inr actuated_member_Inr)
  ultimately show "response_valid r \<and> set (dict_keys d) \<subseteq> KStr ` set RESPONSE_ALLOWED \<and> response_members d r" using parts(1) by blast
next
  assume R: "response_valid r \<and> set (dict_keys d) \<subseteq> KStr ` set RESPONSE_ALLOWED \<and> response_members d r"
  let ?ts = "[(lit ''missionId'', response_mission r), (lit ''requestId'', response_request r),
    (lit ''operation'', response_operation r), (lit ''commandType'', response_command r)]"
  let ?present = "named_option ''authority'' (authority r) @ named_option ''refusal'' (refusal r)"
  from R have "rpc_members (PDict d) ''response'' RESPONSE_ALLOWED RESPONSE_REQUIRED_MEMBERS = Inr d"
    unfolding rpc_members_Inr response_members_def by blast
  moreover from R have "texts d RESPONSE_TEXT_RULES = Inr ?ts" "outcome_member d = Inr (outcome r)"
      "actuated_member d = Inr (actuated r)"
    by (auto simp: texts_Inr rule_texts_Cons RESPONSE_TEXT_RULES_def response_valid_def response_members_def
        outcome_member_Inr actuated_member_Inr)
  moreover from R have "optionals d = Inr ?present" unfolding optionals_Inr response_valid_def response_members_def by blast
  moreover from R have "binding (outcome r) ?present = Inr ()" by (simp add: binding_Inr response_valid_def)
  ultimately show "parse_gateway_response (PDict d) = Inr r"
    by (simp add: parse_gateway_response_def text_of_def named_option_lookup del: rpc_members.simps map_of_append)
qed

lemma response_document_members:
  "response_members (gateway_response_document r) r"
  "set (dict_keys (gateway_response_document r)) \<subseteq> KStr ` set RESPONSE_ALLOWED"
  by (cases "authority r"; cases "refusal r";
    simp add: response_members_def gateway_response_document_def get_Cons VERSION_MEMBER_def RESPONSE_REQUIRED_MEMBERS_def
      REQUEST_MEMBERS_def optional_at_def optional_member_def RESPONSE_ALLOWED_def RESPONSE_OPTIONAL_MEMBERS_def)+

lemma optional_at_get:
  "optional_at d n v \<Longrightarrow> optional_at d' n v \<Longrightarrow>
     has_member d (lit n) = has_member d' (lit n) \<and> get d (lit n) = get d' (lit n)"
  using map_of_get [of d "lit n"] map_of_get [of d' "lit n"]
  by (cases v) (auto simp: optional_at_def get_def)

lemma response_members_eq:
  assumes "response_members d r" "response_members d' r" "n \<in> set RESPONSE_ALLOWED"
  shows "has_member d n = has_member d' n \<and> get d n = get d' n"
proof (cases "n \<in> set RESPONSE_REQUIRED_MEMBERS")
  case True
  with assms(1,2) show ?thesis
    by (auto simp: response_members_def RESPONSE_REQUIRED_MEMBERS_def REQUEST_MEMBERS_def)
next
  case False
  with assms(3) have "n = lit ''authority'' \<or> n = lit ''refusal''"
    by (simp add: RESPONSE_ALLOWED_def RESPONSE_OPTIONAL_MEMBERS_def)
  with assms(1,2) optional_at_get show ?thesis by (auto simp: response_members_def)
qed

lemma response_accepts:
  "parse_gateway_response (PDict d) = Inr r \<longleftrightarrow> response_valid r \<and> map_of d = map_of (gateway_response_document r)"
proof
  assume "parse_gateway_response (PDict d) = Inr r"
  then have p: "response_valid r" "set (dict_keys d) \<subseteq> KStr ` set RESPONSE_ALLOWED" "response_members d r"
    unfolding parse_gateway_response_Inr by blast+
  then have "map_of d = map_of (gateway_response_document r)"
    using response_members_eq [OF _ response_document_members(1)] response_document_members(2) [of r]
    by (intro closed_object_eq [where allowed = RESPONSE_ALLOWED]) auto
  with p(1) show "response_valid r \<and> map_of d = map_of (gateway_response_document r)" by blast
next
  assume R: "response_valid r \<and> map_of d = map_of (gateway_response_document r)"
  then have eq: "map_of d = map_of (gateway_response_document r)" by blast
  have "response_members d r = response_members (gateway_response_document r) r"
    unfolding response_members_def optional_at_def get_cong [OF eq] has_member_cong [OF eq] ..
  with R response_document_members keys_cong [OF eq] show "parse_gateway_response (PDict d) = Inr r"
    unfolding parse_gateway_response_Inr by auto
qed

interpretation gateway_request:
    closed_codec "\<lambda>d. parse_gateway_request (PDict d)" gateway_request_document request_valid same_members
  by unfold_locales (simp_all add: request_accepts same_members_def [symmetric] equivp_same_members)

interpretation gateway_response:
    closed_codec "\<lambda>d. parse_gateway_response (PDict d)" gateway_response_document response_valid same_members
  by unfold_locales (simp_all add: response_accepts same_members_def [symmetric] equivp_same_members)

text \<open>C30. The gateway bodies that are accepted are exactly the documents of valid requests and responses, whatever
  the order of their members; an accepted response is an answer that names its authority and no
  refusal, or a refusal that names its reason and no authority; and rewriting an accepted body
  loses nothing.\<close>

theorem gateway_bodies_exact:
  "(parse_gateway_request (PDict d) = Inr q \<longleftrightarrow> request_valid q \<and> same_members d (gateway_request_document q))
   \<and> (parse_gateway_response (PDict d) = Inr r \<longleftrightarrow> response_valid r \<and> same_members d (gateway_response_document r))
   \<and> {x. parse_gateway_response (PDict d) = Inr x} \<subseteq>
       {x. (outcome x = ANSWERED \<and> authority x \<noteq> None \<and> refusal x = None
              \<or> outcome x = REFUSED \<and> authority x = None \<and> refusal x \<noteq> None)
           \<and> parse_gateway_response (PDict (gateway_response_document x)) = Inr x}"
proof -
  have "outcome x = ANSWERED \<and> authority x \<noteq> None \<and> refusal x = None
      \<or> outcome x = REFUSED \<and> authority x = None \<and> refusal x \<noteq> None"
    if "parse_gateway_response (PDict d) = Inr x" for x
    using gateway_response.accepted_valid [OF that] by (cases "outcome x") (auto simp: response_valid_def)
  with gateway_response.reparse show ?thesis
    by (simp add: gateway_request.exact gateway_response.exact) blast
qed

end
