(* ===== verification/Policy.thy ===== *)
theory Policy
  imports Rpc Authority Operations
begin

text \<open>
  \<open>services/command_gateway/src/aerial_rescue_command_gateway/policy.py\<close>: the deterministic answer to one gateway
  request, joining the operation table with the command-authority table.
\<close>

definition AUTHORITY_NAMES :: "(Authority, pystr) pydict" where
  "AUTHORITY_NAMES = [(GATEWAY_POLICY, lit ''gateway-policy''), (Authority.OPERATOR_APPROVAL, lit ''operator-approval'')]"

datatype PolicyRefusal = REFUSE_OPERATION | REFUSE_COMMAND_TYPE

fun policy_refusal_value :: "PolicyRefusal \<Rightarrow> pystr" where
  "policy_refusal_value REFUSE_OPERATION = lit ''unknown-operation''"
| "policy_refusal_value REFUSE_COMMAND_TYPE = lit ''unknown-command-type''"

definition refused_answer :: "GatewayRequest \<Rightarrow> pystr \<Rightarrow> PolicyRefusal \<Rightarrow> GatewayResponse" where
  "refused_answer request request_id why =
     \<lparr>response_mission = request_mission request, response_request = request_id,
      response_operation = request_operation request, response_command = request_command request,
      outcome = REFUSED, actuated = False, authority = None, refusal = Some (policy_refusal_value why)\<rparr>"

text \<open>\<open>AUTHORITY_NAMES[authority_for(commanded)]\<close>; the table is total.\<close>

definition answer :: "GatewayRequest \<Rightarrow> pystr \<Rightarrow> GatewayResponse" where
  "answer request request_id =
     (case operation (PStr (request_operation request)) of
        Inl error \<Rightarrow> refused_answer request request_id REFUSE_OPERATION
      | Inr requested \<Rightarrow>
     (case command_type (PStr (request_command request)) of
        Inl error \<Rightarrow> refused_answer request request_id REFUSE_COMMAND_TYPE
      | Inr commanded \<Rightarrow>
          \<lparr>response_mission = request_mission request, response_request = request_id,
           response_operation = request_operation request, response_command = request_command request,
           outcome = ANSWERED, actuated = actuates requested,
           authority = Some (the (map_of AUTHORITY_NAMES (authority_for commanded))), refusal = None\<rparr>))"

section \<open>Answers\<close>

lemma authority_names_total: "map_of AUTHORITY_NAMES a \<noteq> None"
  by (cases a) (simp_all add: AUTHORITY_NAMES_def)

lemma answer_names_valid:
  "obeys KIND_RULE (policy_refusal_value why)" "obeys KIND_RULE (the (map_of AUTHORITY_NAMES a))"
proof -
  have "obeys KIND_RULE (lit ''unknown-operation'')" "obeys KIND_RULE (lit ''unknown-command-type'')"
    "obeys KIND_RULE (lit ''gateway-policy'')" "obeys KIND_RULE (lit ''operator-approval'')" by code_simp+
  then show "obeys KIND_RULE (policy_refusal_value why)" "obeys KIND_RULE (the (map_of AUTHORITY_NAMES a))"
    by (cases why; simp) (cases a; simp add: AUTHORITY_NAMES_def \<open>obeys KIND_RULE (lit ''gateway-policy'')\<close>
        \<open>obeys KIND_RULE (lit ''operator-approval'')\<close>)
qed

lemma answer_shape:
  "response_mission (answer q i) = request_mission q \<and> response_request (answer q i) = i
   \<and> response_operation (answer q i) = request_operation q \<and> response_command (answer q i) = request_command q
   \<and> \<not> actuated (answer q i)"
  by (auto simp: answer_def refused_answer_def operations_do_not_actuate split: sum.splits)

lemma answer_valid:
  assumes "request_valid q" "obeys IDENTIFIER_RULE i"
  shows "response_valid (answer q i)"
  using assms answer_names_valid
  by (auto simp: answer_def refused_answer_def request_valid_def response_valid_def split: sum.splits
      simp del: policy_refusal_value.simps operation.simps command_type.simps)

lemma operation_known: "(\<exists>r. operation v = Inr r) \<longleftrightarrow> v = PStr (lit ''command-authority'')"
  using operation_Inr by blast

lemma answer_answered:
  "outcome (answer q i) = ANSWERED \<longleftrightarrow> request_operation q = lit ''command-authority''
     \<and> (\<exists>c. request_command q = command_value c)"
proof (cases "operation (PStr (request_operation q))")
  case (Inl e)
  with operation_known [of "PStr (request_operation q)"] show ?thesis
    by (simp add: answer_def refused_answer_def del: operation.simps)
next
  case op: (Inr r)
  with operation_known [of "PStr (request_operation q)"] have "request_operation q = lit ''command-authority''"
    by (auto simp del: operation.simps)
  moreover have "(\<exists>c. command_type (PStr (request_command q)) = Inr c) \<longleftrightarrow> (\<exists>c. request_command q = command_value c)"
    by (simp add: command_type_Inr del: command_type.simps)
  ultimately show ?thesis using op
    by (cases "command_type (PStr (request_command q))")
      (auto simp: answer_def refused_answer_def simp del: operation.simps command_type.simps)
qed

text \<open>C29. The gateway answers every well-formed request with a body that its own response contract accepts, echoing
  exactly what was asked; it answers rather than refuses exactly when the operation and the command
  type are in their closed tables; and no answer ever reports that a command was actuated.\<close>

theorem answer_total_and_inert:
  assumes "parse_gateway_request (PDict d) = Inr q" "fullmatch IDENTIFIER_PATTERN i" "length i \<le> 64"
  shows "parse_gateway_response (PDict (gateway_response_document (answer q i))) = Inr (answer q i)
    \<and> response_mission (answer q i) = request_mission q \<and> response_request (answer q i) = i
    \<and> response_operation (answer q i) = request_operation q \<and> response_command (answer q i) = request_command q
    \<and> (outcome (answer q i) = ANSWERED \<longleftrightarrow> request_operation q = lit ''command-authority''
         \<and> (\<exists>c. request_command q = command_value c))
    \<and> \<not> actuated (answer q i)"
proof -
  from assms(1) have "request_valid q" by (rule gateway_request.accepted_valid)
  moreover from assms(2,3) have "obeys IDENTIFIER_RULE i" by (simp add: IDENTIFIER_RULE_def MAX_IDENTIFIER_LENGTH_def)
  ultimately have "response_valid (answer q i)" by (rule answer_valid)
  then show ?thesis using gateway_response.round_trip answer_shape answer_answered by blast
qed

theorem answer_total_and_inert_witness:
  "outcome (answer \<lparr>request_mission = lit ''m-1'', request_operation = lit ''command-authority'',
     request_command = lit ''escalate-rescue''\<rparr> (lit ''r-1'')) = ANSWERED"
proof -
  let ?q = "\<lparr>request_mission = lit ''m-1'', request_operation = lit ''command-authority'',
     request_command = lit ''escalate-rescue''\<rparr>"
  have q: "parse_gateway_request (PDict (gateway_request_document ?q)) = Inr ?q" by code_simp
  have i: "fullmatch IDENTIFIER_PATTERN (lit ''r-1'')" "length (lit ''r-1'') \<le> 64" by code_simp+
  have "\<exists>c. lit ''escalate-rescue'' = command_value c" by (rule exI [of _ ESCALATE_RESCUE]) simp
  then show ?thesis using answer_total_and_inert [OF q i] by simp
qed

end
