(* ===== verification/Json.thy ===== *)
theory Json
  imports Canonical
begin

text \<open>
  \<open>canonical.decode\<close>: JSON text or bytes to a value of the canonical profile. The text is read by
  \<open>json.loads\<close> of the standard library with \<open>object_pairs_hook\<close>, which is modelled here as it is documented
  and implemented: a scanner that turns the text into tokens, ending in a bad token where no token
  can be read, and a reader that consumes the tokens in order, so that the first defect met is the one
  raised. A number with a fraction, an exponent or no digits (\<open>NaN\<close>, \<open>Infinity\<close>) is a float, an object the
  profile does not know. An integer of more than 4300 digits raises a plain ValueError. The
  interpreter's recursion limit is not modelled.
\<close>

section \<open>Scanning\<close>

datatype token =
    LBrace | RBrace | LBracket | RBracket | Comma | Colon
  | TStr pystr | TInt int | THuge | TFloat | TNull | TTrue | TFalse | TBad

definition INT_MAX_STR_DIGITS :: nat where
  "INT_MAX_STR_DIGITS = 4300"

definition UNESCAPES :: "(nat, nat) pydict" where
  "UNESCAPES = [(34, 34), (92, 92), (47, 47), (98, 8), (102, 12), (110, 10), (114, 13), (116, 9)]"

definition hex_value :: "nat \<Rightarrow> nat option" where
  "hex_value c =
     (if 48 \<le> c \<and> c \<le> 57 then Some (c - 48)
      else if 97 \<le> c \<and> c \<le> 102 then Some (c - 87)
      else if 65 \<le> c \<and> c \<le> 70 then Some (c - 55) else None)"

text \<open>The four digits after \<open>\u\<close>.\<close>

fun read_u :: "pystr \<Rightarrow> nat option" where
  "read_u (a # b # c # d # rest) =
     (case (hex_value a, hex_value b, hex_value c, hex_value d) of
        (Some w, Some x, Some y, Some z) \<Rightarrow> Some (((w * 16 + x) * 16 + y) * 16 + z)
      | _ \<Rightarrow> None)"
| "read_u _ = None"

definition low_surrogate_escape :: "pystr \<Rightarrow> nat option" where
  "low_surrogate_escape s =
     (if take 2 s = [92, 117] then
        (case read_u (drop 2 s) of
           Some l \<Rightarrow> if 0xDC00 \<le> l \<and> l \<le> 0xDFFF then Some l else None
         | None \<Rightarrow> None)
      else None)"

text \<open>One escape after the backslash: the character it stands for and what follows.\<close>

definition read_escape :: "pystr \<Rightarrow> (nat \<times> pystr) option" where
  "read_escape s =
     (case s of
        [] \<Rightarrow> None
      | e # rest \<Rightarrow>
          (case map_of UNESCAPES e of
             Some c \<Rightarrow> Some (c, rest)
           | None \<Rightarrow>
               if e \<noteq> 117 then None
               else (case read_u rest of
                       None \<Rightarrow> None
                     | Some u \<Rightarrow>
                         (case (if 0xD800 \<le> u \<and> u \<le> 0xDBFF then low_surrogate_escape (drop 4 rest) else None) of
                            Some l \<Rightarrow> Some (0x10000 + (u - 0xD800) * 0x400 + (l - 0xDC00), drop 10 rest)
                          | None \<Rightarrow> Some (u, drop 4 rest)))))"

lemma read_escape_shorter: "read_escape s = Some (c, rest) \<Longrightarrow> length rest < length s"
  by (auto simp: read_escape_def split: list.splits option.splits if_splits)

function scan_string :: "pystr \<Rightarrow> (pystr \<times> pystr) option" where
  "scan_string [] = None"
| "scan_string (c # rest) =
     (if c = 34 then Some ([], rest)
      else if c = 92 then
        (case read_escape rest of
           None \<Rightarrow> None
         | Some (e, rest') \<Rightarrow> map_option (\<lambda>(s, r). (e # s, r)) (scan_string rest'))
      else if c < 32 then None
      else map_option (\<lambda>(s, r). (c # s, r)) (scan_string rest))"
  by pat_completeness auto
termination by (relation "measure length") (auto dest: read_escape_shorter)

lemma scan_string_shorter: "scan_string s = Some (t, rest) \<Longrightarrow> length rest < length s"
proof (induction s arbitrary: t rest rule: scan_string.induct)
  case (2 c cs)
  show ?case
  proof (cases "c = 92")
    case True
    with 2(3) obtain e rest' t' where e: "read_escape cs = Some (e, rest')" "scan_string rest' = Some (t', rest)"
      by (auto split: option.splits)
    from 2(1) [OF _ True e(1) refl e(2)] True read_escape_shorter [OF e(1)] show ?thesis by simp
  next
    case False
    with 2(2,3) show ?thesis by (fastforce split: if_splits)
  qed
qed simp

text \<open>\<open>(-?(?:0|[1-9][0-9]*))(\.[0-9]+)?([eE][-+]?[0-9]+)?\<close>\<close>

definition starts_digit :: "pystr \<Rightarrow> bool" where
  "starts_digit s \<longleftrightarrow> s \<noteq> [] \<and> is_digit (hd s)"

definition drop_fraction :: "pystr \<Rightarrow> pystr" where
  "drop_fraction s = (if s \<noteq> [] \<and> hd s = 46 \<and> starts_digit (tl s) then dropWhile is_digit (tl s) else s)"

definition drop_exponent :: "pystr \<Rightarrow> pystr" where
  "drop_exponent s =
     (if s \<noteq> [] \<and> hd s \<in> {69, 101} then
        let r = (if tl s \<noteq> [] \<and> hd (tl s) \<in> {43, 45} then tl (tl s) else tl s)
        in if starts_digit r then dropWhile is_digit r else s
      else s)"

definition integer_part :: "pystr \<Rightarrow> pystr" where
  "integer_part s = (if s \<noteq> [] \<and> hd s = 48 then [48] else takeWhile is_digit s)"

definition scan_number :: "pystr \<Rightarrow> (token \<times> pystr) option" where
  "scan_number s =
     (let negative = (s \<noteq> [] \<and> hd s = 45); body = (if negative then tl s else s); int_text = integer_part body;
          rest = drop (length int_text) body; after = drop_exponent (drop_fraction rest)
      in if int_text = [] then None
         else if after \<noteq> rest then Some (TFloat, after)
         else if length int_text > INT_MAX_STR_DIGITS then Some (THuge, rest)
         else Some (TInt (if negative then - int (numeral_of int_text) else int (numeral_of int_text)), rest))"

definition WORDS :: "(pystr, token) pydict" where
  "WORDS = [(lit ''null'', TNull), (lit ''true'', TTrue), (lit ''false'', TFalse), (lit ''NaN'', TFloat),
     (lit ''Infinity'', TFloat), (lit ''-Infinity'', TFloat)]"

definition scan_word :: "pystr \<Rightarrow> (token \<times> pystr) option" where
  "scan_word s =
     (case List.find (\<lambda>(w, t). take (length w) s = w) WORDS of
        None \<Rightarrow> None
      | Some (w, t) \<Rightarrow> Some (t, drop (length w) s))"

definition PUNCTUATION :: "(nat, token) pydict" where
  "PUNCTUATION = [(123, LBrace), (125, RBrace), (91, LBracket), (93, RBracket), (44, Comma), (58, Colon)]"

text \<open>One token and what follows it.\<close>

definition scan_token :: "pystr \<Rightarrow> (token \<times> pystr) option" where
  "scan_token s =
     (case map_of PUNCTUATION (hd s) of
        Some t \<Rightarrow> Some (t, tl s)
      | None \<Rightarrow>
          if hd s = 34 then map_option (\<lambda>(t, rest). (TStr t, rest)) (scan_string (tl s))
          else (case scan_number s of Some r \<Rightarrow> Some r | None \<Rightarrow> scan_word s))"

lemma dropWhile_shorter: "length (dropWhile P xs) \<le> length xs"
  by (rule length_dropWhile_le)

lemma drop_exponent_shorter: "length (drop_exponent s) \<le> length s"
  using length_dropWhile_le [of is_digit "tl s"] length_dropWhile_le [of is_digit "tl (tl s)"]
  by (auto simp: drop_exponent_def Let_def)

lemma drop_fraction_shorter: "length (drop_fraction s) \<le> length s"
  using length_dropWhile_le [of is_digit "tl s"] by (auto simp: drop_fraction_def)

lemma scan_number_shorter: "scan_number s = Some (t, rest) \<Longrightarrow> length rest < length s"
proof -
  assume s: "scan_number s = Some (t, rest)"
  define body where "body = (if s \<noteq> [] \<and> hd s = 45 then tl s else s)"
  define tail where "tail = drop (length (integer_part body)) body"
  from s have i: "integer_part body \<noteq> []" and r: "rest = tail \<or> rest = drop_exponent (drop_fraction tail)"
    by (auto simp: scan_number_def Let_def body_def tail_def split: if_splits)
  from i have "body \<noteq> []" by (auto simp: integer_part_def)
  with i have "length tail < length body" by (simp add: tail_def)
  moreover have "length body \<le> length s" by (simp add: body_def)
  moreover have "length rest \<le> length tail"
    using r drop_exponent_shorter [of "drop_fraction tail"] drop_fraction_shorter [of tail] by auto
  ultimately show ?thesis by simp
qed

lemma scan_word_shorter: "scan_word s = Some (t, rest) \<Longrightarrow> length rest < length s"
proof -
  assume "scan_word s = Some (t, rest)"
  then obtain w where w: "(w, t) \<in> set WORDS" "take (length w) s = w" "rest = drop (length w) s"
    by (auto simp: scan_word_def find_Some_iff split: option.splits dest: nth_mem)
  then have "0 < length w" by (auto simp: WORDS_def)
  moreover from w(2) have "length w \<le> length s" by (metis length_take min.cobounded1)
  ultimately have "0 < length s" by linarith
  with \<open>0 < length w\<close> show ?thesis using w(3) by (simp add: diff_less)
qed

lemma scan_token_shorter: "scan_token s = Some (t, rest) \<Longrightarrow> s \<noteq> [] \<Longrightarrow> length rest < length s"
  using scan_string_shorter [of "tl s"] scan_number_shorter scan_word_shorter
  by (cases s) (fastforce simp: scan_token_def split: option.splits if_splits)+

function lex :: "pystr \<Rightarrow> token list" where
  "lex s =
     (if s = [] then []
      else if hd s \<in> {32, 9, 10, 13} then lex (tl s)
      else (case scan_token s of None \<Rightarrow> [TBad] | Some (t, rest) \<Rightarrow> t # lex rest))"
  by pat_completeness auto
termination by (relation "measure length") (auto dest: scan_token_shorter)

declare lex.simps [simp del] scan_string.simps [simp del]

section \<open>Reading\<close>

datatype decode_error = Refused CanonicalizationError | IntegerDigits

text \<open>\<open>_object_from_pairs\<close>: the pairs in order, the first repeated key refused.\<close>

fun object_from_pairs :: "members \<Rightarrow> (pystr \<times> pyval) list \<Rightarrow> decode_error + members" where
  "object_from_pairs ms [] = Inr ms"
| "object_from_pairs ms ((key, item) # pairs) =
     (if has_member ms key then Inl (Refused (DUPLICATE_KEY key))
      else object_from_pairs (ms @ [(KStr key, item)]) pairs)"

text \<open>The containers that are open around the value being read.\<close>

datatype frame = InArray "pyval list" | InObject "(pystr \<times> pyval) list" pystr

type_synonym object_hook = "(pystr \<times> pyval) list \<Rightarrow> decode_error + members"

abbreviation malformed :: "decode_error + 'a" where
  "malformed \<equiv> Inl (Refused MALFORMED_TEXT)"

text \<open>A member name and its colon.\<close>

definition key_colon :: "token list \<Rightarrow> (pystr \<times> token list) option" where
  "key_colon ts = (case ts of TStr key # Colon # rest \<Rightarrow> Some (key, rest) | _ \<Rightarrow> None)"

lemma key_colon_shorter: "key_colon ts = Some (key, rest) \<Longrightarrow> length rest < length ts"
  by (auto simp: key_colon_def split: list.splits token.splits)

function read_value :: "object_hook \<Rightarrow> token list \<Rightarrow> frame list \<Rightarrow> decode_error + pyval"
  and resume :: "object_hook \<Rightarrow> pyval \<Rightarrow> token list \<Rightarrow> frame list \<Rightarrow> decode_error + pyval" where
  "read_value hook ts st =
     (case ts of
        [] \<Rightarrow> malformed
      | t # rest \<Rightarrow>
          (case t of
             TNull \<Rightarrow> resume hook PNone rest st
           | TTrue \<Rightarrow> resume hook (PBool True) rest st
           | TFalse \<Rightarrow> resume hook (PBool False) rest st
           | TStr s \<Rightarrow> resume hook (PStr s) rest st
           | TInt n \<Rightarrow> resume hook (PInt n) rest st
           | TFloat \<Rightarrow> resume hook (POther 0) rest st
           | THuge \<Rightarrow> Inl IntegerDigits
           | LBracket \<Rightarrow>
               if rest \<noteq> [] \<and> hd rest = RBracket then resume hook (PList []) (tl rest) st
               else read_value hook rest (InArray [] # st)
           | LBrace \<Rightarrow>
               if rest \<noteq> [] \<and> hd rest = RBrace then resume hook (PDict []) (tl rest) st
               else (case key_colon rest of
                       Some (key, rest') \<Rightarrow> read_value hook rest' (InObject [] key # st)
                     | None \<Rightarrow> malformed)
           | _ \<Rightarrow> malformed))"
| "resume hook v ts st =
     (case st of
        [] \<Rightarrow> if ts = [] then Inr v else malformed
      | InArray vs # outer \<Rightarrow>
          if ts \<noteq> [] \<and> hd ts = Comma then read_value hook (tl ts) (InArray (vs @ [v]) # outer)
          else if ts \<noteq> [] \<and> hd ts = RBracket then resume hook (PList (vs @ [v])) (tl ts) outer
          else malformed
      | InObject pairs key # outer \<Rightarrow>
          if ts \<noteq> [] \<and> hd ts = Comma then
            (case key_colon (tl ts) of
               Some (key', rest) \<Rightarrow> read_value hook rest (InObject (pairs @ [(key, v)]) key' # outer)
             | None \<Rightarrow> malformed)
          else if ts \<noteq> [] \<and> hd ts = RBrace then
            (case hook (pairs @ [(key, v)]) of
               Inl error \<Rightarrow> Inl error
             | Inr d \<Rightarrow> resume hook (PDict d) (tl ts) outer)
          else malformed)"
  by pat_completeness auto
termination
  by (relation "measure (\<lambda>x. case x of Inl (hook, ts, st) \<Rightarrow> length ts | Inr (hook, v, ts, st) \<Rightarrow> length ts)")
    (auto dest: key_colon_shorter)

declare read_value.simps [simp del] resume.simps [simp del]

text \<open>\<open>json.loads(text, object_pairs_hook=hook)\<close>, and without the hook, when a repeated key keeps its place and
  takes the last value.\<close>

definition loads_with :: "object_hook \<Rightarrow> pystr \<Rightarrow> decode_error + pyval" where
  "loads_with hook text = read_value hook (lex text) []"

fun set_member :: "pystr \<Rightarrow> pyval \<Rightarrow> members \<Rightarrow> members" where
  "set_member key item [] = [(KStr key, item)]"
| "set_member key item (m # ms) = (if fst m = KStr key then (KStr key, item) # ms else m # set_member key item ms)"

definition merge_pairs :: object_hook where
  "merge_pairs pairs = Inr (foldl (\<lambda>ms (key, item). set_member key item ms) [] pairs)"

definition loads :: "pystr \<Rightarrow> decode_error + pyval" where
  "loads text = loads_with merge_pairs text"

definition decode_text :: "(pystr \<Rightarrow> pystr) \<Rightarrow> pystr \<Rightarrow> decode_error + pyval" where
  "decode_text nfc text =
     bindE (loads_with (object_from_pairs []) text) (\<lambda>val.
       case canonical_bytes nfc val of Inl error \<Rightarrow> Inl (Refused error) | Inr bytes \<Rightarrow> Inr val)"

section \<open>Bytes\<close>

text \<open>\<open>bytes.decode(json.detect_encoding(b), "surrogatepass")\<close>: the encoding is told from the byte order mark or the
  place of the first zero bytes, and \<open>None\<close> is the UnicodeDecodeError.\<close>

definition continuation :: "nat \<Rightarrow> bool" where
  "continuation b \<longleftrightarrow> 0x80 \<le> b \<and> b < 0xC0"

fun utf8_decode :: "nat list \<Rightarrow> pystr option" where
  "utf8_decode [] = Some []"
| "utf8_decode (a # rest) =
     (if a < 0x80 then map_option (Cons a) (utf8_decode rest)
      else case rest of
        b # rest2 \<Rightarrow>
          if \<not> continuation b then None
          else if 0xC2 \<le> a \<and> a < 0xE0 then map_option (Cons ((a - 0xC0) * 0x40 + (b - 0x80))) (utf8_decode rest2)
          else (case rest2 of
            c # rest3 \<Rightarrow>
              if \<not> continuation c then None
              else if 0xE0 \<le> a \<and> a < 0xF0 then
                let u = ((a - 0xE0) * 0x40 + (b - 0x80)) * 0x40 + (c - 0x80)
                in if u < 0x800 then None else map_option (Cons u) (utf8_decode rest3)
              else (case rest3 of
                d # rest4 \<Rightarrow>
                  let u = (((a - 0xF0) * 0x40 + (b - 0x80)) * 0x40 + (c - 0x80)) * 0x40 + (d - 0x80)
                  in if \<not> continuation d \<or> a < 0xF0 \<or> u < 0x10000 \<or> u > 0x10FFFF then None
                     else map_option (Cons u) (utf8_decode rest4)
              | [] \<Rightarrow> None)
          | [] \<Rightarrow> None)
      | [] \<Rightarrow> None)"

text \<open>Sixteen-bit units to characters, a lone surrogate passing as itself.\<close>

fun join_surrogates :: "nat list \<Rightarrow> pystr" where
  "join_surrogates (u # l # rest) =
     (if 0xD800 \<le> u \<and> u \<le> 0xDBFF \<and> 0xDC00 \<le> l \<and> l \<le> 0xDFFF
      then (0x10000 + (u - 0xD800) * 0x400 + (l - 0xDC00)) # join_surrogates rest
      else u # join_surrogates (l # rest))"
| "join_surrogates units = units"

fun units16 :: "bool \<Rightarrow> nat list \<Rightarrow> nat list option" where
  "units16 big [] = Some []"
| "units16 big (a # b # rest) = map_option (Cons (if big then a * 0x100 + b else b * 0x100 + a)) (units16 big rest)"
| "units16 big [a] = None"

fun units32 :: "bool \<Rightarrow> nat list \<Rightarrow> pystr option" where
  "units32 big [] = Some []"
| "units32 big (a # b # c # d # rest) =
     (let u = (if big then ((a * 0x100 + b) * 0x100 + c) * 0x100 + d else ((d * 0x100 + c) * 0x100 + b) * 0x100 + a)
      in if u > 0x10FFFF then None else map_option (Cons u) (units32 big rest))"
| "units32 big _ = None"

datatype encoding = UTF8 | UTF16 bool | UTF32 bool

text \<open>The encoding and the length of the byte order mark its codec drops.\<close>

definition detect_encoding :: "nat list \<Rightarrow> encoding \<times> nat" where
  "detect_encoding b =
     (if take 4 b = [0, 0, 0xFE, 0xFF] then (UTF32 True, 4)
      else if take 4 b = [0xFF, 0xFE, 0, 0] then (UTF32 False, 4)
      else if take 2 b = [0xFE, 0xFF] then (UTF16 True, 2)
      else if take 2 b = [0xFF, 0xFE] then (UTF16 False, 2)
      else if take 3 b = [0xEF, 0xBB, 0xBF] then (UTF8, 3)
      else if length b \<ge> 4 \<and> b ! 0 = 0 then (if b ! 1 \<noteq> 0 then UTF16 True else UTF32 True, 0)
      else if length b \<ge> 4 \<and> b ! 1 = 0 then (if b ! 2 \<noteq> 0 \<or> b ! 3 \<noteq> 0 then UTF16 False else UTF32 False, 0)
      else if length b = 2 \<and> b ! 0 = 0 then (UTF16 True, 0)
      else if length b = 2 \<and> b ! 1 = 0 then (UTF16 False, 0)
      else (UTF8, 0))"

definition text_of_bytes :: "nat list \<Rightarrow> pystr option" where
  "text_of_bytes b =
     (case detect_encoding b of
        (UTF8, n) \<Rightarrow> utf8_decode (drop n b)
      | (UTF16 big, n) \<Rightarrow> map_option join_surrogates (units16 big (drop n b))
      | (UTF32 big, n) \<Rightarrow> units32 big (drop n b))"

definition decode_bytes :: "(pystr \<Rightarrow> pystr) \<Rightarrow> nat list \<Rightarrow> decode_error + pyval" where
  "decode_bytes nfc b = (case text_of_bytes b of None \<Rightarrow> malformed | Some text \<Rightarrow> decode_text nfc text)"

end
