(* ===== verification/JsonRoundTrip.thy ===== *)
theory JsonRoundTrip
  imports Json
begin

text \<open>
  Canonical bytes decode to the value they were made from. The text of a canonical value scans to its tokens
  and the tokens read back to the value; the bytes are UTF-8 without a byte order mark or zero byte,
  so they are recognised as such.
\<close>

section \<open>Scanning canonical text\<close>

lemma hex4_read: "c < 32 \<Longrightarrow> read_u (hex4 c @ rest) = Some c"
proof -
  assume "c < 32"
  then have "c div 0x1000 = 0" "c div 0x100 = 0" "c div 16 < 2" "c = c div 16 * 16 + c mod 16" by simp_all
  moreover have "hex_value (hex_digit d) = Some d" if "d < 16" for d
    using that by (auto simp: hex_value_def hex_digit_def)
  ultimately show ?thesis by (simp add: hex4_def)
qed

lemma read_escape_control: "c < 32 \<Longrightarrow> read_escape (117 # hex4 c @ rest) = Some (c, rest)"
proof -
  assume c: "c < 32"
  have "drop 4 (hex4 c @ rest) = rest" by (simp add: hex4_def)
  with c hex4_read [OF c, of rest] show ?thesis by (simp add: read_escape_def UNESCAPES_def)
qed

lemma scan_string_escape:
  "scan_string (escape c @ rest) = map_option (\<lambda>(s, r). (c # s, r)) (scan_string rest)"
proof (cases c rule: escape_cases)
  case 1
  then show ?thesis by (simp add: scan_string.simps)
next
  case (2 d)
  then have "read_escape (d # rest) = Some (c, rest)" by (auto simp: read_escape_def UNESCAPES_def split: if_splits)
  with 2 show ?thesis by (simp add: scan_string.simps)
next
  case 3
  with read_escape_control [of c rest] show ?thesis by (simp add: scan_string.simps)
qed

lemma scan_string_body: "scan_string (concat (map escape s) @ 34 # rest) = Some (s, rest)"
proof (induction s)
  case Nil
  show ?case by (simp add: scan_string.simps)
next
  case (Cons c s)
  then show ?case using scan_string_escape [of c "concat (map escape s) @ 34 # rest"] by simp
qed

lemma decimal_hd: "0 < n \<Longrightarrow> hd (decimal n) \<noteq> 48"
proof (induction n rule: decimal.induct)
  case (1 n)
  show ?case
  proof (cases "n < 10")
    case True
    with 1(2) show ?thesis by (subst decimal.simps) simp
  next
    case False
    then have "hd (decimal n) = hd (decimal (n div 10))" by (subst decimal.simps) simp
    with 1(1) False show ?thesis by simp
  qed
qed

lemma integer_part_decimal:
  assumes "delim rest"
  shows "integer_part (decimal n @ rest) = decimal n"
proof (cases "n = 0")
  case True
  then show ?thesis by (simp add: integer_part_def decimal.simps)
next
  case False
  have "takeWhile is_digit rest = []" using assms by (cases rest) (auto simp: is_digit_def)
  then have "takeWhile is_digit (decimal n @ rest) = decimal n" by (simp add: takeWhile_append2 decimal_digits)
  with False decimal_hd [of n] show ?thesis by (simp add: integer_part_def)
qed

lemma delim_number: "delim rest \<Longrightarrow> drop_fraction rest = rest \<and> drop_exponent rest = rest"
  by (cases rest) (auto simp: drop_fraction_def drop_exponent_def)

lemma scan_number_canon:
  assumes "delim rest" "length (decimal (nat \<bar>n\<bar>)) \<le> INT_MAX_STR_DIGITS"
  shows "scan_number (str_int n @ rest) = Some (TInt n, rest)"
proof -
  have digit: "hd (decimal m @ rest) \<noteq> 45" for m
    using decimal_head [of m] by (auto simp: is_digit_def)
  show ?thesis
    using assms digit integer_part_decimal [OF assms(1)] delim_number [OF assms(1)]
    by (cases "n < 0") (simp_all add: scan_number_def str_int_def Let_def)
qed

lemma not_structural: "is_digit c \<or> c = 45 \<Longrightarrow> map_of PUNCTUATION c = None \<and> c \<noteq> 34 \<and> c \<notin> {32, 9, 10, 13}"
  by (auto simp: PUNCTUATION_def is_digit_def)

lemma lex_number:
  assumes "delim rest" "length (decimal (nat \<bar>n\<bar>)) \<le> INT_MAX_STR_DIGITS"
  shows "lex (str_int n @ rest) = TInt n # lex rest"
proof -
  obtain c r where c: "str_int n = c # r" "is_digit c \<or> c = 45"
    using decimal_head [of "nat n"] by (cases "n < 0") (auto simp: str_int_def)
  have "scan_token (str_int n @ rest) = Some (TInt n, rest)"
    using not_structural [OF c(2)] scan_number_canon [OF assms] by (simp add: scan_token_def c(1))
  then show ?thesis using not_structural [OF c(2)] by (subst lex.simps) (simp add: c(1))
qed

lemma lex_string: "lex (34 # concat (map escape s) @ 34 # rest) = TStr s # lex rest"
  by (subst lex.simps) (simp add: scan_token_def PUNCTUATION_def scan_string_body)

lemma lex_punctuation:
  assumes "map_of PUNCTUATION c = Some t"
  shows "lex (c # rest) = t # lex rest"
proof -
  from assms have "c \<notin> {32, 9, 10, 13}" by (auto simp: PUNCTUATION_def split: if_splits)
  with assms show ?thesis by (subst lex.simps) (simp add: scan_token_def)
qed

lemma lex_punctuations [simp]:
  "lex (123 # rest) = LBrace # lex rest" "lex (125 # rest) = RBrace # lex rest" "lex (91 # rest) = LBracket # lex rest"
  "lex (93 # rest) = RBracket # lex rest" "lex (44 # rest) = Comma # lex rest" "lex (58 # rest) = Colon # lex rest"
  by (simp_all add: lex_punctuation PUNCTUATION_def)

lemma lex_words:
  "lex (lit ''null'' @ rest) = TNull # lex rest" "lex (lit ''true'' @ rest) = TTrue # lex rest"
  "lex (lit ''false'' @ rest) = TFalse # lex rest"
  by (subst lex.simps; simp add: scan_token_def PUNCTUATION_def scan_number_def integer_part_def scan_word_def WORDS_def
    lit_def is_digit_def)+

section \<open>Tokens of a canonical value\<close>

text \<open>A value that JSON text can carry and that a Python dictionary can be: no other objects, integers
  within the conversion limit, text keys, no key twice.\<close>

fun json_ok :: "pyval \<Rightarrow> bool" where
  "json_ok (PInt n) \<longleftrightarrow> length (decimal (nat \<bar>n\<bar>)) \<le> INT_MAX_STR_DIGITS"
| "json_ok (PList vs) \<longleftrightarrow> (\<forall>v \<in> set vs. json_ok v)"
| "json_ok (PDict d) \<longleftrightarrow> distinct (dict_keys d) \<and> (\<forall>p \<in> set d. fst p = KStr (key_text (fst p)) \<and> json_ok (snd p))"
| "json_ok (POther x) \<longleftrightarrow> False"
| "json_ok _ \<longleftrightarrow> True"

fun commas :: "token list list \<Rightarrow> token list" where
  "commas [] = []"
| "commas [w] = w"
| "commas (w # ws) = w @ Comma # commas ws"

fun tokens :: "pyval \<Rightarrow> token list" where
  "tokens PNone = [TNull]"
| "tokens (PBool b) = [if b then TTrue else TFalse]"
| "tokens (PInt n) = [TInt n]"
| "tokens (PStr s) = [TStr s]"
| "tokens (PList vs) = LBracket # commas (map tokens vs) @ [RBracket]"
| "tokens (PDict d) = LBrace # commas (map (\<lambda>p. TStr (key_text (fst p)) # Colon # tokens (snd p)) d) @ [RBrace]"
| "tokens (POther x) = []"

lemma lex_join:
  assumes "\<And>x rest. x \<in> set xs \<Longrightarrow> delim rest \<Longrightarrow> lex (f x @ rest) = g x @ lex rest" "delim (c # rest)"
  shows "lex (join_with 44 (map f xs) @ c # rest) = commas (map g xs) @ lex (c # rest)"
  using assms(1)
proof (induction xs)
  case (Cons x xs)
  show ?case
  proof (cases xs)
    case Nil
    with Cons.prems [of x "c # rest"] assms(2) show ?thesis by simp
  next
    case (Cons y ys)
    have "lex (join_with 44 (map f (x # xs)) @ c # rest) = lex (f x @ 44 # join_with 44 (map f xs) @ c # rest)"
      by (simp add: Cons)
    also have "\<dots> = g x @ Comma # commas (map g xs) @ lex (c # rest)"
      using Cons.prems [of x] Cons.IH Cons.prems by simp
    also have "\<dots> = commas (map g (x # xs)) @ lex (c # rest)" by (simp add: Cons)
    finally show ?thesis .
  qed
qed simp

lemma lex_canon: "json_ok v \<Longrightarrow> delim rest \<Longrightarrow> lex (text_of_canon v @ rest) = tokens v @ lex rest"
proof (induction v arbitrary: rest rule: tokens.induct)
  case (5 vs)
  then have "lex (join_with 44 (map text_of_canon vs) @ 93 # rest) = commas (map tokens vs) @ lex (93 # rest)"
    by (intro lex_join) auto
  then show ?case by simp
next
  case (6 d)
  let ?text = "\<lambda>p. 34 # concat (map escape (key_text (fst p))) @ 34 # 58 # text_of_canon (snd p)"
  have "lex (join_with 44 (map ?text d) @ 125 # rest) =
      commas (map (\<lambda>p. TStr (key_text (fst p)) # Colon # tokens (snd p)) d) @ lex (125 # rest)"
    using 6 by (intro lex_join) (auto simp: lex_string)
  then show ?case by (simp add: case_prod_unfold)
qed (simp_all add: lex_words lex_number lex_string encode_boolean_def)

section \<open>Reading the tokens\<close>

abbreviation strict :: object_hook where
  "strict \<equiv> object_from_pairs []"

lemma read_simps [simp]:
  "read_value hook (TNull # ts) st = resume hook PNone ts st" "read_value hook (TTrue # ts) st = resume hook (PBool True) ts st"
  "read_value hook (TFalse # ts) st = resume hook (PBool False) ts st" "read_value hook (TStr s # ts) st = resume hook (PStr s) ts st"
  "read_value hook (TInt n # ts) st = resume hook (PInt n) ts st"
  "read_value hook (LBracket # RBracket # ts) st = resume hook (PList []) ts st"
  "read_value hook (LBrace # RBrace # ts) st = resume hook (PDict []) ts st"
  "read_value hook (LBrace # TStr k # Colon # ts) st = read_value hook ts (InObject [] k # st)"
  "resume hook v (Comma # ts) (InArray vs # st) = read_value hook ts (InArray (vs @ [v]) # st)"
  "resume hook v (RBracket # ts) (InArray vs # st) = resume hook (PList (vs @ [v])) ts st"
  "resume hook v (Comma # TStr k' # Colon # ts) (InObject ps k # st) = read_value hook ts (InObject (ps @ [(k, v)]) k' # st)"
  "resume hook v (RBrace # ts) (InObject ps k # st) =
     (case hook (ps @ [(k, v)]) of Inl e \<Rightarrow> Inl e | Inr d \<Rightarrow> resume hook (PDict d) ts st)"
  by (simp_all add: read_value.simps resume.simps key_colon_def split: sum.splits)

lemma object_from_pairs_distinct:
  "distinct (map fst ps) \<Longrightarrow> (\<forall>k \<in> set (map fst ps). \<not> has_member ms k) \<Longrightarrow>
     object_from_pairs ms ps = Inr (ms @ map (\<lambda>(k, v). (KStr k, v)) ps)"
proof (induction ps arbitrary: ms)
  case (Cons p ps)
  obtain k v where p: "p = (k, v)" by (cases p)
  have "\<forall>x \<in> set (map fst ps). \<not> has_member (ms @ [(KStr k, v)]) x"
    using Cons.prems by (auto simp: p has_member_def)
  with Cons show ?case by (simp add: p)
qed simp

lemma commas_concat: "commas (map f (x # xs)) = f x @ concat (map (\<lambda>y. Comma # f y) xs)"
  by (induction xs arbitrary: x) simp_all

lemma read_elements:
  assumes "\<And>v ts st. v \<in> set vs \<Longrightarrow> read_value hook (tokens v @ ts) st = resume hook v ts st"
  shows "resume hook v (concat (map (\<lambda>y. Comma # tokens y) vs) @ RBracket # ts) (InArray acc # st)
    = resume hook (PList (acc @ v # vs)) ts st"
  using assms by (induction vs arbitrary: v acc) simp_all

lemma read_members:
  assumes "\<And>p ts st. p \<in> set ps \<Longrightarrow> read_value strict (tokens (snd p) @ ts) st = resume strict (snd p) ts st"
    and "distinct (map fst acc @ k # map (\<lambda>p. key_text (fst p)) ps)"
  shows "resume strict v (concat (map (\<lambda>p. Comma # TStr (key_text (fst p)) # Colon # tokens (snd p)) ps) @ RBrace # ts)
      (InObject acc k # st)
    = resume strict (PDict (map (\<lambda>(k, v). (KStr k, v)) (acc @ [(k, v)]) @ map (\<lambda>p. (KStr (key_text (fst p)), snd p)) ps)) ts st"
  using assms
proof (induction ps arbitrary: v k acc)
  case Nil
  then have "object_from_pairs [] (acc @ [(k, v)]) = Inr (map (\<lambda>(k, v). (KStr k, v)) (acc @ [(k, v)]))"
    by (subst object_from_pairs_distinct) (auto simp: has_member_def)
  then show ?case by simp
next
  case (Cons p ps)
  show ?case using Cons.IH [of "acc @ [(k, v)]" "key_text (fst p)" "snd p"] Cons.prems by simp
qed

lemma tokens_head: "json_ok v \<Longrightarrow> \<exists>t r. tokens v = t # r \<and> t \<noteq> RBracket"
  by (cases v) auto

lemma read_tokens: "json_ok v \<Longrightarrow> read_value strict (tokens v @ ts) st = resume strict v ts st"
proof (induction v arbitrary: ts st rule: tokens.induct)
  case (5 vs)
  show ?case
  proof (cases vs)
    case (Cons w ws)
    with 5(2) have w: "json_ok w" by simp
    obtain t r where t: "tokens w = t # r" "t \<noteq> RBracket" using tokens_head [OF w] by blast
    have "read_value strict (tokens (PList vs) @ ts) st
        = read_value strict (tokens w @ concat (map (\<lambda>y. Comma # tokens y) ws) @ RBracket # ts) (InArray [] # st)"
      using t commas_concat [of tokens w ws] by (subst read_value.simps) (simp add: Cons del: commas.simps)
    also have "\<dots> = resume strict w (concat (map (\<lambda>y. Comma # tokens y) ws) @ RBracket # ts) (InArray [] # st)"
      using 5 Cons by simp
    also have "\<dots> = resume strict (PList vs) ts st"
      using 5 Cons by (subst read_elements) simp_all
    finally show ?thesis .
  qed simp
next
  case (6 d)
  show ?case
  proof (cases d)
    case (Cons p ps)
    let ?f = "\<lambda>p. TStr (key_text (fst p)) # Colon # tokens (snd p)"
    have keys: "map (\<lambda>p. (KStr (key_text (fst p)), snd p)) d = d" using 6(2) by (intro map_idI) auto
    have eq: "map (\<lambda>p. KStr (key_text (fst p))) d = map fst d" by (rule map_cong) (use 6(2) in auto)
    from 6(2) have "distinct (map fst d)" by simp
    then have "distinct (map (\<lambda>p. KStr (key_text (fst p))) d)" unfolding eq .
    then have dist: "distinct (map (\<lambda>p. key_text (fst p)) d)" by (simp add: distinct_map inj_on_def)
    have "read_value strict (tokens (PDict d) @ ts) st
        = read_value strict (tokens (snd p) @ concat (map (\<lambda>y. Comma # ?f y) ps) @ RBrace # ts) (InObject [] (key_text (fst p)) # st)"
      using commas_concat [of ?f p ps] by (simp add: Cons del: commas.simps)
    also have "\<dots> = resume strict (snd p) (concat (map (\<lambda>y. Comma # ?f y) ps) @ RBrace # ts) (InObject [] (key_text (fst p)) # st)"
      using 6 Cons by simp
    also have "\<dots> = resume strict (PDict d) ts st"
      using 6 Cons dist keys by (subst read_members) auto
    finally show ?thesis .
  qed simp
qed simp_all

lemma strict_loads_canon: "json_ok v \<Longrightarrow> loads_with strict (text_of_canon v) = Inr v"
proof -
  assume v: "json_ok v"
  have "lex (text_of_canon v) = tokens v" using lex_canon [OF v, of "[]"] by (simp add: lex.simps [of "[]"])
  moreover have "read_value strict (tokens v) [] = resume strict v [] []" using read_tokens [OF v, of "[]" "[]"] by simp
  ultimately show ?thesis by (simp add: loads_with_def resume.simps)
qed

section \<open>Canonical values are JSON values\<close>

text \<open>What a Python value always satisfies: no dictionary has a key twice.\<close>

fun dict_ok :: "pyval \<Rightarrow> bool" where
  "dict_ok (PList vs) \<longleftrightarrow> (\<forall>v \<in> set vs. dict_ok v)"
| "dict_ok (PDict d) \<longleftrightarrow> distinct (dict_keys d) \<and> (\<forall>p \<in> set d. dict_ok (snd p))"
| "dict_ok _ \<longleftrightarrow> True"

lemma canonical_key_ascii: "canonical_key k = Inr t \<Longrightarrow> ascii t"
proof -
  assume "canonical_key k = Inr t"
  then have t: "fullmatch CANONICAL_KEY_PATTERN t" by (cases k) (auto split: if_splits)
  show "ascii t" unfolding ascii_def
  proof
    fix c assume "c \<in> set t"
    from fullmatch_alphabet [OF t this] show "c < 128" by (auto simp: CANONICAL_KEY_PATTERN_def)
  qed
qed

lemma canon_members:
  assumes "\<forall>s. ascii s \<longrightarrow> nfc s = s" "canonical_members d = Inr ms"
  shows "map (\<lambda>(k, v). (KStr (nfc (key_text k)), canon nfc v)) (by_key d) = map (\<lambda>(k, v). (k, canon nfc v)) (by_key d)"
proof (rule map_cong [OF refl])
  fix x assume "x \<in> set (by_key d)"
  then have "x \<in> set d" by simp
  moreover obtain k v where "x = (k, v)" by (rule prod.exhaust)
  ultimately have x: "x = (k, v)" "(k, v) \<in> set d" by simp_all
  from canonical_members_key [OF assms(2) x(2)] have k: "canonical_key k = Inr (key_text k)" "k = KStr (key_text k)" by auto
  from assms(1) canonical_key_ascii [OF k(1)] have "nfc (key_text k) = key_text k" by blast
  with k(2) show "(\<lambda>(k, v). (KStr (nfc (key_text k)), canon nfc v)) x = (\<lambda>(k, v). (k, canon nfc v)) x"
    by (simp add: x(1))
qed

lemma canon_json_ok:
  assumes nfc: "\<forall>s. ascii s \<longrightarrow> nfc s = s"
  shows "encode nfc v = Inr t \<Longrightarrow> dict_ok v \<Longrightarrow> json_ok (canon nfc v)"
proof (induction v arbitrary: t)
  case (PInt n)
  then have "nat \<bar>n\<bar> < 10 ^ Suc 15" by (auto simp: encode_integer_def MAX_SAFE_INTEGER_def split: if_splits)
  from length_decimal [OF this] show ?case by (simp add: INT_MAX_STR_DIGITS_def)
next
  case (PList vs)
  then obtain ts where ts: "mapE (encode nfc) vs = Inr ts" by auto
  have "json_ok (canon nfc v)" if "v \<in> set vs" for v
    using mapE_InrD [OF ts that] PList.IH [OF that] PList.prems(2) that by auto
  then show ?case by simp
next
  case (PDict d)
  then obtain ms ts where ms: "canonical_members d = Inr ms" "mapE (encode_member nfc) (sort_key fst ms) = Inr ts"
    by (auto simp: encode_PDict)
  have "json_ok (canon nfc v) \<and> k = KStr (key_text k)" if kv: "(k, v) \<in> set d" for k v
  proof -
    from kv have "(key_text k, v) \<in> set (sort_key fst ms)" by (force simp: canonical_members_map [OF ms(1)])
    from mapE_InrD [OF ms(2) this] obtain x where "encode nfc v = Inr x" by (auto simp: encode_member_def)
    moreover have "v \<in> Basic_BNFs.snds (k, v)" by (simp add: prod_set_defs)
    ultimately show ?thesis
      using PDict.IH [OF kv] PDict.prems(2) kv canonical_members_key [OF ms(1) kv] by force
  qed
  moreover have "distinct (map fst (by_key d))"
    using PDict.prems(2) by (simp add: by_key_def distinct_map)
  ultimately show ?case
    unfolding canon.simps canon_members [OF nfc ms(1)] by (auto simp: comp_def case_prod_unfold)
qed (auto simp: encode_string_def)

lemma encode_string_normalized:
  assumes idem: "\<forall>s. nfc (nfc s) = nfc s" and "encode_string nfc s = Inr t"
  shows "encode_string nfc (nfc s) = Inr t"
proof -
  from assms(2) obtain b where b: "utf8 (nfc s) = Some b" "length b \<le> MAX_STRING_BYTES"
    and t: "t = 34 # concat (map escape (nfc s)) @ [34]"
    by (auto simp: encode_string_def utf8_bytes_def Let_def split: option.splits if_splits)
  have "utf8 x = None" if "c \<in> set x" "SURROGATE_FIRST_CODE_POINT \<le> c" "c \<le> SURROGATE_LAST_CODE_POINT" for c x
    using that by (induction x) (auto simp: utf8_char_def is_surrogate_def SURROGATE_FIRST_CODE_POINT_def
        SURROGATE_LAST_CODE_POINT_def split: option.splits)
  with b(1) have "reject_lone_surrogate (nfc s) = Inr ()" by (fastforce simp: reject_lone_surrogate_def)
  with b t idem show ?thesis by (simp add: encode_string_def utf8_bytes_def)
qed

lemma encode_canon:
  assumes nfc: "\<forall>s. ascii s \<longrightarrow> nfc s = s" "\<forall>s. nfc (nfc s) = nfc s"
  shows "encode nfc v = Inr t \<Longrightarrow> encode nfc (canon nfc v) = Inr t"
proof (induction v arbitrary: t)
  case (PStr s)
  then show ?case using encode_string_normalized [OF nfc(2)] by simp
next
  case (PList vs)
  then obtain ts where ts: "mapE (encode nfc) vs = Inr ts" and t: "t = 91 # join_with 44 ts @ [93]" by auto
  have "mapE (encode nfc) (map (canon nfc) vs) = Inr ts"
    using ts PList.IH unfolding mapE_Inr_iff by (auto simp: list_all2_conv_all_nth)
  with t show ?case by simp
next
  case (PDict d)
  then obtain ms ts where ms: "canonical_members d = Inr ms" "mapE (encode_member nfc) (sort_key fst ms) = Inr ts"
    and t: "t = 123 # join_with 44 ts @ [125]" by (auto simp: encode_PDict)
  let ?d = "map (\<lambda>(k, v). (k, canon nfc v)) (by_key d)"
  let ?ms = "map (\<lambda>(k, v). (key_text k, canon nfc v)) (by_key d)"
  have keys: "canonical_key k = Inr (key_text k)" if "(k, v) \<in> set d" for k v
    using canonical_members_key [OF ms(1) that] by simp
  have "canonical_members ?d = Inr ?ms"
    unfolding canonical_members_def using keys by (subst mapE_all_Inr [where g = "\<lambda>(k, v). (key_text k, v)"]) auto
  moreover have "sort_key fst ?ms = ?ms"
    by (rule sort_key_id_if_sorted) (simp add: by_key_def comp_def case_prod_unfold)
  moreover have "mapE (encode_member nfc) ?ms = Inr ts"
  proof -
    have "encode_member nfc (key_text k, canon nfc v) = Inr y"
      if kv: "(k, v) \<in> set d" and y: "encode_member nfc (key_text k, v) = Inr y" for k v y
    proof -
      from y obtain a b where "encode_string nfc (key_text k) = Inr a" "encode nfc v = Inr b" "y = a @ 58 # b"
        by (auto simp: encode_member_def)
      moreover have "v \<in> Basic_BNFs.snds (k, v)" by (simp add: prod_set_defs)
      ultimately show ?thesis using PDict.IH [OF kv] by (simp add: encode_member_def)
    qed
    moreover have "nth (by_key d) i \<in> set d" if "i < length (by_key d)" for i
      using nth_mem [OF that] by simp
    moreover from ms(2) have "mapE (encode_member nfc) (map (\<lambda>(k, v). (key_text k, v)) (by_key d)) = Inr ts"
      by (simp only: canonical_members_sorted [OF ms(1)])
    ultimately show ?thesis
      unfolding mapE_Inr_iff by (auto simp: list_all2_conv_all_nth case_prod_unfold)
  qed
  ultimately show ?case
    unfolding canon.simps canon_members [OF nfc(1) ms(1)] by (simp add: encode_PDict t)
qed simp_all

section \<open>Bytes\<close>

lemma utf8_char_bytes:
  assumes "utf8_char c = Some bs"
  obtains (one) "c < 0x80" "bs = [c]"
  | (two) a b where "bs = [a, b]" "0xC2 \<le> a" "a < 0xE0" "continuation b" "c = (a - 0xC0) * 0x40 + (b - 0x80)"
  | (three) a b d where "bs = [a, b, d]" "0xE0 \<le> a" "a < 0xF0" "continuation b" "continuation d" "0x800 \<le> c"
      "c = ((a - 0xE0) * 0x40 + (b - 0x80)) * 0x40 + (d - 0x80)"
  | (four) a b d e where "bs = [a, b, d, e]" "0xF0 \<le> a" "continuation b" "continuation d" "continuation e"
      "0x10000 \<le> c" "c \<le> 0x10FFFF" "c = (((a - 0xF0) * 0x40 + (b - 0x80)) * 0x40 + (d - 0x80)) * 0x40 + (e - 0x80)"
proof -
  have low: "continuation (0x80 + n mod 0x40)" for n :: nat by (simp add: continuation_def)
  note v = utf8_value_char [OF assms]
  consider "c < 0x80" | "0x80 \<le> c" "c < 0x800" | "0x800 \<le> c" "c < 0x10000" | "0x10000 \<le> c" by linarith
  then show thesis
  proof cases
    case 1
    with assms show thesis by (intro one) (simp_all add: utf8_char_def)
  next
    case 2
    define q r where "q = c div 0x40" and "r = c mod 0x40"
    with 2 assms have bs: "bs = [0xC0 + q, 0x80 + r]" by (simp add: utf8_char_def)
    have "c = q * 0x40 + r" "r < 0x40" by (simp_all add: q_def r_def)
    with 2 show thesis by (intro two [OF bs]) (simp_all add: continuation_def)
  next
    case 3
    define p q r where "p = c div 0x1000" and "q = c div 0x40 mod 0x40" and "r = c mod 0x40"
    with 3 assms have bs: "bs = [0xE0 + p, 0x80 + q, 0x80 + r]" by (simp add: utf8_char_def split: if_splits)
    from v have "c = (p * 0x40 + q) * 0x40 + r" by (simp add: bs)
    moreover have "q < 0x40" "r < 0x40" by (simp_all add: q_def r_def)
    ultimately show thesis using 3 by (intro three [OF bs]) (simp_all add: continuation_def)
  next
    case 4
    define o' p q r where "o' = c div 0x40000" and "p = c div 0x1000 mod 0x40" and "q = c div 0x40 mod 0x40" and "r = c mod 0x40"
    with 4 assms have bs: "bs = [0xF0 + o', 0x80 + p, 0x80 + q, 0x80 + r]" and c: "c \<le> 0x10FFFF"
      by (simp_all add: utf8_char_def split: if_splits)
    from v have "c = ((o' * 0x40 + p) * 0x40 + q) * 0x40 + r" by (simp add: bs)
    moreover have "p < 0x40" "q < 0x40" "r < 0x40" by (simp_all add: p_def q_def r_def)
    ultimately show thesis using 4 c by (intro four [OF bs]) (simp_all add: continuation_def)
  qed
qed

lemma utf8_decode_char:
  assumes "utf8_char c = Some bs"
  shows "utf8_decode (bs @ rest) = map_option (Cons c) (utf8_decode rest)"
  using assms
proof (cases rule: utf8_char_bytes)
  case one
  then show ?thesis by simp
next
  case (two a b)
  then have "\<not> a < 0x80" by simp
  with two show ?thesis by (simp del: mult_Suc)
next
  case (three a b d)
  then have "\<not> a < 0x80" "\<not> a < 0xE0" "\<not> ((a - 0xE0) * 0x40 + (b - 0x80)) * 0x40 + (d - 0x80) < 0x800" by simp_all
  with three show ?thesis by (simp add: Let_def)
next
  case (four a b d e)
  then have "\<not> a < 0x80" "\<not> a < 0xE0" "\<not> a < 0xF0" by simp_all
  with four show ?thesis by (simp add: Let_def)
qed

lemma utf8_decode_utf8: "utf8 s = Some b \<Longrightarrow> utf8_decode b = Some s"
  by (induction s arbitrary: b) (auto simp: utf8_decode_char split: option.splits)

lemma in_join_with: "c \<in> set (join_with sep (map f xs)) \<Longrightarrow> c = sep \<or> (\<exists>x \<in> set xs. c \<in> set (f x))"
  using set_join_with [of sep "map f xs"] by auto

lemma escape_printable: "c \<in> set (escape d) \<Longrightarrow> 32 \<le> c"
  by (cases d rule: escape_cases) (auto simp: hex4_def hex_digit_def split: if_splits)

lemma str_int_printable: "c \<in> set (str_int n) \<Longrightarrow> 32 \<le> c"
  using decimal_digits by (fastforce simp: str_int_def is_digit_def split: if_splits)

lemma text_printable: "c \<in> set (text_of_canon v) \<Longrightarrow> 32 \<le> c"
proof (induction v arbitrary: c rule: tokens.induct)
  case (5 vs)
  then show ?case using in_join_with [of c 44 text_of_canon vs] by auto
next
  case (6 d)
  let ?f = "\<lambda>(k, v). (34 # concat (map escape (key_text k)) @ [34]) @ 58 # text_of_canon v"
  have member: "32 \<le> x" if "p \<in> set d" "x \<in> set (?f p)" for p x
  proof -
    from that(2) consider "x \<in> {34, 58}" | y where "x \<in> set (escape y)" | "x \<in> set (text_of_canon (snd p))"
      by (auto simp: case_prod_unfold)
    then show ?thesis using 6(1) [OF that(1)] escape_printable by cases auto
  qed
  from 6(2) have "c \<in> {123, 125} \<or> c \<in> set (join_with 44 (map ?f d))" unfolding text_of_canon.simps by simp
  with in_join_with [of c 44 ?f d] have "c \<in> {123, 125, 44} \<or> (\<exists>p \<in> set d. c \<in> set (?f p))" by blast
  then show ?case using member by fastforce
qed (auto simp: encode_boolean_def lit_def str_int_printable escape_printable split: if_splits)

lemma utf8_no_zero: "utf8 s = Some b \<Longrightarrow> 0 \<notin> set s \<Longrightarrow> 0 \<notin> set b"
proof (induction s arbitrary: b)
  case (Cons c s)
  then obtain x y where "utf8_char c = Some x" "utf8 s = Some y" "b = x @ y" by (auto split: option.splits)
  moreover from this(1) Cons.prems(2) have "0 \<notin> set x" by (auto simp: utf8_char_def split: if_splits)
  ultimately show ?case using Cons by auto
qed simp

lemma text_of_canonical_bytes:
  assumes "utf8 t = Some b" "t = c # r" "c < 0x80" "\<forall>x \<in> set t. 32 \<le> x"
  shows "text_of_bytes b = Some t"
proof -
  from assms(1-3) obtain rest where b: "b = c # rest" by (auto simp: utf8_char_def split: option.splits)
  from assms(4) have "0 \<notin> set t" by auto
  with assms(1) have zero: "0 \<notin> set b" by (rule utf8_no_zero)
  have "b ! 1 \<noteq> 0" if "2 \<le> length b" using zero that by (metis Suc_1 Suc_le_lessD nth_mem)
  with zero assms(3) have "detect_encoding b = (UTF8, 0)" by (auto simp: detect_encoding_def b)
  with utf8_decode_utf8 [OF assms(1)] show ?thesis by (simp add: text_of_bytes_def)
qed

section \<open>Properties\<close>

lemma decoded_canonical:
  assumes nfc: "\<forall>s. ascii s \<longrightarrow> nfc s = s" "\<forall>s. nfc (nfc s) = nfc s"
    and v: "dict_ok v" "canonical_bytes nfc v = Inr b"
  shows "decode_bytes nfc b = Inr (canon nfc v) \<and> canonical_bytes nfc (canon nfc v) = Inr b"
proof -
  from v(2) obtain t where t: "encode nfc v = Inr t" "utf8 t = Some b" by (auto simp: canonical_bytes_Inr)
  have canon: "t = text_of_canon (canon nfc v)" using t(1) by (rule encode_text)
  have "encode nfc (canon nfc v) = Inr t" using encode_canon [OF nfc t(1)] .
  with t(2) have bytes: "canonical_bytes nfc (canon nfc v) = Inr b" by (auto simp: canonical_bytes_Inr)
  have ok: "json_ok (canon nfc v)" using canon_json_ok [OF nfc(1) t(1) v(1)] .
  obtain c r where c: "t = c # r" "head_of v c" using encode_head [OF t(1)] by blast
  then have "c < 0x80" by (cases v) (auto simp: is_digit_def split: if_splits)
  moreover have "\<forall>x \<in> set t. 32 \<le> x" unfolding canon using text_printable by blast
  ultimately have "text_of_bytes b = Some t" using text_of_canonical_bytes [OF t(2) c(1)] by blast
  then have "decode_bytes nfc b = decode_text nfc (text_of_canon (canon nfc v))" by (simp add: decode_bytes_def canon)
  with bytes strict_loads_canon [OF ok] show ?thesis by (simp add: decode_text_def)
qed

text \<open>C33. Canonical bytes decode to the value they stand for: whatever value was serialized, decoding its bytes
  gives that value with its strings normalized and its members in key order, and serializing the
  decoded value gives the same bytes again. The Unicode normalization leaves ASCII alone and is idempotent.\<close>

theorem decode_canonical_bytes:
  assumes nfc: "\<forall>s. ascii s \<longrightarrow> nfc s = s" "\<forall>s. nfc (nfc s) = nfc s"
    and v: "dict_ok v" "canonical_bytes nfc v = Inr b"
  shows "decode_bytes nfc b = Inr (canon nfc v) \<and> canonical_bytes nfc (canon nfc v) = Inr b"
  using assms by (rule decoded_canonical)

theorem decode_canonical_bytes_witness:
  "decode_bytes id (lit ''{\"a\":[-7,true],\"b\":null}'') = Inr (PDict (obj [(''a'', PList [PInt (- 7), PBool True]), (''b'', PNone)]))"
proof -
  let ?v = "PDict (obj [(''b'', PNone), (''a'', PList [PInt (- 7), PBool True])])"
  have b: "canonical_bytes id ?v = Inr (lit ''{\"a\":[-7,true],\"b\":null}'')" by code_simp
  have "canon id ?v = PDict (obj [(''a'', PList [PInt (- 7), PBool True]), (''b'', PNone)])" by code_simp
  moreover have "decode_bytes id (lit ''{\"a\":[-7,true],\"b\":null}'') = Inr (canon id ?v)"
    using decode_canonical_bytes [of id ?v, OF _ _ _ b] by simp
  ultimately show ?thesis by simp
qed

text \<open>An integer of more digits than the interpreter converts is a plain ValueError, not one of the decoder's
  own refusals.\<close>

lemma decode_integer_digits:
  assumes "INT_MAX_STR_DIGITS < n"
  shows "decode_text nfc (replicate n 49) = Inl IntegerDigits"
proof -
  obtain m where n: "n = Suc m" using assms by (cases n) simp_all
  have part: "integer_part (replicate n 49) = replicate n 49"
    by (simp add: integer_part_def n is_digit_def takeWhile_eq_all_conv)
  then have "scan_number (replicate n 49) = Some (THuge, [])"
    using assms by (simp add: scan_number_def Let_def drop_fraction_def drop_exponent_def n)
  then have "scan_token (replicate n 49) = Some (THuge, [])"
    by (simp add: scan_token_def n PUNCTUATION_def)
  then have "lex (replicate n 49) = [THuge]"
    by (subst lex.simps) (simp add: n lex.simps [of "[]"])
  then show ?thesis by (simp add: decode_text_def loads_with_def read_value.simps)
qed

end
