(* ===== verification/Exchange.thy ===== *)
theory Exchange
  imports Policy Principals JsonRoundTrip
begin

text \<open>
  The request/reply exchange of the command gateway, \<open>services/command_gateway/src/aerial_rescue_command_gateway/\<close>:
  \<open>reply.py\<close> decides where an answer may go, \<open>record.py\<close> builds the record of an answer, \<open>exchange.py\<close>
  handles one message. The broker is what the source injects: a publisher that accepts a message or raises
  \<open>MessagingError\<close>; it is the parameter \<open>accepts\<close>, and the messages it accepted are returned in order.
\<close>

section \<open>Where an answer may go\<close>

definition REPLY_TOPIC_KEY :: pystr where
  "REPLY_TOPIC_KEY = lit ''__solace_ai_connector_broker_request_response_topic__''"

definition REPLY_METADATA_KEY :: pystr where
  "REPLY_METADATA_KEY = lit ''__solace_ai_connector_broker_request_reply_metadata__''"

definition MAX_REPLY_METADATA_BYTES :: nat where
  "MAX_REPLY_METADATA_BYTES = 4096"

definition REQUEST_ID_KEY :: pystr where
  "REQUEST_ID_KEY = lit ''request_id''"

datatype ReplyRefusal =
    NOT_A_MAPPING | MISSING_TOPIC | TOPIC_FORM | TOPIC_FAMILY | TOPIC_MISSION | MISSING_METADATA | METADATA_LENGTH
  | METADATA_FORM | METADATA_EMPTY | REQUEST_ID

text \<open>A \<open>ReplyError\<close> with its refusal, or an exception of Python's own: \<open>str.encode\<close> on a lone surrogate, and the
  integer-conversion limit of \<open>json.loads\<close>.\<close>

datatype reply_error = ReplyError ReplyRefusal pyval | ReplyUnicode pystr | ReplyDigits

record ReplyTarget =
  target_topic :: pystr
  target_request :: pystr
  target_metadata :: pystr

fun reply_properties :: "pyval \<Rightarrow> reply_error + members" where
  "reply_properties (PDict ms) = Inr ms"
| "reply_properties val = Inl (ReplyError NOT_A_MAPPING val)"

definition reply_topic :: "members \<Rightarrow> reply_error + pystr" where
  "reply_topic ms =
     (case get ms REPLY_TOPIC_KEY of
        PStr text \<Rightarrow>
          (case parse_topic (PStr text) of
             Inl (TopicError r val p) \<Rightarrow> Inl (ReplyError TOPIC_FORM (PStr text))
           | Inl (UnicodeEncodeError t) \<Rightarrow> Inl (ReplyUnicode t)
           | Inl (KeyError k) \<Rightarrow> Inl (ReplyError TOPIC_FORM (PStr text))
           | Inr topic \<Rightarrow>
               if family topic \<noteq> GATEWAY_RESPONSE then Inl (ReplyError TOPIC_FAMILY (PStr text))
               else if mission_id topic \<noteq> RESERVED_REPLY_MISSION then Inl (ReplyError TOPIC_MISSION (PStr text))
               else Inr text)
      | val \<Rightarrow> Inl (ReplyError MISSING_TOPIC val))"

definition reply_stack :: "members \<Rightarrow> reply_error + pystr \<times> pyval list" where
  "reply_stack ms =
     (case get ms REPLY_METADATA_KEY of
        PStr text \<Rightarrow>
          (case utf8 text of
             None \<Rightarrow> Inl (ReplyUnicode text)
           | Some bytes \<Rightarrow>
               if length bytes > MAX_REPLY_METADATA_BYTES then Inl (ReplyError METADATA_LENGTH (PInt (int (length bytes))))
               else (case loads text of
                       Inl IntegerDigits \<Rightarrow> Inl ReplyDigits
                     | Inl (Refused e) \<Rightarrow> Inl (ReplyError METADATA_FORM (PStr text))
                     | Inr (PList []) \<Rightarrow> Inl (ReplyError METADATA_EMPTY (PStr text))
                     | Inr (PList (v # vs)) \<Rightarrow> Inr (text, v # vs)
                     | Inr val \<Rightarrow> Inl (ReplyError METADATA_FORM (PStr text))))
      | val \<Rightarrow> Inl (ReplyError MISSING_METADATA val))"

fun named_request :: "pyval \<Rightarrow> pyval" where
  "named_request (PDict ms) = get ms REQUEST_ID_KEY"
| "named_request val = PNone"

definition request_id_of :: "pyval list \<Rightarrow> reply_error + pystr" where
  "request_id_of stack =
     (case named_request (last stack) of
        PStr t \<Rightarrow> if fullmatch IDENTIFIER_PATTERN t then Inr t else Inl (ReplyError REQUEST_ID (PStr t))
      | val \<Rightarrow> Inl (ReplyError REQUEST_ID val))"

definition reply_target :: "pyval \<Rightarrow> reply_error + ReplyTarget" where
  "reply_target user_properties =
     bindE (reply_properties user_properties) (\<lambda>ms.
     bindE (reply_topic ms) (\<lambda>topic.
     bindE (reply_stack ms) (\<lambda>(metadata, stack).
     bindE (request_id_of stack) (\<lambda>i.
       Inr \<lparr>target_topic = topic, target_request = i, target_metadata = metadata\<rparr>))))"

section \<open>The record of an answer\<close>

definition URN_SCHEME :: pystr where
  "URN_SCHEME = lit ''urn''"

definition URN_SEPARATOR :: nat where
  "URN_SEPARATOR = 58"

definition PRODUCER_KIND :: pystr where
  "PRODUCER_KIND = principal_value COMMAND_GATEWAY"

definition event_source :: pystr where
  "event_source = join_with URN_SEPARATOR [URN_SCHEME, TOPIC_NAMESPACE_ROOT, PRODUCER_KIND, principal_value COMMAND_GATEWAY]"

record RecordStamp =
  stamp_event_id :: pystr
  occurred_at :: pystr
  stamp_sequence :: int
  stamp_traceparent :: pystr

text \<open>\<open>RecordTopic\<close> is the TopicError or KeyError that building the topic would raise, \<open>RecordKey\<close> an exception of the
  profile that is let through: a KeyError, which the handler of ValueError does not catch, or the refusal of an unbound type, which is
  looked up outside the handler.\<close>

datatype RecordError =
    SEQUENCE_RANGE int | UNPUBLISHABLE envelope_error | RecordTopic topic_error | RecordKey envelope_error

text \<open>The exceptions of the envelope profile that \<open>except ValueError\<close> catches: all but a KeyError.\<close>

fun is_value_error :: "envelope_error \<Rightarrow> bool" where
  "is_value_error (MemberKeyError k) = False"
| "is_value_error (FromTopic (KeyError k)) = False"
| "is_value_error error = True"

definition record_sequence :: "int \<Rightarrow> RecordError + pystr" where
  "record_sequence n = (case sequence_text n of None \<Rightarrow> Inl (SEQUENCE_RANGE n) | Some t \<Rightarrow> Inr t)"

definition record_topic :: "GatewayResponse \<Rightarrow> Topic" where
  "record_topic r = \<lparr>family = GATEWAY_RECORD, mission_id = response_mission r,
     topic_parameters = [(lit ''requestId'', response_request r)]\<rparr>"

definition response_record :: "(pystr \<Rightarrow> pystr) \<Rightarrow> GatewayResponse \<Rightarrow> RecordStamp \<Rightarrow> RecordError + pystr \<times> members" where
  "response_record nfc r stamp =
     (case event_type (record_topic r) of
        Inl error \<Rightarrow> Inl (RecordTopic error)
      | Inr declared \<Rightarrow>
     (case binding_for declared of
        Inl error \<Rightarrow> Inl (RecordKey error)
      | Inr bd \<Rightarrow>
          bindE (record_sequence (stamp_sequence stamp)) (\<lambda>seq.
            let document = envelope_document
                  \<lparr>envelope_id = stamp_event_id stamp, source = event_source, envelope_type = declared,
                   subject = response_mission r, time = occurred_at stamp, dataschema = bound_dataschema bd,
                   sequence = seq, correlation_id = response_request r, traceparent = stamp_traceparent stamp,
                   data = gateway_response_document r, causation_id = None, tracestate = None\<rparr>
            in case bindE (parse_envelope nfc (PDict document)) (\<lambda>e. check_topic_binding e (record_topic r)) of
                 Inl error \<Rightarrow> Inl (if is_value_error error then UNPUBLISHABLE error else RecordKey error)
               | Inr _ \<Rightarrow>
                   (case format_topic (record_topic r) of
                      Inl error \<Rightarrow> Inl (RecordTopic error)
                    | Inr text \<Rightarrow> Inr (text, document)))))"

section \<open>Decoding a body\<close>

datatype rpc_decode_error = NotDecoded decode_error | NotABody RpcError

definition decode_gateway_request :: "(pystr \<Rightarrow> pystr) \<Rightarrow> nat list \<Rightarrow> rpc_decode_error + GatewayRequest" where
  "decode_gateway_request nfc bytes =
     (case decode_bytes nfc bytes of
        Inl error \<Rightarrow> Inl (NotDecoded error)
      | Inr document \<Rightarrow> map_sum NotABody id (parse_gateway_request document))"

definition decode_gateway_response :: "(pystr \<Rightarrow> pystr) \<Rightarrow> nat list \<Rightarrow> rpc_decode_error + GatewayResponse" where
  "decode_gateway_response nfc bytes =
     (case decode_bytes nfc bytes of
        Inl error \<Rightarrow> Inl (NotDecoded error)
      | Inr document \<Rightarrow> map_sum NotABody id (parse_gateway_response document))"

section \<open>One message\<close>

datatype payload_object = Bytes "nat list" | ByteArray "nat list" | OtherPayload

fun inbound_payload :: "payload_object \<Rightarrow> nat list option" where
  "inbound_payload (ByteArray b) = Some b"
| "inbound_payload (Bytes b) = Some b"
| "inbound_payload OtherPayload = None"

record InboundMessage =
  payload :: payload_object
  destination_name :: pyval
  user_properties :: pyval

record publication =
  published_topic :: pystr
  published_payload :: "nat list"
  published_properties :: members

datatype ExchangeOutcome = REPLIED | RECORD_FAILED | UNDELIVERABLE | UNREADABLE

record Exchange =
  exchange_outcome :: ExchangeOutcome
  exchange_topic :: "pystr option"
  exchange_request :: "pystr option"

text \<open>What leaves \<open>handle_message\<close> as an exception.\<close>

datatype exchange_error =
    ReplyNotPublished
  | NotEncodable CanonicalizationError
  | FromReply reply_error
  | FromTopicText topic_error
  | FromRequestDigits
  | FromRequestKey pystr
  | FromRecordKey envelope_error

definition agrees :: "pyval \<Rightarrow> GatewayRequest \<Rightarrow> exchange_error + bool" where
  "agrees topic_text q =
     (case parse_topic topic_text of
        Inl (TopicError r val p) \<Rightarrow> Inr False
      | Inl error \<Rightarrow> Inl (FromTopicText error)
      | Inr topic \<Rightarrow>
          Inr (family topic = GATEWAY_REQUEST \<and> mission_id topic = request_mission q
            \<and> map_of (topic_parameters topic) (lit ''operation'') = Some (request_operation q)))"

definition request_of :: "(pystr \<Rightarrow> pystr) \<Rightarrow> InboundMessage \<Rightarrow> exchange_error + GatewayRequest option" where
  "request_of nfc m =
     (case inbound_payload (payload m) of
        None \<Rightarrow> Inr None
      | Some b \<Rightarrow>
          (case decode_gateway_request nfc b of
             Inl (NotDecoded IntegerDigits) \<Rightarrow> Inl FromRequestDigits
           | Inl (NotDecoded (Refused (UnicodeEncode t))) \<Rightarrow> Inl (NotEncodable (UnicodeEncode t))
           | Inl (NotDecoded (Refused error)) \<Rightarrow> Inr None
           | Inl (NotABody (RpcKeyError k)) \<Rightarrow> Inl (FromRequestKey k)
           | Inl (NotABody (RpcError r member val)) \<Rightarrow> Inr None
           | Inr q \<Rightarrow>
               bindE (agrees (destination_name m) q) (\<lambda>ok. Inr (if ok then Some q else None))))"

text \<open>\<open>_record\<close>: the publication of the record if it was built and accepted.\<close>

definition record_publication ::
    "(pystr \<Rightarrow> pystr) \<Rightarrow> (publication \<Rightarrow> bool) \<Rightarrow> GatewayResponse \<Rightarrow> RecordStamp \<Rightarrow> exchange_error + publication option" where
  "record_publication nfc accepts r stamp =
     (case response_record nfc r stamp of
        Inl (RecordTopic error) \<Rightarrow> Inl (FromTopicText error)
      | Inl (RecordKey error) \<Rightarrow> Inl (FromRecordKey error)
      | Inl error \<Rightarrow> Inr None
      | Inr (topic, document) \<Rightarrow>
          (case canonical_bytes nfc (PDict document) of
             Inl error \<Rightarrow> Inl (NotEncodable error)
           | Inr bytes \<Rightarrow>
               let p = \<lparr>published_topic = topic, published_payload = bytes, published_properties = []\<rparr>
               in Inr (if accepts p then Some p else None)))"

definition reply_publication ::
    "(pystr \<Rightarrow> pystr) \<Rightarrow> ReplyTarget \<Rightarrow> GatewayResponse \<Rightarrow> CanonicalizationError + publication" where
  "reply_publication nfc target r =
     bindE (canonical_bytes nfc (PDict (gateway_response_document r))) (\<lambda>bytes.
       Inr \<lparr>published_topic = target_topic target, published_payload = bytes,
            published_properties = [(KStr REPLY_METADATA_KEY, PStr (target_metadata target))]\<rparr>)"

text \<open>The outcome or the exception, and the messages the broker accepted, in order.\<close>

definition handle_message ::
    "(pystr \<Rightarrow> pystr) \<Rightarrow> (publication \<Rightarrow> bool) \<Rightarrow> InboundMessage \<Rightarrow> RecordStamp
      \<Rightarrow> (exchange_error + Exchange) \<times> publication list" where
  "handle_message nfc accepts m stamp =
     (case reply_target (user_properties m) of
        Inl (ReplyError r val) \<Rightarrow>
          (Inr \<lparr>exchange_outcome = UNDELIVERABLE, exchange_topic = None, exchange_request = None\<rparr>, [])
      | Inl error \<Rightarrow> (Inl (FromReply error), [])
      | Inr target \<Rightarrow>
     (case request_of nfc m of
        Inl error \<Rightarrow> (Inl error, [])
      | Inr None \<Rightarrow>
          (Inr \<lparr>exchange_outcome = UNREADABLE, exchange_topic = Some (target_topic target),
                exchange_request = Some (target_request target)\<rparr>, [])
      | Inr (Some q) \<Rightarrow>
          let r = answer q (target_request target)
          in (case reply_publication nfc target r of
               Inl error \<Rightarrow> (Inl (NotEncodable error), [])
             | Inr p \<Rightarrow>
                 if \<not> accepts p then (Inl ReplyNotPublished, [])
                 else (case record_publication nfc accepts r stamp of
                         Inl error \<Rightarrow> (Inl error, [p])
                       | Inr recorded \<Rightarrow>
                           (Inr \<lparr>exchange_outcome = (if recorded = None then RECORD_FAILED else REPLIED),
                                 exchange_topic = Some (target_topic target),
                                 exchange_request = Some (target_request target)\<rparr>,
                            p # (case recorded of None \<Rightarrow> [] | Some x \<Rightarrow> [x]))))))"

section \<open>What the exchange publishes\<close>

lemma reply_topic_Inr:
  "reply_topic ms = Inr text \<Longrightarrow> \<exists>t. parse_topic (PStr text) = Inr t \<and> family t = GATEWAY_RESPONSE
     \<and> mission_id t = RESERVED_REPLY_MISSION"
  by (auto simp: reply_topic_def split: pyval.splits sum.splits topic_error.splits if_splits)

lemma reply_target_Inr:
  assumes "reply_target props = Inr target"
  shows "\<exists>t. parse_topic (PStr (target_topic target)) = Inr t \<and> family t = GATEWAY_RESPONSE
     \<and> mission_id t = RESERVED_REPLY_MISSION" "obeys IDENTIFIER_RULE (target_request target)"
proof -
  from assms obtain ms topic metadata stack i where "reply_topic ms = Inr topic" "request_id_of stack = Inr i"
    and target: "target = \<lparr>target_topic = topic, target_request = i, target_metadata = metadata\<rparr>"
    by (auto simp: reply_target_def split: prod.splits)
  then show "\<exists>t. parse_topic (PStr (target_topic target)) = Inr t \<and> family t = GATEWAY_RESPONSE
     \<and> mission_id t = RESERVED_REPLY_MISSION" using reply_topic_Inr by simp
  from \<open>request_id_of stack = Inr i\<close> have "fullmatch IDENTIFIER_PATTERN i"
    by (auto simp: request_id_of_def split: pyval.splits if_splits)
  then show "obeys IDENTIFIER_RULE (target_request target)"
    using identifier_length by (simp add: target IDENTIFIER_RULE_def MAX_IDENTIFIER_LENGTH_def)
qed

lemma case_sum_Inr: "case_sum (\<lambda>e. Inl (h e)) g x = Inr z \<longleftrightarrow> (\<exists>y. x = Inr y \<and> g y = Inr z)"
  by (cases x) auto

lemma document_parsed:
  assumes "parse_envelope nfc (PDict (envelope_document e)) = Inr x"
  shows "subject e = subject x" "correlation_id e = correlation_id x" "data e = data x" "subject x \<noteq> RESERVED_REPLY_MISSION"
proof -
  from assms have "envelope_ok nfc x" and eq: "map_of (envelope_document e) = map_of (envelope_document x)"
    unfolding envelope_accepts by blast+
  from fun_cong [OF eq, of "KStr (lit ''subject'')"] show "subject e = subject x" by simp
  from fun_cong [OF eq, of "KStr (lit ''correlationid'')"] show "correlation_id e = correlation_id x" by simp
  from fun_cong [OF eq, of "KStr (lit ''data'')"] show "data e = data x" by simp
  from \<open>envelope_ok nfc x\<close> show "subject x \<noteq> RESERVED_REPLY_MISSION" by (simp add: envelope_ok_def)
qed

lemma response_record_Inr:
  assumes "response_record nfc r stamp = Inr (topic, document)"
  obtains t e where "parse_topic (PStr topic) = Inr t" "family t = GATEWAY_RECORD" "mission_id t = response_mission r"
    "map_of (topic_parameters t) (lit ''requestId'') = Some (response_request r)"
    "response_mission r \<noteq> RESERVED_REPLY_MISSION" "parse_envelope nfc (PDict document) = Inr e"
    "subject e = response_mission r" "correlation_id e = response_request r" "data e = gateway_response_document r"
proof -
  from assms obtain x e where parsed: "parse_envelope nfc (PDict (envelope_document e)) = Inr x"
    and topic: "format_topic (record_topic r) = Inr topic" and document: "document = envelope_document e"
    and e: "subject e = response_mission r" "correlation_id e = response_request r" "data e = gateway_response_document r"
    unfolding response_record_def case_sum_Inr bindE_eq_Inr Let_def by auto
  from format_topic_parses [OF topic] obtain t where "parse_topic (PStr topic) = Inr t" "family t = GATEWAY_RECORD"
    "mission_id t = response_mission r" "map_of (topic_parameters t) (lit ''requestId'') = Some (response_request r)"
    by (auto simp: record_topic_def)
  with document_parsed [OF parsed] parsed document e show thesis by (intro that [of t x]) auto
qed

lemma record_publication_Some:
  assumes "record_publication nfc accepts r stamp = Inr (Some p)"
  shows "accepts p" "\<exists>t. parse_topic (PStr (published_topic p)) = Inr t \<and> family t = GATEWAY_RECORD
    \<and> mission_id t = response_mission r \<and> mission_id t \<noteq> RESERVED_REPLY_MISSION"
proof -
  from assms obtain topic document where "response_record nfc r stamp = Inr (topic, document)" "published_topic p = topic"
    and "accepts p"
    by (auto simp: record_publication_def Let_def split: sum.splits RecordError.splits if_splits)
  then show "accepts p" "\<exists>t. parse_topic (PStr (published_topic p)) = Inr t \<and> family t = GATEWAY_RECORD
    \<and> mission_id t = response_mission r \<and> mission_id t \<noteq> RESERVED_REPLY_MISSION"
    by (auto elim!: response_record_Inr simp del: parse_topic.simps)
qed

text \<open>The two channels the gateway may publish on here: a reply topic on the reserved mission level, and the
  record topic of a real mission.\<close>

definition on_channel :: "Family \<Rightarrow> (pystr \<Rightarrow> bool) \<Rightarrow> publication \<Rightarrow> bool" where
  "on_channel fam mission p \<longleftrightarrow>
     (case parse_topic (PStr (published_topic p)) of
        Inl error \<Rightarrow> False
      | Inr t \<Rightarrow> family t = fam \<and> mission (mission_id t))"

abbreviation reply_channel :: "publication \<Rightarrow> bool" where
  "reply_channel \<equiv> on_channel GATEWAY_RESPONSE (\<lambda>m. m = RESERVED_REPLY_MISSION)"

abbreviation record_channel :: "publication \<Rightarrow> bool" where
  "record_channel \<equiv> on_channel GATEWAY_RECORD (\<lambda>m. m \<noteq> RESERVED_REPLY_MISSION)"

text \<open>What a message leads to: nothing published, an accepted reply alone, or an accepted reply followed by an
  accepted record.\<close>

lemma handle_message_cases:
  assumes "handle_message nfc accepts m stamp = (res, ps)"
  obtains (silent) "ps = []" "\<And>x. res = Inr x \<Longrightarrow> exchange_outcome x \<in> {UNDELIVERABLE, UNREADABLE}"
  | (replied) target q p recorded where "reply_target (user_properties m) = Inr target" "request_of nfc m = Inr (Some q)"
      "reply_publication nfc target (answer q (target_request target)) = Inr p" "accepts p"
      "ps = p # (case recorded of None \<Rightarrow> [] | Some r \<Rightarrow> [r])"
      "recorded \<noteq> None \<Longrightarrow> record_publication nfc accepts (answer q (target_request target)) stamp = Inr recorded"
      "\<And>x. res = Inr x \<Longrightarrow> exchange_outcome x = (if recorded = None then RECORD_FAILED else REPLIED)
          \<and> exchange_topic x = Some (target_topic target) \<and> exchange_request x = Some (target_request target)"
proof (cases "reply_target (user_properties m)")
  case (Inl e)
  with assms show thesis by (intro silent) (auto simp: handle_message_def split: reply_error.splits)
next
  case target: (Inr target)
  note assms' = assms [unfolded handle_message_def target sum.case]
  show thesis
  proof (cases "request_of nfc m")
    case (Inl e)
    with assms' show thesis by (intro silent) auto
  next
    case request: (Inr asked)
    show thesis
    proof (cases asked)
      case None
      with assms' request show thesis by (intro silent) auto
    next
      case (Some q)
      let ?r = "answer q (target_request target)"
      show thesis
      proof (cases "\<exists>p. reply_publication nfc target ?r = Inr p \<and> accepts p")
        case False
        with assms' request Some show thesis by (intro silent) (auto simp: Let_def split: sum.splits)
      next
        case True
        then obtain p where p: "reply_publication nfc target ?r = Inr p" "accepts p" by blast
        show thesis
        proof (cases "record_publication nfc accepts ?r stamp")
          case (Inl e)
          with assms' request Some p target show thesis by (intro replied [of target q p None]) (auto simp: Let_def)
        next
          case (Inr recorded)
          with assms' request Some p target show thesis by (intro replied [of target q p recorded]) (auto simp: Let_def)
        qed
      qed
    qed
  qed
qed

text \<open>C13. Whatever message arrives, whatever its sender put into its user properties, and whatever the broker
  refuses: the gateway publishes nothing, or one reply on the reserved reply channel, or that reply followed
  by one record on the record topic of a real mission. It never publishes on any other topic, so a
  requestor cannot aim it at a command topic.\<close>

theorem exchange_channels:
  "case handle_message nfc accepts m stamp of (res, ps) \<Rightarrow>
     list_all accepts ps
     \<and> (ps = [] \<or> (\<exists>p. ps = [p] \<and> reply_channel p) \<or> (\<exists>p r. ps = [p, r] \<and> reply_channel p \<and> record_channel r))"
proof (cases "handle_message nfc accepts m stamp")
  case (Pair res ps)
  then show ?thesis
  proof (cases rule: handle_message_cases)
    case (replied target q p recorded)
    from replied(3) have "published_topic p = target_topic target" by (auto simp: reply_publication_def)
    with reply_target_Inr(1) [OF replied(1)] have "reply_channel p"
      by (auto simp: on_channel_def simp del: parse_topic.simps)
    moreover have "accepts r \<and> record_channel r" if "recorded = Some r" for r
      using record_publication_Some [of nfc accepts "answer q (target_request target)" stamp r] replied(6) that
      by (auto simp: on_channel_def simp del: parse_topic.simps)
    ultimately show ?thesis using Pair replied(4,5) by (cases recorded) simp_all
  qed (simp add: Pair)
qed

section \<open>What the requestor reads\<close>

lemma obeys_ascii: "obeys IDENTIFIER_RULE t \<Longrightarrow> ascii t" "obeys KIND_RULE t \<Longrightarrow> ascii t"
proof -
  show "obeys IDENTIFIER_RULE t \<Longrightarrow> ascii t"
    by (auto simp: ascii_def IDENTIFIER_RULE_def IDENTIFIER_PATTERN_def dest!: fullmatch_alphabet alphabet_between)
  show "obeys KIND_RULE t \<Longrightarrow> ascii t"
    by (auto simp: ascii_def KIND_RULE_def KIND_PATTERN_def Plus_def dest!: fullmatch_alphabet)
qed

text \<open>An object of ASCII texts and of constants is canonical but for the order of its members.\<close>

fun plain_value :: "pyval \<Rightarrow> bool" where
  "plain_value (PStr t) \<longleftrightarrow> ascii t"
| "plain_value (PList vs) \<longleftrightarrow> False"
| "plain_value (PDict d) \<longleftrightarrow> False"
| "plain_value v \<longleftrightarrow> True"

definition plain_member :: "pykey \<times> pyval \<Rightarrow> bool" where
  "plain_member m \<longleftrightarrow> (\<exists>n. fst m = KStr n \<and> ascii n) \<and> plain_value (snd m)"

lemma canon_plain:
  assumes nfc: "\<forall>s. ascii s \<longrightarrow> nfc s = s" and d: "\<forall>m \<in> set d. plain_member m" "distinct (dict_keys d)"
  shows "\<exists>d'. canon nfc (PDict d) = PDict d' \<and> map_of d' = map_of d"
proof -
  have "canon nfc v = v" if "plain_value v" for v using nfc that by (cases v) auto
  moreover have "plain_member m" if "m \<in> set (by_key d)" for m using that d(1) by simp
  ultimately have "map (\<lambda>(k, v). (KStr (nfc (key_text k)), canon nfc v)) (by_key d) = by_key d"
    using nfc by (intro map_idI) (fastforce simp: plain_member_def)
  moreover have "map_of (by_key d) = map_of d"
    using d(2) by (subst map_of_inject_set) (simp_all add: by_key_def distinct_map)
  ultimately show ?thesis by simp
qed

lemma response_document_plain:
  assumes "response_valid r"
  shows "\<forall>m \<in> set (gateway_response_document r). plain_member m" "distinct (dict_keys (gateway_response_document r))"
proof -
  have "ascii (outcome_value x)" for x by (cases x) (simp_all add: ascii_def lit_def)
  with assms obeys_ascii show "\<forall>m \<in> set (gateway_response_document r). plain_member m"
    by (auto simp: gateway_response_document_def plain_member_def optional_member_def response_valid_def
        VERSION_MEMBER_def split: option.splits) (simp_all add: ascii_def lit_def)
  show "distinct (dict_keys (gateway_response_document r))"
    by (cases "authority r"; cases "refusal r";
        simp add: gateway_response_document_def optional_member_def VERSION_MEMBER_def)
qed

lemma response_bytes_decode:
  assumes nfc: "\<forall>s. ascii s \<longrightarrow> nfc s = s" "\<forall>s. nfc (nfc s) = nfc s" and r: "response_valid r"
    and b: "canonical_bytes nfc (PDict (gateway_response_document r)) = Inr b"
  shows "decode_gateway_response nfc b = Inr r"
proof -
  note plain = response_document_plain [OF r]
  obtain d where d: "canon nfc (PDict (gateway_response_document r)) = PDict d" "map_of d = map_of (gateway_response_document r)"
    using canon_plain [OF nfc(1) plain] by blast
  have "dict_ok v" if "plain_value v" for v using that by (cases v) simp_all
  with plain have "dict_ok (PDict (gateway_response_document r))" by (simp add: plain_member_def)
  from decoded_canonical [OF nfc this b] have "decode_bytes nfc b = Inr (PDict d)" by (simp add: d(1) del: canon.simps)
  moreover from r d(2) have "parse_gateway_response (PDict d) = Inr r" by (simp add: response_accepts)
  ultimately show ?thesis by (simp add: decode_gateway_response_def)
qed

lemma parsed_request_valid:
  assumes "parse_gateway_request v = Inr q"
  shows "request_valid q"
proof -
  from assms obtain d where "v = PDict d" by (cases v) (simp_all add: parse_gateway_request_def)
  with assms show ?thesis by (blast intro: gateway_request.accepted_valid)
qed

lemma map_sum_Inr: "map_sum f id x = Inr y \<longleftrightarrow> x = Inr y"
  by (cases x) simp_all

lemma request_of_valid: "request_of nfc m = Inr (Some q) \<Longrightarrow> request_valid q"
  by (auto simp: request_of_def decode_gateway_request_def split: option.splits sum.splits rpc_decode_error.splits
      decode_error.splits CanonicalizationError.splits RpcError.splits if_splits
      simp: map_sum_Inr dest: parsed_request_valid)

text \<open>C21. The requestor can read its answer: an exchange that ends with an outcome on a readable request has
  published first a reply to the topic the requestor named, with the requestor's correlation metadata
  unchanged, whose bytes decode to exactly the policy's answer to the request; and it reports
  \<open>REPLIED\<close> exactly when a record followed the reply.\<close>

theorem exchange_reply_reads_back:
  assumes nfc: "\<forall>s. ascii s \<longrightarrow> nfc s = s" "\<forall>s. nfc (nfc s) = nfc s"
    and target: "reply_target (user_properties m) = Inr target" and q: "request_of nfc m = Inr (Some q)"
    and ended: "handle_message nfc accepts m stamp = (Inr x, ps)"
  shows "\<exists>p rest. ps = p # rest \<and> published_topic p = target_topic target
      \<and> published_properties p = [(KStr REPLY_METADATA_KEY, PStr (target_metadata target))]
      \<and> decode_gateway_response nfc (published_payload p) = Inr (answer q (target_request target))
      \<and> exchange_outcome x = (if rest = [] then RECORD_FAILED else REPLIED)
      \<and> exchange_request x = Some (target_request target)"
  using ended
proof (cases rule: handle_message_cases)
  case silent
  with target q ended show ?thesis by (auto simp: handle_message_def Let_def split: sum.splits if_splits)
next
  case (replied t q' p recorded)
  with target q have same: "t = target" "q' = q" by simp_all
  have "response_valid (answer q (target_request target))"
    using request_of_valid [OF q] reply_target_Inr(2) [OF target] by (rule answer_valid)
  moreover from replied(3) have "canonical_bytes nfc (PDict (gateway_response_document (answer q (target_request target))))
      = Inr (published_payload p)" and p: "published_topic p = target_topic target"
      "published_properties p = [(KStr REPLY_METADATA_KEY, PStr (target_metadata target))]"
    unfolding same by (auto simp: reply_publication_def)
  ultimately have "decode_gateway_response nfc (published_payload p) = Inr (answer q (target_request target))"
    using response_bytes_decode [OF nfc] by blast
  with replied(5,7) p show ?thesis unfolding same by (cases recorded) auto
qed

definition sample_message :: InboundMessage where
  "sample_message = \<lparr>
     payload = ByteArray (lit ''{\"commandType\":\"escalate-rescue\",\"missionId\":\"m-1\",\"operation\":\"command-authority\",\"rpcVersion\":1}''),
     destination_name = PStr (lit ''aerial-rescue/v1/m-1/gateway/request/command-authority''),
     user_properties = PDict [
       (KStr REPLY_TOPIC_KEY, PStr (lit ''aerial-rescue/v1/reply/gateway/response/r-1'')),
       (KStr REPLY_METADATA_KEY, PStr (lit ''[{\"request_id\":\"r-1\"}]''))]\<rparr>"

definition sample_stamp :: RecordStamp where
  "sample_stamp = \<lparr>stamp_event_id = lit ''e-1'', occurred_at = lit ''2026-01-01T00:00:00.000Z'', stamp_sequence = 7,
     stamp_traceparent = lit ''00-0af7651916cd43dd8448eb211c80319c-b7ad6b7169203331-01''\<rparr>"

definition sample_request :: GatewayRequest where
  "sample_request = \<lparr>request_mission = lit ''m-1'', request_operation = lit ''command-authority'',
     request_command = lit ''escalate-rescue''\<rparr>"

theorem exchange_reply_reads_back_witness:
  "\<exists>p rest. snd (handle_message id (\<lambda>_. True) sample_message sample_stamp) = p # rest \<and> rest \<noteq> []
     \<and> decode_gateway_response id (published_payload p) = Inr (answer sample_request (lit ''r-1''))"
proof -
  have target: "reply_target (user_properties sample_message) = Inr \<lparr>target_topic = lit ''aerial-rescue/v1/reply/gateway/response/r-1'',
      target_request = lit ''r-1'', target_metadata = lit ''[{\"request_id\":\"r-1\"}]''\<rparr>" by code_simp
  have q: "request_of id sample_message = Inr (Some sample_request)" by code_simp
  have replied: "case fst (handle_message id (\<lambda>_. True) sample_message sample_stamp) of Inl e \<Rightarrow> False
      | Inr x \<Rightarrow> exchange_outcome x = REPLIED" by code_simp
  then obtain x ps where x: "handle_message id (\<lambda>_. True) sample_message sample_stamp = (Inr x, ps)" "exchange_outcome x = REPLIED"
    by (cases "handle_message id (\<lambda>_. True) sample_message sample_stamp") (auto split: sum.splits)
  show ?thesis using exchange_reply_reads_back [OF _ _ target q x(1)] x by (auto split: if_splits)
qed

end
