(* ===== verification/Database.thy ===== *)
theory Database
  imports Approvals Commands Evidence Idempotency Outbox Scoring
begin

text \<open>
  The durable store as the repositories of \<open>packages/store\<close> see it: the rows of the tables they use
  (\<open>database/schema.py\<close>) with the columns of the dataclasses that name them, and a unit of work
  (\<open>session.py\<close>). A table is a map from its primary key; the tables that are searched,
  counted or read in order are lists. Rows are typed by their columns, so the shape checks of the
  repositories that only ask for the type of a column have nothing to refuse; the checks that
  ask for more are in the model. Units of work run one after another, which is what the row
  locks and unique indexes the repositories rely on give them; widths of text columns and
  foreign keys are not modelled, and text columns are ordered by code point.
\<close>

type_synonym bytes = "nat list"

section \<open>Rows\<close>

record InboxIdentity =
  inbox_consumer :: pystr
  inbox_source :: pystr
  inbox_event :: pystr
  inbox_mission :: pystr
  inbox_digest :: pystr

record inbox_row = InboxIdentity +
  inbox_result :: "bytes option"
  inbox_processed_at :: "pystr option"

record StoredClaim =
  claim_key :: pystr
  claim_kind :: IdempotencyKind
  claim_body :: pystr
  claim_mission :: pystr
  claimed_at :: pystr

record claim_row = StoredClaim +
  claim_result :: "bytes option"

record StoredApproval =
  stored_mission :: pystr
  stored_proposal :: pystr
  stored_state :: ApprovalState
  stored_operator :: pystr
  stored_issued_wall :: pystr
  stored_issued_monotonic :: int
  stored_time_to_live :: int
  stored_digest :: pystr

record StoredApprovalBinding =
  binding_approval :: pystr
  binding_proposal :: pystr
  binding_proposal_version :: int
  binding_evidence :: pystr
  binding_evidence_digest :: pystr
  binding_evidence_version :: int
  binding_decision :: pystr
  binding_action :: bytes
  binding_runtime :: pystr
  binding_epoch :: "pystr option"
  binding_issued_monotonic :: "int option"
  binding_expires :: "pystr option"

record StoredProposal =
  prop_id :: pystr
  prop_mission :: pystr
  prop_source_event :: pystr
  prop_source_digest :: pystr
  prop_agent :: pystr
  prop_invocation :: pystr
  prop_type :: pystr
  prop_digest :: pystr
  prop_payload :: bytes
  prop_drone :: pystr
  prop_latitude :: int
  prop_longitude :: int
  prop_command :: pystr
  prop_issued_at :: pystr
  prop_sequence :: int
  prop_correlation :: pystr
  prop_causation :: "pystr option"
  prop_traceparent :: pystr

datatype EvidenceDecisionOutcome = CONTRIBUTING | MANUAL_REVIEW | ABSTAINED | REJECTED

record StoredEvidenceDecision =
  dec_id :: pystr
  dec_mission :: pystr
  dec_proposal :: pystr
  dec_proposal_digest :: pystr
  dec_digest :: pystr
  dec_version :: int
  dec_score_version :: "int option"
  dec_score :: "int option"
  dec_band :: "EvidenceBand option"
  dec_outcome :: EvidenceDecisionOutcome
  dec_contributors :: "bytes option"
  dec_payload :: bytes
  dec_decided_at :: pystr
  dec_sequence :: int

record AuditRecord =
  audit_mission :: pystr
  audit_kind :: pystr
  audit_occurred_at :: pystr
  audit_payload :: bytes
  audit_correlation :: pystr
  audit_causation :: "pystr option"
  audit_traceparent :: pystr

record StagedCommand =
  cmd_id :: pystr
  cmd_mission :: pystr
  cmd_drone :: pystr
  cmd_payload :: bytes
  cmd_correlation :: pystr
  cmd_causation :: "pystr option"
  cmd_traceparent :: pystr
  cmd_staged_at :: pystr

record CommandOutboxRecord =
  outbox_command :: StagedCommand
  outbox_state :: OutboxState

record StagedApplicationEvent =
  app_producer :: pystr
  app_event :: pystr
  app_family :: pystr
  app_topic :: pystr
  app_headers :: bytes
  app_payload :: bytes
  app_traceparent :: pystr
  app_tracestate :: "pystr option"
  app_correlation :: pystr
  app_causation :: "pystr option"
  app_staged_at :: pystr

record application_row = StagedApplicationEvent +
  app_state :: OutboxState
  app_confirmed_at :: "pystr option"

record CommandIdentity =
  ident_command :: pystr
  ident_mission :: pystr
  ident_drone :: pystr

record TransitionFacts =
  last_sent_at :: "pystr option"
  deadline_at :: "pystr option"
  result_id :: "pystr option"
  updated_at :: pystr

record StoredCommandProgress =
  progress_identity :: CommandIdentity
  progress :: CommandProgress
  progress_facts :: TransitionFacts

record BrokerRefusalCandidate =
  refused_consumer :: pystr
  refused_source :: "pystr option"
  refused_family :: "pystr option"
  refused_channel :: pystr
  refused_code :: pystr
  refused_digest :: pystr

record StoredBrokerRefusal = BrokerRefusalCandidate +
  refused_at :: pystr

record StoredPendingInvocation =
  pending_invocation :: pystr
  pending_mission :: pystr
  pending_agent :: pystr
  pending_correlation :: pystr
  pending_source_event :: pystr
  pending_source_digest :: pystr

record StoredSourceEvent =
  src_source :: pystr
  src_event :: pystr
  src_mission :: pystr
  src_topic :: pystr
  src_digest :: pystr
  src_payload :: bytes
  src_observed_at :: pystr

text \<open>A row of the source-evidence table: the source event it belongs to, its ordinal and the fact.\<close>

record source_item_row =
  row_source :: pystr
  row_event :: pystr
  row_ordinal :: int
  row_item :: pystr
  row_source_id :: pystr
  row_origin :: ObservationOrigin
  row_digest :: pystr
  row_document :: bytes
  row_observed_at :: pystr

record StoredEvidenceItem =
  item_id :: pystr
  item_mission :: pystr
  item_proposal :: pystr
  item_source :: pystr
  item_kind :: ObservationOrigin
  item_lifecycle :: EvidenceState
  item_digest :: pystr
  item_payload :: bytes
  item_observed_at :: pystr

record database =
  inbox :: "pystr \<times> pystr \<times> pystr \<rightharpoonup> inbox_row"
  claims :: "pystr \<rightharpoonup> claim_row"
  approvals :: "pystr \<rightharpoonup> StoredApproval"
  bindings :: "StoredApprovalBinding list"
  proposals :: "pystr \<rightharpoonup> StoredProposal"
  decisions :: "pystr \<rightharpoonup> StoredEvidenceDecision"
  audit_sequence :: "pystr \<rightharpoonup> int"
  audit_log :: "pystr \<times> int \<rightharpoonup> AuditRecord"
  command_outbox :: "(pystr, CommandOutboxRecord) pydict"
  application_outbox :: "(pystr \<times> pystr, application_row) pydict"
  command_progress :: "pystr \<rightharpoonup> StoredCommandProgress"
  refusals :: "pystr \<times> pystr \<times> pystr \<rightharpoonup> StoredBrokerRefusal"
  invocations :: "pystr \<rightharpoonup> StoredPendingInvocation"
  source_events :: "(pystr \<times> pystr, StoredSourceEvent) pydict"
  source_items :: "source_item_row list"
  evidence_items :: "pystr \<rightharpoonup> StoredEvidenceItem"

definition EMPTY_DATABASE :: database where
  "EMPTY_DATABASE = \<lparr>inbox = Map.empty, claims = Map.empty, approvals = Map.empty, bindings = [], proposals = Map.empty,
     decisions = Map.empty, audit_sequence = Map.empty, audit_log = Map.empty, command_outbox = [],
     application_outbox = [], command_progress = Map.empty, refusals = Map.empty, invocations = Map.empty,
     source_events = [], source_items = [], evidence_items = Map.empty\<rparr>"

section \<open>Statements\<close>

text \<open>\<open>INSERT ... ON CONFLICT DO NOTHING RETURNING\<close> a key: whether a row was written, and the table.\<close>

definition insert_absent :: "'k \<Rightarrow> 'v \<Rightarrow> ('k \<rightharpoonup> 'v) \<Rightarrow> bool \<times> ('k \<rightharpoonup> 'v)" where
  "insert_absent k v t = (if t k = None then (True, t(k \<mapsto> v)) else (False, t))"

text \<open>\<open>UPDATE ... WHERE key = k AND ... RETURNING\<close> that key: whether a row was changed, and the table.\<close>

definition update_where :: "'k \<Rightarrow> ('v \<Rightarrow> bool) \<Rightarrow> ('v \<Rightarrow> 'v) \<Rightarrow> ('k \<rightharpoonup> 'v) \<Rightarrow> bool \<times> ('k \<rightharpoonup> 'v)" where
  "update_where k cond f t =
     (case t k of
        None \<Rightarrow> (False, t)
      | Some v \<Rightarrow> if cond v then (True, t(k \<mapsto> f v)) else (False, t))"

lemma insert_absent_simps [simp]:
  "t k = None \<Longrightarrow> insert_absent k v t = (True, t(k \<mapsto> v))" "t k = Some w \<Longrightarrow> insert_absent k v t = (False, t)"
  by (simp_all add: insert_absent_def)

lemma update_where_True:
  "update_where k cond f t = (True, t') \<longleftrightarrow> (\<exists>v. t k = Some v \<and> cond v \<and> t' = t(k \<mapsto> f v))"
  by (auto simp: update_where_def split: option.splits)

lemma update_where_False:
  "update_where k cond f t = (False, t') \<longleftrightarrow> t' = t \<and> (\<forall>v. t k = Some v \<longrightarrow> \<not> cond v)"
  by (auto simp: update_where_def split: option.splits)

section \<open>Units of work\<close>

text \<open>What runs inside a unit of work: it reads and changes the database, or raises.\<close>

type_synonym ('e, 'a) tx = "database \<Rightarrow> 'e + 'a \<times> database"

definition returnT :: "'a \<Rightarrow> ('e, 'a) tx" where
  "returnT x = (\<lambda>db. Inr (x, db))"

definition raiseT :: "'e \<Rightarrow> ('e, 'a) tx" where
  "raiseT e = (\<lambda>db. Inl e)"

definition bindT :: "('e, 'a) tx \<Rightarrow> ('a \<Rightarrow> ('e, 'b) tx) \<Rightarrow> ('e, 'b) tx" where
  "bindT m f = (\<lambda>db. case m db of Inl e \<Rightarrow> Inl e | Inr (x, db') \<Rightarrow> f x db')"

text \<open>A statement of the session, a read, and a computation that raises on its own.\<close>

definition execute :: "(database \<Rightarrow> 'a \<times> database) \<Rightarrow> ('e, 'a) tx" where
  "execute s = (\<lambda>db. Inr (s db))"

definition query :: "(database \<Rightarrow> 'a) \<Rightarrow> ('e, 'a) tx" where
  "query s = (\<lambda>db. Inr (s db, db))"

definition pure :: "'e + 'a \<Rightarrow> ('e, 'a) tx" where
  "pure r = (\<lambda>db. case r of Inl e \<Rightarrow> Inl e | Inr x \<Rightarrow> Inr (x, db))"

definition raising :: "('e \<Rightarrow> 'f) \<Rightarrow> ('e, 'a) tx \<Rightarrow> ('f, 'a) tx" where
  "raising h m = (\<lambda>db. map_sum h id (m db))"

lemma bindT_Inr [simp]: "bindT m f db = Inr r \<longleftrightarrow> (\<exists>x db'. m db = Inr (x, db') \<and> f x db' = Inr r)"
  by (auto simp: bindT_def split: sum.splits)

lemma pure_Inr [simp]: "pure p db = Inr r \<longleftrightarrow> (\<exists>x. p = Inr x \<and> r = (x, db))"
  by (auto simp: pure_def split: sum.splits)

lemma raising_Inr [simp]: "raising h m db = Inr r \<longleftrightarrow> m db = Inr r"
  by (cases "m db") (simp_all add: raising_def)

lemma tx_Inr [simp]:
  "returnT x db = Inr r \<longleftrightarrow> r = (x, db)" "raiseT e db = Inr r' \<longleftrightarrow> False"
  "execute s db = Inr r'' \<longleftrightarrow> r'' = s db" "query q db = Inr z \<longleftrightarrow> z = (q db, db)"
  by (auto simp: returnT_def raiseT_def execute_def query_def)

lemma bindT_eval:
  "m db = Inl e \<Longrightarrow> bindT m f db = Inl e" "m db = Inr (x, db') \<Longrightarrow> bindT m f db = f x db'"
  by (simp_all add: bindT_def)

lemma raising_Inl: "m db = Inl e \<Longrightarrow> raising h m db = Inl (h e)"
  by (simp add: raising_def)

text \<open>
  \<open>transaction\<close>: the body's writes are kept if it returns and discarded if it raises. The database
  may also fail: a statement or the commit raises with nothing kept (\<open>Fails\<close>), or the commit is
  durable although its confirmation is lost (\<open>Unconfirmed\<close>).
\<close>

datatype fate = Commits | Fails | Unconfirmed

datatype 'e unit_error = Raised 'e | DriverError

definition transaction :: "fate \<Rightarrow> ('e, 'a) tx \<Rightarrow> database \<Rightarrow> ('e unit_error + 'a) \<times> database" where
  "transaction fate body db =
     (case body db of
        Inl e \<Rightarrow> (Inl (Raised e), db)
      | Inr (x, db') \<Rightarrow>
          (case fate of
             Commits \<Rightarrow> (Inr x, db')
           | Fails \<Rightarrow> (Inl DriverError, db)
           | Unconfirmed \<Rightarrow> (Inl DriverError, db')))"

lemma transaction_Inr:
  "transaction fate body db = (Inr x, db') \<longleftrightarrow> fate = Commits \<and> body db = Inr (x, db')"
  by (auto simp: transaction_def split: sum.splits fate.splits)

lemma transaction_writes:
  assumes "transaction fate body db = (r, db')" "db' \<noteq> db"
  shows "\<exists>x. body db = Inr (x, db') \<and> fate \<noteq> Fails \<and> (r = Inr x \<or> r = Inl DriverError)"
  using assms by (auto simp: transaction_def split: sum.splits fate.splits)

end
