(* ===== verification/Repositories.thy ===== *)
theory Repositories
  imports Database
begin

text \<open>
  The repositories of \<open>packages/store/src/aerial_rescue_store\<close> that the command gateway's units of work use:
  \<open>inbox.py\<close>, \<open>idempotency.py\<close>, \<open>approvals.py\<close>, \<open>approval_bindings.py\<close>, \<open>proposals.py\<close>, \<open>evidence.py\<close>, \<open>audit.py\<close>,
  \<open>outbox.py\<close>, \<open>application_outbox.py\<close>, \<open>command_progress.py\<close> and \<open>broker_refusals.py\<close>. A statement function of the
  source is the function it denotes on the database; an operation is a computation of the unit of work.
\<close>

section \<open>Refusals\<close>

datatype InboxRefusal = CLAIM_VANISHED | DIGEST_CONFLICT | INCOMPLETE | UNREADABLE_RESULT | NOT_CLAIMED

datatype StoredClaimRefusal =
    CLAIM_VANISHED | UNKNOWN_KIND | KIND_MISMATCH | BODY_MISMATCH | RESULT_NOT_RECORDED | UNREADABLE_RESULT
  | RESULT_ALREADY_RECORDED

datatype StoredApprovalRefusal = NOT_A_DECISION | NOT_FOUND | UNKNOWN_STATE | NOT_EXECUTED | NOT_CONSUMABLE

datatype ApprovalBindingRefusal =
    CLAIM_VANISHED | IDENTITY_CONFLICT | NOT_FOUND | UNREADABLE_ROW | PREBOUND_AUTHORITY | INVALID_AUTHORITY

datatype ProposalRefusal = PROPOSAL_VANISHED | IDENTITY_CONFLICT | NOT_FOUND | UNREADABLE_ROW

datatype EvidenceStoreRefusal = ALREADY_STORED | NOT_FOUND | UNREADABLE_ROW

datatype StagedCommandRefusal =
    AT_CAPACITY | NOT_IN_EXPECTED_STATE | INVALID_READ_LIMIT | TERMINAL_READ | READ_LIMIT_EXCEEDED | UNREADABLE_ROW

datatype ApplicationOutboxRefusal = ALREADY_STAGED | UNREADABLE_ROW | CONFIRMATION_EVIDENCE | NOT_IN_EXPECTED_STATE

datatype CommandProgressRefusal =
    ALREADY_EXISTS | NOT_FOUND | UNREADABLE_ROW | SEND_COUNT_OUT_OF_RANGE | STALE_PROGRESS

datatype PendingInvocationRefusal = CLAIM_VANISHED | IDENTITY_CONFLICT | NOT_FOUND | UNREADABLE_ROW

datatype SourceEventRefusal = IDENTITY_VANISHED | IDENTITY_CONFLICT | NOT_FOUND | AMBIGUOUS_IDENTITY | UNREADABLE_ROW

datatype SourceEvidenceRefusal =
    AMBIGUOUS_SOURCE | MALFORMED_EVENT | MALFORMED_FACT | FACT_COUNT | FACT_ORDER | FACT_LIMIT | IDENTITY_CONFLICT

datatype BrokerRefusalRefusal = IDENTITY_VANISHED | IDENTITY_CONFLICT | UNREADABLE_ROW

text \<open>The exceptions of the repositories, the domain refusals they let through, and the driver's IntegrityError on
  a second row for a primary key.\<close>

datatype store_error =
    InboxError InboxRefusal pystr
  | StoredClaimError StoredClaimRefusal pystr
  | StoredApprovalError StoredApprovalRefusal pystr
  | ApprovalBindingError ApprovalBindingRefusal pystr
  | ProposalError ProposalRefusal pystr
  | EvidenceStoreError EvidenceStoreRefusal pystr
  | StagedCommandError StagedCommandRefusal pystr
  | ApplicationOutboxError ApplicationOutboxRefusal pystr
  | CommandProgressError CommandProgressRefusal pystr
  | BrokerRefusalError BrokerRefusalRefusal pystr
  | PendingInvocationError PendingInvocationRefusal pystr
  | SourceEventError SourceEventRefusal pystr
  | SourceEvidenceError SourceEvidenceRefusal pystr
  | FromCommand CommandError
  | FromOutbox OutboxError
  | FromDigest digest_error
  | StoreKeyError
  | IntegrityError
  | MultipleResults

type_synonym 'a store = "(store_error, 'a) tx"

text \<open>\<open>changed = await session.scalar(statement)\<close> followed by the refusal of \<open>None\<close>.\<close>

definition scalar_or :: "store_error \<Rightarrow> (database \<Rightarrow> bool \<times> database) \<Rightarrow> unit store" where
  "scalar_or refusal statement =
     bindT (execute statement) (\<lambda>changed. if changed then returnT () else raiseT refusal)"

definition found_or :: "store_error \<Rightarrow> (database \<Rightarrow> 'a option) \<Rightarrow> 'a store" where
  "found_or refusal selection =
     bindT (query selection) (\<lambda>row. case row of None \<Rightarrow> raiseT refusal | Some x \<Rightarrow> returnT x)"

lemma scalar_or_Inr: "scalar_or e s db = Inr r \<longleftrightarrow> (\<exists>db'. s db = (True, db') \<and> r = ((), db'))"
  by (cases "s db") (auto simp: scalar_or_def)

lemma found_or_Inr: "found_or e s db = Inr r \<longleftrightarrow> (\<exists>x. s db = Some x \<and> r = (x, db))"
  by (cases "s db") (auto simp: found_or_def)

section \<open>The broker inbox\<close>

datatype InboxDecision = CLAIMED | DUPLICATE

record InboxOutcome =
  inbox_decision :: InboxDecision
  prior_result :: "bytes option"

definition inbox_key :: "InboxIdentity \<Rightarrow> pystr \<times> pystr \<times> pystr" where
  "inbox_key i = (inbox_consumer i, inbox_source i, inbox_event i)"

definition inbox_claim_statement :: "InboxIdentity \<Rightarrow> database \<Rightarrow> bool \<times> database" where
  "inbox_claim_statement i db =
     (let (claimed, rows) = insert_absent (inbox_key i)
            (InboxIdentity.extend i \<lparr>inbox_result = None, inbox_processed_at = None\<rparr>) (inbox db)
      in (claimed, db\<lparr>inbox := rows\<rparr>))"

definition inbox_stored_statement :: "InboxIdentity \<Rightarrow> database \<Rightarrow> inbox_row option" where
  "inbox_stored_statement i db = inbox db (inbox_key i)"

definition inbox_completion_statement :: "InboxIdentity \<Rightarrow> bytes \<Rightarrow> pystr \<Rightarrow> database \<Rightarrow> bool \<times> database" where
  "inbox_completion_statement i result processed_at db =
     (let (completed, rows) = update_where (inbox_key i)
            (\<lambda>row. inbox_digest row = inbox_digest i \<and> inbox_result row = None)
            (\<lambda>row. row\<lparr>inbox_result := Some result, inbox_processed_at := Some processed_at\<rparr>) (inbox db)
      in (completed, db\<lparr>inbox := rows\<rparr>))"

definition inbox_duplicate :: "InboxIdentity \<Rightarrow> inbox_row \<Rightarrow> store_error + InboxOutcome" where
  "inbox_duplicate i row =
     (if inbox_digest row \<noteq> inbox_digest i then Inl (InboxError DIGEST_CONFLICT (inbox_event i))
      else (case (inbox_result row, inbox_processed_at row) of
              (None, None) \<Rightarrow> Inl (InboxError INCOMPLETE (inbox_event i))
            | (Some result, Some at) \<Rightarrow> Inr \<lparr>inbox_decision = DUPLICATE, prior_result = Some result\<rparr>
            | (r, p) \<Rightarrow> Inl (InboxError InboxRefusal.UNREADABLE_RESULT (inbox_event i))))"

definition inbox_claim :: "InboxIdentity \<Rightarrow> InboxOutcome store" where
  "inbox_claim i =
     bindT (execute (inbox_claim_statement i)) (\<lambda>claimed.
       if claimed then returnT \<lparr>inbox_decision = CLAIMED, prior_result = None\<rparr>
       else bindT (found_or (InboxError InboxRefusal.CLAIM_VANISHED (inbox_event i)) (inbox_stored_statement i)) (\<lambda>row.
              pure (inbox_duplicate i row)))"

definition inbox_complete :: "InboxIdentity \<Rightarrow> bytes \<Rightarrow> pystr \<Rightarrow> unit store" where
  "inbox_complete i result processed_at =
     scalar_or (InboxError NOT_CLAIMED (inbox_event i)) (inbox_completion_statement i result processed_at)"

section \<open>Idempotency claims\<close>

record ClaimOutcome =
  claim_decision :: IdempotencyDecision
  claimed_result :: "bytes option"

definition claim_statement :: "StoredClaim \<Rightarrow> database \<Rightarrow> bool \<times> database" where
  "claim_statement request db =
     (let (taken, rows) = insert_absent (claim_key request) (StoredClaim.extend request \<lparr>claim_result = None\<rparr>) (claims db)
      in (taken, db\<lparr>claims := rows\<rparr>))"

definition stored_statement :: "pystr \<Rightarrow> database \<Rightarrow> claim_row option" where
  "stored_statement key db = claims db key"

definition result_statement :: "pystr \<Rightarrow> bytes \<Rightarrow> database \<Rightarrow> bool \<times> database" where
  "result_statement key result db =
     (let (recorded, rows) = update_where key (\<lambda>row. claim_result row = None) (\<lambda>row. row\<lparr>claim_result := Some result\<rparr>) (claims db)
      in (recorded, db\<lparr>claims := rows\<rparr>))"

definition repeat_claim :: "StoredClaim \<Rightarrow> claim_row \<Rightarrow> store_error + ClaimOutcome" where
  "repeat_claim request row =
     (if claim_kind row \<noteq> claim_kind request then Inl (StoredClaimError KIND_MISMATCH (claim_key request))
      else if claim_body row \<noteq> claim_body request then Inl (StoredClaimError BODY_MISMATCH (claim_body request))
      else let decision = idempotency_decision (claim_kind row) True
           in if decision = DENY then Inr \<lparr>claim_decision = decision, claimed_result = None\<rparr>
              else (case claim_result row of
                      None \<Rightarrow> Inl (StoredClaimError RESULT_NOT_RECORDED (claim_key request))
                    | Some result \<Rightarrow> Inr \<lparr>claim_decision = decision, claimed_result = Some result\<rparr>))"

definition claim :: "StoredClaim \<Rightarrow> ClaimOutcome store" where
  "claim request =
     bindT (execute (claim_statement request)) (\<lambda>taken.
       if taken then returnT \<lparr>claim_decision = idempotency_decision (claim_kind request) False, claimed_result = None\<rparr>
       else bindT (found_or (StoredClaimError StoredClaimRefusal.CLAIM_VANISHED (claim_key request))
                    (stored_statement (claim_key request))) (\<lambda>row.
              pure (repeat_claim request row)))"

definition record_result :: "pystr \<Rightarrow> bytes \<Rightarrow> unit store" where
  "record_result key result = scalar_or (StoredClaimError RESULT_ALREADY_RECORDED key) (result_statement key result)"

section \<open>Approvals and their bindings\<close>

definition load_for_update :: "pystr \<Rightarrow> StoredApproval store" where
  "load_for_update proposal = found_or (StoredApprovalError StoredApprovalRefusal.NOT_FOUND proposal) (\<lambda>db. approvals db proposal)"

definition consume_statement :: "StoredApproval \<Rightarrow> database \<Rightarrow> bool \<times> database" where
  "consume_statement consumed db =
     (let (changed, rows) = update_where (stored_proposal consumed) (\<lambda>row. stored_state row = APPROVED)
            (\<lambda>row. row\<lparr>stored_state := stored_state consumed\<rparr>) (approvals db)
      in (changed, db\<lparr>approvals := rows\<rparr>))"

definition persist_consumed :: "StoredApproval \<Rightarrow> unit store" where
  "persist_consumed consumed =
     (if stored_state consumed \<noteq> EXECUTED then raiseT (StoredApprovalError NOT_EXECUTED (stored_proposal consumed))
      else scalar_or (StoredApprovalError NOT_CONSUMABLE (stored_proposal consumed)) (consume_statement consumed))"

text \<open>Recording an operator's decision, for which the dashboard is the writer.\<close>

definition record_approval :: "StoredApproval \<Rightarrow> unit store" where
  "record_approval a =
     (if stored_state a \<notin> {APPROVED, ApprovalState.REJECTED}
      then raiseT (StoredApprovalError NOT_A_DECISION (stored_proposal a))
      else scalar_or IntegrityError (\<lambda>db.
        let (written, rows) = insert_absent (stored_proposal a) a (approvals db) in (written, db\<lparr>approvals := rows\<rparr>)))"

definition DECISIONS :: "pystr list" where
  "DECISIONS = [lit ''approve'', lit ''reject'']"

definition readable_binding :: "StoredApprovalBinding \<Rightarrow> bool" where
  "readable_binding b \<longleftrightarrow>
     0 < binding_proposal_version b \<and> 0 < binding_evidence_version b \<and> binding_decision b \<in> set DECISIONS
     \<and> binding_action b \<noteq> []
     \<and> (case (binding_epoch b, binding_issued_monotonic b) of
          (None, None) \<Rightarrow> True | (Some epoch, Some at) \<Rightarrow> epoch \<noteq> [] | (e, a) \<Rightarrow> False)
     \<and> (binding_decision b = lit ''approve'' \<longleftrightarrow> binding_expires b \<noteq> None)"

definition load_binding_where :: "(StoredApprovalBinding \<Rightarrow> bool) \<Rightarrow> pystr \<Rightarrow> StoredApprovalBinding store" where
  "load_binding_where selected i =
     bindT (found_or (ApprovalBindingError ApprovalBindingRefusal.NOT_FOUND i) (\<lambda>db. List.find selected (bindings db))) (\<lambda>row.
       if readable_binding row then returnT row
       else raiseT (ApprovalBindingError ApprovalBindingRefusal.UNREADABLE_ROW i))"

definition load_by_approval :: "pystr \<Rightarrow> StoredApprovalBinding store" where
  "load_by_approval approval = load_binding_where (\<lambda>b. binding_approval b = approval) approval"

definition load_by_proposal :: "pystr \<Rightarrow> StoredApprovalBinding store" where
  "load_by_proposal proposal = load_binding_where (\<lambda>b. binding_proposal b = proposal) proposal"

datatype ApprovalBindingDecision = STORED | DUPLICATE

datatype ApprovalAuthorityDecision = BOUND | DUPLICATE | EPOCH_CONFLICT

record StoredApprovalAuthority =
  authority_epoch :: pystr
  authority_monotonic :: int

definition same_decision :: "StoredApprovalBinding \<Rightarrow> StoredApprovalBinding \<Rightarrow> bool" where
  "same_decision l r \<longleftrightarrow>
     l\<lparr>binding_epoch := None, binding_issued_monotonic := None\<rparr> = r\<lparr>binding_epoch := None, binding_issued_monotonic := None\<rparr>"

definition binding_conflicts :: "StoredApprovalBinding \<Rightarrow> StoredApprovalBinding \<Rightarrow> bool" where
  "binding_conflicts b c \<longleftrightarrow> binding_approval c = binding_approval b \<or> binding_proposal c = binding_proposal b"

text \<open>The dashboard records a binding once, without authority. \<open>one_or_none\<close> raises on two conflicting rows.\<close>

definition record_binding :: "StoredApprovalBinding \<Rightarrow> ApprovalBindingDecision store" where
  "record_binding b = (\<lambda>db.
     if binding_epoch b \<noteq> None \<or> binding_issued_monotonic b \<noteq> None
     then Inl (ApprovalBindingError PREBOUND_AUTHORITY (binding_approval b))
     else (case filter (binding_conflicts b) (bindings db) of
             [] \<Rightarrow> Inr (ApprovalBindingDecision.STORED, db\<lparr>bindings := bindings db @ [b]\<rparr>)
           | [row] \<Rightarrow>
               if \<not> readable_binding row then Inl (ApprovalBindingError ApprovalBindingRefusal.UNREADABLE_ROW (binding_approval b))
               else if same_decision row b then Inr (ApprovalBindingDecision.DUPLICATE, db)
               else Inl (ApprovalBindingError ApprovalBindingRefusal.IDENTITY_CONFLICT (binding_approval b))
           | _ \<Rightarrow> Inl MultipleResults))"

definition unbound :: "pystr \<Rightarrow> StoredApprovalBinding \<Rightarrow> bool" where
  "unbound approval b \<longleftrightarrow> binding_approval b = approval \<and> binding_epoch b = None \<and> binding_issued_monotonic b = None"

definition bind_statement :: "pystr \<Rightarrow> StoredApprovalAuthority \<Rightarrow> database \<Rightarrow> bool \<times> database" where
  "bind_statement approval authority db =
     (\<exists>b \<in> set (bindings db). unbound approval b,
      db\<lparr>bindings := map (\<lambda>b. if unbound approval b
         then b\<lparr>binding_epoch := Some (authority_epoch authority), binding_issued_monotonic := Some (authority_monotonic authority)\<rparr>
         else b) (bindings db)\<rparr>)"

definition bind_authority :: "pystr \<Rightarrow> StoredApprovalAuthority \<Rightarrow> ApprovalAuthorityDecision store" where
  "bind_authority approval a =
     (if authority_epoch a = [] then raiseT (ApprovalBindingError INVALID_AUTHORITY approval)
      else bindT (execute (bind_statement approval a)) (\<lambda>inserted.
        if inserted then returnT BOUND
        else bindT (load_by_approval approval) (\<lambda>stored.
          returnT (if binding_epoch stored = Some (authority_epoch a) then ApprovalAuthorityDecision.DUPLICATE else EPOCH_CONFLICT))))"

section \<open>Proposals, evidence decisions and the audit log\<close>

definition load_proposal :: "pystr \<Rightarrow> StoredProposal store" where
  "load_proposal i = found_or (ProposalError ProposalRefusal.NOT_FOUND i) (\<lambda>db. proposals db i)"

datatype ProposalDecision = STORED | DUPLICATE

definition proposal_statement :: "StoredProposal \<Rightarrow> database \<Rightarrow> bool \<times> database" where
  "proposal_statement p db =
     (let (inserted, rows) = insert_absent (prop_id p) p (proposals db) in (inserted, db\<lparr>proposals := rows\<rparr>))"

definition record_proposal :: "StoredProposal \<Rightarrow> ProposalDecision store" where
  "record_proposal p =
     bindT (execute (proposal_statement p)) (\<lambda>inserted.
       if inserted then returnT ProposalDecision.STORED
       else bindT (found_or (ProposalError PROPOSAL_VANISHED (prop_id p)) (\<lambda>db. proposals db (prop_id p))) (\<lambda>stored.
         if stored \<noteq> p then raiseT (ProposalError ProposalRefusal.IDENTITY_CONFLICT (prop_id p))
         else returnT ProposalDecision.DUPLICATE))"

datatype PendingInvocationDecision = STORED | DUPLICATE

definition pending_invocation_statement :: "StoredPendingInvocation \<Rightarrow> database \<Rightarrow> bool \<times> database" where
  "pending_invocation_statement v db =
     (let (inserted, rows) = insert_absent (pending_invocation v) v (invocations db) in (inserted, db\<lparr>invocations := rows\<rparr>))"

definition record_pending :: "StoredPendingInvocation \<Rightarrow> PendingInvocationDecision store" where
  "record_pending v =
     bindT (execute (pending_invocation_statement v)) (\<lambda>inserted.
       if inserted then returnT PendingInvocationDecision.STORED
       else bindT (found_or (PendingInvocationError PendingInvocationRefusal.CLAIM_VANISHED (pending_invocation v))
                    (\<lambda>db. invocations db (pending_invocation v))) (\<lambda>stored.
         if stored \<noteq> v then raiseT (PendingInvocationError PendingInvocationRefusal.IDENTITY_CONFLICT (pending_invocation v))
         else returnT PendingInvocationDecision.DUPLICATE))"

definition load_pending :: "pystr \<Rightarrow> StoredPendingInvocation store" where
  "load_pending i = found_or (PendingInvocationError PendingInvocationRefusal.NOT_FOUND i) (\<lambda>db. invocations db i)"

text \<open>A row is readable when its branch is complete: a contributing decision has every scoring column, any
  other decision lacks one of them.\<close>

definition readable_decision :: "StoredEvidenceDecision \<Rightarrow> bool" where
  "readable_decision d \<longleftrightarrow>
     (dec_outcome d = CONTRIBUTING \<longleftrightarrow>
        dec_score_version d \<noteq> None \<and> dec_score d \<noteq> None \<and> dec_band d \<noteq> None \<and> dec_contributors d \<noteq> None)"

definition load_decision :: "pystr \<Rightarrow> StoredEvidenceDecision store" where
  "load_decision i =
     bindT (found_or (EvidenceStoreError EvidenceStoreRefusal.NOT_FOUND i) (\<lambda>db. decisions db i)) (\<lambda>row.
       if readable_decision row then returnT row
       else raiseT (EvidenceStoreError EvidenceStoreRefusal.UNREADABLE_ROW i))"

definition FIRST_ORDINAL :: int where
  "FIRST_ORDINAL = 1"

definition ORDINAL_STEP :: int where
  "ORDINAL_STEP = 1"

definition next_ordinal_statement :: "pystr \<Rightarrow> database \<Rightarrow> int \<times> database" where
  "next_ordinal_statement mission db =
     (let ordinal = (case audit_sequence db mission of None \<Rightarrow> FIRST_ORDINAL | Some n \<Rightarrow> n + ORDINAL_STEP)
      in (ordinal, db\<lparr>audit_sequence := (audit_sequence db)(mission \<mapsto> ordinal)\<rparr>))"

definition audit_record_statement :: "AuditRecord \<Rightarrow> int \<Rightarrow> database \<Rightarrow> bool \<times> database" where
  "audit_record_statement r ordinal db =
     (let (written, rows) = insert_absent (audit_mission r, ordinal) r (audit_log db) in (written, db\<lparr>audit_log := rows\<rparr>))"

definition append_audit :: "AuditRecord \<Rightarrow> int store" where
  "append_audit r =
     bindT (execute (next_ordinal_statement (audit_mission r))) (\<lambda>ordinal.
     bindT (scalar_or IntegrityError (audit_record_statement r ordinal)) (\<lambda>_.
       returnT ordinal))"

section \<open>The two outboxes\<close>

definition MAXIMUM_UNCONFIRMED_RECORDS :: nat where
  "MAXIMUM_UNCONFIRMED_RECORDS = 500"

definition unconfirmed :: "database \<Rightarrow> nat" where
  "unconfirmed db = length (filter (\<lambda>(i, row). outbox_state row \<noteq> CONFIRMED) (command_outbox db))"

text \<open>A full outbox writes nothing; a second row for a command identity is the driver's refusal.\<close>

definition stage_statement :: "StagedCommand \<Rightarrow> database \<Rightarrow> store_error + bool \<times> database" where
  "stage_statement c db =
     (if MAXIMUM_UNCONFIRMED_RECORDS \<le> unconfirmed db then Inr (False, db)
      else if map_of (command_outbox db) (cmd_id c) \<noteq> None then Inl IntegrityError
      else Inr (True, db\<lparr>command_outbox :=
        command_outbox db @ [(cmd_id c, \<lparr>outbox_command = c, outbox_state = Outbox.INITIAL_STATE\<rparr>)]\<rparr>))"

definition stage_command :: "StagedCommand \<Rightarrow> unit store" where
  "stage_command c =
     bindT (stage_statement c) (\<lambda>staged. if staged then returnT () else raiseT (StagedCommandError AT_CAPACITY (cmd_id c)))"

definition publication_statement :: "pystr \<Rightarrow> OutboxState \<Rightarrow> OutboxState \<Rightarrow> database \<Rightarrow> bool \<times> database" where
  "publication_statement i was became db =
     (let moved = (\<exists>row \<in> set (command_outbox db). fst row = i \<and> outbox_state (snd row) = was)
      in (moved, db\<lparr>command_outbox := map (\<lambda>(k, row).
            if k = i \<and> outbox_state row = was then (k, row\<lparr>outbox_state := became\<rparr>) else (k, row)) (command_outbox db)\<rparr>))"

definition record_publication :: "pystr \<Rightarrow> OutboxState \<Rightarrow> OutboxEvent \<Rightarrow> OutboxState store" where
  "record_publication i was event =
     bindT (pure (map_sum FromOutbox id (Outbox.transition was event))) (\<lambda>became.
     bindT (scalar_or (StagedCommandError StagedCommandRefusal.NOT_IN_EXPECTED_STATE i) (publication_statement i was became)) (\<lambda>_.
       returnT became))"

text \<open>The oldest rows first; \<open>LIMIT\<close> cuts the sorted rows.\<close>

definition COMMAND_PUBLICATION_BATCH_SIZE :: int where
  "COMMAND_PUBLICATION_BATCH_SIZE = 50"

definition pending_statement :: "OutboxState \<Rightarrow> int \<Rightarrow> database \<Rightarrow> CommandOutboxRecord list" where
  "pending_statement s limit db =
     take (nat limit)
       (sort_key (cmd_staged_at \<circ> outbox_command) (sort_key (cmd_id \<circ> outbox_command)
         (filter (\<lambda>row. outbox_state row = s) (map snd (command_outbox db)))))"

definition pending_commands :: "OutboxState \<Rightarrow> int \<Rightarrow> CommandOutboxRecord list store" where
  "pending_commands s limit =
     (if \<not> (1 \<le> limit \<and> limit \<le> COMMAND_PUBLICATION_BATCH_SIZE)
      then raiseT (StagedCommandError INVALID_READ_LIMIT (lit ''redacted-limit''))
      else if s = CONFIRMED then raiseT (StagedCommandError TERMINAL_READ [])
      else query (pending_statement s limit))"

definition application_stage_statement :: "StagedApplicationEvent \<Rightarrow> database \<Rightarrow> bool \<times> database" where
  "application_stage_statement e db =
     (if map_of (application_outbox db) (app_producer e, app_event e) \<noteq> None then (False, db)
      else (True, db\<lparr>application_outbox := application_outbox db @ [((app_producer e, app_event e),
              StagedApplicationEvent.extend e \<lparr>app_state = Outbox.INITIAL_STATE, app_confirmed_at = None\<rparr>)]\<rparr>))"

definition stage_application :: "StagedApplicationEvent \<Rightarrow> unit store" where
  "stage_application e = scalar_or (ApplicationOutboxError ALREADY_STAGED (app_event e)) (application_stage_statement e)"

definition APPLICATION_OUTBOX_BATCH_SIZE :: nat where
  "APPLICATION_OUTBOX_BATCH_SIZE = 50"

definition selection_statement :: "pystr \<Rightarrow> OutboxState \<Rightarrow> database \<Rightarrow> application_row list" where
  "selection_statement producer s db =
     take APPLICATION_OUTBOX_BATCH_SIZE
       (sort_key app_staged_at (sort_key app_event
         (filter (\<lambda>row. app_producer row = producer \<and> app_state row = s) (map snd (application_outbox db)))))"

text \<open>A staged row that already has a confirmation instant is refused.\<close>

definition readable_application :: "application_row \<Rightarrow> bool" where
  "readable_application row \<longleftrightarrow> app_confirmed_at row = None"

definition pending_application :: "pystr \<Rightarrow> application_row list store" where
  "pending_application producer =
     bindT (query (selection_statement producer STAGED)) (\<lambda>rows.
       case List.find (\<lambda>row. \<not> readable_application row) rows of
         Some row \<Rightarrow> raiseT (ApplicationOutboxError ApplicationOutboxRefusal.UNREADABLE_ROW (app_event row))
       | None \<Rightarrow> returnT rows)"

definition application_publication_statement ::
    "pystr \<times> pystr \<Rightarrow> OutboxState \<Rightarrow> OutboxState \<Rightarrow> pystr option \<Rightarrow> database \<Rightarrow> bool \<times> database" where
  "application_publication_statement i was became confirmed_at db =
     (\<exists>row \<in> set (application_outbox db). fst row = i \<and> app_state (snd row) = was,
      db\<lparr>application_outbox := map (\<lambda>(k, row). if k = i \<and> app_state row = was
         then (k, row\<lparr>app_state := became, app_confirmed_at := confirmed_at\<rparr>) else (k, row)) (application_outbox db)\<rparr>)"

definition record_application_publication ::
    "pystr \<times> pystr \<Rightarrow> OutboxState \<Rightarrow> OutboxEvent \<Rightarrow> pystr option \<Rightarrow> OutboxState store" where
  "record_application_publication i was event confirmed_at =
     bindT (pure (map_sum FromOutbox id (Outbox.transition was event))) (\<lambda>became.
       if (became = CONFIRMED) \<noteq> (confirmed_at \<noteq> None)
       then raiseT (ApplicationOutboxError CONFIRMATION_EVIDENCE (snd i))
       else bindT (scalar_or (ApplicationOutboxError ApplicationOutboxRefusal.NOT_IN_EXPECTED_STATE (snd i))
                    (application_publication_statement i was became confirmed_at)) (\<lambda>_.
         returnT became))"

section \<open>Command progress\<close>

definition MAXIMUM_SEND_COUNT :: int where
  "MAXIMUM_SEND_COUNT = 5"

definition in_send_range :: "int \<Rightarrow> bool" where
  "in_send_range n \<longleftrightarrow> 0 \<le> n \<and> n \<le> MAXIMUM_SEND_COUNT"

definition initial_row :: "CommandIdentity \<Rightarrow> pystr \<Rightarrow> StoredCommandProgress" where
  "initial_row i at = \<lparr>progress_identity = i, progress = INITIAL_PROGRESS,
     progress_facts = \<lparr>last_sent_at = None, deadline_at = None, result_id = None, updated_at = at\<rparr>\<rparr>"

definition initialize_statement :: "CommandIdentity \<Rightarrow> pystr \<Rightarrow> database \<Rightarrow> bool \<times> database" where
  "initialize_statement i at db =
     (let (inserted, rows) = insert_absent (ident_command i) (initial_row i at) (command_progress db)
      in (inserted, db\<lparr>command_progress := rows\<rparr>))"

definition initialize :: "CommandIdentity \<Rightarrow> pystr \<Rightarrow> StoredCommandProgress store" where
  "initialize i at =
     bindT (scalar_or (CommandProgressError ALREADY_EXISTS (ident_command i)) (initialize_statement i at)) (\<lambda>_.
       returnT (initial_row i at))"

definition load_progress :: "pystr \<Rightarrow> StoredCommandProgress store" where
  "load_progress i =
     bindT (found_or (CommandProgressError CommandProgressRefusal.NOT_FOUND i) (\<lambda>db. command_progress db i)) (\<lambda>row.
       if in_send_range (sends (progress row)) then returnT row
       else raiseT (CommandProgressError CommandProgressRefusal.UNREADABLE_ROW i))"

definition transition_statement ::
    "StoredCommandProgress \<Rightarrow> CommandProgress \<Rightarrow> TransitionFacts \<Rightarrow> database \<Rightarrow> bool \<times> database" where
  "transition_statement current became facts db =
     (let (changed, rows) = update_where (ident_command (progress_identity current))
            (\<lambda>row. progress_state (progress row) = progress_state (progress current)
                 \<and> sends (progress row) = sends (progress current))
            (\<lambda>row. row\<lparr>progress := became, progress_facts := facts\<rparr>) (command_progress db)
      in (changed, db\<lparr>command_progress := rows\<rparr>))"

definition record_transition ::
    "StoredCommandProgress \<Rightarrow> CommandEvent \<Rightarrow> SendBudget \<Rightarrow> TransitionFacts \<Rightarrow> StoredCommandProgress store" where
  "record_transition current event budget facts =
     (let i = ident_command (progress_identity current)
      in if \<not> in_send_range (sends (progress current)) then raiseT (CommandProgressError SEND_COUNT_OUT_OF_RANGE i)
         else bindT (pure (map_sum FromCommand id (advance (progress current) event budget))) (\<lambda>became.
           if \<not> in_send_range (sends became) then raiseT (CommandProgressError SEND_COUNT_OUT_OF_RANGE i)
           else bindT (scalar_or (CommandProgressError STALE_PROGRESS i) (transition_statement current became facts)) (\<lambda>_.
             returnT (current\<lparr>progress := became, progress_facts := facts\<rparr>))))"

section \<open>The ledger of refused deliveries\<close>

datatype BrokerRefusalDecision = STORED | DUPLICATE

definition refusal_key :: "StoredBrokerRefusal \<Rightarrow> pystr \<times> pystr \<times> pystr" where
  "refusal_key f = (refused_consumer f, refused_channel f, refused_digest f)"

definition refusal_statement :: "StoredBrokerRefusal \<Rightarrow> database \<Rightarrow> bool \<times> database" where
  "refusal_statement f db =
     (let (inserted, rows) = insert_absent (refusal_key f) f (refusals db) in (inserted, db\<lparr>refusals := rows\<rparr>))"

definition immutable_context :: "StoredBrokerRefusal \<Rightarrow> pystr option \<times> pystr option \<times> pystr" where
  "immutable_context f = (refused_source f, refused_family f, refused_code f)"

definition record_refusal :: "StoredBrokerRefusal \<Rightarrow> (BrokerRefusalDecision \<times> StoredBrokerRefusal) store" where
  "record_refusal f =
     bindT (execute (refusal_statement f)) (\<lambda>inserted.
       if inserted then returnT (STORED, f)
       else bindT (found_or (BrokerRefusalError IDENTITY_VANISHED (refused_digest f)) (\<lambda>db. refusals db (refusal_key f))) (\<lambda>stored.
         if immutable_context stored \<noteq> immutable_context f
         then raiseT (BrokerRefusalError BrokerRefusalRefusal.IDENTITY_CONFLICT (refused_digest f))
         else returnT (BrokerRefusalDecision.DUPLICATE, stored)))"

section \<open>What each operation does when it returns\<close>

lemma inbox_claim_Inr:
  "inbox_claim i db = Inr (oc, db') \<longleftrightarrow>
     (case inbox db (inbox_key i) of
        None \<Rightarrow> oc = \<lparr>inbox_decision = CLAIMED, prior_result = None\<rparr>
          \<and> db' = db\<lparr>inbox := (inbox db)(inbox_key i \<mapsto> InboxIdentity.extend i \<lparr>inbox_result = None, inbox_processed_at = None\<rparr>)\<rparr>
      | Some row \<Rightarrow> inbox_duplicate i row = Inr oc \<and> db' = db)"
  by (auto simp: inbox_claim_def inbox_claim_statement_def inbox_stored_statement_def insert_absent_def found_or_Inr
      split: option.splits)

lemma inbox_duplicate_Inr:
  "inbox_duplicate i row = Inr oc \<longleftrightarrow> inbox_digest row = inbox_digest i
     \<and> (\<exists>result at. inbox_result row = Some result \<and> inbox_processed_at row = Some at
          \<and> oc = \<lparr>inbox_decision = InboxDecision.DUPLICATE, prior_result = Some result\<rparr>)"
  by (auto simp: inbox_duplicate_def split: option.splits)

lemma inbox_complete_Inr:
  "inbox_complete i result at db = Inr (u, db') \<longleftrightarrow>
     (\<exists>row. inbox db (inbox_key i) = Some row \<and> inbox_digest row = inbox_digest i \<and> inbox_result row = None
        \<and> db' = db\<lparr>inbox := (inbox db)(inbox_key i \<mapsto> row\<lparr>inbox_result := Some result, inbox_processed_at := Some at\<rparr>)\<rparr>)"
  by (auto simp: inbox_complete_def inbox_completion_statement_def scalar_or_Inr update_where_def split: prod.splits option.splits if_splits)

lemma claim_Inr:
  "Repositories.claim q db = Inr (oc, db') \<longleftrightarrow>
     (case claims db (claim_key q) of
        None \<Rightarrow> oc = \<lparr>claim_decision = IdempotencyDecision.EXECUTE, claimed_result = None\<rparr>
          \<and> db' = db\<lparr>claims := (claims db)(claim_key q \<mapsto> StoredClaim.extend q \<lparr>claim_result = None\<rparr>)\<rparr>
      | Some row \<Rightarrow> repeat_claim q row = Inr oc \<and> db' = db)"
  by (auto simp: claim_def claim_statement_def stored_statement_def insert_absent_def found_or_Inr idempotency_decision_def
      split: option.splits)

lemma record_result_Inr:
  "record_result key result db = Inr (u, db') \<longleftrightarrow>
     (\<exists>row. claims db key = Some row \<and> claim_result row = None
        \<and> db' = db\<lparr>claims := (claims db)(key \<mapsto> row\<lparr>claim_result := Some result\<rparr>)\<rparr>)"
  by (auto simp: record_result_def result_statement_def scalar_or_Inr update_where_def split: prod.splits option.splits if_splits)

lemma load_for_update_Inr: "load_for_update p db = Inr (a, db') \<longleftrightarrow> approvals db p = Some a \<and> db' = db"
  by (auto simp: load_for_update_def found_or_Inr)

lemma load_binding_where_Inr:
  "load_binding_where f i db = Inr (b, db') \<longleftrightarrow> List.find f (bindings db) = Some b \<and> readable_binding b \<and> db' = db"
  by (auto simp: load_binding_where_def found_or_Inr)

lemma load_proposal_Inr: "load_proposal i db = Inr (p, db') \<longleftrightarrow> proposals db i = Some p \<and> db' = db"
  by (auto simp: load_proposal_def found_or_Inr)

lemma load_decision_Inr: "load_decision i db = Inr (d, db') \<longleftrightarrow> decisions db i = Some d \<and> readable_decision d \<and> db' = db"
  by (auto simp: load_decision_def found_or_Inr)

lemma persist_consumed_Inr:
  "persist_consumed a db = Inr (u, db') \<longleftrightarrow>
     stored_state a = ApprovalState.EXECUTED
     \<and> (\<exists>row. approvals db (stored_proposal a) = Some row \<and> stored_state row = APPROVED
          \<and> db' = db\<lparr>approvals := (approvals db)(stored_proposal a \<mapsto> row\<lparr>stored_state := ApprovalState.EXECUTED\<rparr>)\<rparr>)"
  by (auto simp: persist_consumed_def consume_statement_def scalar_or_Inr update_where_def split: prod.splits option.splits if_splits)

lemma record_approval_Inr:
  "record_approval a db = Inr (u, db') \<longleftrightarrow>
     stored_state a \<in> {APPROVED, ApprovalState.REJECTED} \<and> approvals db (stored_proposal a) = None
     \<and> db' = db\<lparr>approvals := (approvals db)(stored_proposal a \<mapsto> a)\<rparr>"
  by (auto simp: record_approval_def scalar_or_Inr insert_absent_def split: prod.splits if_splits)

definition next_ordinal :: "database \<Rightarrow> pystr \<Rightarrow> int" where
  "next_ordinal db mission = (case audit_sequence db mission of None \<Rightarrow> 1 | Some n \<Rightarrow> n + 1)"

lemma append_audit_Inr:
  "append_audit r db = Inr (n, db') \<longleftrightarrow>
     n = next_ordinal db (audit_mission r) \<and> audit_log db (audit_mission r, n) = None
     \<and> db' = db\<lparr>audit_sequence := (audit_sequence db)(audit_mission r \<mapsto> n),
               audit_log := (audit_log db)((audit_mission r, n) \<mapsto> r)\<rparr>"
  by (auto simp: append_audit_def next_ordinal_statement_def audit_record_statement_def scalar_or_Inr insert_absent_def
      next_ordinal_def FIRST_ORDINAL_def ORDINAL_STEP_def Let_def split: prod.splits if_splits option.splits)

lemma stage_command_Inr:
  "stage_command c db = Inr (u, db') \<longleftrightarrow>
     unconfirmed db < MAXIMUM_UNCONFIRMED_RECORDS \<and> map_of (command_outbox db) (cmd_id c) = None
     \<and> db' = db\<lparr>command_outbox := command_outbox db @ [(cmd_id c, \<lparr>outbox_command = c, outbox_state = Outbox.INITIAL_STATE\<rparr>)]\<rparr>"
  by (auto simp: stage_command_def stage_statement_def split: if_splits)

lemma stage_application_Inr:
  "stage_application e db = Inr (u, db') \<longleftrightarrow>
     map_of (application_outbox db) (app_producer e, app_event e) = None
     \<and> db' = db\<lparr>application_outbox := application_outbox db @ [((app_producer e, app_event e),
         StagedApplicationEvent.extend e \<lparr>app_state = Outbox.INITIAL_STATE, app_confirmed_at = None\<rparr>)]\<rparr>"
  by (auto simp: stage_application_def application_stage_statement_def scalar_or_Inr split: if_splits)

lemma initialize_Inr:
  "initialize i at db = Inr (row, db') \<longleftrightarrow>
     command_progress db (ident_command i) = None \<and> row = initial_row i at
     \<and> db' = db\<lparr>command_progress := (command_progress db)(ident_command i \<mapsto> initial_row i at)\<rparr>"
  by (auto simp: initialize_def initialize_statement_def scalar_or_Inr insert_absent_def split: prod.splits if_splits)

lemma load_progress_Inr:
  "load_progress i db = Inr (row, db') \<longleftrightarrow>
     command_progress db i = Some row \<and> in_send_range (sends (progress row)) \<and> db' = db"
  by (auto simp: load_progress_def found_or_Inr)

lemma record_transition_Inr:
  "record_transition current event budget facts db = Inr (became, db') \<longleftrightarrow>
     in_send_range (sends (progress current))
     \<and> (\<exists>p row. advance (progress current) event budget = Inr p \<and> in_send_range (sends p)
          \<and> command_progress db (ident_command (progress_identity current)) = Some row
          \<and> progress_state (progress row) = progress_state (progress current) \<and> sends (progress row) = sends (progress current)
          \<and> became = current\<lparr>progress := p, progress_facts := facts\<rparr>
          \<and> db' = db\<lparr>command_progress := (command_progress db)(ident_command (progress_identity current)
                \<mapsto> row\<lparr>progress := p, progress_facts := facts\<rparr>)\<rparr>)"
proof -
  have *: "map_sum FromCommand id r = Inr p \<longleftrightarrow> r = Inr p" for r :: "CommandError + CommandProgress" and p
    by (cases r) simp_all
  show ?thesis
    by (auto simp: record_transition_def transition_statement_def scalar_or_Inr update_where_def Let_def *
        split: prod.splits option.splits if_splits)
qed

lemma record_refusal_Inr:
  "record_refusal f db = Inr (x, db') \<Longrightarrow> \<exists>rows. db' = db\<lparr>refusals := rows\<rparr>"
  by (auto simp: record_refusal_def refusal_statement_def insert_absent_def found_or_Inr split: if_splits)
     (metis database.surjective database.update_convs(12))

lemmas repository_Inr = inbox_claim_Inr inbox_complete_Inr claim_Inr record_result_Inr load_for_update_Inr load_binding_where_Inr
  load_proposal_Inr load_decision_Inr persist_consumed_Inr append_audit_Inr stage_command_Inr stage_application_Inr
  initialize_Inr load_progress_Inr record_transition_Inr

end
