(* ===== verification/Ingress.thy ===== *)
theory Ingress
  imports Exchange Integration Repositories
begin

text \<open>
  \<open>services/command_gateway/src/aerial_rescue_command_gateway/ingress.py\<close> and \<open>refusal.py\<close>: what the command gateway accepts from
  the broker, and the record of what it refuses. The payload models of the source are closed and
  strict declarations; each is a record here, with the validator the declaration denotes: exactly the declared members by
  alias, every member of its type and within its constraints.
\<close>

section \<open>Payload models\<close>

text \<open>\<open>^[0-9]{4}-...Z$\<close>: the instant form without the exclusion of year zero.\<close>

definition PAYLOAD_INSTANT_PATTERN :: regex where
  "PAYLOAD_INSTANT_PATTERN =
     Seq (exactly 4 digit_class) (Seq (word_of ''-'') (Seq MONTHS (Seq (word_of ''-'') (Seq DAYS (Seq (word_of ''T'')
       (Seq HOURS (Seq (word_of '':'') (Seq SIXTIES (Seq (word_of '':'') (Seq SIXTIES (Seq (word_of ''.'')
         (Seq (exactly 3 digit_class) (word_of ''Z'')))))))))))))"

fun text_field :: "regex \<Rightarrow> nat \<Rightarrow> pyval \<Rightarrow> pystr option" where
  "text_field pattern limit (PStr t) = (if fullmatch pattern t \<and> length t \<le> limit then Some t else None)"
| "text_field pattern limit val = None"

definition identifier_field :: "pyval \<Rightarrow> pystr option" where
  "identifier_field = text_field IDENTIFIER_PATTERN 64"

definition digest_field :: "pyval \<Rightarrow> pystr option" where
  "digest_field = text_field DIGEST_PATTERN 64"

definition instant_field :: "pyval \<Rightarrow> pystr option" where
  "instant_field = text_field PAYLOAD_INSTANT_PATTERN 24"

fun literal_field :: "pystr list \<Rightarrow> pyval \<Rightarrow> pystr option" where
  "literal_field choices (PStr t) = (if t \<in> set choices then Some t else None)"
| "literal_field choices val = None"

fun integer_field :: "int \<Rightarrow> int \<Rightarrow> pyval \<Rightarrow> int option" where
  "integer_field lo hi (PInt n) = (if lo \<le> n \<and> n \<le> hi then Some n else None)"
| "integer_field lo hi val = None"

fun strict_one :: "pyval \<Rightarrow> int option" where
  "strict_one (PInt n) = (if n = 1 then Some n else None)"
| "strict_one val = None"

definition latitude_field :: "pyval \<Rightarrow> int option" where
  "latitude_field = integer_field (-90000000) 90000000"

definition longitude_field :: "pyval \<Rightarrow> int option" where
  "longitude_field = integer_field (-180000000) 180000000"

text \<open>\<open>extra="forbid"\<close>, with the required and the optional aliases.\<close>

definition closed_model :: "string list \<Rightarrow> string list \<Rightarrow> members \<Rightarrow> bool" where
  "closed_model required optional d \<longleftrightarrow>
     set (dict_keys d) \<subseteq> KStr ` lit ` set (required @ optional) \<and> (\<forall>n \<in> set required. has_member d (lit n))"

abbreviation field_of :: "members \<Rightarrow> string \<Rightarrow> (pyval \<Rightarrow> 'a option) \<Rightarrow> ('a \<Rightarrow> 'b option) \<Rightarrow> 'b option" where
  "field_of d name parser rest \<equiv> Option.bind (parser (get d (lit name))) rest"

record AssignSectorAction =
  assign_drone :: pystr
  assign_sector :: pystr

record EscalateRescueAction =
  escalate_drone :: pystr
  escalate_proposal :: pystr
  escalate_proposal_digest :: pystr
  escalate_proposal_version :: int
  escalate_evidence :: pystr
  escalate_evidence_digest :: pystr
  escalate_evidence_version :: int
  escalate_latitude :: int
  escalate_longitude :: int

datatype OperatorAction = AssignSector AssignSectorAction | EscalateRescue EscalateRescueAction

definition validate_assign_sector :: "members \<Rightarrow> AssignSectorAction option" where
  "validate_assign_sector d =
     (if \<not> closed_model [''commandType'', ''droneId'', ''sectorId''] [] d then None
      else field_of d ''commandType'' (literal_field [lit ''assign-sector'']) (\<lambda>_.
           field_of d ''droneId'' identifier_field (\<lambda>drone.
           field_of d ''sectorId'' identifier_field (\<lambda>sector.
             Some \<lparr>assign_drone = drone, assign_sector = sector\<rparr>))))"

definition validate_escalate_rescue :: "members \<Rightarrow> EscalateRescueAction option" where
  "validate_escalate_rescue d =
     (if \<not> closed_model [''commandType'', ''droneId'', ''proposalId'', ''proposalDigest'', ''proposalVersion'',
          ''evidenceDecisionId'', ''evidenceDecisionDigest'', ''evidenceDecisionVersion'', ''latitudeMicrodegrees'',
          ''longitudeMicrodegrees''] [] d then None
      else field_of d ''commandType'' (literal_field [lit ''escalate-rescue'']) (\<lambda>_.
           field_of d ''droneId'' identifier_field (\<lambda>drone.
           field_of d ''proposalId'' identifier_field (\<lambda>proposal.
           field_of d ''proposalDigest'' digest_field (\<lambda>pd.
           field_of d ''proposalVersion'' strict_one (\<lambda>pv.
           field_of d ''evidenceDecisionId'' identifier_field (\<lambda>evidence.
           field_of d ''evidenceDecisionDigest'' digest_field (\<lambda>ed.
           field_of d ''evidenceDecisionVersion'' strict_one (\<lambda>ev.
           field_of d ''latitudeMicrodegrees'' latitude_field (\<lambda>lat.
           field_of d ''longitudeMicrodegrees'' longitude_field (\<lambda>lon.
             Some \<lparr>escalate_drone = drone, escalate_proposal = proposal, escalate_proposal_digest = pd,
               escalate_proposal_version = pv, escalate_evidence = evidence, escalate_evidence_digest = ed,
               escalate_evidence_version = ev, escalate_latitude = lat, escalate_longitude = lon\<rparr>)))))))))))"

fun validate_action :: "pyval \<Rightarrow> OperatorAction option" where
  "validate_action (PDict d) =
     (case validate_assign_sector d of
        Some a \<Rightarrow> Some (AssignSector a)
      | None \<Rightarrow> map_option EscalateRescue (validate_escalate_rescue d))"
| "validate_action val = None"

record OperatorCommandPayload =
  command_mission :: pystr
  command_id :: pystr
  command_operator :: pystr
  command_action :: OperatorAction

definition validate_operator_command :: "members \<Rightarrow> OperatorCommandPayload option" where
  "validate_operator_command d =
     (if \<not> closed_model [''operatorCommandVersion'', ''missionId'', ''commandId'', ''operatorId'', ''action''] [] d then None
      else field_of d ''operatorCommandVersion'' strict_one (\<lambda>_.
           field_of d ''missionId'' identifier_field (\<lambda>mission.
           field_of d ''commandId'' identifier_field (\<lambda>i.
           field_of d ''operatorId'' identifier_field (\<lambda>operator.
           field_of d ''action'' validate_action (\<lambda>action.
             Some \<lparr>command_mission = mission, command_id = i, command_operator = operator, command_action = action\<rparr>))))))"

record ApprovalAction =
  action_drone :: pystr
  action_latitude :: int
  action_longitude :: int

definition validate_approval_action :: "members \<Rightarrow> ApprovalAction option" where
  "validate_approval_action d =
     (if \<not> closed_model [''commandType'', ''droneId'', ''latitudeMicrodegrees'', ''longitudeMicrodegrees''] [] d then None
      else field_of d ''commandType'' (literal_field [lit ''escalate-rescue'']) (\<lambda>_.
           field_of d ''droneId'' identifier_field (\<lambda>drone.
           field_of d ''latitudeMicrodegrees'' latitude_field (\<lambda>lat.
           field_of d ''longitudeMicrodegrees'' longitude_field (\<lambda>lon.
             Some \<lparr>action_drone = drone, action_latitude = lat, action_longitude = lon\<rparr>)))))"

fun validate_approval_value :: "pyval \<Rightarrow> ApprovalAction option" where
  "validate_approval_value (PDict d) = validate_approval_action d"
| "validate_approval_value val = None"

record OperatorApprovalPayload =
  approved_mission :: pystr
  approved_id :: pystr
  approved_operator :: pystr
  approved_decision :: pystr
  approved_issued_at :: pystr
  approved_expires_at :: "pystr option"
  approved_proposal :: pystr
  approved_proposal_digest :: pystr
  approved_proposal_version :: int
  approved_evidence :: pystr
  approved_evidence_digest :: pystr
  approved_evidence_version :: int
  approved_action :: ApprovalAction

text \<open>\<open>Instant | None\<close> with default \<open>None\<close>.\<close>

fun optional_instant :: "pyval \<Rightarrow> pystr option option" where
  "optional_instant PNone = Some None"
| "optional_instant val = map_option Some (instant_field val)"

definition validate_operator_approval :: "members \<Rightarrow> OperatorApprovalPayload option" where
  "validate_operator_approval d =
     (if \<not> closed_model [''operatorApprovalVersion'', ''missionId'', ''approvalId'', ''operatorId'', ''decision'', ''issuedAt'',
          ''proposalId'', ''proposalDigest'', ''proposalVersion'', ''evidenceDecisionId'', ''evidenceDecisionDigest'',
          ''evidenceDecisionVersion'', ''action''] [''expiresAt''] d then None
      else field_of d ''operatorApprovalVersion'' strict_one (\<lambda>_.
           field_of d ''missionId'' identifier_field (\<lambda>mission.
           field_of d ''approvalId'' identifier_field (\<lambda>i.
           field_of d ''operatorId'' identifier_field (\<lambda>operator.
           field_of d ''decision'' (literal_field [lit ''approve'', lit ''reject'']) (\<lambda>decision.
           field_of d ''issuedAt'' instant_field (\<lambda>issued.
           field_of d ''expiresAt'' optional_instant (\<lambda>expiry.
           field_of d ''proposalId'' identifier_field (\<lambda>proposal.
           field_of d ''proposalDigest'' digest_field (\<lambda>pd.
           field_of d ''proposalVersion'' strict_one (\<lambda>pv.
           field_of d ''evidenceDecisionId'' identifier_field (\<lambda>evidence.
           field_of d ''evidenceDecisionDigest'' digest_field (\<lambda>ed.
           field_of d ''evidenceDecisionVersion'' strict_one (\<lambda>ev.
           field_of d ''action'' validate_approval_value (\<lambda>action.
             if (decision = lit ''approve'') \<noteq> (expiry \<noteq> None) then None
             else Some \<lparr>approved_mission = mission, approved_id = i, approved_operator = operator, approved_decision = decision,
               approved_issued_at = issued, approved_expires_at = expiry, approved_proposal = proposal,
               approved_proposal_digest = pd, approved_proposal_version = pv, approved_evidence = evidence,
               approved_evidence_digest = ed, approved_evidence_version = ev, approved_action = action\<rparr>)))))))))))))))"

record CommandResultPayload =
  result_mission :: pystr
  result_drone :: pystr
  result_command :: pystr
  result_outcome :: pystr

definition validate_command_result :: "members \<Rightarrow> CommandResultPayload option" where
  "validate_command_result d =
     (if \<not> closed_model [''missionId'', ''droneId'', ''commandId'', ''outcome''] [] d then None
      else field_of d ''missionId'' identifier_field (\<lambda>mission.
           field_of d ''droneId'' identifier_field (\<lambda>drone.
           field_of d ''commandId'' identifier_field (\<lambda>i.
           field_of d ''outcome'' (literal_field [lit ''acknowledged'', lit ''succeeded'', lit ''failed'']) (\<lambda>oc.
             Some \<lparr>result_mission = mission, result_drone = drone, result_command = i, result_outcome = oc\<rparr>)))))"

section \<open>The trust boundary\<close>

datatype AcceptedIngress =
    OperatorCommandIngress Topic Envelope OperatorCommandPayload
  | OperatorApprovalIngress Topic Envelope OperatorApprovalPayload
  | CommandResultIngress Topic Envelope CommandResultPayload
  | GatewayRequestIngress Topic GatewayRequest
  | AgentResponseIngress Topic AgentResponse

datatype IngressRefusal = TOPIC | UNAUTHORIZED_FAMILY | ENVELOPE | PAYLOAD | BINDING

text \<open>An \<open>IngressError\<close>, or a KeyError that no handler of ValueError catches.\<close>

datatype ingress_error = IngressError IngressRefusal | IngressKeyError

definition ingress_topic :: "pyval \<Rightarrow> ingress_error + Topic" where
  "ingress_topic text =
     (case parse_topic text of
        Inl (KeyError k) \<Rightarrow> Inl IngressKeyError
      | Inl error \<Rightarrow> Inl (IngressError TOPIC)
      | Inr topic \<Rightarrow> Inr topic)"

datatype envelope_decode_error = EnvelopeText decode_error | EnvelopeRefused envelope_error

definition decode_envelope :: "(pystr \<Rightarrow> pystr) \<Rightarrow> bytes \<Rightarrow> envelope_decode_error + Envelope" where
  "decode_envelope nfc raw =
     (case decode_bytes nfc raw of
        Inl error \<Rightarrow> Inl (EnvelopeText error)
      | Inr document \<Rightarrow> map_sum EnvelopeRefused id (parse_envelope nfc document))"

definition ingress_envelope :: "(pystr \<Rightarrow> pystr) \<Rightarrow> bytes \<Rightarrow> Topic \<Rightarrow> ingress_error + Envelope" where
  "ingress_envelope nfc raw topic =
     (case decode_envelope nfc raw of
        Inl (EnvelopeRefused error) \<Rightarrow> Inl (if is_value_error error then IngressError ENVELOPE else IngressKeyError)
      | Inl (EnvelopeText error) \<Rightarrow> Inl (IngressError ENVELOPE)
      | Inr envelope \<Rightarrow>
          (case check_topic_binding envelope topic of
             Inl error \<Rightarrow> Inl (if is_value_error error then IngressError ENVELOPE else IngressKeyError)
           | Inr _ \<Rightarrow> Inr envelope))"

definition ingress_payload :: "(members \<Rightarrow> 'p option) \<Rightarrow> Envelope \<Rightarrow> ingress_error + 'p" where
  "ingress_payload model envelope =
     (case model (data envelope) of None \<Rightarrow> Inl (IngressError PAYLOAD) | Some p \<Rightarrow> Inr p)"

definition operator_command :: "(pystr \<Rightarrow> pystr) \<Rightarrow> bytes \<Rightarrow> Topic \<Rightarrow> ingress_error + AcceptedIngress" where
  "operator_command nfc raw topic =
     bindE (ingress_envelope nfc raw topic) (\<lambda>e.
     bindE (ingress_payload validate_operator_command e) (\<lambda>p. Inr (OperatorCommandIngress topic e p)))"

definition operator_approval :: "(pystr \<Rightarrow> pystr) \<Rightarrow> bytes \<Rightarrow> Topic \<Rightarrow> ingress_error + AcceptedIngress" where
  "operator_approval nfc raw topic =
     bindE (ingress_envelope nfc raw topic) (\<lambda>e.
     bindE (ingress_payload validate_operator_approval e) (\<lambda>p. Inr (OperatorApprovalIngress topic e p)))"

definition command_result :: "(pystr \<Rightarrow> pystr) \<Rightarrow> bytes \<Rightarrow> Topic \<Rightarrow> ingress_error + AcceptedIngress" where
  "command_result nfc raw topic =
     bindE (ingress_envelope nfc raw topic) (\<lambda>e.
     bindE (ingress_payload validate_command_result e) (\<lambda>p. Inr (CommandResultIngress topic e p)))"

definition gateway_request_ingress :: "(pystr \<Rightarrow> pystr) \<Rightarrow> bytes \<Rightarrow> Topic \<Rightarrow> ingress_error + AcceptedIngress" where
  "gateway_request_ingress nfc raw topic =
     (case decode_gateway_request nfc raw of
        Inl (NotABody (RpcKeyError k)) \<Rightarrow> Inl IngressKeyError
      | Inl error \<Rightarrow> Inl (IngressError PAYLOAD)
      | Inr q \<Rightarrow>
          if request_mission q \<noteq> mission_id topic
             \<or> map_of (topic_parameters topic) (lit ''operation'') \<noteq> Some (request_operation q)
          then Inl (IngressError BINDING) else Inr (GatewayRequestIngress topic q))"

definition agent_response_ingress :: "(pystr \<Rightarrow> pystr) \<Rightarrow> bytes \<Rightarrow> Topic \<Rightarrow> ingress_error + AcceptedIngress" where
  "agent_response_ingress nfc raw topic =
     (case decode_bytes nfc raw of
        Inl error \<Rightarrow> Inl (IngressError PAYLOAD)
      | Inr document \<Rightarrow>
     (case parse_agent_response document of
        Inl error \<Rightarrow> Inl (IngressError PAYLOAD)
      | Inr r \<Rightarrow>
     (case check_agent_response_topic r topic of
        Inl error \<Rightarrow> Inl (IngressError BINDING)
      | Inr _ \<Rightarrow> Inr (AgentResponseIngress topic r))))"

definition accept_ingress :: "(pystr \<Rightarrow> pystr) \<Rightarrow> bytes \<Rightarrow> pyval \<Rightarrow> ingress_error + AcceptedIngress" where
  "accept_ingress nfc raw topic_text =
     bindE (ingress_topic topic_text) (\<lambda>topic.
       case family topic of
         OPERATOR_COMMAND \<Rightarrow> operator_command nfc raw topic
       | Family.OPERATOR_APPROVAL \<Rightarrow> operator_approval nfc raw topic
       | DRONE_COMMAND_RESULT \<Rightarrow> command_result nfc raw topic
       | GATEWAY_REQUEST \<Rightarrow> gateway_request_ingress nfc raw topic
       | AGENT_RESPONSE \<Rightarrow> agent_response_ingress nfc raw topic
       | _ \<Rightarrow> Inl (IngressError UNAUTHORIZED_FAMILY))"

section \<open>Refused deliveries\<close>

record GuaranteedDelivery =
  delivery_topic :: pystr
  delivery_payload :: bytes

definition CONSUMER :: pystr where
  "CONSUMER = lit ''command-gateway''"

text \<open>\<open>error.refusal.name.lower().replace("_", "-")\<close>\<close>

fun refusal_code :: "IngressRefusal \<Rightarrow> pystr" where
  "refusal_code TOPIC = lit ''topic''"
| "refusal_code UNAUTHORIZED_FAMILY = lit ''unauthorized-family''"
| "refusal_code ENVELOPE = lit ''envelope''"
| "refusal_code PAYLOAD = lit ''payload''"
| "refusal_code BINDING = lit ''binding''"

text \<open>\<open>suppress(ValueError)\<close> leaves the context out; a KeyError passes.\<close>

definition refused_family_of :: "pystr \<Rightarrow> ingress_error + pystr option" where
  "refused_family_of topic =
     (case ingress_topic (PStr topic) of
        Inl IngressKeyError \<Rightarrow> Inl IngressKeyError
      | Inl (IngressError error) \<Rightarrow> Inr None
      | Inr t \<Rightarrow> Inr (Some (literal_suffix (family t))))"

definition refused_source_of :: "(pystr \<Rightarrow> pystr) \<Rightarrow> bytes \<Rightarrow> ingress_error + pystr option" where
  "refused_source_of nfc raw =
     (case decode_envelope nfc raw of
        Inl (EnvelopeRefused error) \<Rightarrow> if is_value_error error then Inr None else Inl IngressKeyError
      | Inl (EnvelopeText error) \<Rightarrow> Inr None
      | Inr e \<Rightarrow> Inr (Some (source e)))"

definition refusal_candidate ::
    "(pystr \<Rightarrow> pystr) \<Rightarrow> GuaranteedDelivery \<Rightarrow> pystr \<Rightarrow> pystr \<Rightarrow> ingress_error + BrokerRefusalCandidate" where
  "refusal_candidate nfc delivery channel code =
     bindE (refused_family_of (delivery_topic delivery)) (\<lambda>fam.
     bindE (refused_source_of nfc (delivery_payload delivery)) (\<lambda>src.
       Inr \<lparr>refused_consumer = CONSUMER, refused_source = src, refused_family = fam, refused_channel = channel,
            refused_code = code, refused_digest = sha256_hexdigest (delivery_payload delivery)\<rparr>))"

section \<open>What crosses the boundary\<close>

definition identifier_text :: "pystr \<Rightarrow> bool" where
  "identifier_text t \<longleftrightarrow> fullmatch IDENTIFIER_PATTERN t \<and> length t \<le> 64"

definition digest_text :: "pystr \<Rightarrow> bool" where
  "digest_text t \<longleftrightarrow> fullmatch DIGEST_PATTERN t \<and> length t \<le> 64"

definition instant_text :: "pystr \<Rightarrow> bool" where
  "instant_text t \<longleftrightarrow> fullmatch PAYLOAD_INSTANT_PATTERN t \<and> length t \<le> 24"

definition coordinates :: "int \<Rightarrow> int \<Rightarrow> bool" where
  "coordinates lat lon \<longleftrightarrow> \<bar>lat\<bar> \<le> 90000000 \<and> \<bar>lon\<bar> \<le> 180000000"

lemma field_Some [simp]:
  "text_field pattern limit v = Some t \<longleftrightarrow> v = PStr t \<and> fullmatch pattern t \<and> length t \<le> limit"
  "identifier_field v = Some t \<longleftrightarrow> v = PStr t \<and> identifier_text t"
  "digest_field v = Some t \<longleftrightarrow> v = PStr t \<and> digest_text t"
  "instant_field v = Some t \<longleftrightarrow> v = PStr t \<and> instant_text t"
  "literal_field choices v = Some t \<longleftrightarrow> v = PStr t \<and> t \<in> set choices"
  "integer_field lo hi v = Some n \<longleftrightarrow> v = PInt n \<and> lo \<le> n \<and> n \<le> hi"
  "strict_one v = Some n \<longleftrightarrow> v = PInt 1 \<and> n = 1"
  "latitude_field v = Some n \<longleftrightarrow> v = PInt n \<and> \<bar>n\<bar> \<le> 90000000"
  "longitude_field v = Some n \<longleftrightarrow> v = PInt n \<and> \<bar>n\<bar> \<le> 180000000"
  by (cases v; auto simp: identifier_field_def identifier_text_def digest_field_def digest_text_def instant_field_def instant_text_def
      latitude_field_def longitude_field_def)+

lemma optional_instant_Some [simp]:
  "optional_instant v = Some x \<longleftrightarrow> (case x of None \<Rightarrow> v = PNone | Some t \<Rightarrow> v = PStr t \<and> instant_text t)"
  by (cases v; cases x) auto


fun action_typed :: "OperatorAction \<Rightarrow> bool" where
  "action_typed (AssignSector a) \<longleftrightarrow> identifier_text (assign_drone a) \<and> identifier_text (assign_sector a)"
| "action_typed (EscalateRescue a) \<longleftrightarrow>
     identifier_text (escalate_drone a) \<and> identifier_text (escalate_proposal a) \<and> digest_text (escalate_proposal_digest a)
     \<and> escalate_proposal_version a = 1 \<and> identifier_text (escalate_evidence a) \<and> digest_text (escalate_evidence_digest a)
     \<and> escalate_evidence_version a = 1 \<and> coordinates (escalate_latitude a) (escalate_longitude a)"

fun action_kind :: "OperatorAction \<Rightarrow> pystr" where
  "action_kind (AssignSector a) = lit ''assign-sector''"
| "action_kind (EscalateRescue a) = lit ''escalate-rescue''"

definition command_typed :: "OperatorCommandPayload \<Rightarrow> bool" where
  "command_typed p \<longleftrightarrow> identifier_text (command_mission p) \<and> identifier_text (command_id p)
     \<and> identifier_text (command_operator p) \<and> action_typed (command_action p)"

definition approval_typed :: "OperatorApprovalPayload \<Rightarrow> bool" where
  "approval_typed p \<longleftrightarrow>
     identifier_text (approved_mission p) \<and> identifier_text (approved_id p) \<and> identifier_text (approved_operator p)
     \<and> approved_decision p \<in> {lit ''approve'', lit ''reject''} \<and> instant_text (approved_issued_at p)
     \<and> (approved_expires_at p \<noteq> None \<longleftrightarrow> approved_decision p = lit ''approve'')
     \<and> pred_option instant_text (approved_expires_at p)
     \<and> identifier_text (approved_proposal p) \<and> digest_text (approved_proposal_digest p) \<and> approved_proposal_version p = 1
     \<and> identifier_text (approved_evidence p) \<and> digest_text (approved_evidence_digest p) \<and> approved_evidence_version p = 1
     \<and> identifier_text (action_drone (approved_action p))
     \<and> coordinates (action_latitude (approved_action p)) (action_longitude (approved_action p))"

definition result_typed :: "CommandResultPayload \<Rightarrow> bool" where
  "result_typed p \<longleftrightarrow> identifier_text (result_mission p) \<and> identifier_text (result_drone p) \<and> identifier_text (result_command p)
     \<and> result_outcome p \<in> {lit ''acknowledged'', lit ''succeeded'', lit ''failed''}"

text \<open>A document is of its declared type, and the topic it arrived on is the one that its own members name.\<close>

fun ingress_typed :: "AcceptedIngress \<Rightarrow> bool" where
  "ingress_typed (OperatorCommandIngress topic e p) \<longleftrightarrow> command_typed p \<and> subject e = command_mission p
     \<and> topic = \<lparr>family = OPERATOR_COMMAND, mission_id = command_mission p,
          topic_parameters = [(lit ''commandType'', action_kind (command_action p))]\<rparr>"
| "ingress_typed (OperatorApprovalIngress topic e p) \<longleftrightarrow> approval_typed p \<and> subject e = approved_mission p
     \<and> Envelope.time e = approved_issued_at p
     \<and> topic = \<lparr>family = Family.OPERATOR_APPROVAL, mission_id = approved_mission p,
          topic_parameters = [(lit ''decision'', approved_decision p)]\<rparr>"
| "ingress_typed (CommandResultIngress topic e p) \<longleftrightarrow> result_typed p \<and> subject e = result_mission p
     \<and> topic = \<lparr>family = DRONE_COMMAND_RESULT, mission_id = result_mission p,
          topic_parameters = [(lit ''droneId'', result_drone p), (lit ''commandId'', result_command p)]\<rparr>"
| "ingress_typed (GatewayRequestIngress topic q) \<longleftrightarrow> request_valid q
     \<and> topic = \<lparr>family = GATEWAY_REQUEST, mission_id = request_mission q,
          topic_parameters = [(lit ''operation'', request_operation q)]\<rparr>"
| "ingress_typed (AgentResponseIngress topic r) \<longleftrightarrow> Integration.response_valid r
     \<and> topic = \<lparr>family = AGENT_RESPONSE, mission_id = agent_mission r,
          topic_parameters = [(lit ''agentName'', agent_name r)]\<rparr>"

lemma validate_assign_sector_Some:
  "validate_assign_sector d = Some a \<Longrightarrow> action_typed (AssignSector a) \<and> get d (lit ''commandType'') = PStr (lit ''assign-sector'')"
  by (auto simp: validate_assign_sector_def bind_eq_Some_conv split: if_splits)

lemma validate_escalate_rescue_Some:
  "validate_escalate_rescue d = Some a \<Longrightarrow> action_typed (EscalateRescue a) \<and> get d (lit ''commandType'') = PStr (lit ''escalate-rescue'')"
  by (auto simp: validate_escalate_rescue_def bind_eq_Some_conv coordinates_def split: if_splits)

lemma validate_action_Some:
  "validate_action v = Some a \<Longrightarrow> action_typed a \<and> (\<exists>d. v = PDict d \<and> get d (lit ''commandType'') = PStr (action_kind a))"
  by (cases v) (auto split: option.splits dest: validate_assign_sector_Some validate_escalate_rescue_Some)

lemma validate_operator_command_Some:
  assumes "validate_operator_command d = Some p"
  shows "command_typed p \<and> get d (lit ''missionId'') = PStr (command_mission p)
    \<and> follow (PDict d) [lit ''action'', lit ''commandType''] = PStr (action_kind (command_action p))"
  using assms by (auto simp: validate_operator_command_def bind_eq_Some_conv command_typed_def split: if_splits
      dest!: validate_action_Some)

lemma validate_approval_value_Some:
  "validate_approval_value v = Some a \<Longrightarrow>
     identifier_text (action_drone a) \<and> coordinates (action_latitude a) (action_longitude a)"
  by (cases v) (auto simp: validate_approval_action_def bind_eq_Some_conv coordinates_def split: if_splits)

lemma validate_operator_approval_Some:
  assumes "validate_operator_approval d = Some p"
  shows "approval_typed p \<and> get d (lit ''missionId'') = PStr (approved_mission p)
    \<and> get d (lit ''decision'') = PStr (approved_decision p) \<and> get d (lit ''issuedAt'') = PStr (approved_issued_at p)"
  using assms by (auto simp: validate_operator_approval_def bind_eq_Some_conv approval_typed_def split: if_splits option.splits
      dest!: validate_approval_value_Some)

lemma validate_command_result_Some:
  assumes "validate_command_result d = Some p"
  shows "result_typed p \<and> get d (lit ''missionId'') = PStr (result_mission p)
    \<and> get d (lit ''droneId'') = PStr (result_drone p) \<and> get d (lit ''commandId'') = PStr (result_command p)"
  using assms by (auto simp: validate_command_result_def bind_eq_Some_conv result_typed_def split: if_splits)


lemma family_parameters [simp]:
  "parameters OPERATOR_COMMAND = [lit ''commandType'']"
  "parameters Family.OPERATOR_APPROVAL = [lit ''decision'']"
  "parameters DRONE_COMMAND_RESULT = [lit ''droneId'', lit ''commandId'']"
  "parameters GATEWAY_REQUEST = [lit ''operation'']"
  "parameters AGENT_RESPONSE = [lit ''agentName'']"
  by code_simp+

lemma ingress_paths [simp]:
  "payload_path OPERATOR_COMMAND (lit ''commandType'') = Some [lit ''action'', lit ''commandType'']"
  "payload_path Family.OPERATOR_APPROVAL (lit ''decision'') = Some [lit ''decision'']"
  "payload_path DRONE_COMMAND_RESULT (lit ''droneId'') = Some [lit ''droneId'']"
  "payload_path DRONE_COMMAND_RESULT (lit ''commandId'') = Some [lit ''commandId'']"
  by code_simp+

lemma one_parameter: "dict_keys ps = [k] \<Longrightarrow> \<exists>v. ps = [(k, v)]"
  by auto

lemma two_parameters: "dict_keys ps = [k, l] \<Longrightarrow> \<exists>v w. ps = [(k, v), (l, w)]"
  by auto

lemma ingress_envelope_Inr:
  assumes "ingress_envelope nfc raw topic = Inr e"
  shows "\<exists>b. map_of BINDINGS (envelope_type e) = Some b \<and> family topic = bound_family b
    \<and> (bound_family b = Family.OPERATOR_APPROVAL \<longrightarrow> get (data e) (lit ''issuedAt'') = PStr (Envelope.time e))"
    and "mission_id topic = subject e" and "get (data e) (lit ''missionId'') = PStr (subject e)"
    and "check_payload (family topic) (data e) (topic_parameters topic) = Inr ()"
proof -
  from assms have "decode_envelope nfc raw = Inr e" and c: "check_topic_binding e topic = Inr ()"
    by (simp_all add: ingress_envelope_def split: sum.splits envelope_decode_error.splits)
  then obtain document where p: "parse_envelope nfc document = Inr e"
    by (auto simp: decode_envelope_def map_sum_Inr split: sum.splits)
  then obtain d where "document = PDict d"
    by (cases document) (auto simp: parse_envelope_def envelope_members.simps)
  with p have b: "bind_envelope (texts_of e) (data e) = Inr ()" by (simp add: parse_envelope_Inr)
  then obtain b where "map_of BINDINGS (envelope_type e) = Some b"
    "bound_family b = Family.OPERATOR_APPROVAL \<Longrightarrow> get (data e) (lit ''issuedAt'') = PStr (Envelope.time e)"
    unfolding bind_envelope_Inr by auto
  with bound_topic [OF p c] show "\<exists>b. map_of BINDINGS (envelope_type e) = Some b \<and> family topic = bound_family b
    \<and> (bound_family b = Family.OPERATOR_APPROVAL \<longrightarrow> get (data e) (lit ''issuedAt'') = PStr (Envelope.time e))" by force
  show "mission_id topic = subject e" "check_payload (family topic) (data e) (topic_parameters topic) = Inr ()"
    using c by (simp_all only: check_topic_binding_Inr)
  show "get (data e) (lit ''missionId'') = PStr (subject e)"
    using b unfolding bind_envelope_Inr MISSION_KEY_def by simp
qed

lemma operator_command_typed:
  assumes "operator_command nfc raw topic = Inr x" "family topic = OPERATOR_COMMAND"
    "dict_keys (topic_parameters topic) = parameters (family topic)"
  shows "ingress_typed x"
proof -
  from assms(1) obtain e p where e: "ingress_envelope nfc raw topic = Inr e" and p: "validate_operator_command (data e) = Some p"
    and x: "x = OperatorCommandIngress topic e p"
    by (auto simp: operator_command_def ingress_payload_def split: option.splits)
  from one_parameter assms(2,3) obtain v where "topic_parameters topic = [(lit ''commandType'', v)]" by fastforce
  with ingress_envelope_Inr(2-) [OF e] validate_operator_command_Some [OF p] assms(2) show ?thesis
    by (cases topic) (simp add: x check_payload_Inr)
qed

lemma operator_approval_typed:
  assumes "operator_approval nfc raw topic = Inr x" "family topic = Family.OPERATOR_APPROVAL"
    "dict_keys (topic_parameters topic) = parameters (family topic)"
  shows "ingress_typed x"
proof -
  from assms(1) obtain e p where e: "ingress_envelope nfc raw topic = Inr e" and p: "validate_operator_approval (data e) = Some p"
    and x: "x = OperatorApprovalIngress topic e p"
    by (auto simp: operator_approval_def ingress_payload_def split: option.splits)
  from one_parameter assms(2,3) obtain v where "topic_parameters topic = [(lit ''decision'', v)]" by fastforce
  with ingress_envelope_Inr [OF e] validate_operator_approval_Some [OF p] assms(2) show ?thesis
    by (cases topic) (auto simp: x check_payload_Inr)
qed

lemma command_result_typed:
  assumes "command_result nfc raw topic = Inr x" "family topic = DRONE_COMMAND_RESULT"
    "dict_keys (topic_parameters topic) = parameters (family topic)"
  shows "ingress_typed x"
proof -
  from assms(1) obtain e p where e: "ingress_envelope nfc raw topic = Inr e" and p: "validate_command_result (data e) = Some p"
    and x: "x = CommandResultIngress topic e p"
    by (auto simp: command_result_def ingress_payload_def split: option.splits)
  from two_parameters assms(2,3) obtain v w where "topic_parameters topic = [(lit ''droneId'', v), (lit ''commandId'', w)]"
    by fastforce
  with ingress_envelope_Inr(2-) [OF e] validate_command_result_Some [OF p] assms(2) show ?thesis
    by (cases topic) (simp add: x check_payload_Inr)
qed

lemma gateway_request_typed:
  assumes "gateway_request_ingress nfc raw topic = Inr x" "family topic = GATEWAY_REQUEST"
    "dict_keys (topic_parameters topic) = parameters (family topic)"
  shows "ingress_typed x"
proof -
  from assms(1) obtain q document where q: "parse_gateway_request document = Inr q"
    and b: "request_mission q = mission_id topic" "map_of (topic_parameters topic) (lit ''operation'') = Some (request_operation q)"
    and x: "x = GatewayRequestIngress topic q"
    by (auto simp: gateway_request_ingress_def decode_gateway_request_def map_sum_Inr
        split: sum.splits rpc_decode_error.splits RpcError.splits if_splits)
  from one_parameter assms(2,3) obtain v where "topic_parameters topic = [(lit ''operation'', v)]" by fastforce
  with b parsed_request_valid [OF q] assms(2) show ?thesis by (cases topic) (simp add: x)
qed

lemma agent_response_typed:
  assumes "agent_response_ingress nfc raw topic = Inr x" "dict_keys (topic_parameters topic) = parameters (family topic)"
  shows "ingress_typed x"
proof -
  from assms(1) obtain r document where r: "parse_agent_response document = Inr r"
    and c: "check_agent_response_topic r topic = Inr ()" and x: "x = AgentResponseIngress topic r"
    by (auto simp: agent_response_ingress_def split: sum.splits)
  from r obtain d where "document = PDict d" by (cases document) (auto simp: parse_agent_response_def)
  with r have "Integration.response_valid r" by (simp add: parse_agent_response_Inr)
  moreover from c have fam: "family topic = AGENT_RESPONSE" and b: "mission_id topic = agent_mission r"
    "map_of (topic_parameters topic) (lit ''agentName'') = Some (agent_name r)"
    by (auto simp: check_agent_response_topic_def split: if_splits)
  moreover from one_parameter fam assms(2) obtain v where "topic_parameters topic = [(lit ''agentName'', v)]" by fastforce
  ultimately show ?thesis by (cases topic) (simp add: x)
qed

lemma identifier_ascii: "identifier_text t \<Longrightarrow> ascii t"
  by (auto simp: identifier_text_def ascii_def IDENTIFIER_PATTERN_def dest!: fullmatch_alphabet alphabet_between)

lemma ingress_accepted:
  assumes "accept_ingress nfc raw topic_text = Inr x"
  shows "ingress_typed x"
proof -
  from assms obtain topic where t: "ingress_topic topic_text = Inr topic" by (auto simp: accept_ingress_def)
  then have "parse_topic topic_text = Inr topic" by (auto simp: ingress_topic_def split: sum.splits topic_error.splits)
  note keys = parsed_topic_keys [OF this]
  from assms t show ?thesis
    by (cases "family topic")
       (auto simp: accept_ingress_def intro: operator_command_typed [OF _ _ keys] operator_approval_typed [OF _ _ keys]
          command_result_typed [OF _ _ keys] gateway_request_typed [OF _ _ keys] agent_response_typed [OF _ keys])
qed

text \<open>C7. Only typed documents cross the trust boundary. Whatever bytes and topic text arrive, a document that \<open>accept_ingress\<close>
  returns has identifiers, digests, instants, versions and coordinates of their declared forms, an expiry exactly
  when it approves, and it arrived on precisely the topic that its own members name: same family, same mission and
  the same identifiers and kinds, with the envelope's subject that mission and, for an approval, the
  envelope's time the instant of the decision.\<close>

theorem accepted_ingress_typed:
  "case accept_ingress nfc raw topic_text of Inr x \<Rightarrow> ingress_typed x | Inl error \<Rightarrow> True"
  by (simp add: ingress_accepted split: sum.splits)

end
