(* ===== verification/Routing.thy ===== *)
theory Routing
  imports Ingress Principals
begin

text \<open>
  \<open>packages/broker/src/aerial_rescue_broker/routing.py\<close>: a router publishes through the one port that the delivery class of the
  topic's family names, and only what its role may publish and what its topic admits. The ports themselves are the
  broker's; a router answers with the port it would call.
\<close>

section \<open>Capabilities\<close>

record PublicationPorts =
  has_direct :: bool
  has_guaranteed :: bool
  has_requester :: bool
  has_responder :: bool

datatype RoutingRefusal =
  CAPABILITY_MISMATCH | INVALID_TOPIC | NOT_AUTHORIZED | INVALID_PAYLOAD | INVALID_TIMEOUT | OPERATION_MISMATCH

text \<open>A KeyError is none of the exceptions the router turns into its own.\<close>

datatype routing_error = RoutingError RoutingRefusal | RoutingKeyError

definition required_deliveries :: "Principal \<Rightarrow> Delivery set" where
  "required_deliveries role = set (List.map_filter delivery_for (grants role PUBLISH))"

definition present_deliveries :: "PublicationPorts \<Rightarrow> Delivery set" where
  "present_deliveries ports =
     set ((if has_direct ports then [DIRECT] else []) @ (if has_guaranteed ports then [GUARANTEED] else [])
       @ (if has_requester ports \<or> has_responder ports then [REQUEST_REPLY] else []))"

definition request_reply_direction_matches :: "Principal \<Rightarrow> PublicationPorts \<Rightarrow> bool" where
  "request_reply_direction_matches role ports \<longleftrightarrow>
     has_requester ports = (GATEWAY_REQUEST \<in> set (grants role PUBLISH))
     \<and> has_responder ports = (GATEWAY_RESPONSE \<in> set (grants role PUBLISH))"

record DeliveryRouter =
  router_role :: Principal
  router_ports :: PublicationPorts

definition make_router :: "Principal \<Rightarrow> PublicationPorts \<Rightarrow> routing_error + DeliveryRouter" where
  "make_router role ports =
     (if present_deliveries ports \<noteq> required_deliveries role \<or> \<not> request_reply_direction_matches role ports
      then Inl (RoutingError CAPABILITY_MISMATCH)
      else Inr \<lparr>router_role = role, router_ports = ports\<rparr>)"

section \<open>Payloads\<close>

text \<open>What \<open>_validate_payload\<close> raises: something \<open>except (TypeError, ValueError)\<close> catches, or a KeyError.\<close>

datatype payload_error = Unfit | UnknownKey

fun rpc_payload_error :: "rpc_decode_error \<Rightarrow> payload_error" where
  "rpc_payload_error (NotABody (RpcKeyError k)) = UnknownKey"
| "rpc_payload_error error = Unfit"

fun envelope_payload_error :: "envelope_error \<Rightarrow> payload_error" where
  "envelope_payload_error error = (if is_value_error error then Unfit else UnknownKey)"

fun decoded_payload_error :: "envelope_decode_error \<Rightarrow> payload_error" where
  "decoded_payload_error (EnvelopeText error) = Unfit"
| "decoded_payload_error (EnvelopeRefused error) = envelope_payload_error error"

definition validate_gateway_request :: "(pystr \<Rightarrow> pystr) \<Rightarrow> Topic \<Rightarrow> bytes \<Rightarrow> payload_error + unit" where
  "validate_gateway_request nfc topic raw =
     bindE (map_sum rpc_payload_error id (decode_gateway_request nfc raw)) (\<lambda>q.
       if request_mission q \<noteq> mission_id topic
          \<or> map_of (topic_parameters topic) (lit ''operation'') \<noteq> Some (request_operation q)
       then Inl Unfit else Inr ())"

definition validate_payload :: "(pystr \<Rightarrow> pystr) \<Rightarrow> Topic \<Rightarrow> bytes \<Rightarrow> payload_error + unit" where
  "validate_payload nfc topic raw =
     (case family topic of
        GATEWAY_REQUEST \<Rightarrow> validate_gateway_request nfc topic raw
      | GATEWAY_RESPONSE \<Rightarrow> map_sum rpc_payload_error (\<lambda>_. ()) (decode_gateway_response nfc raw)
      | AGENT_RESPONSE \<Rightarrow>
          (case decode_bytes nfc raw of
             Inl error \<Rightarrow> Inl Unfit
           | Inr document \<Rightarrow>
               map_sum (\<lambda>_. Unfit) id (bindE (parse_agent_response document) (\<lambda>r. check_agent_response_topic r topic)))
      | _ \<Rightarrow>
          bindE (map_sum decoded_payload_error id (decode_envelope nfc raw)) (\<lambda>e.
            map_sum envelope_payload_error id (check_topic_binding e topic)))"

section \<open>Publishing\<close>

datatype port = DirectPort | GuaranteedPort | ResponderPort | RequesterPort

definition prepare :: "(pystr \<Rightarrow> pystr) \<Rightarrow> DeliveryRouter \<Rightarrow> pystr \<Rightarrow> bytes \<Rightarrow> routing_error + Topic" where
  "prepare nfc router text raw =
     (case parse_topic (PStr text) of
        Inl (KeyError k) \<Rightarrow> Inl RoutingKeyError
      | Inl error \<Rightarrow> Inl (RoutingError INVALID_TOPIC)
      | Inr topic \<Rightarrow>
     (case authorize (router_role router) PUBLISH (family topic) of
        Inl error \<Rightarrow> Inl (RoutingError NOT_AUTHORIZED)
      | Inr _ \<Rightarrow>
     (case validate_payload nfc topic raw of
        Inl Unfit \<Rightarrow> Inl (RoutingError INVALID_PAYLOAD)
      | Inl UnknownKey \<Rightarrow> Inl RoutingKeyError
      | Inr _ \<Rightarrow> Inr topic)))"

definition dispatch :: "DeliveryRouter \<Rightarrow> Topic \<Rightarrow> routing_error + port" where
  "dispatch router topic =
     (let delivery = delivery_for (family topic); ports = router_ports router
      in if delivery = Some DIRECT \<and> has_direct ports then Inr DirectPort
         else if delivery = Some GUARANTEED \<and> has_guaranteed ports then Inr GuaranteedPort
         else if delivery = Some REQUEST_REPLY \<and> has_responder ports then Inr ResponderPort
         else Inl (RoutingError CAPABILITY_MISMATCH))"

definition publish :: "(pystr \<Rightarrow> pystr) \<Rightarrow> DeliveryRouter \<Rightarrow> pystr \<Rightarrow> bytes \<Rightarrow> routing_error + port" where
  "publish nfc router text raw =
     bindE (prepare nfc router text raw) (\<lambda>topic.
       if family topic = GATEWAY_REQUEST then Inl (RoutingError OPERATION_MISMATCH) else dispatch router topic)"

definition request :: "(pystr \<Rightarrow> pystr) \<Rightarrow> DeliveryRouter \<Rightarrow> pystr \<Rightarrow> bytes \<Rightarrow> pyval \<Rightarrow> routing_error + port" where
  "request nfc router text raw timeout =
     (case timeout of
        PInt n \<Rightarrow>
          if n \<le> 0 then Inl (RoutingError INVALID_TIMEOUT)
          else bindE (prepare nfc router text raw) (\<lambda>topic.
            if family topic \<noteq> GATEWAY_REQUEST \<or> \<not> has_requester (router_ports router)
            then Inl (RoutingError OPERATION_MISMATCH) else Inr RequesterPort)
      | _ \<Rightarrow> Inl (RoutingError INVALID_TIMEOUT))"

section \<open>What a router publishes\<close>

lemma prepare_Inr:
  "prepare nfc router text raw = Inr topic \<longleftrightarrow>
     parse_topic (PStr text) = Inr topic \<and> may_use (router_role router) PUBLISH (family topic)
     \<and> validate_payload nfc topic raw = Inr ()"
  by (auto simp: prepare_def authorize_def split: sum.splits topic_error.splits payload_error.splits if_splits)

text \<open>The constructor admits exactly the capabilities that make \<open>_dispatch\<close> total on what the role may publish.\<close>

lemma constructed_ports:
  assumes "make_router role ports = Inr router" "may_use role PUBLISH f" "f \<noteq> GATEWAY_REQUEST"
  shows "router = \<lparr>router_role = role, router_ports = ports\<rparr>"
    "delivery_for f = Some DIRECT \<Longrightarrow> has_direct ports" "delivery_for f = Some GUARANTEED \<Longrightarrow> has_guaranteed ports"
    "delivery_for f = Some REQUEST_REPLY \<Longrightarrow> has_responder ports"
proof -
  from assms(1) have present: "present_deliveries ports = required_deliveries role"
    and direction: "request_reply_direction_matches role ports" and router: "router = \<lparr>router_role = role, router_ports = ports\<rparr>"
    by (auto simp: make_router_def split: if_splits)
  show "router = \<lparr>router_role = role, router_ports = ports\<rparr>" by (rule router)
  have "d \<in> present_deliveries ports" if "delivery_for f = Some d" for d
    using that assms(2) unfolding present required_deliveries_def may_use_def
    by (auto simp: List.map_filter_def image_iff)
  then show "delivery_for f = Some DIRECT \<Longrightarrow> has_direct ports" "delivery_for f = Some GUARANTEED \<Longrightarrow> has_guaranteed ports"
    by (auto simp: present_deliveries_def split: if_splits)
  show "delivery_for f = Some REQUEST_REPLY \<Longrightarrow> has_responder ports"
    using direction assms(2,3) by (cases f) (auto simp: request_reply_direction_matches_def may_use_def delivery_for_def DELIVERY_def)
qed

fun port_delivery :: "port \<Rightarrow> Delivery" where
  "port_delivery DirectPort = DIRECT"
| "port_delivery GuaranteedPort = GUARANTEED"
| "port_delivery ResponderPort = REQUEST_REPLY"
| "port_delivery RequesterPort = REQUEST_REPLY"

lemma dispatch_constructed:
  assumes "make_router role ports = Inr router" "may_use role PUBLISH (family topic)" "family topic \<noteq> GATEWAY_REQUEST"
  shows "dispatch router topic = Inr p \<longleftrightarrow> p \<noteq> RequesterPort \<and> delivery_for (family topic) = Some (port_delivery p)"
proof -
  obtain d where d: "delivery_for (family topic) = Some d" using delivery_total by blast
  show ?thesis
    using constructed_ports [OF assms] d by (cases d; cases p) (auto simp: dispatch_def Let_def)
qed

text \<open>C11. What a router that could be constructed publishes, and through which port: a publication is handed to a port exactly when
  its topic parses, its role may publish that family, its bytes decode to a body that agrees with the topic, and
  the port is the one of the family's delivery class. No capability is missing at that point, and no request is published
  as an event.\<close>

theorem router_publishes_exactly:
  assumes "make_router role ports = Inr router"
  shows "publish nfc router text raw = Inr p \<longleftrightarrow>
    (\<exists>topic. parse_topic (PStr text) = Inr topic \<and> family topic \<noteq> GATEWAY_REQUEST
       \<and> may_use role PUBLISH (family topic) \<and> validate_payload nfc topic raw = Inr ()
       \<and> p \<noteq> RequesterPort \<and> delivery_for (family topic) = Some (port_delivery p))"
proof -
  have role: "router_role router = role" using assms by (auto simp: make_router_def split: if_splits)
  show ?thesis
    using dispatch_constructed [OF assms] by (auto simp: publish_def prepare_Inr role)
qed

definition sample_ports :: PublicationPorts where
  "sample_ports = \<lparr>has_direct = True, has_guaranteed = True, has_requester = False, has_responder = True\<rparr>"

definition sample_reply :: bytes where
  "sample_reply = lit ''{\"actuated\":false,\"authority\":\"operator-approval\",\"commandType\":\"escalate-rescue\",\"missionId\":\"m-1\",\"operation\":\"command-authority\",\"outcome\":\"answered\",\"requestId\":\"r-1\",\"rpcVersion\":1}''"

theorem router_publishes_exactly_witness:
  "publish id \<lparr>router_role = COMMAND_GATEWAY, router_ports = sample_ports\<rparr>
     (lit ''aerial-rescue/v1/reply/gateway/response/r-1'') sample_reply = Inr ResponderPort"
proof -
  have "make_router COMMAND_GATEWAY sample_ports = Inr \<lparr>router_role = COMMAND_GATEWAY, router_ports = sample_ports\<rparr>"
    by code_simp
  note exact = router_publishes_exactly [OF this, of id "lit ''aerial-rescue/v1/reply/gateway/response/r-1''" sample_reply ResponderPort]
  have "case parse_topic (PStr (lit ''aerial-rescue/v1/reply/gateway/response/r-1'')) of Inl e \<Rightarrow> False
    | Inr topic \<Rightarrow> family topic \<noteq> GATEWAY_REQUEST \<and> may_use COMMAND_GATEWAY PUBLISH (family topic)
        \<and> validate_payload id topic sample_reply = Inr () \<and> delivery_for (family topic) = Some (port_delivery ResponderPort)"
    by code_simp
  then show ?thesis unfolding exact
    by (cases "parse_topic (PStr (lit ''aerial-rescue/v1/reply/gateway/response/r-1''))")
       (simp_all only: sum.case simp_thms port.distinct, blast)
qed

end
