(* ===== verification/Calendar.thy ===== *)
theory Calendar
  imports Instant
begin

text \<open>
  Arithmetic on UTC instants as the standard library has it: \<open>datetime.toordinal\<close> and its inverse in the proleptic
  Gregorian calendar, and \<open>datetime + timedelta\<close>. Durations are integers in microseconds, instants microseconds since
  the start of year one.
\<close>

definition days_in_year :: "nat \<Rightarrow> nat" where
  "days_in_year y = (if is_leap y then 366 else 365)"

definition days_before_year :: "nat \<Rightarrow> nat" where
  "days_before_year y = (let p = y - 1 in p * 365 + p div 4 - p div 100 + p div 400)"

fun days_before_month :: "nat \<Rightarrow> nat \<Rightarrow> nat" where
  "days_before_month y 0 = 0"
| "days_before_month y (Suc 0) = 0"
| "days_before_month y (Suc m) = days_before_month y m + days_in_month y m"

definition toordinal :: "datetime \<Rightarrow> nat" where
  "toordinal d = days_before_year (year d) + days_before_month (year d) (month d) + day d"

definition microseconds :: "datetime \<Rightarrow> nat" where
  "microseconds d =
     ((((toordinal d * 24 + hour d) * 60 + minute d) * 60) + sec d) * 1000000 + microsecond d"

function year_from :: "nat \<Rightarrow> nat \<Rightarrow> nat \<times> nat" where
  "year_from y n = (if n < days_in_year y then (y, n) else year_from (Suc y) (n - days_in_year y))"
  by pat_completeness auto

termination
  by (relation "measure snd") (auto simp: days_in_year_def)

declare year_from.simps [simp del]

function month_from :: "nat \<Rightarrow> nat \<Rightarrow> nat \<Rightarrow> nat \<times> nat" where
  "month_from y m n =
     (if 12 \<le> m \<or> n < days_in_month y m then (m, n) else month_from y (Suc m) (n - days_in_month y m))"
  by pat_completeness auto

termination
  by (relation "measure (\<lambda>(y, m, n). 12 - m)") auto

declare month_from.simps [simp del]

text \<open>The UTC datetime of an instant, \<open>None\<close> where Python raises OverflowError.\<close>

definition datetime_at :: "nat \<Rightarrow> datetime option" where
  "datetime_at us =
     (let days = us div 86400000000; t = us mod 86400000000; n = days - 1;
          (y, r) = year_from (400 * (n div 146097) + 1) (n mod 146097); (m, d) = month_from y 1 r
      in if days = 0 \<or> 9999 < y then None
         else Some \<lparr>year = y, month = m, day = Suc d, hour = t div 3600000000, minute = t div 60000000 mod 60,
                    sec = t div 1000000 mod 60, microsecond = t mod 1000000, tz = Some (Some 0)\<rparr>)"

section \<open>The calendar counts days\<close>

lemma suc_div: "Suc p div k = p div k + (if Suc p mod k = 0 then 1 else 0)" for k :: nat
  unfolding div_Suc [of p k] by (simp only: if_distrib) auto

lemma leap_days:
  assumes "q \<le> f" "c \<longrightarrow> b" "b \<longrightarrow> a"
  shows "Suc p * 365 + (f + of_bool a) - (q + of_bool b) + (h + of_bool c)
    = p * 365 + f - q + h + (if a \<and> (\<not> b \<or> c) then 366 else 365)"
  using assms by (cases a; cases b; cases c) simp_all

lemma days_before_year_Suc:
  assumes "0 < y"
  shows "days_before_year (Suc y) = days_before_year y + days_in_year y"
proof -
  from assms obtain p where y: "y = Suc p" by (cases y) auto
  have ge: "p div 100 \<le> p div 4" by (rule div_le_mono2) simp_all
  have steps: "Suc p div 4 = p div 4 + of_bool (4 dvd Suc p)" "Suc p div 100 = p div 100 + of_bool (100 dvd Suc p)"
    "Suc p div 400 = p div 400 + of_bool (400 dvd Suc p)"
    unfolding suc_div [of p 4] suc_div [of p 100] suc_div [of p 400] by (simp_all add: dvd_eq_mod_eq_0)
  have leap: "is_leap (Suc p) \<longleftrightarrow> 4 dvd Suc p \<and> (\<not> 100 dvd Suc p \<or> 400 dvd Suc p)"
    by (simp add: is_leap_def dvd_eq_mod_eq_0)
  have chain: "400 dvd Suc p \<Longrightarrow> 100 dvd Suc p" "100 dvd Suc p \<Longrightarrow> 4 dvd Suc p"
    by (erule dvd_trans [rotated], simp)+
  have "Suc p * 365 + Suc p div 4 - Suc p div 100 + Suc p div 400
      = p * 365 + p div 4 - p div 100 + p div 400 + days_in_year (Suc p)"
    unfolding steps days_in_year_def leap using ge chain by (intro leap_days) blast+
  then show ?thesis by (simp only: days_before_year_def Let_def y diff_Suc_1)
qed

lemma days_before_year_mono: "y \<le> z \<Longrightarrow> 0 < y \<Longrightarrow> days_before_year y \<le> days_before_year z"
  by (induction rule: dec_induct) (simp_all add: days_before_year_Suc)

lemma year_from_skip:
  assumes "0 < y" "y \<le> z" "r < days_in_year z"
  shows "year_from y (days_before_year z - days_before_year y + r) = (z, r)"
  using assms(2,1)
proof (induction rule: inc_induct)
  case base
  then show ?case using assms(3) by (subst year_from.simps) simp
next
  case (step n)
  have "days_before_year (Suc n) \<le> days_before_year z" using step by (intro days_before_year_mono) auto
  then have "days_in_year n \<le> days_before_year z - days_before_year n"
    using days_before_year_Suc [of n] step by linarith
  moreover have "days_before_year z - days_before_year n + r - days_in_year n = days_before_year z - days_before_year (Suc n) + r"
    using days_before_year_Suc [of n] step calculation by linarith
  ultimately show ?case using step by (subst year_from.simps) simp
qed

lemma days_before_month_Suc: "0 < m \<Longrightarrow> days_before_month y (Suc m) = days_before_month y m + days_in_month y m"
  by (cases m) simp_all

lemma days_before_month_mono: "m \<le> k \<Longrightarrow> 0 < m \<Longrightarrow> days_before_month y m \<le> days_before_month y k"
  by (induction rule: dec_induct) (simp_all add: days_before_month_Suc)

lemma month_from_skip:
  assumes "0 < m" "m \<le> k" "k \<le> 12" "r < days_in_month y k"
  shows "month_from y m (days_before_month y k - days_before_month y m + r) = (k, r)"
  using assms(2,1)
proof (induction rule: inc_induct)
  case base
  then show ?case using assms(4) by (subst month_from.simps) simp
next
  case (step n)
  have "days_before_month y (Suc n) \<le> days_before_month y k" using step by (intro days_before_month_mono) auto
  then have "days_in_month y n \<le> days_before_month y k - days_before_month y n"
    using days_before_month_Suc [of n y] step by linarith
  moreover have "days_before_month y k - days_before_month y n + r - days_in_month y n
      = days_before_month y k - days_before_month y (Suc n) + r"
    using days_before_month_Suc [of n y] step calculation by linarith
  moreover have "\<not> 12 \<le> n" using step assms(3) by simp
  ultimately show ?case using step by (subst month_from.simps) simp
qed

lemma months_fill_year: "days_before_month y 13 = days_in_year y"
  by (simp add: eval_nat_numeral days_in_month_def days_in_year_def)

lemma day_in_year:
  assumes "0 < m" "m \<le> 12" "r < days_in_month y m"
  shows "days_before_month y m + r < days_in_year y"
proof -
  have "days_before_month y m + r < days_before_month y (Suc m)" using assms days_before_month_Suc by simp
  also have "\<dots> \<le> days_before_month y 13" using assms by (intro days_before_month_mono) auto
  finally show ?thesis by (simp add: months_fill_year)
qed

lemma days_before_cycle: "days_before_year (Suc (400 * q)) = 146097 * q"
  by (simp add: days_before_year_def Let_def)

lemma cycle_of_day:
  assumes "0 < y" "r < days_in_year y"
  shows "(days_before_year y + r) div 146097 = (y - 1) div 400"
    "(days_before_year y + r) mod 146097 = days_before_year y - days_before_year (Suc (400 * ((y - 1) div 400))) + r"
proof -
  let ?q = "(y - 1) div 400"
  have "400 * ?q \<le> y - 1" "y - 1 < 400 * Suc ?q" by (simp_all add: dividend_less_times_div)
  then have q: "Suc (400 * ?q) \<le> y" "y < Suc (400 * Suc ?q)" using assms(1) by linarith+
  have lo: "days_before_year (Suc (400 * ?q)) \<le> days_before_year y" using q(1) by (intro days_before_year_mono) auto
  have "days_before_year y + r < days_before_year (Suc y)" using assms by (simp add: days_before_year_Suc)
  also have "\<dots> \<le> days_before_year (Suc (400 * Suc ?q))" using q by (intro days_before_year_mono) auto
  finally have hi: "days_before_year y + r < 146097 * Suc ?q" by (simp only: days_before_cycle)
  show "(days_before_year y + r) div 146097 = ?q"
    using lo hi unfolding days_before_cycle by (intro div_nat_eqI) linarith+
  then have "(days_before_year y + r) mod 146097 = days_before_year y + r - 146097 * ?q"
    by (simp add: minus_mult_div_eq_mod [symmetric])
  with lo show "(days_before_year y + r) mod 146097 = days_before_year y - days_before_year (Suc (400 * ?q)) + r"
    unfolding days_before_cycle by linarith
qed

lemma time_of_day:
  fixes h m s u n :: nat
  assumes "h < 24" "m < 60" "s < 60" "u < 1000000"
  defines "us \<equiv> (((n * 24 + h) * 60 + m) * 60 + s) * 1000000 + u"
  shows "us div 86400000000 = n" "us mod 86400000000 div 3600000000 = h" "us mod 86400000000 div 60000000 mod 60 = m"
    "us mod 86400000000 div 1000000 mod 60 = s" "us mod 86400000000 mod 1000000 = u"
proof -
  let ?t = "((h * 60 + m) * 60 + s) * 1000000 + u"
  have us: "us = 86400000000 * n + ?t" by (simp add: us_def algebra_simps)
  from assms(1-4) have le: "h \<le> 23" "m \<le> 59" "s \<le> 59" "u \<le> 999999" by simp_all
  have t: "?t < 86400000000" using le by simp
  show "us div 86400000000 = n" using t unfolding us by simp
  have mod: "us mod 86400000000 = ?t" using t unfolding us by simp
  show "us mod 86400000000 div 3600000000 = h" unfolding mod using le by (intro div_nat_eqI) simp_all
  have "?t div 60000000 = h * 60 + m" using le by (intro div_nat_eqI) simp_all
  then show "us mod 86400000000 div 60000000 mod 60 = m" unfolding mod using assms(2) by simp
  have "?t div 1000000 = (h * 60 + m) * 60 + s" using le by (intro div_nat_eqI) simp_all
  moreover have "((h * 60 + m) * 60 + s) mod 60 = s" unfolding mod_mult_self3 using assms(3) by simp
  ultimately show "us mod 86400000000 div 1000000 mod 60 = s" unfolding mod by (simp only:)
  show "us mod 86400000000 mod 1000000 = u" unfolding mod mod_mult_self3 using assms(4) by simp
qed

theorem datetime_at_microseconds:
  assumes "datetime_ok d" "tz d = Some (Some 0)"
  shows "datetime_at (microseconds d) = Some d"
proof -
  from assms(1) have ok: "1 \<le> year d" "year d \<le> 9999" "1 \<le> month d" "month d \<le> 12" "1 \<le> day d"
    "day d \<le> days_in_month (year d) (month d)" "hour d < 24" "minute d < 60" "sec d < 60" "microsecond d < 1000000"
    by (auto simp: datetime_ok_def)
  let ?r = "days_before_month (year d) (month d) + (day d - 1)"
  have r: "?r < days_in_year (year d)" using ok by (intro day_in_year) auto
  have n: "toordinal d - 1 = days_before_year (year d) + ?r" "toordinal d \<noteq> 0" using ok by (auto simp: toordinal_def)
  have "year_from (400 * ((year d - 1) div 400) + 1)
      (days_before_year (year d) - days_before_year (Suc (400 * ((year d - 1) div 400))) + ?r) = (year d, ?r)"
    using year_from_skip [of "Suc (400 * ((year d - 1) div 400))" "year d" ?r] ok(1) r by simp
  then have y: "year_from (400 * ((toordinal d - 1) div 146097) + 1) ((toordinal d - 1) mod 146097) = (year d, ?r)"
    unfolding n using cycle_of_day [of "year d" ?r] ok(1) r by simp
  have m: "month_from (year d) 1 ?r = (month d, day d - 1)"
    using month_from_skip [of 1 "month d" "day d - 1" "year d"] ok by simp
  note time = time_of_day [OF ok(7-10), of "toordinal d", folded microseconds_def]
  show ?thesis unfolding datetime_at_def Let_def time y m prod.case using ok n(2) assms(2) by simp
qed

lemma year_from_counts:
  assumes "0 < y" "year_from y n = (z, r)"
  shows "y \<le> z \<and> r < days_in_year z \<and> days_before_year z + r = days_before_year y + n"
  using assms
proof (induction y n rule: year_from.induct)
  case (1 y n)
  show ?case
  proof (cases "n < days_in_year y")
    case True
    with 1 show ?thesis by (simp add: year_from.simps [of y n])
  next
    case False
    with 1 have "year_from (Suc y) (n - days_in_year y) = (z, r)" by (simp add: year_from.simps [of y n])
    with 1 False days_before_year_Suc [of y] show ?thesis by auto
  qed
qed

lemma month_from_counts:
  assumes "0 < m" "m \<le> 12" "month_from y m n = (k, r)" "days_before_month y m + n < days_in_year y"
  shows "m \<le> k \<and> k \<le> 12 \<and> r < days_in_month y k \<and> days_before_month y k + r = days_before_month y m + n"
  using assms
proof (induction y m n rule: month_from.induct)
  case (1 y m n)
  show ?case
  proof (cases "n < days_in_month y m")
    case True
    with 1 show ?thesis by (simp add: month_from.simps [of y m n])
  next
    case False
    have "m \<noteq> 12"
    proof
      assume "m = 12"
      with 1(5) False days_before_month_Suc [of 12 y] months_fill_year [of y] show False by simp
    qed
    with 1 False have "month_from y (Suc m) (n - days_in_month y m) = (k, r)" by (simp add: month_from.simps [of y m n])
    with 1 False \<open>m \<noteq> 12\<close> days_before_month_Suc [of m y] show ?thesis by auto
  qed
qed

lemma split_time:
  fixes t :: nat
  shows "t = ((t div 3600000000 * 60 + t div 60000000 mod 60) * 60 + t div 1000000 mod 60) * 1000000 + t mod 1000000"
proof -
  have "t div 60000000 = t div 1000000 div 60" "t div 3600000000 = t div 1000000 div 60 div 60"
    by (simp_all add: div_mult2_eq [symmetric])
  then show ?thesis by (simp add: div_mult_mod_eq del: div_mult2_eq)
qed

lemma datetime_at_Some:
  assumes "datetime_at us = Some d"
  shows "datetime_ok d \<and> tz d = Some (Some 0) \<and> microseconds d = us"
proof -
  let ?days = "us div 86400000000" let ?t = "us mod 86400000000" let ?n = "?days - 1"
  obtain y r where y: "year_from (400 * (?n div 146097) + 1) (?n mod 146097) = (y, r)" by fastforce
  obtain m k where m: "month_from y 1 r = (m, k)" by fastforce
  from assms y m have d: "?days \<noteq> 0" "y \<le> 9999"
    "d = \<lparr>year = y, month = m, day = Suc k, hour = ?t div 3600000000, minute = ?t div 60000000 mod 60,
          sec = ?t div 1000000 mod 60, microsecond = ?t mod 1000000, tz = Some (Some 0)\<rparr>"
    by (auto simp: datetime_at_def Let_def split: if_splits)
  from year_from_counts [OF _ y] have ry: "1 \<le> y" "r < days_in_year y"
    "days_before_year y + r = days_before_year (Suc (400 * (?n div 146097))) + ?n mod 146097" by auto
  then have n: "days_before_year y + r = ?n" unfolding days_before_cycle by simp
  from month_from_counts [OF _ _ m] ry(2) have km: "1 \<le> m" "m \<le> 12" "k < days_in_month y m" "days_before_month y m + k = r"
    by auto
  have t: "?t < 86400000000" by simp
  then have ok: "datetime_ok d" unfolding d(3) using km ry(1) d(2) by (auto simp: datetime_ok_def less_mult_imp_div_less)
  have ord: "toordinal d = ?days" using n km(4) d(1) by (simp add: toordinal_def d(3))
  have "microseconds d = ?days * 86400000000
      + (((?t div 3600000000 * 60 + ?t div 60000000 mod 60) * 60 + ?t div 1000000 mod 60) * 1000000 + ?t mod 1000000)"
    unfolding microseconds_def ord by (simp add: d(3) algebra_simps)
  also have "\<dots> = ?days * 86400000000 + ?t" by (simp only: split_time [symmetric])
  finally have "microseconds d = us" by simp
  with ok show ?thesis by (simp add: d(3))
qed

text \<open>An instant formatted and parsed again is cut to the millisecond.\<close>

lemma formatted_microseconds:
  assumes "datetime_at us = Some d" "format_instant d = Inr text" "parse_instant (PStr text) = Inr e"
  shows "microseconds e = us div 1000 * 1000"
proof -
  note d = datetime_at_Some [OF assms(1)]
  with parse_formatted [OF _ assms(2)] assms(3) have e: "e = d\<lparr>microsecond := microsecond d div 1000 * 1000\<rparr>" by simp
  let ?s = "(((toordinal d * 24 + hour d) * 60 + minute d) * 60) + sec d"
  have us: "us = ?s * 1000000 + microsecond d" using d by (simp add: microseconds_def)
  have "microseconds e = ?s * 1000000 + microsecond d div 1000 * 1000" by (simp add: e microseconds_def toordinal_def)
  also have "\<dots> = (1000 * ?s + microsecond d div 1000) * 1000" by simp
  also have "1000 * ?s + microsecond d div 1000 = us div 1000"
    using div_mult_self4 [of 1000 "1000 * ?s" "microsecond d"] unfolding us by simp
  finally show ?thesis .
qed

end
