(* ===== verification/Artifacts.thy ===== *)
theory Artifacts
  imports Ingress Calendar Dispatch
begin

text \<open>
  \<open>services/command_gateway/src/aerial_rescue_command_gateway/\<close>: the mapping of durable authority of \<open>store_adapter.py\<close>, and
  \<open>command_artifacts.py\<close>, which builds every record a decision on an operator command leaves behind.
\<close>

section \<open>Exceptions\<close>

text \<open>Of the evidence service (\<open>wire.py\<close>, \<open>processing.py\<close>, \<open>source_processing.py\<close>, \<open>publication.py\<close>).\<close>

datatype ProposalIngressRefusal = UNREADABLE | UNROUTED | PAYLOAD | DIGEST_MISMATCH

datatype ProcessingRefusal = CANONICAL_DIGEST | PROPOSAL_MISMATCH | DUPLICATE_RESULT

datatype SourceProcessingRefusal = INVALID_INGRESS | CANONICAL_DIGEST | DUPLICATE_RESULT

datatype DecisionPublicationRefusal = SEQUENCE

text \<open>Of the command gateway.\<close>

datatype StoreAdapterRefusal = ACTION | EXPIRY | IDENTITY | DECISION | CONFIRMATION

datatype AuthorizationRefusal = INGRESS_KIND | DUPLICATE_RESULT | IDEMPOTENCY_RESULT

datatype ArtifactRefusal = SEQUENCE | REFUSAL_REASON | APPROVAL_IDENTITY

datatype ProgressionRefusal = INGRESS_KIND | DUPLICATE_RESULT

datatype ApprovalIngressRefusal = INGRESS_KIND | DUPLICATE_RESULT

datatype NormalizationRefusal =
    IDENTITY_MISMATCH | DIGEST_MISMATCH | RESPONSE_KIND | SEQUENCE | DUPLICATE_RESULT | TRANSPORT_CONTEXT
  | TRANSPORT_CONTEXT_CONFLICT

datatype PublicationRefusal = BATCH_EXCEEDED | COMMAND_BINDING | OUTBOX_STATE | BROKER_OUTCOME

datatype ApplicationPublicationRefusal = BATCH_EXCEEDED | HEADERS | IDENTITY | CONFIRMATION | BROKER_OUTCOME

text \<open>What leaves a handler as an exception; the last ones are Python's own.\<close>

datatype handler_error =
    Stored store_error
  | StoreAdapterError StoreAdapterRefusal
  | AuthorizationError AuthorizationRefusal
  | ArtifactError ArtifactRefusal
  | ProgressionError ProgressionRefusal
  | ApprovalIngressError ApprovalIngressRefusal
  | NormalizationError NormalizationRefusal
  | PublicationError PublicationRefusal
  | ApplicationPublicationError ApplicationPublicationRefusal
  | ProposalIngressError ProposalIngressRefusal
  | ProcessingError ProcessingRefusal
  | SourceProcessingError SourceProcessingRefusal
  | DecisionPublicationError DecisionPublicationRefusal
  | ScoreFailed ScoreError
  | LifecycleFailed EvidenceError
  | ScheduleFailed ScheduleError
  | Ingressed ingress_error
  | EnvelopeFailed envelope_error
  | TopicFailed topic_error
  | DigestFailed digest_error
  | CanonicalFailed CanonicalizationError
  | DecodeFailed decode_error
  | InstantFailed InstantError
  | BlankApproval
  | IncompleteArtifacts
  | OverflowError
  | SettlementFailed
  | KeyFailed pystr

section \<open>Durable authority\<close>

record BoundApproval =
  bound_id :: pystr
  bound_approval :: Approval
  bound_durable :: StoredApproval
  bound_evidence :: pystr
  bound_evidence_digest :: pystr
  bound_evidence_version :: int
  bound_action :: ApprovalAction
  bound_epoch :: "pystr option"

definition adapter_action :: "(pystr \<Rightarrow> pystr) \<Rightarrow> bytes \<Rightarrow> handler_error + ApprovalAction" where
  "adapter_action nfc raw =
     (case decode_bytes nfc raw of
        Inl (Refused (UnicodeEncode t)) \<Rightarrow> Inl (CanonicalFailed (UnicodeEncode t))
      | Inl (Refused error) \<Rightarrow> Inl (StoreAdapterError ACTION)
      | Inl IntegerDigits \<Rightarrow> Inl (DecodeFailed IntegerDigits)
      | Inr decoded \<Rightarrow>
          (case validate_approval_value decoded of
             None \<Rightarrow> Inl (StoreAdapterError ACTION)
           | Some action \<Rightarrow> Inr action))"

definition valid_authority :: "StoredApprovalBinding \<Rightarrow> bool" where
  "valid_authority b \<longleftrightarrow>
     (case (binding_epoch b, binding_issued_monotonic b) of
        (None, None) \<Rightarrow> True | (Some epoch, Some at) \<Rightarrow> epoch \<noteq> [] | (e, a) \<Rightarrow> False)"

definition MILLISECOND :: int where
  "MILLISECOND = 1000"

text \<open>\<open>timedelta(milliseconds=n)\<close> in microseconds, within the range of the class.\<close>

definition TIMEDELTA_DAYS :: int where
  "TIMEDELTA_DAYS = 999999999"

definition timedelta :: "int \<Rightarrow> handler_error + int" where
  "timedelta n =
     (let days = n * MILLISECOND div 86400000000
      in if - TIMEDELTA_DAYS \<le> days \<and> days \<le> TIMEDELTA_DAYS then Inr (n * MILLISECOND) else Inl OverflowError)"

text \<open>\<open>format_instant(mapped.expires_at)\<close>\<close>

definition expiry_text :: "int \<Rightarrow> handler_error + pystr" where
  "expiry_text at =
     (case datetime_at (nat at) of
        None \<Rightarrow> Inl OverflowError
      | Some d \<Rightarrow> map_sum InstantFailed id (format_instant d))"

definition adapter_approval :: "StoredApproval \<Rightarrow> StoredApprovalBinding \<Rightarrow> handler_error + Approval" where
  "adapter_approval a b =
     (if stored_proposal a \<noteq> binding_proposal b then Inl (StoreAdapterError StoreAdapterRefusal.IDENTITY)
      else if binding_proposal_version b \<noteq> 1 \<or> binding_evidence_version b \<noteq> 1 then Inl (StoreAdapterError DECISION)
      else if (binding_decision b = lit ''approve'') \<noteq> (stored_state a \<in> {APPROVED, EXECUTED, EXPIRED, SUPERSEDED})
      then Inl (StoreAdapterError DECISION)
      else if \<not> (0 \<le> stored_issued_monotonic a \<and> 0 < stored_time_to_live a \<and> valid_authority b)
      then Inl (StoreAdapterError EXPIRY)
      else (case parse_instant (PStr (stored_issued_wall a)) of
              Inl error \<Rightarrow> Inl (StoreAdapterError EXPIRY)
            | Inr issued_wall \<Rightarrow>
                bindE (timedelta (stored_time_to_live a)) (\<lambda>ttl.
                bindE (timedelta (case binding_issued_monotonic b of None \<Rightarrow> 0 | Some ms \<Rightarrow> ms)) (\<lambda>issued_monotonic.
                  let mapped = \<lparr>state = stored_state a, operator_identity = stored_operator a,
                        issued = \<lparr>wall = int (microseconds issued_wall), monotonic = issued_monotonic\<rparr>,
                        time_to_live = ttl, approval_mission = stored_mission a,
                        approval_proposal = stored_proposal a, approval_digest = stored_digest a\<rparr>
                  in bindE (if binding_decision b = lit ''approve'' then map_sum id Some (expiry_text (expires_at mapped))
                            else Inr None) (\<lambda>expected.
                       if binding_expires b \<noteq> expected then Inl (StoreAdapterError EXPIRY) else Inr mapped)))))"

definition map_authorization_approval ::
    "(pystr \<Rightarrow> pystr) \<Rightarrow> StoredApproval \<Rightarrow> StoredApprovalBinding \<Rightarrow> handler_error + BoundApproval" where
  "map_authorization_approval nfc a b =
     bindE (adapter_approval a b) (\<lambda>approval.
     bindE (adapter_action nfc (binding_action b)) (\<lambda>action.
       if binding_approval b = [] then Inl BlankApproval
       else Inr \<lparr>bound_id = binding_approval b, bound_approval = approval, bound_durable = a,
                 bound_evidence = binding_evidence b, bound_evidence_digest = binding_evidence_digest b,
                 bound_evidence_version = binding_evidence_version b, bound_action = action, bound_epoch = binding_epoch b\<rparr>))"

definition load_approval :: "(pystr \<Rightarrow> pystr) \<Rightarrow> pystr \<Rightarrow> (handler_error, BoundApproval) tx" where
  "load_approval nfc proposal =
     bindT (raising Stored (load_for_update proposal)) (\<lambda>a.
     bindT (raising Stored (load_by_proposal proposal)) (\<lambda>b.
       pure (map_authorization_approval nfc a b)))"

text \<open>\<open>_milliseconds\<close> of the time to live, and the mapping back to the durable row.\<close>

definition adapter_milliseconds :: "int \<Rightarrow> handler_error + int" where
  "adapter_milliseconds duration =
     (if duration mod MILLISECOND \<noteq> 0 \<or> duration div MILLISECOND \<le> 0 then Inl (StoreAdapterError EXPIRY)
      else Inr (duration div MILLISECOND))"

definition stored_approval :: "BoundApproval \<Rightarrow> handler_error + StoredApproval" where
  "stored_approval bd =
     (let a = bound_approval bd; durable = bound_durable bd
      in if state a \<noteq> EXECUTED \<or> stored_state durable \<noteq> APPROVED then Inl (StoreAdapterError DECISION)
         else if (stored_mission durable, stored_proposal durable, stored_operator durable, stored_digest durable)
                 \<noteq> (approval_mission a, approval_proposal a, operator_identity a, approval_digest a)
         then Inl (StoreAdapterError StoreAdapterRefusal.IDENTITY)
         else bindE (expiry_text (wall (issued a))) (\<lambda>issued_wall.
              bindE (adapter_milliseconds (time_to_live a)) (\<lambda>ttl.
                if (stored_issued_wall durable, stored_time_to_live durable) \<noteq> (issued_wall, ttl)
                then Inl (StoreAdapterError EXPIRY)
                else Inr (durable\<lparr>stored_state := EXECUTED\<rparr>))))"

definition persist_bound :: "BoundApproval \<Rightarrow> (handler_error, unit) tx" where
  "persist_bound bd = bindT (pure (stored_approval bd)) (\<lambda>a. raising Stored (persist_consumed a))"

section \<open>Effects of a decision\<close>

record AuthorizationStamp =
  stamp_producer :: pystr
  stamp_command_event :: pystr
  stamp_audit_record :: pystr
  stamp_audit_event :: pystr
  stamp_occurred_at :: pystr
  stamp_command_sequence :: int
  stamp_audit_sequence :: int
  stamp_trace :: pystr
  stamp_tracestate :: "pystr option"

record AuthorizationArtifacts =
  audit_record :: AuditRecord
  audit_event :: StagedApplicationEvent
  staged_command :: "StagedCommand option"
  artifact_progress :: "CommandIdentity option"
  result_bytes :: bytes

definition PRODUCER :: pystr where
  "PRODUCER = lit ''command-gateway''"

definition AUDIT_RECORD_TYPE :: pystr where
  "AUDIT_RECORD_TYPE = lit ''command-authorization''"

definition EMPTY_HEADERS :: bytes where
  "EMPTY_HEADERS = lit ''{}''"

fun action_drone_of :: "OperatorAction \<Rightarrow> pystr" where
  "action_drone_of (AssignSector a) = assign_drone a"
| "action_drone_of (EscalateRescue a) = escalate_drone a"

fun action_type :: "OperatorAction \<Rightarrow> pystr" where
  "action_type (AssignSector a) = lit ''assign-sector''"
| "action_type (EscalateRescue a) = lit ''escalate-rescue''"

text \<open>\<open>action.model_dump()\<close>, by alias.\<close>

fun action_dump :: "OperatorAction \<Rightarrow> members" where
  "action_dump (AssignSector a) =
     obj [(''commandType'', PStr (lit ''assign-sector'')), (''droneId'', PStr (assign_drone a)), (''sectorId'', PStr (assign_sector a))]"
| "action_dump (EscalateRescue a) =
     obj [(''commandType'', PStr (lit ''escalate-rescue'')), (''droneId'', PStr (escalate_drone a)),
          (''proposalId'', PStr (escalate_proposal a)), (''proposalDigest'', PStr (escalate_proposal_digest a)),
          (''proposalVersion'', PInt (escalate_proposal_version a)), (''evidenceDecisionId'', PStr (escalate_evidence a)),
          (''evidenceDecisionDigest'', PStr (escalate_evidence_digest a)),
          (''evidenceDecisionVersion'', PInt (escalate_evidence_version a)),
          (''latitudeMicrodegrees'', PInt (escalate_latitude a)), (''longitudeMicrodegrees'', PInt (escalate_longitude a))]"

text \<open>The document of an event, its type and schema given.\<close>

definition event_document ::
    "OperatorCommandPayload \<Rightarrow> Envelope \<Rightarrow> AuthorizationStamp \<Rightarrow> pystr \<Rightarrow> members \<Rightarrow> pystr \<Rightarrow> pystr \<Rightarrow> pystr \<Rightarrow> members" where
  "event_document p e stamp i content kind schema seq =
     obj [(''specversion'', PStr (lit ''1.0'')), (''id'', PStr i),
          (''source'', PStr (lit ''urn:aerial-rescue:command-gateway:'' @ stamp_producer stamp)), (''type'', PStr kind),
          (''subject'', PStr (command_mission p)), (''time'', PStr (stamp_occurred_at stamp)),
          (''datacontenttype'', PStr (lit ''application/json'')), (''dataschema'', PStr schema), (''data'', PDict content),
          (''sequence'', PStr seq), (''correlationid'', PStr (correlation_id e)), (''causationid'', PStr (envelope_id e)),
          (''traceparent'', PStr (stamp_trace stamp))]
     @ optional_member ''tracestate'' (stamp_tracestate stamp)"

definition gateway_event ::
    "(pystr \<Rightarrow> pystr) \<Rightarrow> OperatorCommandPayload \<Rightarrow> Envelope \<Rightarrow> AuthorizationStamp \<Rightarrow> Topic \<Rightarrow> pystr \<Rightarrow> int \<Rightarrow> members
      \<Rightarrow> handler_error + bytes" where
  "gateway_event nfc p e stamp spec i number content =
     (case sequence_text number of
        None \<Rightarrow> Inl (ArtifactError ArtifactRefusal.SEQUENCE)
      | Some seq \<Rightarrow>
          bindE (map_sum TopicFailed id (format_topic spec)) (\<lambda>text.
          bindE (map_sum TopicFailed id (parse_topic (PStr text))) (\<lambda>topic.
          bindE (map_sum TopicFailed id (event_type topic)) (\<lambda>kind.
          bindE (map_sum EnvelopeFailed id (binding_for kind)) (\<lambda>bd.
            let document = event_document p e stamp i content kind (bound_dataschema bd) seq
            in bindE (map_sum EnvelopeFailed id (parse_envelope nfc (PDict document))) (\<lambda>envelope.
               bindE (map_sum EnvelopeFailed id (check_topic_binding envelope topic)) (\<lambda>_.
                 map_sum CanonicalFailed id (canonical_bytes nfc (PDict document)))))))))"

definition audit_document ::
    "OperatorCommandPayload \<Rightarrow> AuthorizationStamp \<Rightarrow> bool \<Rightarrow> pystr option \<Rightarrow> pystr option \<Rightarrow> handler_error + members" where
  "audit_document p stamp authorized approval_id why =
     (let content = obj [(''auditVersion'', PInt 1), (''missionId'', PStr (command_mission p)),
            (''recordId'', PStr (stamp_audit_record stamp)), (''recordType'', PStr AUDIT_RECORD_TYPE),
            (''commandId'', PStr (command_id p)), (''operatorId'', PStr (command_operator p)),
            (''action'', PDict (action_dump (command_action p))),
            (''outcome'', PStr (if authorized then lit ''authorized'' else lit ''refused''))]
          @ (if authorized then optional_member ''approvalId'' approval_id else [])
      in if authorized then Inr content
         else (case why of
                 None \<Rightarrow> Inl (ArtifactError REFUSAL_REASON)
               | Some text \<Rightarrow> Inr (content @ obj [(''reason'', PStr text)])))"

definition command_document :: "OperatorCommandPayload \<Rightarrow> pystr option \<Rightarrow> handler_error + members" where
  "command_document p approval_id =
     (let common = obj [(''missionId'', PStr (command_mission p)), (''droneId'', PStr (action_drone_of (command_action p))),
            (''commandId'', PStr (command_id p))]
      in case command_action p of
           AssignSector a \<Rightarrow> Inr (common @ obj [(''sectorId'', PStr (assign_sector a))])
         | EscalateRescue a \<Rightarrow>
             (case approval_id of
                None \<Rightarrow> Inl (ArtifactError APPROVAL_IDENTITY)
              | Some approval \<Rightarrow>
                  Inr (common @ obj [(''approvalId'', PStr approval), (''proposalId'', PStr (escalate_proposal a)),
                    (''proposalDigest'', PStr (escalate_proposal_digest a)), (''proposalVersion'', PInt (escalate_proposal_version a)),
                    (''evidenceDecisionId'', PStr (escalate_evidence a)),
                    (''evidenceDecisionDigest'', PStr (escalate_evidence_digest a)),
                    (''evidenceDecisionVersion'', PInt (escalate_evidence_version a)),
                    (''latitudeMicrodegrees'', PInt (escalate_latitude a)),
                    (''longitudeMicrodegrees'', PInt (escalate_longitude a))])))"

definition audit_topic :: "OperatorCommandPayload \<Rightarrow> Topic" where
  "audit_topic p = \<lparr>family = AUDIT, mission_id = command_mission p, topic_parameters = [(lit ''recordType'', AUDIT_RECORD_TYPE)]\<rparr>"

definition command_topic :: "OperatorCommandPayload \<Rightarrow> Topic" where
  "command_topic p = \<lparr>family = DRONE_COMMAND, mission_id = command_mission p,
     topic_parameters = [(lit ''droneId'', action_drone_of (command_action p)), (lit ''commandType'', action_type (command_action p))]\<rparr>"

definition result_document :: "OperatorCommandPayload \<Rightarrow> bool \<Rightarrow> pystr option \<Rightarrow> members" where
  "result_document p authorized why =
     obj [(''authorization'', PStr (if authorized then lit ''authorized'' else lit ''refused'')), (''commandId'', PStr (command_id p))]
     @ optional_member ''reason'' why"

definition build_authorization_artifacts ::
    "(pystr \<Rightarrow> pystr) \<Rightarrow> OperatorCommandPayload \<Rightarrow> Envelope \<Rightarrow> AuthorizationStamp \<Rightarrow> bool \<Rightarrow> pystr option \<Rightarrow> pystr option
      \<Rightarrow> handler_error + AuthorizationArtifacts" where
  "build_authorization_artifacts nfc p e stamp authorized approval_id why =
     bindE (audit_document p stamp authorized approval_id why) (\<lambda>audit_data.
     bindE (gateway_event nfc p e stamp (audit_topic p) (stamp_audit_event stamp) (stamp_audit_sequence stamp) audit_data) (\<lambda>audit_bytes.
     bindE (map_sum TopicFailed id (format_topic (audit_topic p))) (\<lambda>audit_text.
     bindE (case decode_envelope nfc audit_bytes of
              Inl (EnvelopeText error) \<Rightarrow> Inl (DecodeFailed error)
            | Inl (EnvelopeRefused error) \<Rightarrow> Inl (EnvelopeFailed error)
            | Inr parsed \<Rightarrow> Inr (envelope_type parsed)) (\<lambda>kind.
     bindE (map_sum CanonicalFailed id (canonical_bytes nfc (PDict (result_document p authorized why)))) (\<lambda>result.
       let event = \<lparr>app_producer = PRODUCER, app_event = stamp_audit_event stamp, app_family = lit ''audit'',
             app_topic = audit_text, app_headers = EMPTY_HEADERS, app_payload = audit_bytes, app_traceparent = stamp_trace stamp,
             app_tracestate = stamp_tracestate stamp, app_correlation = correlation_id e,
             app_causation = Some (envelope_id e), app_staged_at = stamp_occurred_at stamp\<rparr>;
           fact = \<lparr>audit_mission = command_mission p, audit_kind = kind, audit_occurred_at = stamp_occurred_at stamp,
             audit_payload = audit_bytes, audit_correlation = correlation_id e, audit_causation = Some (envelope_id e),
             audit_traceparent = stamp_trace stamp\<rparr>
       in if \<not> authorized
          then Inr \<lparr>audit_record = fact, audit_event = event, staged_command = None, artifact_progress = None, result_bytes = result\<rparr>
          else bindE (command_document p approval_id) (\<lambda>command_data.
               bindE (gateway_event nfc p e stamp (command_topic p) (stamp_command_event stamp) (stamp_command_sequence stamp)
                        command_data) (\<lambda>command_bytes.
                 Inr \<lparr>audit_record = fact, audit_event = event,
                      staged_command = Some \<lparr>cmd_id = command_id p, cmd_mission = command_mission p,
                        cmd_drone = action_drone_of (command_action p), cmd_payload = command_bytes,
                        cmd_correlation = correlation_id e, cmd_causation = Some (envelope_id e),
                        cmd_traceparent = stamp_trace stamp, cmd_staged_at = stamp_occurred_at stamp\<rparr>,
                      artifact_progress = Some \<lparr>ident_command = command_id p, ident_mission = command_mission p,
                        ident_drone = action_drone_of (command_action p)\<rparr>,
                      result_bytes = result\<rparr>)))))))"

end
