(* ===== verification/Settlement.thy ===== *)
theory Settlement
  imports Artifacts
begin

text \<open>
  What the guaranteed handlers of the command gateway share: a delivery is settled after its unit of work has committed, and a
  malformed one is rejected after its refusal has (\<open>refusal.py\<close>, \<open>processing/broker_refusals.py\<close>). The environment
  of one handling is the fate of its unit of work, the observation clock, and whether the broker takes the settlement; the
  result is what the handler returns or raises, the database it leaves, and the settlement it made.
\<close>

section \<open>Definitions\<close>

datatype Settlement = Accept pystr | Reject

record environment =
  unit_fate :: fate
  observed_at :: pystr
  settles :: bool

type_synonym 'r handled = "(handler_error unit_error + 'r) \<times> database \<times> Settlement option"

definition settle :: "environment \<Rightarrow> Settlement \<Rightarrow> 'r \<Rightarrow> database \<Rightarrow> 'r handled" where
  "settle env s r db = (if settles env then (Inr r, db, Some s) else (Inl (Raised SettlementFailed), db, None))"

definition record_refused :: "BrokerRefusalCandidate \<Rightarrow> pystr \<Rightarrow> (BrokerRefusalDecision \<times> StoredBrokerRefusal) store" where
  "record_refused c at = record_refusal (BrokerRefusalCandidate.extend c \<lparr>refused_at = at\<rparr>)"

text \<open>The durable record of a refused delivery, then its rejection.\<close>

definition reject_candidate ::
    "ingress_error + BrokerRefusalCandidate \<Rightarrow> environment \<Rightarrow> database \<Rightarrow> unit handled" where
  "reject_candidate entry env db =
     (case entry of
        Inl error \<Rightarrow> (Inl (Raised (Ingressed error)), db, None)
      | Inr c \<Rightarrow>
          (case transaction (unit_fate env) (raising Stored (record_refused c (observed_at env))) db of
             (Inl error, db') \<Rightarrow> (Inl error, db', None)
           | (Inr _, db') \<Rightarrow> settle env Reject () db'))"

definition reject_after_refusal ::
    "(pystr \<Rightarrow> pystr) \<Rightarrow> GuaranteedDelivery \<Rightarrow> pystr \<Rightarrow> pystr \<Rightarrow> environment \<Rightarrow> database \<Rightarrow> unit handled" where
  "reject_after_refusal nfc delivery channel code env db =
     reject_candidate (refusal_candidate nfc delivery channel code) env db"

text \<open>The exception the handler raises after the rejection, unless the rejection raised first.\<close>

definition then_raise :: "handler_error \<Rightarrow> unit handled \<Rightarrow> 'r handled" where
  "then_raise error h = (case h of (Inl e, rest) \<Rightarrow> (Inl e, rest) | (Inr _, rest) \<Rightarrow> (Inl (Raised error), rest))"

text \<open>\<open>async with unit_of_work.begin()\<close> followed by \<open>settlement.accept\<close>.\<close>

definition settled_unit :: "environment \<Rightarrow> pystr \<Rightarrow> (handler_error, 'r) tx \<Rightarrow> database \<Rightarrow> 'r handled" where
  "settled_unit env event_id body db =
     (case transaction (unit_fate env) body db of
        (Inl error, db') \<Rightarrow> (Inl error, db', None)
      | (Inr r, db') \<Rightarrow> settle env (Accept event_id) r db')"

text \<open>What the code relies on of Unicode normalization: it leaves ASCII alone and is idempotent.\<close>

definition normalizes :: "(pystr \<Rightarrow> pystr) \<Rightarrow> bool" where
  "normalizes nfc \<longleftrightarrow> (\<forall>s. ascii s \<longrightarrow> nfc s = s) \<and> (\<forall>s. nfc (nfc s) = nfc s)"

lemma set_dict_keys: "set (dict_keys d) = dom (map_of d)"
  by (simp add: dom_map_of_conv_image_fst)

section \<open>A settlement follows a commit\<close>

lemma settled_unit_accepts:
  "settled_unit env ev body db = (r, db', Some s) \<longleftrightarrow>
     s = Accept ev \<and> unit_fate env = Commits \<and> settles env \<and> (\<exists>x. r = Inr x \<and> body db = Inr (x, db'))"
  by (auto simp: settled_unit_def settle_def transaction_def split: sum.splits prod.splits fate.splits if_splits)

lemma settled_unit_database:
  "settled_unit env ev body db = (r, db', s) \<Longrightarrow> db' = db \<or> (\<exists>x. body db = Inr (x, db'))"
  by (auto simp: settled_unit_def settle_def transaction_def split: sum.splits prod.splits fate.splits if_splits)

lemma settled_unit_Inr:
  "settled_unit env ev body db = (Inr x, db', s) \<longleftrightarrow>
     unit_fate env = Commits \<and> settles env \<and> s = Some (Accept ev) \<and> body db = Inr (x, db')"
  by (auto simp: settled_unit_def settle_def transaction_def split: sum.splits prod.splits fate.splits if_splits)

lemma transaction_database: "transaction f body db = (r, db') \<Longrightarrow> db' = db \<or> (\<exists>x. body db = Inr (x, db'))"
  by (auto simp: transaction_def split: sum.splits fate.splits)

lemma reject_candidate_only:
  assumes "reject_candidate entry env db = (r, db', s)"
  shows "(\<exists>rows. db' = db\<lparr>refusals := rows\<rparr>) \<and> s \<in> {None, Some Reject}"
proof -
  have same: "\<exists>rows. db = db\<lparr>refusals := rows\<rparr>" by (rule exI [of _ "refusals db"]) simp
  show ?thesis
  proof (cases entry)
    case (Inl e)
    with assms same show ?thesis by (auto simp: reject_candidate_def)
  next
    case (Inr c)
    obtain t db1 where t: "transaction (unit_fate env) (raising Stored (record_refused c (observed_at env))) db = (t, db1)"
      by fastforce
    with same have "\<exists>rows. db1 = db\<lparr>refusals := rows\<rparr>"
      using transaction_database [OF t] record_refusal_Inr by (auto simp: record_refused_def)
    with assms Inr t show ?thesis
      by (auto simp: reject_candidate_def settle_def split: sum.splits if_splits)
  qed
qed

lemmas reject_after_refusal_only = reject_candidate_only [of "refusal_candidate nfc d ch code" for nfc d ch code, folded reject_after_refusal_def]

lemma then_raise_Inr [simp]: "then_raise e h \<noteq> (Inr x, rest)"
  by (auto simp: then_raise_def split: prod.splits sum.splits)

text \<open>What a handler leaves behind: a database that differs in the ledger of refusals only, or one with a given property.\<close>

definition leaves :: "database \<Rightarrow> (database \<Rightarrow> bool) \<Rightarrow> 'r handled \<Rightarrow> bool" where
  "leaves db P h \<longleftrightarrow> (\<exists>rows. fst (snd h) = db\<lparr>refusals := rows\<rparr>) \<or> P (fst (snd h))"

lemma leavesE:
  assumes "leaves db P h" "h = (r, db', s)"
  obtains (refused) rows where "db' = db\<lparr>refusals := rows\<rparr>" | (ran) "P db'"
  using assms by (auto simp: leaves_def)

named_theorems leaving \<open>what the parts of a handler leave behind\<close>

lemma leaves_raise [leaving]: "leaves db P (x, db, s)"
  unfolding leaves_def by (rule disjI1, rule exI [of _ "refusals db"]) simp

lemma leaves_rejected [leaving]:
  "leaves db P (then_raise e (reject_candidate entry env db))"
  "leaves db P (then_raise e (reject_after_refusal nfc d ch code env db))"
proof -
  show all: "leaves db P (then_raise e (reject_candidate entry env db))" for entry
  proof -
    obtain r db' s where h: "reject_candidate entry env db = (r, db', s)" by (metis prod_cases3)
    from reject_candidate_only [OF this] h show ?thesis by (auto simp: leaves_def then_raise_def split: sum.splits)
  qed
  show "leaves db P (then_raise e (reject_after_refusal nfc d ch code env db))"
    unfolding reject_after_refusal_def by (rule all)
qed

lemma leaves_settled [leaving]:
  assumes "\<And>x db'. body db = Inr (x, db') \<Longrightarrow> P db'"
  shows "leaves db P (settled_unit env ev body db)"
proof -
  obtain r db' s where h: "settled_unit env ev body db = (r, db', s)" by (metis prod_cases3)
  from settled_unit_database [OF this] show ?thesis
  proof
    assume "db' = db"
    then show ?thesis unfolding h using leaves_raise by simp
  next
    assume "\<exists>x. body db = Inr (x, db')"
    with assms show ?thesis unfolding h by (auto simp: leaves_def)
  qed
qed

lemma leaves_cases [leaving]:
  "(\<And>x. z = Inl x \<Longrightarrow> leaves db P (f1 x)) \<Longrightarrow> (\<And>y. z = Inr y \<Longrightarrow> leaves db P (g1 y))
     \<Longrightarrow> leaves db P (case z of Inl x \<Rightarrow> f1 x | Inr y \<Rightarrow> g1 y)"
  "leaves db P h2 \<Longrightarrow> (\<And>kind. leaves db P (f2 kind))
     \<Longrightarrow> leaves db P (case w of IngressError kind \<Rightarrow> f2 kind | IngressKeyError \<Rightarrow> h2)"
  by (simp_all split: sum.splits ingress_error.splits)

section \<open>Computations that only read\<close>

definition reads_only :: "('e, 'a) tx \<Rightarrow> bool" where
  "reads_only m \<longleftrightarrow> (\<forall>db r db'. m db = Inr (r, db') \<longrightarrow> db' = db)"

lemma reads_onlyD: "reads_only m \<Longrightarrow> m db = Inr (r, db') \<Longrightarrow> db' = db"
  by (simp add: reads_only_def)

named_theorems reading \<open>computations that leave the database as it is\<close>

lemma reads_only_intros [reading]:
  "reads_only (returnT x)" "reads_only (pure p)" "reads_only (raiseT e)"
  "reads_only m \<Longrightarrow> reads_only (raising h m)"
  "reads_only m1 \<Longrightarrow> (\<And>x. reads_only (f1 x)) \<Longrightarrow> reads_only (bindT m1 f1)"
  "reads_only m2 \<Longrightarrow> reads_only m3 \<Longrightarrow> reads_only (if c then m2 else m3)"
  "reads_only m4 \<Longrightarrow> (\<And>x. reads_only (f4 x)) \<Longrightarrow> reads_only (case z of None \<Rightarrow> m4 | Some x \<Rightarrow> f4 x)"
  "(\<And>y. reads_only (g5 y)) \<Longrightarrow> (\<And>x. reads_only (f5 x)) \<Longrightarrow> reads_only (case w of Inl y \<Rightarrow> g5 y | Inr x \<Rightarrow> f5 x)"
  unfolding reads_only_def by (auto split: option.splits sum.splits) metis

lemma reads_only_loads [reading]:
  "reads_only (load_proposal i)" "reads_only (load_decision i)" "reads_only (load_approval nfc i)" "reads_only (load_progress i)"
  by (auto simp: reads_only_def load_approval_def load_by_proposal_def repository_Inr)

text \<open>Every value a computation returns satisfies a predicate.\<close>

definition returns :: "('a \<Rightarrow> bool) \<Rightarrow> ('e, 'a) tx \<Rightarrow> bool" where
  "returns P m \<longleftrightarrow> (\<forall>db r db'. m db = Inr (r, db') \<longrightarrow> P r)"

lemma returnsD: "returns P m \<Longrightarrow> m db = Inr (r, db') \<Longrightarrow> P r"
  by (auto simp: returns_def)

named_theorems returning \<open>computations whose values satisfy a predicate\<close>

lemma returns_intros [returning]:
  "P x \<Longrightarrow> returns P (returnT x)" "returns P (raiseT e)" "returns P m \<Longrightarrow> returns P (raising h m)"
  "(\<And>x. returns P (f1 x)) \<Longrightarrow> returns P (bindT m1 f1)"
  "returns P m2 \<Longrightarrow> returns P m3 \<Longrightarrow> returns P (if c then m2 else m3)"
  "returns P m4 \<Longrightarrow> (\<And>x. returns P (f4 x)) \<Longrightarrow> returns P (case z of None \<Rightarrow> m4 | Some x \<Rightarrow> f4 x)"
  "(\<And>y. returns P (g5 y)) \<Longrightarrow> (\<And>x. returns P (f5 x)) \<Longrightarrow> returns P (case w of Inl y \<Rightarrow> g5 y | Inr x \<Rightarrow> f5 x)"
  unfolding returns_def by (auto split: option.splits sum.splits)

text \<open>Computations that leave the proposals, the evidence decisions and the sources of evidence as they are.\<close>

definition steady :: "('e, 'a) tx \<Rightarrow> bool" where
  "steady m \<longleftrightarrow> (\<forall>db r db'. m db = Inr (r, db') \<longrightarrow> proposals db' = proposals db \<and> decisions db' = decisions db
     \<and> source_events db' = source_events db \<and> source_items db' = source_items db)"

lemma steadyD:
  assumes "steady m" "m db = Inr (r, db')"
  shows "proposals db' = proposals db" "decisions db' = decisions db" "source_events db' = source_events db"
    "source_items db' = source_items db"
  using assms by (auto simp: steady_def)

lemma steady_reads: "reads_only m \<Longrightarrow> steady m"
  by (auto simp: reads_only_def steady_def)

named_theorems steadying \<open>computations that leave the evidence as it is\<close>

lemma steady_intros [steadying]:
  "steady (returnT x)" "steady (pure p)" "steady (raiseT e)" "steady (query q)" "steady m \<Longrightarrow> steady (raising h m)"
  "steady m1 \<Longrightarrow> (\<And>x. steady (f1 x)) \<Longrightarrow> steady (bindT m1 f1)"
  "steady m2 \<Longrightarrow> steady m3 \<Longrightarrow> steady (if c then m2 else m3)"
  "steady m4 \<Longrightarrow> (\<And>x. steady (f4 x)) \<Longrightarrow> steady (case z of None \<Rightarrow> m4 | Some x \<Rightarrow> f4 x)"
  "(\<And>y. steady (g5 y)) \<Longrightarrow> (\<And>x. steady (f5 x)) \<Longrightarrow> steady (case w of Inl y \<Rightarrow> g5 y | Inr x \<Rightarrow> f5 x)"
  "(\<And>x y. steady (f6 x y)) \<Longrightarrow> steady (case q2 of (x, y) \<Rightarrow> f6 x y)"
  unfolding steady_def by (auto split: option.splits sum.splits prod.splits)

lemma steady_repositories [steadying]:
  "steady (inbox_claim i)" "steady (inbox_complete i b at)" "steady (claim c)" "steady (record_result k b2)"
  "steady (persist_consumed a)" "steady (append_audit r)" "steady (stage_command x)" "steady (stage_application y)"
  "steady (initialize i2 at2)" "steady (record_transition row ev budget facts)" "steady (load_proposal i3)" "steady (load_decision i4)"
  "steady (load_approval nfc i5)" "steady (load_progress i6)" "steady (load_by_approval i7)" "steady (bind_authority i8 a8)"
  "steady (load_for_update i9)" "steady (persist_bound bd)"
  by (auto simp: steady_def load_approval_def load_by_proposal_def load_by_approval_def bind_authority_def bind_statement_def Let_def
      persist_bound_def repository_Inr split: option.splits if_splits)

section \<open>Consumers of the broker inbox\<close>

text \<open>A completed inbox row is kept from one database to the next.\<close>

definition inbox_kept :: "database \<Rightarrow> database \<Rightarrow> bool" where
  "inbox_kept db db' \<longleftrightarrow> (\<forall>k row. inbox db k = Some row \<and> inbox_result row \<noteq> None \<longrightarrow> inbox db' k = Some row)"

lemma inbox_kept_refl [simp]: "inbox_kept db db"
  by (simp add: inbox_kept_def)

lemma inbox_kept_trans [trans]: "inbox_kept a b \<Longrightarrow> inbox_kept b c \<Longrightarrow> inbox_kept a c"
  by (auto simp: inbox_kept_def)

text \<open>The row of an identity holds this result.\<close>

definition completed :: "InboxIdentity \<Rightarrow> bytes \<Rightarrow> database \<Rightarrow> bool" where
  "completed i b db \<longleftrightarrow> (\<exists>row. inbox db (inbox_key i) = Some row \<and> inbox_digest row = inbox_digest i
     \<and> inbox_result row = Some b \<and> inbox_processed_at row \<noteq> None)"

lemma completed_kept: "completed i b db \<Longrightarrow> inbox_kept db db' \<Longrightarrow> completed i b db'"
  unfolding completed_def inbox_kept_def by (metis option.distinct(1))

lemma inbox_claim_completed:
  "completed i b db \<Longrightarrow> inbox_claim i db = Inr (\<lparr>inbox_decision = InboxDecision.DUPLICATE, prior_result = Some b\<rparr>, db)"
  by (auto simp: completed_def inbox_claim_Inr inbox_duplicate_Inr)

lemma inbox_claim_keeps: "inbox_claim i db = Inr (oc, db') \<Longrightarrow> inbox_kept db db'"
  by (auto simp: inbox_claim_Inr inbox_kept_def split: option.splits)

lemma inbox_claim_only: "inbox_claim i db = Inr (oc, db') \<Longrightarrow> \<exists>rows. db' = db\<lparr>inbox := rows\<rparr>"
  by (auto simp: inbox_claim_Inr split: option.splits) (metis database.surjective database.update_convs(1))

lemma inbox_claim_duplicate:
  "inbox_claim i db = Inr (oc, db') \<Longrightarrow> inbox_decision oc = InboxDecision.DUPLICATE \<Longrightarrow> prior_result oc = Some b \<Longrightarrow> completed i b db'"
  by (auto simp: inbox_claim_Inr inbox_duplicate_Inr completed_def split: option.splits)

lemma inbox_complete_keeps: "inbox_complete i b at db = Inr (u, db') \<Longrightarrow> inbox_kept db db' \<and> completed i b db'"
  by (auto simp: inbox_complete_Inr inbox_kept_def completed_def)

lemma inbox_kept_same: "inbox db' = inbox db \<Longrightarrow> inbox_kept db db'"
  by (simp add: inbox_kept_def)

text \<open>
  The contract of a consumer: its unit of work keeps every completed row, and once it has returned for an ingress it returns
  the same answer for that ingress, whatever clock and stamp it is handled with, and changes nothing.
\<close>

locale guaranteed_consumer =
  fixes body :: "'i \<Rightarrow> 'a \<Rightarrow> (handler_error, 'r) tx"
    and answer :: "'r \<Rightarrow> bytes"
    and accepts :: "'i \<Rightarrow> bool"
  assumes keeps: "body i a db = Inr (r, db') \<Longrightarrow> inbox_kept db db'"
    and replays: "accepts i \<Longrightarrow> body i a db = Inr (r, db') \<Longrightarrow> inbox_kept db' later
      \<Longrightarrow> \<exists>r'. body i b later = Inr (r', later) \<and> answer r' = answer r"
begin

lemma handled_keeps: "settled_unit env ev (body i a) db = (r, db', s) \<Longrightarrow> inbox_kept db db'"
  using settled_unit_database [of env ev "body i a" db r db' s] keeps by (metis inbox_kept_refl)

lemma redelivered:
  assumes "accepts i" "body i a db = Inr (r, db')" "inbox_kept db' later"
    and "unit_fate env = Commits" "settles env"
  shows "\<exists>r'. settled_unit env ev (body i b) later = (Inr r', later, Some (Accept ev)) \<and> answer r' = answer r"
proof -
  from replays [OF assms(1-3)] obtain r' where "body i b later = Inr (r', later)" "answer r' = answer r" by blast
  with assms(4,5) show ?thesis by (auto simp: settled_unit_def settle_def transaction_def)
qed

end

end
