(* ===== verification/Authorization.thy ===== *)
theory Authorization
  imports Settlement
begin

text \<open>
  \<open>services/command_gateway/src/aerial_rescue_command_gateway/authorization.py\<close>: one operator command in; the claims, the
  consumption of the approval it needs, the audit record, and the staged drone command are written in one unit of work, and
  the delivery is settled after it.
\<close>

section \<open>Members against values\<close>

text \<open>A payload member against a text, an integer, and an optional integer.\<close>

definition is_text :: "members \<Rightarrow> string \<Rightarrow> pystr \<Rightarrow> bool" where
  "is_text d name t \<longleftrightarrow> get d (lit name) = PStr t"

definition is_number :: "members \<Rightarrow> string \<Rightarrow> int \<Rightarrow> bool" where
  "is_number d name n \<longleftrightarrow> number_of (get d (lit name)) = Some n"

fun is_optional_number :: "members \<Rightarrow> string \<Rightarrow> int option \<Rightarrow> bool" where
  "is_optional_number d name None \<longleftrightarrow> get d (lit name) = PNone"
| "is_optional_number d name (Some n) \<longleftrightarrow> is_number d name n"

text \<open>\<open>left and right\<close>, where the operands may raise.\<close>

definition andE :: "'e + bool \<Rightarrow> 'e + bool \<Rightarrow> 'e + bool" where
  "andE left right = bindE left (\<lambda>holds. if holds then right else Inr False)"

lemma andE_True: "andE a b = Inr True \<longleftrightarrow> a = Inr True \<and> b = Inr True"
  by (auto simp: andE_def split: if_splits)

section \<open>Data\<close>

definition AUTHORIZATION_CHANNEL :: pystr where
  "AUTHORIZATION_CHANNEL = lit ''command-gateway-operator-command''"

definition PROPOSAL_KEYS :: "string list" where
  "PROPOSAL_KEYS = [''canonicalizationVersion'', ''proposalVersion'', ''missionId'', ''proposalId'', ''proposalType'',
     ''agentName'', ''sourceInvocationId'', ''sourceEventId'', ''sourceEventDigest'', ''commandType'', ''droneId'',
     ''latitudeMicrodegrees'', ''longitudeMicrodegrees'', ''proposalDigest'']"

definition DECISION_KEYS :: "string list" where
  "DECISION_KEYS = [''canonicalizationVersion'', ''evidenceDecisionVersion'', ''missionId'', ''proposalId'',
     ''proposalDigest'', ''proposalVersion'', ''evidenceDecisionId'', ''outcome'', ''scoreVersion'', ''score'', ''band'',
     ''contributors'', ''evidenceDecisionDigest'']"

definition has_keys :: "members \<Rightarrow> string list \<Rightarrow> bool" where
  "has_keys d wanted \<longleftrightarrow> set (dict_keys d) = KStr ` lit ` set wanted"

datatype AuthorizationOutcome = AUTHORIZED | REFUSED | DUPLICATE

record AuthorizationClock =
  clock_reading :: ClockReading
  runtime_epoch :: pystr

record AuthorizationResult =
  authorization_outcome :: AuthorizationOutcome
  authorization_answer :: bytes
  authorization_reason :: "pystr option"

record Decision =
  decision_authorized :: bool
  decision_reason :: "pystr option"
  decision_approval :: "BoundApproval option"

definition refused_because :: "string \<Rightarrow> Decision" where
  "refused_because why = \<lparr>decision_authorized = False, decision_reason = Some (lit why), decision_approval = None\<rparr>"

fun band_value :: "EvidenceBand \<Rightarrow> pystr" where
  "band_value NONE = lit ''none''"
| "band_value WEAK = lit ''weak''"
| "band_value SUPPORTED = lit ''supported''"
| "band_value CORROBORATED = lit ''corroborated''"

fun decision_outcome_value :: "EvidenceDecisionOutcome \<Rightarrow> pystr" where
  "decision_outcome_value CONTRIBUTING = lit ''contributing''"
| "decision_outcome_value MANUAL_REVIEW = lit ''manual-review''"
| "decision_outcome_value ABSTAINED = lit ''abstained''"
| "decision_outcome_value EvidenceDecisionOutcome.REJECTED = lit ''rejected''"

section \<open>Exact agreement\<close>

definition canonical_object :: "(pystr \<Rightarrow> pystr) \<Rightarrow> bytes \<Rightarrow> members option" where
  "canonical_object nfc raw =
     (case decode_bytes nfc raw of
        Inr (PDict d) \<Rightarrow> Some (filter (\<lambda>(k, v). case k of KStr t \<Rightarrow> True | KObj t \<Rightarrow> False) d)
      | _ \<Rightarrow> None)"

definition canonically :: "(pystr \<Rightarrow> pystr) \<Rightarrow> members \<Rightarrow> bytes \<Rightarrow> handler_error + bool" where
  "canonically nfc d stored = map_sum CanonicalFailed (\<lambda>b. b = stored) (canonical_bytes nfc (PDict d))"

definition proposal_matches ::
    "(pystr \<Rightarrow> pystr) \<Rightarrow> StoredProposal \<Rightarrow> EscalateRescueAction \<Rightarrow> members \<Rightarrow> handler_error + bool" where
  "proposal_matches nfc stored a d =
     andE (andE (Inr (has_keys d PROPOSAL_KEYS \<and> is_number d ''canonicalizationVersion'' 1 \<and> is_number d ''proposalVersion'' 1
              \<and> is_text d ''sourceEventId'' (prop_source_event stored) \<and> is_text d ''sourceEventDigest'' (prop_source_digest stored)
              \<and> is_text d ''agentName'' (prop_agent stored) \<and> is_text d ''sourceInvocationId'' (prop_invocation stored)
              \<and> is_text d ''proposalType'' (prop_type stored)))
          (andE (canonically nfc d (prop_payload stored))
          (andE (map_sum DigestFailed id (proposal_digest_matches nfc d))
            (Inr (is_text d ''missionId'' (prop_mission stored) \<and> is_text d ''proposalId'' (prop_id stored)
              \<and> is_text d ''proposalDigest'' (prop_digest stored) \<and> is_text d ''droneId'' (prop_drone stored)
              \<and> is_text d ''commandType'' (prop_command stored) \<and> is_number d ''latitudeMicrodegrees'' (prop_latitude stored)
              \<and> is_number d ''longitudeMicrodegrees'' (prop_longitude stored))))))
       (Inr (prop_id stored = escalate_proposal a \<and> prop_digest stored = escalate_proposal_digest a
          \<and> prop_drone stored = escalate_drone a \<and> prop_command stored = lit ''escalate-rescue''
          \<and> prop_latitude stored = escalate_latitude a \<and> prop_longitude stored = escalate_longitude a
          \<and> escalate_proposal_version a = 1))"

definition decision_matches ::
    "(pystr \<Rightarrow> pystr) \<Rightarrow> StoredEvidenceDecision \<Rightarrow> EscalateRescueAction \<Rightarrow> members \<Rightarrow> handler_error + bool" where
  "decision_matches nfc stored a d =
     andE (Inr (has_keys d DECISION_KEYS \<and> is_number d ''canonicalizationVersion'' 1 \<and> is_number d ''proposalVersion'' 1))
     (andE (canonically nfc d (dec_payload stored))
     (andE (map_sum DigestFailed id (evidence_decision_digest_matches nfc d))
     (andE (Inr (is_text d ''missionId'' (dec_mission stored) \<and> is_text d ''proposalId'' (dec_proposal stored)
              \<and> is_text d ''proposalDigest'' (dec_proposal_digest stored) \<and> is_text d ''evidenceDecisionId'' (dec_id stored)
              \<and> is_text d ''evidenceDecisionDigest'' (dec_digest stored)
              \<and> is_number d ''evidenceDecisionVersion'' (dec_version stored)
              \<and> is_optional_number d ''scoreVersion'' (dec_score_version stored)
              \<and> is_optional_number d ''score'' (dec_score stored)
              \<and> (case dec_band stored of None \<Rightarrow> False | Some band \<Rightarrow> is_text d ''band'' (band_value band))
              \<and> is_text d ''outcome'' (decision_outcome_value (dec_outcome stored))))
     (andE (case dec_contributors stored of
              None \<Rightarrow> Inr False
            | Some raw \<Rightarrow> map_sum DecodeFailed (\<lambda>v. pyeq v (get d (lit ''contributors''))) (decode_bytes nfc raw))
       (Inr (dec_outcome stored = CONTRIBUTING \<and> dec_band stored = Some CORROBORATED
          \<and> dec_proposal stored = escalate_proposal a \<and> dec_proposal_digest stored = escalate_proposal_digest a
          \<and> dec_id stored = escalate_evidence a \<and> dec_digest stored = escalate_evidence_digest a
          \<and> dec_version stored = escalate_evidence_version a))))))"

fun approval_reason :: "ApprovalError \<Rightarrow> ApprovalState \<Rightarrow> handler_error + pystr" where
  "approval_reason (NOT_APPROVED p) s =
     Inr (if s = ApprovalState.REJECTED then lit ''approval-rejected'' else lit ''approval-missing'')"
| "approval_reason (ApprovalError.TRANSITION s' e) s = Inr (lit ''approval-missing'')"
| "approval_reason (TIME_TO_LIVE t) s = Inr (lit ''approval-missing'')"
| "approval_reason (HAS_EXPIRED p) s = Inr (lit ''approval-expired'')"
| "approval_reason (WINDOW_PASSED now) s = Inr (lit ''approval-expired'')"
| "approval_reason (CLOCK_REGRESSION now) s = Inr (lit ''approval-expired'')"
| "approval_reason (WAS_SUPERSEDED p) s = Inr (lit ''approval-superseded'')"
| "approval_reason (ALREADY_CONSUMED p) s = Inr (lit ''approval-consumed'')"
| "approval_reason (MISSION m) s = Inr (lit ''proposal-mismatch'')"
| "approval_reason (PROPOSAL_ID p) s = Inr (lit ''proposal-mismatch'')"
| "approval_reason (DIGEST h) s = Inr (lit ''proposal-mismatch'')"
| "approval_reason (PARAMETERS d) s = Inr (lit ''proposal-mismatch'')"
| "approval_reason (Uncaught e) s = Inl (DigestFailed e)"

text \<open>The reason of the refusal, or the bound approval with its consumed state.\<close>

definition consume_bound_approval ::
    "(pystr \<Rightarrow> pystr) \<Rightarrow> BoundApproval \<Rightarrow> StoredProposal \<Rightarrow> members option \<Rightarrow> AuthorizationClock \<Rightarrow> handler_error + (pystr + BoundApproval)" where
  "consume_bound_approval nfc bd stored content now =
     (let named = \<lparr>proposal_mission = prop_mission stored, proposal_id = prop_id stored,
            proposal_parameters = (case content of None \<Rightarrow> [] | Some d \<Rightarrow> d)\<rparr>;
          a = bound_approval bd
      in if state a = APPROVED \<and> bound_epoch bd \<noteq> Some (runtime_epoch now) then Inr (Inl (lit ''approval-expired''))
         else (case consume nfc a named (clock_reading now) of
                 Inl error \<Rightarrow> map_sum id Inl (approval_reason error (state a))
               | Inr executed \<Rightarrow> Inr (Inr (bd\<lparr>bound_approval := executed\<rparr>))))"

definition evidence_refusal :: "(pystr \<Rightarrow> pystr) \<Rightarrow> EscalateRescueAction \<Rightarrow> (handler_error, pystr option) tx" where
  "evidence_refusal nfc a =
     bindT (raising Stored (load_decision (escalate_evidence a))) (\<lambda>stored.
       case canonical_object nfc (dec_payload stored) of
         None \<Rightarrow> returnT (Some (lit ''evidence-decision-mismatch''))
       | Some d \<Rightarrow> bindT (pure (decision_matches nfc stored a d)) (\<lambda>exact.
           returnT (if exact then None else Some (lit ''evidence-decision-mismatch''))))"

definition approval_binding_refusal :: "BoundApproval \<Rightarrow> EscalateRescueAction \<Rightarrow> pystr option" where
  "approval_binding_refusal bd a =
     (if bound_evidence bd \<noteq> escalate_evidence a \<or> bound_evidence_digest bd \<noteq> escalate_evidence_digest a
         \<or> bound_evidence_version bd \<noteq> escalate_evidence_version a
      then Some (lit ''evidence-decision-mismatch'')
      else if bound_action bd \<noteq> \<lparr>action_drone = escalate_drone a, action_latitude = escalate_latitude a,
                action_longitude = escalate_longitude a\<rparr>
      then Some (lit ''action-mismatch'')
      else None)"

definition authorize_escalation ::
    "(pystr \<Rightarrow> pystr) \<Rightarrow> OperatorCommandPayload \<Rightarrow> EscalateRescueAction \<Rightarrow> AuthorizationClock \<Rightarrow> (handler_error, Decision) tx" where
  "authorize_escalation nfc p a now =
     bindT (raising Stored (load_proposal (escalate_proposal a))) (\<lambda>stored.
     bindT (load_approval nfc (escalate_proposal a)) (\<lambda>bd.
       let content = canonical_object nfc (prop_payload stored)
       in bindT (pure (consume_bound_approval nfc bd stored content now)) (\<lambda>consumed.
            case consumed of
              Inl why \<Rightarrow> returnT \<lparr>decision_authorized = False, decision_reason = Some why, decision_approval = None\<rparr>
            | Inr executed \<Rightarrow>
                bindT (pure (if command_mission p \<noteq> prop_mission stored then Inr False
                             else (case content of None \<Rightarrow> Inr False | Some d \<Rightarrow> proposal_matches nfc stored a d))) (\<lambda>exact.
                  if \<not> exact then returnT (refused_because ''proposal-mismatch'')
                  else bindT (evidence_refusal nfc a) (\<lambda>mismatch.
                    case mismatch of
                      Some why \<Rightarrow> returnT \<lparr>decision_authorized = False, decision_reason = Some why, decision_approval = None\<rparr>
                    | None \<Rightarrow>
                        (case approval_binding_refusal bd a of
                           Some why \<Rightarrow> returnT \<lparr>decision_authorized = False, decision_reason = Some why, decision_approval = None\<rparr>
                         | None \<Rightarrow> returnT \<lparr>decision_authorized = True, decision_reason = None,
                                            decision_approval = Some executed\<rparr>))))))"

section \<open>The unit of work\<close>

text \<open>The identity of an envelope in the inbox of this consumer.\<close>

definition envelope_identity :: "(pystr \<Rightarrow> pystr) \<Rightarrow> Envelope \<Rightarrow> pystr \<Rightarrow> handler_error + InboxIdentity" where
  "envelope_identity nfc e mission =
     bindE (map_sum CanonicalFailed id (canonical_bytes nfc (PDict (envelope_document e)))) (\<lambda>encoded.
       Inr \<lparr>inbox_consumer = CONSUMER, inbox_source = source e, inbox_event = envelope_id e, inbox_mission = mission,
            inbox_digest = sha256_hexdigest encoded\<rparr>)"

definition authorization_identity :: "(pystr \<Rightarrow> pystr) \<Rightarrow> Envelope \<Rightarrow> OperatorCommandPayload \<Rightarrow> handler_error + InboxIdentity" where
  "authorization_identity nfc e p = envelope_identity nfc e (command_mission p)"

definition command_claim ::
    "(pystr \<Rightarrow> pystr) \<Rightarrow> Envelope \<Rightarrow> OperatorCommandPayload \<Rightarrow> pystr \<Rightarrow> handler_error + StoredClaim" where
  "command_claim nfc e p at =
     bindE (map_sum DigestFailed id (digest nfc IDEMPOTENCY_BODY
         (PDict (obj [(VERSION_FIELD, PInt 1), (''body'', PDict (envelope_document e))])))) (\<lambda>h.
       Inr \<lparr>claim_key = command_id p, claim_kind = COMMAND, claim_body = h, claim_mission = command_mission p,
            claimed_at = at\<rparr>)"

definition duplicate_inbox_result :: "InboxOutcome \<Rightarrow> handler_error + AuthorizationResult" where
  "duplicate_inbox_result claimed =
     (case prior_result claimed of
        None \<Rightarrow> Inl (AuthorizationError AuthorizationRefusal.DUPLICATE_RESULT)
      | Some r \<Rightarrow> Inr \<lparr>authorization_outcome = DUPLICATE, authorization_answer = r, authorization_reason = None\<rparr>)"

definition command_effects :: "AuthorizationArtifacts \<Rightarrow> handler_error + (StagedCommand \<times> CommandIdentity) option" where
  "command_effects artifacts =
     (case (staged_command artifacts, artifact_progress artifacts) of
        (None, None) \<Rightarrow> Inr None
      | (Some c, Some i) \<Rightarrow> Inr (Some (c, i))
      | _ \<Rightarrow> Inl IncompleteArtifacts)"

definition persist_decision ::
    "(pystr \<Rightarrow> pystr) \<Rightarrow> Envelope \<Rightarrow> OperatorCommandPayload \<Rightarrow> AuthorizationStamp \<Rightarrow> Decision
      \<Rightarrow> (handler_error, AuthorizationResult) tx" where
  "persist_decision nfc e p stamp d =
     bindT (pure (build_authorization_artifacts nfc p e stamp (decision_authorized d)
                    (map_option bound_id (decision_approval d)) (decision_reason d))) (\<lambda>artifacts.
     bindT (case decision_approval d of None \<Rightarrow> returnT () | Some bd \<Rightarrow> persist_bound bd) (\<lambda>_.
     bindT (raising Stored (append_audit (audit_record artifacts))) (\<lambda>_.
     bindT (raising Stored (stage_application (audit_event artifacts))) (\<lambda>_.
     bindT (pure (command_effects artifacts)) (\<lambda>effects.
     bindT (case effects of
              None \<Rightarrow> returnT ()
            | Some (c, i) \<Rightarrow>
                bindT (raising Stored (stage_command c)) (\<lambda>_.
                bindT (raising Stored (initialize i (stamp_occurred_at stamp))) (\<lambda>_. returnT ()))) (\<lambda>_.
     bindT (raising Stored (record_result (command_id p) (result_bytes artifacts))) (\<lambda>_.
     bindT (pure (authorization_identity nfc e p)) (\<lambda>i.
     bindT (raising Stored (inbox_complete i (result_bytes artifacts) (stamp_occurred_at stamp))) (\<lambda>_.
       returnT \<lparr>authorization_outcome = (if decision_authorized d then AUTHORIZED else REFUSED),
                authorization_answer = result_bytes artifacts, authorization_reason = decision_reason d\<rparr>)))))))))"

definition process_claimed ::
    "(pystr \<Rightarrow> pystr) \<Rightarrow> Envelope \<Rightarrow> OperatorCommandPayload \<Rightarrow> AuthorizationStamp \<Rightarrow> AuthorizationClock
      \<Rightarrow> (handler_error, AuthorizationResult) tx" where
  "process_claimed nfc e p stamp now =
     bindT (pure (command_claim nfc e p (stamp_occurred_at stamp))) (\<lambda>request.
     bindT (raising Stored (Repositories.claim request)) (\<lambda>claimed.
       case claim_decision claimed of
         RETURN_PRIOR_RESULT \<Rightarrow>
           (case claimed_result claimed of
              None \<Rightarrow> raiseT (AuthorizationError IDEMPOTENCY_RESULT)
            | Some r \<Rightarrow>
                bindT (pure (authorization_identity nfc e p)) (\<lambda>i.
                bindT (raising Stored (inbox_complete i r (stamp_occurred_at stamp))) (\<lambda>_.
                  returnT \<lparr>authorization_outcome = DUPLICATE, authorization_answer = r, authorization_reason = None\<rparr>)))
       | DENY \<Rightarrow> persist_decision nfc e p stamp (refused_because ''idempotency-conflict'')
       | IdempotencyDecision.EXECUTE \<Rightarrow>
           (case command_action p of
              AssignSector a \<Rightarrow>
                persist_decision nfc e p stamp \<lparr>decision_authorized = True, decision_reason = None, decision_approval = None\<rparr>
            | EscalateRescue a \<Rightarrow>
                bindT (authorize_escalation nfc p a now) (persist_decision nfc e p stamp))))"

definition authorization_unit ::
    "(pystr \<Rightarrow> pystr) \<Rightarrow> InboxIdentity \<Rightarrow> Envelope \<Rightarrow> OperatorCommandPayload \<Rightarrow> AuthorizationStamp \<Rightarrow> AuthorizationClock
      \<Rightarrow> (handler_error, AuthorizationResult) tx" where
  "authorization_unit nfc i e p stamp now =
     bindT (raising Stored (inbox_claim i)) (\<lambda>claimed.
       if inbox_decision claimed = InboxDecision.DUPLICATE then pure (duplicate_inbox_result claimed)
       else process_claimed nfc e p stamp now)"

definition handle_operator_command ::
    "(pystr \<Rightarrow> pystr) \<Rightarrow> GuaranteedDelivery \<Rightarrow> AuthorizationStamp \<Rightarrow> AuthorizationClock \<Rightarrow> environment \<Rightarrow> database
      \<Rightarrow> AuthorizationResult handled" where
  "handle_operator_command nfc delivery stamp now env db =
     (case accept_ingress nfc (delivery_payload delivery) (PStr (delivery_topic delivery)) of
        Inl (IngressError kind) \<Rightarrow>
          then_raise (Ingressed (IngressError kind))
            (reject_after_refusal nfc delivery AUTHORIZATION_CHANNEL (refusal_code kind) env db)
      | Inl IngressKeyError \<Rightarrow> (Inl (Raised (Ingressed IngressKeyError)), db, None)
      | Inr (OperatorCommandIngress topic e p) \<Rightarrow>
          (case authorization_identity nfc e p of
             Inl error \<Rightarrow> (Inl (Raised error), db, None)
           | Inr i \<Rightarrow> settled_unit env (envelope_id e) (authorization_unit nfc i e p stamp now) db)
      | Inr _ \<Rightarrow>
          then_raise (AuthorizationError AuthorizationRefusal.INGRESS_KIND)
            (reject_after_refusal nfc delivery AUTHORIZATION_CHANNEL (lit ''unexpected-family'') env db))"

section \<open>What the unit of work does when it returns\<close>

lemma persist_bound_Inr:
  "persist_bound bd db = Inr (u, db') \<longleftrightarrow>
     (\<exists>a row. stored_approval bd = Inr a \<and> stored_state a = ApprovalState.EXECUTED
        \<and> approvals db (stored_proposal a) = Some row \<and> stored_state row = APPROVED
        \<and> db' = db\<lparr>approvals := (approvals db)(stored_proposal a \<mapsto> row\<lparr>stored_state := ApprovalState.EXECUTED\<rparr>)\<rparr>)"
  by (auto simp: persist_bound_def repository_Inr)

lemma command_effects_staged:
  assumes "command_effects artifacts = Inr effects"
    and "(case effects of None \<Rightarrow> returnT () | Some (c, i) \<Rightarrow>
            bindT (raising Stored (stage_command c)) (\<lambda>_.
            bindT (raising Stored (initialize i at)) (\<lambda>_. returnT ()))) db = Inr (u, db')"
  shows "inbox db' = inbox db" "bindings db' = bindings db" "approvals db' = approvals db"
    "command_outbox db' = command_outbox db @ (case staged_command artifacts of None \<Rightarrow> []
       | Some c \<Rightarrow> [(cmd_id c, \<lparr>outbox_command = c, outbox_state = Outbox.INITIAL_STATE\<rparr>)])"
    "command_progress db' = (case artifact_progress artifacts of None \<Rightarrow> command_progress db
       | Some i \<Rightarrow> (command_progress db)(ident_command i \<mapsto> initial_row i at))"
    "case staged_command artifacts of None \<Rightarrow> True | Some c \<Rightarrow> map_of (command_outbox db) (cmd_id c) = None"
    "case artifact_progress artifacts of None \<Rightarrow> True | Some i \<Rightarrow> command_progress db (ident_command i) = None"
  using assms by (auto simp: command_effects_def repository_Inr split: option.splits prod.splits)

lemma persist_decision_Inr:
  assumes "persist_decision nfc e p stamp d db = Inr (r, db')"
  obtains artifacts i row db1 where
    "build_authorization_artifacts nfc p e stamp (decision_authorized d)
                    (map_option bound_id (decision_approval d)) (decision_reason d) = Inr artifacts"
    "authorization_identity nfc e p = Inr i"
    "r = \<lparr>authorization_outcome = (if decision_authorized d then AUTHORIZED else REFUSED),
                authorization_answer = result_bytes artifacts, authorization_reason = decision_reason d\<rparr>"
    "case decision_approval d of None \<Rightarrow> db1 = db | Some bd \<Rightarrow> persist_bound bd db = Inr ((), db1)"
    "inbox db (inbox_key i) = Some row" "inbox_digest row = inbox_digest i" "inbox_result row = None"
    "inbox db' = (inbox db)(inbox_key i \<mapsto> row\<lparr>inbox_result := Some (result_bytes artifacts),
       inbox_processed_at := Some (stamp_occurred_at stamp)\<rparr>)"
    "approvals db' = approvals db1" "bindings db' = bindings db"
    "command_outbox db' = command_outbox db @ (case staged_command artifacts of None \<Rightarrow> [] 
       | Some c \<Rightarrow> [(cmd_id c, \<lparr>outbox_command = c, outbox_state = Outbox.INITIAL_STATE\<rparr>)])"
    "command_progress db' = (case artifact_progress artifacts of None \<Rightarrow> command_progress db
       | Some i \<Rightarrow> (command_progress db)(ident_command i \<mapsto> initial_row i (stamp_occurred_at stamp)))"
    "case staged_command artifacts of None \<Rightarrow> True | Some c \<Rightarrow> map_of (command_outbox db) (cmd_id c) = None"
    "case artifact_progress artifacts of None \<Rightarrow> True | Some i \<Rightarrow> command_progress db (ident_command i) = None"
proof -
  from assms obtain artifacts db1 effects db2 db3 u1 n u2 where
    art: "build_authorization_artifacts nfc p e stamp (decision_authorized d)
                    (map_option bound_id (decision_approval d)) (decision_reason d) = Inr artifacts"
    and consumed: "(case decision_approval d of None \<Rightarrow> returnT () | Some bd \<Rightarrow> persist_bound bd) db = Inr (u1, db1)"
    and audited: "append_audit (audit_record artifacts) db1 = Inr (n, db2)"
    and staged: "stage_application (audit_event artifacts) db2 = Inr (u2, db3)"
    and effects: "command_effects artifacts = Inr effects"
    and rest: "bindT (case effects of
              None \<Rightarrow> returnT ()
            | Some (c, i) \<Rightarrow>
                bindT (raising Stored (stage_command c)) (\<lambda>_.
                bindT (raising Stored (initialize i (stamp_occurred_at stamp))) (\<lambda>_. returnT ()))) (\<lambda>_.
     bindT (raising Stored (record_result (command_id p) (result_bytes artifacts))) (\<lambda>_.
     bindT (pure (authorization_identity nfc e p)) (\<lambda>i.
     bindT (raising Stored (inbox_complete i (result_bytes artifacts) (stamp_occurred_at stamp))) (\<lambda>_.
       returnT \<lparr>authorization_outcome = (if decision_authorized d then AUTHORIZED else REFUSED),
                authorization_answer = result_bytes artifacts, authorization_reason = decision_reason d\<rparr>)))) db3 = Inr (r, db')"
    by (auto simp: persist_decision_def)
  from consumed have one: "case decision_approval d of None \<Rightarrow> db1 = db | Some bd \<Rightarrow> persist_bound bd db = Inr ((), db1)"
    by (auto split: option.splits)
  from consumed have same: "inbox db1 = inbox db" "command_outbox db1 = command_outbox db" "bindings db1 = bindings db"
    "command_progress db1 = command_progress db"
    by (auto simp: persist_bound_Inr split: option.splits)
  have two: "inbox db3 = inbox db1" "command_outbox db3 = command_outbox db1" "bindings db3 = bindings db1"
    "command_progress db3 = command_progress db1" "approvals db3 = approvals db1"
    using audited staged by (auto simp: repository_Inr)
  from rest obtain db4 db5 u5 u6 i row where
    step: "(case effects of
              None \<Rightarrow> returnT ()
            | Some (c, i) \<Rightarrow>
                bindT (raising Stored (stage_command c)) (\<lambda>_.
                bindT (raising Stored (initialize i (stamp_occurred_at stamp))) (\<lambda>_. returnT ()))) db3 = Inr (u5, db4)"
    and recorded: "record_result (command_id p) (result_bytes artifacts) db4 = Inr (u6, db5)"
    and identity: "authorization_identity nfc e p = Inr i"
    and row: "inbox db5 (inbox_key i) = Some row" "inbox_digest row = inbox_digest i" "inbox_result row = None"
    and final: "db' = db5\<lparr>inbox := (inbox db5)(inbox_key i \<mapsto> row\<lparr>inbox_result := Some (result_bytes artifacts),
       inbox_processed_at := Some (stamp_occurred_at stamp)\<rparr>)\<rparr>"
    and r: "r = \<lparr>authorization_outcome = (if decision_authorized d then AUTHORIZED else REFUSED),
                authorization_answer = result_bytes artifacts, authorization_reason = decision_reason d\<rparr>"
    by (auto simp: inbox_complete_Inr)
  have three: "inbox db5 = inbox db4" "command_outbox db5 = command_outbox db4" "bindings db5 = bindings db4"
    "command_progress db5 = command_progress db4" "approvals db5 = approvals db4"
    using recorded by (auto simp: repository_Inr)
  note four = command_effects_staged [OF effects step]
  show thesis
    by (rule that [OF art identity r one])
       (use row final two three four same in \<open>simp_all cong: option.case_cong\<close>)
qed


lemma persist_decision_inbox:
  assumes "persist_decision nfc e p stamp d db = Inr (r, db')" "authorization_identity nfc e p = Inr i"
  shows "inbox_kept db db' \<and> completed i (authorization_answer r) db'"
proof (rule persist_decision_Inr [OF assms(1)])
qed (use assms(2) in \<open>auto simp: inbox_kept_def completed_def\<close>)

lemma evidence_refusal_reads [reading]: "reads_only (evidence_refusal nfc a)"
  unfolding evidence_refusal_def by (intro reading)

lemma authorize_escalation_reads [reading]: "reads_only (authorize_escalation nfc p a now)"
  unfolding authorize_escalation_def Let_def by (intro reading)

lemma process_claimed_cases:
  assumes "process_claimed nfc e p stamp now db = Inr (r, db')"
  obtains (replayed) i b where "authorization_identity nfc e p = Inr i" "inbox_complete i b (stamp_occurred_at stamp) db = Inr ((), db')"
      "r = \<lparr>authorization_outcome = DUPLICATE, authorization_answer = b, authorization_reason = None\<rparr>"
  | (assigned) request a where "claims db (command_id p) = None" "command_action p = AssignSector a"
      "persist_decision nfc e p stamp \<lparr>decision_authorized = True, decision_reason = None, decision_approval = None\<rparr>
        (db\<lparr>claims := (claims db)(command_id p \<mapsto> request)\<rparr>) = Inr (r, db')"
  | (escalated) request a d where "claims db (command_id p) = None" "command_action p = EscalateRescue a"
      "authorize_escalation nfc p a now (db\<lparr>claims := (claims db)(command_id p \<mapsto> request)\<rparr>)
        = Inr (d, db\<lparr>claims := (claims db)(command_id p \<mapsto> request)\<rparr>)"
      "persist_decision nfc e p stamp d (db\<lparr>claims := (claims db)(command_id p \<mapsto> request)\<rparr>) = Inr (r, db')"
proof -
  from assms obtain q oc db1 where q: "command_claim nfc e p (stamp_occurred_at stamp) = Inr q"
    and oc: "Repositories.claim q db = Inr (oc, db1)"
    by (auto simp: process_claimed_def)
  have q': "claim_key q = command_id p" "claim_kind q = COMMAND" using q by (auto simp: command_claim_def)
  show thesis
  proof (cases "claims db (command_id p)")
    case None
    then show thesis
      using assms q oc q' assigned escalated reads_onlyD [OF authorize_escalation_reads]
      by (auto simp: process_claimed_def claim_Inr split: OperatorAction.splits) metis
  next
    case (Some row)
    with oc q' have "claim_decision oc = RETURN_PRIOR_RESULT" "db1 = db"
      by (auto simp: claim_Inr repeat_claim_def idempotency_decision_def Let_def split: if_splits option.splits)
    with assms q oc replayed show thesis
      by (auto simp: process_claimed_def bindT_eval split: option.splits)
  qed
qed

lemma process_claimed_inbox:
  assumes "process_claimed nfc e p stamp now db = Inr (r, db')" "authorization_identity nfc e p = Inr i"
  shows "inbox_kept db db' \<and> completed i (authorization_answer r) db'"
  using assms(1)
proof (cases rule: process_claimed_cases)
  case replayed
  with assms(2) inbox_complete_keeps show ?thesis by fastforce
next
  case assigned
  with persist_decision_inbox [OF assigned(3) assms(2)] show ?thesis by (simp add: inbox_kept_def)
next
  case escalated
  with persist_decision_inbox [OF escalated(4) assms(2)] show ?thesis by (simp add: inbox_kept_def)
qed

lemma authorization_unit_inbox:
  assumes "authorization_unit nfc i e p stamp now db = Inr (r, db')" "authorization_identity nfc e p = Inr i"
  shows "inbox_kept db db' \<and> completed i (authorization_answer r) db'"
proof -
  from assms(1) obtain oc db1 where oc: "inbox_claim i db = Inr (oc, db1)"
    and rest: "(if inbox_decision oc = InboxDecision.DUPLICATE then pure (duplicate_inbox_result oc)
       else process_claimed nfc e p stamp now) db1 = Inr (r, db')"
    by (auto simp: authorization_unit_def)
  from inbox_claim_keeps [OF oc] have kept: "inbox_kept db db1" .
  show ?thesis
  proof (cases "inbox_decision oc = InboxDecision.DUPLICATE")
    case True
    with rest kept inbox_claim_duplicate [OF oc True] show ?thesis
      by (auto simp: duplicate_inbox_result_def split: option.splits)
  next
    case False
    with rest process_claimed_inbox [OF _ assms(2)] kept inbox_kept_trans show ?thesis by auto
  qed
qed


section \<open>The consumer contract\<close>

definition authorization_body ::
    "(pystr \<Rightarrow> pystr) \<Rightarrow> Envelope \<times> OperatorCommandPayload \<Rightarrow> AuthorizationStamp \<times> AuthorizationClock
      \<Rightarrow> (handler_error, AuthorizationResult) tx" where
  "authorization_body nfc ep sn =
     (case authorization_identity nfc (fst ep) (snd ep) of
        Inl error \<Rightarrow> raiseT error
      | Inr i \<Rightarrow> authorization_unit nfc i (fst ep) (snd ep) (fst sn) (snd sn))"

lemma authorization_body_Inr:
  "authorization_body nfc ep sn db = Inr r \<longleftrightarrow>
     (\<exists>i. authorization_identity nfc (fst ep) (snd ep) = Inr i \<and> authorization_unit nfc i (fst ep) (snd ep) (fst sn) (snd sn) db = Inr r)"
  by (auto simp: authorization_body_def split: sum.splits)

interpretation authorizing: guaranteed_consumer "authorization_body nfc" authorization_answer "\<lambda>_. True" for nfc
proof
  show "inbox_kept db db'" if "authorization_body nfc ep sn db = Inr (r, db')" for ep sn db r db'
    using that authorization_unit_inbox by (auto simp: authorization_body_Inr)
  show "\<exists>r'. authorization_body nfc ep sn' later = Inr (r', later) \<and> authorization_answer r' = authorization_answer r"
    if "authorization_body nfc ep sn db = Inr (r, db')" "inbox_kept db' later" for ep sn sn' db r db' later
  proof -
    from that(1) obtain i where i: "authorization_identity nfc (fst ep) (snd ep) = Inr i"
      and u: "authorization_unit nfc i (fst ep) (snd ep) (fst sn) (snd sn) db = Inr (r, db')"
      by (auto simp: authorization_body_Inr)
    from authorization_unit_inbox [OF u i] completed_kept that(2)
    have "completed i (authorization_answer r) later" by blast
    with i show ?thesis
      by (auto simp: authorization_body_Inr authorization_unit_def inbox_claim_completed duplicate_inbox_result_def)
  qed
qed

section \<open>What a released command rests on\<close>

text \<open>
  The specification of an escalation: the operator approved this proposal, for this mission, with this digest and these
  evidence and action parameters; the approval is live on both clocks of the gateway that bound it; and the evidence decision
  it names is a corroborated, contributing decision on that very proposal.
\<close>

definition warranted :: "(pystr \<Rightarrow> pystr) \<Rightarrow> database \<Rightarrow> pystr \<Rightarrow> EscalateRescueAction \<Rightarrow> AuthorizationClock \<Rightarrow> bool" where
  "warranted nfc db mission a now \<longleftrightarrow>
     (\<exists>row b issued_wall d stored.
        proposals db (escalate_proposal a) = Some stored \<and> prop_mission stored = mission
        \<and> prop_digest stored = escalate_proposal_digest a \<and> prop_drone stored = escalate_drone a
        \<and> prop_latitude stored = escalate_latitude a \<and> prop_longitude stored = escalate_longitude a
        \<and> approvals db (escalate_proposal a) = Some row \<and> stored_state row = APPROVED
        \<and> stored_mission row = mission \<and> stored_proposal row = escalate_proposal a
        \<and> stored_digest row = escalate_proposal_digest a
        \<and> parse_instant (PStr (stored_issued_wall row)) = Inr issued_wall
        \<and> int (microseconds issued_wall) \<le> wall (clock_reading now)
        \<and> wall (clock_reading now) < int (microseconds issued_wall) + stored_time_to_live row * 1000
        \<and> List.find (\<lambda>b. binding_proposal b = escalate_proposal a) (bindings db) = Some b
        \<and> binding_decision b = lit ''approve'' \<and> binding_epoch b = Some (runtime_epoch now)
        \<and> binding_evidence b = escalate_evidence a \<and> binding_evidence_digest b = escalate_evidence_digest a
        \<and> adapter_action nfc (binding_action b) = Inr \<lparr>action_drone = escalate_drone a, action_latitude = escalate_latitude a,
             action_longitude = escalate_longitude a\<rparr>
        \<and> (\<exists>m. binding_issued_monotonic b = Some m \<and> m * 1000 \<le> monotonic (clock_reading now)
             \<and> monotonic (clock_reading now) < m * 1000 + stored_time_to_live row * 1000)
        \<and> decisions db (escalate_evidence a) = Some d \<and> dec_outcome d = CONTRIBUTING \<and> dec_band d = Some CORROBORATED
        \<and> dec_proposal d = escalate_proposal a \<and> dec_proposal_digest d = escalate_proposal_digest a
        \<and> dec_digest d = escalate_evidence_digest a)"

lemma load_approval_Inr:
  "load_approval nfc i db = Inr (bd, db') \<longleftrightarrow>
     (\<exists>a b. approvals db i = Some a \<and> List.find (\<lambda>b. binding_proposal b = i) (bindings db) = Some b \<and> readable_binding b
        \<and> map_authorization_approval nfc a b = Inr bd \<and> db' = db)"
  by (auto simp: load_approval_def load_by_proposal_def repository_Inr)

lemma timedelta_Inr: "timedelta n = Inr t \<Longrightarrow> t = n * 1000"
  by (auto simp: timedelta_def Let_def MILLISECOND_def split: if_splits)

lemma adapter_approval_Inr:
  "adapter_approval a b = Inr x \<Longrightarrow> stored_proposal a = binding_proposal b
     \<and> (binding_decision b = lit ''approve'') = (stored_state a \<in> {APPROVED, ApprovalState.EXECUTED, EXPIRED, SUPERSEDED})
     \<and> valid_authority b
     \<and> (\<exists>issued_wall. parse_instant (PStr (stored_issued_wall a)) = Inr issued_wall
          \<and> x = \<lparr>state = stored_state a, operator_identity = stored_operator a,
              issued = \<lparr>wall = int (microseconds issued_wall),
                monotonic = (case binding_issued_monotonic b of None \<Rightarrow> 0 | Some ms \<Rightarrow> ms) * 1000\<rparr>,
              time_to_live = stored_time_to_live a * 1000, approval_mission = stored_mission a,
              approval_proposal = stored_proposal a, approval_digest = stored_digest a\<rparr>)"
  by (auto simp: adapter_approval_def Let_def dest!: timedelta_Inr split: if_splits sum.splits)

lemma map_authorization_approval_Inr:
  "map_authorization_approval nfc a b = Inr bd \<Longrightarrow>
     \<exists>x action. adapter_approval a b = Inr x \<and> adapter_action nfc (binding_action b) = Inr action
       \<and> bd = \<lparr>bound_id = binding_approval b, bound_approval = x, bound_durable = a,
                 bound_evidence = binding_evidence b, bound_evidence_digest = binding_evidence_digest b,
                 bound_evidence_version = binding_evidence_version b, bound_action = action, bound_epoch = binding_epoch b\<rparr>"
  by (auto simp: map_authorization_approval_def split: if_splits)

lemma consume_bound_approval_Inr:
  assumes "consume_bound_approval nfc bd stored content now = Inr (Inr executed)"
  shows "state (bound_approval bd) = APPROVED" "bound_epoch bd = Some (runtime_epoch now)"
    "prop_mission stored = approval_mission (bound_approval bd)" "prop_id stored = approval_proposal (bound_approval bd)"
    "digest_of_proposal nfc \<lparr>proposal_mission = prop_mission stored, proposal_id = prop_id stored,
            proposal_parameters = (case content of None \<Rightarrow> [] | Some d \<Rightarrow> d)\<rparr> = Inr (approval_digest (bound_approval bd))"
    "within_window (bound_approval bd) (clock_reading now)"
    "executed = bd\<lparr>bound_approval := (bound_approval bd)\<lparr>state := ApprovalState.EXECUTED\<rparr>\<rparr>"
proof -
  let ?c = "\<lparr>proposal_mission = prop_mission stored, proposal_id = prop_id stored,
            proposal_parameters = (case content of None \<Rightarrow> [] | Some d \<Rightarrow> d)\<rparr>"
  have no: "map_sum id Inl y \<noteq> Inr (Inr z)" for y :: "handler_error + pystr" and z :: BoundApproval
    by (cases y) simp_all
  from assms obtain x where x: "consume nfc (bound_approval bd) ?c (clock_reading now) = Inr x"
    "executed = bd\<lparr>bound_approval := x\<rparr>"
    "\<not> (state (bound_approval bd) = APPROVED \<and> bound_epoch bd \<noteq> Some (runtime_epoch now))"
    by (cases "consume nfc (bound_approval bd) ?c (clock_reading now)")
       (auto simp: consume_bound_approval_def Let_def no split: if_splits)
  with consume_Inr [THEN iffD1, OF x(1)] show "state (bound_approval bd) = APPROVED" "bound_epoch bd = Some (runtime_epoch now)"
    "prop_mission stored = approval_mission (bound_approval bd)" "prop_id stored = approval_proposal (bound_approval bd)"
    "digest_of_proposal nfc ?c = Inr (approval_digest (bound_approval bd))"
    "within_window (bound_approval bd) (clock_reading now)"
    "executed = bd\<lparr>bound_approval := (bound_approval bd)\<lparr>state := ApprovalState.EXECUTED\<rparr>\<rparr>"
    by auto
qed

lemma proposal_matches_True:
  assumes "proposal_matches nfc stored a d = Inr True"
  shows "prop_id stored = escalate_proposal a" "prop_digest stored = escalate_proposal_digest a"
    "get d PROPOSAL_DIGEST_FIELD = PStr (escalate_proposal_digest a)" "proposal_digest_matches nfc d = Inr True"
    "prop_drone stored = escalate_drone a" "prop_latitude stored = escalate_latitude a" "prop_longitude stored = escalate_longitude a"
proof -
  have field: "lit ''proposalDigest'' = PROPOSAL_DIGEST_FIELD" by (simp add: PROPOSAL_DIGEST_FIELD_def)
  have digest: "map_sum DigestFailed id x = Inr True \<longleftrightarrow> x = Inr True" for x :: "digest_error + bool"
    by (cases x) simp_all
  from assms show "prop_id stored = escalate_proposal a" "prop_digest stored = escalate_proposal_digest a"
    "get d PROPOSAL_DIGEST_FIELD = PStr (escalate_proposal_digest a)" "proposal_digest_matches nfc d = Inr True"
    "prop_drone stored = escalate_drone a" "prop_latitude stored = escalate_latitude a" "prop_longitude stored = escalate_longitude a"
    by (auto simp: proposal_matches_def andE_True is_text_def field digest)
qed

lemma decision_matches_True:
  assumes "decision_matches nfc stored a d = Inr True"
  shows "dec_outcome stored = CONTRIBUTING" "dec_band stored = Some CORROBORATED" "dec_proposal stored = escalate_proposal a"
    "dec_proposal_digest stored = escalate_proposal_digest a" "dec_digest stored = escalate_evidence_digest a"
  using assms by (auto simp: decision_matches_def andE_True)

lemma authorize_escalation_authorized:
  assumes "authorize_escalation nfc p a now db = Inr (d, db')" "decision_authorized d"
  obtains stored row b bd content executed ev evd where
    "proposals db (escalate_proposal a) = Some stored" "approvals db (escalate_proposal a) = Some row"
    "List.find (\<lambda>b. binding_proposal b = escalate_proposal a) (bindings db) = Some b"
    "map_authorization_approval nfc row b = Inr bd" "canonical_object nfc (prop_payload stored) = Some content"
    "consume_bound_approval nfc bd stored (Some content) now = Inr (Inr executed)"
    "command_mission p = prop_mission stored" "proposal_matches nfc stored a content = Inr True"
    "decisions db (escalate_evidence a) = Some ev" "decision_matches nfc ev a evd = Inr True"
    "approval_binding_refusal bd a = None" "decision_approval d = Some executed"
proof -
  from assms obtain stored bd consumed where
    stored: "proposals db (escalate_proposal a) = Some stored" and bd: "load_approval nfc (escalate_proposal a) db = Inr (bd, db)"
    and consumed: "consume_bound_approval nfc bd stored (canonical_object nfc (prop_payload stored)) now = Inr consumed"
    and rest: "(case consumed of
              Inl why \<Rightarrow> returnT \<lparr>decision_authorized = False, decision_reason = Some why, decision_approval = None\<rparr>
            | Inr executed \<Rightarrow>
                bindT (pure (if command_mission p \<noteq> prop_mission stored then Inr False
                             else (case canonical_object nfc (prop_payload stored) of None \<Rightarrow> Inr False
                               | Some d \<Rightarrow> proposal_matches nfc stored a d))) (\<lambda>exact.
                  if \<not> exact then returnT (refused_because ''proposal-mismatch'')
                  else bindT (evidence_refusal nfc a) (\<lambda>mismatch.
                    case mismatch of
                      Some why \<Rightarrow> returnT \<lparr>decision_authorized = False, decision_reason = Some why, decision_approval = None\<rparr>
                    | None \<Rightarrow>
                        (case approval_binding_refusal bd a of
                           Some why \<Rightarrow> returnT \<lparr>decision_authorized = False, decision_reason = Some why, decision_approval = None\<rparr>
                         | None \<Rightarrow> returnT \<lparr>decision_authorized = True, decision_reason = None,
                                            decision_approval = Some executed\<rparr>)))) db = Inr (d, db')"
    by (auto simp: authorize_escalation_def Let_def repository_Inr load_approval_Inr)
  from rest assms(2) obtain executed where executed: "consumed = Inr executed" by (cases consumed) auto
  from rest assms(2) executed obtain content where content: "canonical_object nfc (prop_payload stored) = Some content"
    "command_mission p = prop_mission stored" "proposal_matches nfc stored a content = Inr True"
    by (auto simp: refused_because_def split: if_splits option.splits)
  with rest executed assms(2) have ev: "evidence_refusal nfc a db = Inr (None, db)"
    and final: "approval_binding_refusal bd a = None" "decision_approval d = Some executed"
    using reads_onlyD [OF evidence_refusal_reads] by (auto split: option.splits)
  from ev obtain evidence evd where "decisions db (escalate_evidence a) = Some evidence" "decision_matches nfc evidence a evd = Inr True"
    by (auto simp: evidence_refusal_def repository_Inr split: option.splits if_splits)
  with stored bd consumed executed content final that show thesis by (auto simp: load_approval_Inr)
qed

lemma authorized_escalation_warranted:
  assumes "authorize_escalation nfc p a now db = Inr (d, db')" "decision_authorized d"
  shows "warranted nfc db (command_mission p) a now"
  using assms
proof (rule authorize_escalation_authorized)
  fix stored row b bd content executed ev evd
  assume stored: "proposals db (escalate_proposal a) = Some stored" and row: "approvals db (escalate_proposal a) = Some row"
    and b: "List.find (\<lambda>b. binding_proposal b = escalate_proposal a) (bindings db) = Some b"
    and bd: "map_authorization_approval nfc row b = Inr bd"
    and consumed: "consume_bound_approval nfc bd stored (Some content) now = Inr (Inr executed)"
    and mission: "command_mission p = prop_mission stored" and matching: "proposal_matches nfc stored a content = Inr True"
    and ev: "decisions db (escalate_evidence a) = Some ev" "decision_matches nfc ev a evd = Inr True"
    and exact: "approval_binding_refusal bd a = None"
  note c = consume_bound_approval_Inr [OF consumed]
  note m = proposal_matches_True [OF matching]
  obtain x action where x: "adapter_approval row b = Inr x" and action: "adapter_action nfc (binding_action b) = Inr action"
    and bd': "bd = \<lparr>bound_id = binding_approval b, bound_approval = x, bound_durable = row,
                 bound_evidence = binding_evidence b, bound_evidence_digest = binding_evidence_digest b,
                 bound_evidence_version = binding_evidence_version b, bound_action = action, bound_epoch = binding_epoch b\<rparr>"
    using map_authorization_approval_Inr [OF bd] by blast
  from adapter_approval_Inr [OF x] obtain w where w: "parse_instant (PStr (stored_issued_wall row)) = Inr w"
    "x = \<lparr>state = stored_state row, operator_identity = stored_operator row,
              issued = \<lparr>wall = int (microseconds w),
                monotonic = (case binding_issued_monotonic b of None \<Rightarrow> 0 | Some ms \<Rightarrow> ms) * 1000\<rparr>,
              time_to_live = stored_time_to_live row * 1000, approval_mission = stored_mission row,
              approval_proposal = stored_proposal row, approval_digest = stored_digest row\<rparr>"
    "stored_proposal row = binding_proposal b" "valid_authority b"
    "(binding_decision b = lit ''approve'') = (stored_state row \<in> {APPROVED, ApprovalState.EXECUTED, EXPIRED, SUPERSEDED})"
    by auto
  from c(2) bd' w(4) obtain ms where ms: "binding_issued_monotonic b = Some ms"
    by (auto simp: valid_authority_def split: option.splits)
  from m(3,4) c(5) bd' w(2) have "stored_digest row = escalate_proposal_digest a"
    by (auto simp: proposal_digest_matches_def digest_of_proposal_Inr matches_def split: if_splits)
  then show ?thesis
    unfolding warranted_def
    using stored row b c bd' w ms m ev decision_matches_True [OF ev(2)] exact mission action
    by (auto simp: within_window_def expires_at_def approval_binding_refusal_def split: if_splits)
qed


lemma warranted_other [simp]:
  "warranted nfc (db\<lparr>claims := x\<rparr>) m a now = warranted nfc db m a now"
  "warranted nfc (db\<lparr>inbox := y\<rparr>) m a now = warranted nfc db m a now"
  by (simp_all add: warranted_def)

lemma build_authorization_artifacts_command:
  assumes "build_authorization_artifacts nfc p e stamp authorized approval why = Inr artifacts"
  shows "authorized \<Longrightarrow> \<exists>c. staged_command artifacts = Some c \<and> cmd_id c = command_id p \<and> cmd_mission c = command_mission p
      \<and> cmd_drone c = action_drone_of (command_action p)
      \<and> artifact_progress artifacts = Some \<lparr>ident_command = command_id p, ident_mission = command_mission p,
          ident_drone = action_drone_of (command_action p)\<rparr>"
    and "\<not> authorized \<Longrightarrow> staged_command artifacts = None \<and> artifact_progress artifacts = None"
  using assms by (auto simp: build_authorization_artifacts_def Let_def split: if_splits)

text \<open>The tables that authorize and release commands.\<close>

definition quiet :: "database \<Rightarrow> database \<Rightarrow> bool" where
  "quiet db db' \<longleftrightarrow> approvals db' = approvals db \<and> command_outbox db' = command_outbox db
     \<and> command_progress db' = command_progress db \<and> bindings db' = bindings db"

text \<open>One command that neither table knew is staged and its progress begins.\<close>

definition released :: "OperatorCommandPayload \<Rightarrow> AuthorizationStamp \<Rightarrow> database \<Rightarrow> database \<Rightarrow> bool" where
  "released p stamp db db' \<longleftrightarrow>
     map_of (command_outbox db) (command_id p) = None \<and> command_progress db (command_id p) = None \<and>
     (\<exists>c. cmd_id c = command_id p \<and> cmd_mission c = command_mission p \<and> cmd_drone c = action_drone_of (command_action p)
        \<and> command_outbox db' = command_outbox db @ [(command_id p, \<lparr>outbox_command = c, outbox_state = Outbox.INITIAL_STATE\<rparr>)])
     \<and> (let i = \<lparr>ident_command = command_id p, ident_mission = command_mission p,
                ident_drone = action_drone_of (command_action p)\<rparr>
        in command_progress db' = (command_progress db)(command_id p \<mapsto> initial_row i (stamp_occurred_at stamp)))
     \<and> bindings db' = bindings db"

lemma persist_decision_effects:
  assumes "persist_decision nfc e p stamp d db = Inr (r, db')"
  shows "decision_authorized d \<Longrightarrow> released p stamp db db' \<and> authorization_outcome r = AUTHORIZED"
    and "\<not> decision_authorized d \<Longrightarrow> decision_approval d = None \<Longrightarrow> quiet db db' \<and> authorization_outcome r = REFUSED"
    and "decision_approval d = None \<Longrightarrow> approvals db' = approvals db"
    and "decision_approval d = Some bd \<Longrightarrow> \<exists>db1. persist_bound bd db = Inr ((), db1) \<and> approvals db' = approvals db1"
proof -
  obtain artifacts db1 where
    art: "build_authorization_artifacts nfc p e stamp (decision_authorized d)
                    (map_option bound_id (decision_approval d)) (decision_reason d) = Inr artifacts"
    and r: "authorization_outcome r = (if decision_authorized d then AUTHORIZED else REFUSED)"
    and one: "case decision_approval d of None \<Rightarrow> db1 = db | Some bd \<Rightarrow> persist_bound bd db = Inr ((), db1)"
    and db': "approvals db' = approvals db1" "bindings db' = bindings db"
    "command_outbox db' = command_outbox db @ (case staged_command artifacts of None \<Rightarrow> []
       | Some c \<Rightarrow> [(cmd_id c, \<lparr>outbox_command = c, outbox_state = Outbox.INITIAL_STATE\<rparr>)])"
    "command_progress db' = (case artifact_progress artifacts of None \<Rightarrow> command_progress db
       | Some i \<Rightarrow> (command_progress db)(ident_command i \<mapsto> initial_row i (stamp_occurred_at stamp)))"
    "case staged_command artifacts of None \<Rightarrow> True | Some c \<Rightarrow> map_of (command_outbox db) (cmd_id c) = None"
    "case artifact_progress artifacts of None \<Rightarrow> True | Some i \<Rightarrow> command_progress db (ident_command i) = None"
    by (rule persist_decision_Inr [OF assms]) auto
  note c = build_authorization_artifacts_command [OF art]
  show "decision_authorized d \<Longrightarrow> released p stamp db db' \<and> authorization_outcome r = AUTHORIZED"
    using c(1) r db' by (auto simp: released_def Let_def)
  show "\<not> decision_authorized d \<Longrightarrow> decision_approval d = None \<Longrightarrow> quiet db db' \<and> authorization_outcome r = REFUSED"
    using c(2) r db' one by (auto simp: quiet_def)
  show "decision_approval d = None \<Longrightarrow> approvals db' = approvals db" using one db' by simp
  show "decision_approval d = Some bd \<Longrightarrow> \<exists>db1. persist_bound bd db = Inr ((), db1) \<and> approvals db' = approvals db1"
    using one db' by auto
qed


lemma stored_approval_Inr:
  "stored_approval bd = Inr x \<Longrightarrow> x = (bound_durable bd)\<lparr>stored_state := ApprovalState.EXECUTED\<rparr>"
  by (auto simp: stored_approval_def Let_def split: if_splits)

lemma authorize_escalation_refused [returning]:
  "returns (\<lambda>d. decision_authorized d \<longleftrightarrow> decision_approval d \<noteq> None) (authorize_escalation nfc p a now)"
  unfolding authorize_escalation_def Let_def refused_because_def by (intro returning) simp_all

lemma escalation_consumes:
  assumes "authorize_escalation nfc p a now db = Inr (d, db)" "decision_authorized d" "decision_approval d = Some bd"
    and "persist_bound bd db = Inr ((), db1)"
  shows "\<exists>row. approvals db (escalate_proposal a) = Some row
    \<and> approvals db1 = (approvals db)(escalate_proposal a \<mapsto> row\<lparr>stored_state := ApprovalState.EXECUTED\<rparr>)"
  using assms(1,2)
proof (rule authorize_escalation_authorized)
  fix stored row b bd' content executed
  assume row: "approvals db (escalate_proposal a) = Some row" and bd': "map_authorization_approval nfc row b = Inr bd'"
    and consumed: "consume_bound_approval nfc bd' stored (Some content) now = Inr (Inr executed)"
    and matching: "proposal_matches nfc stored a content = Inr True" and d: "decision_approval d = Some executed"
  from map_authorization_approval_Inr [OF bd'] adapter_approval_Inr have "bound_durable bd' = row"
    "approval_proposal (bound_approval bd') = stored_proposal row" by fastforce+
  with consume_bound_approval_Inr [OF consumed] proposal_matches_True [OF matching] d assms(3)
  have "bound_durable bd = row" "stored_proposal row = escalate_proposal a" by auto
  with assms(4) row show ?thesis by (auto simp: persist_bound_Inr dest!: stored_approval_Inr)
qed

text \<open>Every way a unit of work may return.\<close>

lemma authorization_unit_effects:
  assumes "authorization_unit nfc i e p stamp now db = Inr (r, db')"
  obtains (inert) "quiet db db'" "authorization_outcome r \<noteq> AUTHORIZED"
  | (assigned) a where "command_action p = AssignSector a" "released p stamp db db'" "approvals db' = approvals db"
      "authorization_outcome r = AUTHORIZED"
  | (escalated) a row where "command_action p = EscalateRescue a" "released p stamp db db'"
      "warranted nfc db (command_mission p) a now" "approvals db (escalate_proposal a) = Some row"
      "approvals db' = (approvals db)(escalate_proposal a \<mapsto> row\<lparr>stored_state := ApprovalState.EXECUTED\<rparr>)"
      "authorization_outcome r = AUTHORIZED"
proof -
  note outcomes = that
  from assms obtain oc db1 where oc: "inbox_claim i db = Inr (oc, db1)"
    and rest: "(if inbox_decision oc = InboxDecision.DUPLICATE then pure (duplicate_inbox_result oc)
       else process_claimed nfc e p stamp now) db1 = Inr (r, db')"
    by (auto simp: authorization_unit_def)
  from inbox_claim_only [OF oc] obtain rows where db1: "db1 = db\<lparr>inbox := rows\<rparr>" by blast
  show thesis
  proof (cases "inbox_decision oc = InboxDecision.DUPLICATE")
    case True
    with rest db1 outcomes(1) show thesis by (auto simp: duplicate_inbox_result_def quiet_def split: option.splits)
  next
    case False
    with rest have "process_claimed nfc e p stamp now db1 = Inr (r, db')" by simp
    then show thesis
    proof (cases rule: process_claimed_cases)
      case replayed
      with db1 outcomes(1) show thesis by (auto simp: inbox_complete_Inr quiet_def)
    next
      case (assigned q a)
      with persist_decision_effects [OF assigned(3)] outcomes(2) [of a] db1 show thesis
        by (simp add: released_def)
    next
      case (escalated q a d)
      show thesis
      proof (cases "decision_approval d")
        case None
        with persist_decision_effects(2) [OF escalated(4)] returnsD [OF authorize_escalation_refused escalated(3)]
        show thesis using outcomes(1) db1 by (auto simp: quiet_def)
      next
        case (Some bd)
        with returnsD [OF authorize_escalation_refused escalated(3)] have auth: "decision_authorized d" by simp
        from persist_decision_effects(4) [OF escalated(4) Some] escalation_consumes [OF escalated(3) auth Some]
        obtain row where "approvals db1 (escalate_proposal a) = Some row"
          "approvals db' = (approvals db1)(escalate_proposal a \<mapsto> row\<lparr>stored_state := ApprovalState.EXECUTED\<rparr>)"
          by auto
        with persist_decision_effects(1) [OF escalated(4) auth] authorized_escalation_warranted [OF escalated(3) auth]
          escalated(2) db1 outcomes(3) [of a row] show thesis
          by (simp add: released_def)
      qed
    qed
  qed
qed

section \<open>The handler\<close>

text \<open>A delivery is refused, leaving at most a row in the ledger of refusals, or its unit of work ran.\<close>

lemma handle_operator_command_Inr:
  "handle_operator_command nfc delivery stamp now env db = (Inr r, db', s) \<longleftrightarrow>
     (\<exists>topic e p. accept_ingress nfc (delivery_payload delivery) (PStr (delivery_topic delivery)) = Inr (OperatorCommandIngress topic e p)
        \<and> authorization_body nfc (e, p) (stamp, now) db = Inr (r, db') \<and> unit_fate env = Commits \<and> settles env \<and> s = Some (Accept (envelope_id e)))"
  by (auto simp: handle_operator_command_def authorization_body_Inr settled_unit_Inr split: sum.splits ingress_error.splits AcceptedIngress.splits)

lemma handle_operator_command_leaves:
  "leaves db (\<lambda>db'. \<exists>topic e p x.
       accept_ingress nfc (delivery_payload delivery) (PStr (delivery_topic delivery)) = Inr (OperatorCommandIngress topic e p)
       \<and> authorization_body nfc (e, p) (stamp, now) db = Inr (x, db'))
     (handle_operator_command nfc delivery stamp now env db)"
  unfolding handle_operator_command_def
  by (intro leaving) (auto simp: authorization_body_Inr intro!: leaving split: AcceptedIngress.splits)

text \<open>C2. Whatever is delivered as an operator command, and whatever becomes of the unit of work and of the
  settlement, either the approvals, the command outbox, the command progress and the bindings are left as they were, or one
  accepted command released exactly one staged command with a fresh progress row. If that command escalates,
  the durable rows warranted it at that moment: the stored proposal of this mission, drone and place; an approval of this proposal, digest and mission that was still in its state
  APPROVED and inside its window on both clocks, bound in this runtime epoch to this action and evidence, and a corroborated
  contributing evidence decision on the same proposal digest; and that approval is now executed.\<close>

theorem escalation_is_warranted:
  "case handle_operator_command nfc delivery stamp now env db of (r, db', s) \<Rightarrow>
     quiet db db' \<or>
     (\<exists>topic e p.
        accept_ingress nfc (delivery_payload delivery) (PStr (delivery_topic delivery)) = Inr (OperatorCommandIngress topic e p)
        \<and> released p stamp db db'
        \<and> (case command_action p of
             AssignSector a \<Rightarrow> approvals db' = approvals db
           | EscalateRescue a \<Rightarrow> warranted nfc db (command_mission p) a now
               \<and> (\<exists>row. approvals db (escalate_proposal a) = Some row
                    \<and> approvals db' = (approvals db)(escalate_proposal a \<mapsto> row\<lparr>stored_state := ApprovalState.EXECUTED\<rparr>))))"
proof -
  obtain r db' s where h: "handle_operator_command nfc delivery stamp now env db = (r, db', s)" by (metis prod_cases3)
  from handle_operator_command_leaves this show ?thesis
  proof (cases rule: leavesE)
    case refused
    with h show ?thesis by (auto simp: quiet_def)
  next
    case ran
    then obtain topic e p x i where ran:
      "accept_ingress nfc (delivery_payload delivery) (PStr (delivery_topic delivery)) = Inr (OperatorCommandIngress topic e p)"
      "authorization_unit nfc i e p stamp now db = Inr (x, db')" by (auto simp: authorization_body_Inr)
    from ran(2) show ?thesis by (cases rule: authorization_unit_effects) (use h ran(1) in auto)
  qed
qed

lemma authorize_escalation_steady [steadying]: "steady (authorize_escalation nfc p a now)"
  unfolding authorize_escalation_def evidence_refusal_def Let_def by (intro steadying)

lemma persist_decision_steady [steadying]: "steady (persist_decision nfc e p stamp d)"
  unfolding persist_decision_def by (intro steadying)

lemma authorization_body_steady: "steady (authorization_body nfc ep sn)"
proof -
  have "steady (process_claimed nfc e p stamp now)" for e p stamp now
    unfolding process_claimed_def
    by (intro steadying) (auto intro!: steadying split: IdempotencyDecision.splits OperatorAction.splits)
  then show ?thesis unfolding authorization_body_def authorization_unit_def by (intro steadying)
qed

end
