(* ===== verification/Progression.thy ===== *)
theory Progression
  imports Authorization
begin

text \<open>
  \<open>services/command_gateway/src/aerial_rescue_command_gateway/progression.py\<close>: sends, timeouts and results move the durable
  progress of a command through the dispatch lifecycle, at most five sends; a result that has no edge from the current
  state is recorded as stale.
\<close>

section \<open>Data\<close>

datatype TimeoutOutcome = RETRY | ABANDONED

datatype CommandResultOutcome = UPDATED | STALE | MISMATCH | DUPLICATE

record SendClock =
  clock_sent_at :: pystr
  clock_deadline_at :: pystr
  clock_updated_at :: pystr

record TimeoutResult =
  timeout_outcome :: TimeoutOutcome
  timeout_progress :: StoredCommandProgress
  timeout_wait :: "int option"

record CommandResult =
  result_kind :: CommandResultOutcome
  result_state :: CommandState
  result_answer :: bytes

definition RESULT_CHANNEL :: pystr where
  "RESULT_CHANNEL = lit ''command-gateway-command-result''"

definition GATEWAY_BUDGET :: SendBudget where
  "GATEWAY_BUDGET = \<lparr>max_sends = MAX_COMMAND_SENDS\<rparr>"

fun result_outcome_value :: "CommandResultOutcome \<Rightarrow> pystr" where
  "result_outcome_value UPDATED = lit ''updated''"
| "result_outcome_value STALE = lit ''stale''"
| "result_outcome_value MISMATCH = lit ''identity-mismatch''"
| "result_outcome_value DUPLICATE = lit ''duplicate''"

fun command_state_value :: "CommandState \<Rightarrow> pystr" where
  "command_state_value ACCEPTED = lit ''accepted''"
| "command_state_value IN_FLIGHT = lit ''in-flight''"
| "command_state_value ACKNOWLEDGED = lit ''acknowledged''"
| "command_state_value SUCCEEDED = lit ''succeeded''"
| "command_state_value FAILED = lit ''failed''"
| "command_state_value CommandState.ABANDONED = lit ''abandoned''"

section \<open>Sends and timeouts\<close>

text \<open>\<open>CommandProgressTransactions.transition\<close>: one compared transition in a unit of work of its own.\<close>

definition record_progress ::
    "fate \<Rightarrow> StoredCommandProgress \<Rightarrow> CommandEvent \<Rightarrow> TransitionFacts \<Rightarrow> database
      \<Rightarrow> (handler_error unit_error + StoredCommandProgress) \<times> database" where
  "record_progress f current event facts db =
     transaction f (raising Stored (record_transition current event GATEWAY_BUDGET facts)) db"

definition record_send ::
    "fate \<Rightarrow> StoredCommandProgress \<Rightarrow> SendClock \<Rightarrow> database \<Rightarrow> (handler_error unit_error + StoredCommandProgress) \<times> database" where
  "record_send f current clock db =
     record_progress f current SEND
       \<lparr>last_sent_at = Some (clock_sent_at clock), deadline_at = Some (clock_deadline_at clock),
        result_id = result_id (progress_facts current), updated_at = clock_updated_at clock\<rparr> db"

definition record_timeout ::
    "fate \<Rightarrow> StoredCommandProgress \<Rightarrow> pystr \<Rightarrow> int \<Rightarrow> database \<Rightarrow> (handler_error unit_error + TimeoutResult) \<times> database" where
  "record_timeout f current at jitter db =
     (case record_progress f current TIME_OUT
             \<lparr>last_sent_at = last_sent_at (progress_facts current), deadline_at = None,
              result_id = result_id (progress_facts current), updated_at = at\<rparr> db of
        (Inl error, db') \<Rightarrow> (Inl error, db')
      | (Inr became, db') \<Rightarrow>
          (if progress_state (progress became) = CommandState.ABANDONED
           then Inr \<lparr>timeout_outcome = ABANDONED, timeout_progress = became, timeout_wait = None\<rparr>
           else (case wait_milliseconds (sends (progress current)) jitter of
                   Inl error \<Rightarrow> Inl (Raised (ScheduleFailed error))
                 | Inr waiting \<Rightarrow> Inr \<lparr>timeout_outcome = RETRY, timeout_progress = became, timeout_wait = Some waiting\<rparr>), db'))"

section \<open>Results\<close>

definition result_identity :: "(pystr \<Rightarrow> pystr) \<Rightarrow> Envelope \<Rightarrow> CommandResultPayload \<Rightarrow> handler_error + InboxIdentity" where
  "result_identity nfc e p = envelope_identity nfc e (result_mission p)"

definition RESULT_EVENTS :: "(pystr, CommandEvent) pydict" where
  "RESULT_EVENTS = [(lit ''acknowledged'', ACKNOWLEDGE), (lit ''succeeded'', SUCCEED), (lit ''failed'', FAIL)]"

definition result_event :: "pystr \<Rightarrow> handler_error + CommandEvent" where
  "result_event name = (case map_of RESULT_EVENTS name of None \<Rightarrow> Inl (KeyFailed name) | Some event \<Rightarrow> Inr event)"

definition result_body :: "CommandResultOutcome \<Rightarrow> pystr \<Rightarrow> CommandState \<Rightarrow> members" where
  "result_body oc i s =
     obj [(''commandResult'', PStr (result_outcome_value oc)), (''commandId'', PStr i), (''state'', PStr (command_state_value s))]"

definition command_result_bytes ::
    "(pystr \<Rightarrow> pystr) \<Rightarrow> CommandResultPayload \<Rightarrow> CommandResultOutcome \<Rightarrow> CommandState \<Rightarrow> handler_error + bytes" where
  "command_result_bytes nfc p oc s =
     map_sum CanonicalFailed id (canonical_bytes nfc (PDict (result_body oc (result_command p) s)))"

text \<open>\<open>CommandResultOutcome(value)\<close> and \<open>CommandState(value)\<close>.\<close>

definition outcome_named :: "pyval \<Rightarrow> CommandResultOutcome option" where
  "outcome_named v = List.find (\<lambda>oc. v = PStr (result_outcome_value oc)) [UPDATED, STALE, MISMATCH, DUPLICATE]"

definition state_named :: "pyval \<Rightarrow> CommandState option" where
  "state_named v = List.find (\<lambda>s. v = PStr (command_state_value s)) Enum.enum"

definition duplicate_state :: "(pystr \<Rightarrow> pystr) \<Rightarrow> bytes \<Rightarrow> pystr \<Rightarrow> handler_error + CommandState" where
  "duplicate_state nfc result i =
     (let unreadable = Inl (ProgressionError ProgressionRefusal.DUPLICATE_RESULT)
      in case decode_bytes nfc result of
           Inr (PDict d) \<Rightarrow>
             if \<not> has_keys d [''commandResult'', ''commandId'', ''state''] then unreadable
             else bindE (map_sum CanonicalFailed id (canonical_bytes nfc (PDict d))) (\<lambda>again.
               if again \<noteq> result \<or> get d (lit ''commandId'') \<noteq> PStr i then unreadable
               else (case (outcome_named (get d (lit ''commandResult'')), state_named (get d (lit ''state''))) of
                       (Some oc, Some s) \<Rightarrow>
                         if oc \<notin> {UPDATED, STALE, MISMATCH} then unreadable
                         else if oc = UPDATED \<and> s \<notin> {ACKNOWLEDGED, SUCCEEDED, FAILED} then unreadable
                         else Inr s
                     | _ \<Rightarrow> unreadable))
         | _ \<Rightarrow> unreadable)"

definition result_matches :: "CommandResultPayload \<Rightarrow> StoredCommandProgress \<Rightarrow> bool" where
  "result_matches p current \<longleftrightarrow>
     (let i = progress_identity current
      in result_command p = ident_command i \<and> result_mission p = ident_mission i \<and> result_drone p = ident_drone i)"

definition answer_result ::
    "(pystr \<Rightarrow> pystr) \<Rightarrow> CommandResultPayload \<Rightarrow> CommandResultOutcome \<Rightarrow> CommandState \<Rightarrow> (handler_error, CommandResult) tx" where
  "answer_result nfc p oc s =
     bindT (pure (command_result_bytes nfc p oc s)) (\<lambda>b. returnT \<lparr>result_kind = oc, result_state = s, result_answer = b\<rparr>)"

text \<open>Only the lifecycle's refusal is caught; it is raised before any statement.\<close>

definition apply_result ::
    "(pystr \<Rightarrow> pystr) \<Rightarrow> Envelope \<Rightarrow> CommandResultPayload \<Rightarrow> StoredCommandProgress \<Rightarrow> (handler_error, CommandResult) tx" where
  "apply_result nfc e p current =
     (if \<not> result_matches p current then answer_result nfc p MISMATCH (progress_state (progress current))
      else bindT (pure (result_event (result_outcome p))) (\<lambda>event db.
        case record_transition current event GATEWAY_BUDGET
               \<lparr>last_sent_at = last_sent_at (progress_facts current), deadline_at = None,
                result_id = Some (envelope_id e), updated_at = time e\<rparr> db of
          Inl (FromCommand error) \<Rightarrow> answer_result nfc p STALE (progress_state (progress current)) db
        | Inl error \<Rightarrow> Inl (Stored error)
        | Inr (became, db') \<Rightarrow> answer_result nfc p UPDATED (progress_state (progress became)) db'))"

definition result_unit ::
    "(pystr \<Rightarrow> pystr) \<Rightarrow> InboxIdentity \<Rightarrow> Envelope \<Rightarrow> CommandResultPayload \<Rightarrow> (handler_error, CommandResult) tx" where
  "result_unit nfc i e p =
     bindT (raising Stored (inbox_claim i)) (\<lambda>claimed.
       if inbox_decision claimed = InboxDecision.DUPLICATE
       then (case prior_result claimed of
               None \<Rightarrow> raiseT (ProgressionError ProgressionRefusal.DUPLICATE_RESULT)
             | Some b \<Rightarrow> bindT (pure (duplicate_state nfc b (result_command p))) (\<lambda>s.
                 returnT \<lparr>result_kind = DUPLICATE, result_state = s, result_answer = b\<rparr>))
       else bindT (raising Stored (load_progress (result_command p))) (\<lambda>current.
            bindT (apply_result nfc e p current) (\<lambda>r.
            bindT (raising Stored (inbox_complete i (result_answer r) (time e))) (\<lambda>_. returnT r))))"

definition handle_command_result ::
    "(pystr \<Rightarrow> pystr) \<Rightarrow> GuaranteedDelivery \<Rightarrow> environment \<Rightarrow> database \<Rightarrow> CommandResult handled" where
  "handle_command_result nfc delivery env db =
     (case accept_ingress nfc (delivery_payload delivery) (PStr (delivery_topic delivery)) of
        Inl (IngressError kind) \<Rightarrow>
          then_raise (Ingressed (IngressError kind))
            (reject_after_refusal nfc delivery RESULT_CHANNEL (refusal_code kind) env db)
      | Inl IngressKeyError \<Rightarrow> (Inl (Raised (Ingressed IngressKeyError)), db, None)
      | Inr (CommandResultIngress topic e p) \<Rightarrow>
          (case result_identity nfc e p of
             Inl error \<Rightarrow> (Inl (Raised error), db, None)
           | Inr i \<Rightarrow> settled_unit env (envelope_id e) (result_unit nfc i e p) db)
      | Inr _ \<Rightarrow>
          then_raise (ProgressionError ProgressionRefusal.INGRESS_KIND)
            (reject_after_refusal nfc delivery RESULT_CHANNEL (lit ''unexpected-family'') env db))"

section \<open>The consumer contract\<close>

lemma result_outcome_value_ascii: "ascii (result_outcome_value oc)"
  by (cases oc; simp add: ascii_def lit_def)

lemma command_state_value_ascii: "ascii (command_state_value s)"
  by (cases s; simp add: ascii_def lit_def)

lemma outcome_named_value: "outcome_named (PStr (result_outcome_value oc)) = Some oc"
  by (cases oc; simp add: outcome_named_def)

lemma state_named_value: "state_named (PStr (command_state_value s)) = Some s"
  by (cases s; simp add: state_named_def enum_CommandState_def)

lemma duplicate_state_bytes:
  assumes "normalizes nfc" "ascii (result_command p)" "command_result_bytes nfc p oc s = Inr b"
    and "oc \<noteq> DUPLICATE" "oc = UPDATED \<Longrightarrow> s \<in> {ACKNOWLEDGED, SUCCEEDED, FAILED}"
  shows "duplicate_state nfc b (result_command p) = Inr s"
proof -
  let ?d = "result_body oc (result_command p) s"
  from assms(3) have b: "canonical_bytes nfc (PDict ?d) = Inr b"
    by (cases "canonical_bytes nfc (PDict ?d)") (simp_all add: command_result_bytes_def)
  have distinct: "distinct (dict_keys ?d)" by (simp add: result_body_def)
  then have ok: "dict_ok (PDict ?d)" by (simp add: result_body_def)
  from assms(1) have nfc: "\<forall>s. ascii s \<longrightarrow> nfc s = s" "\<forall>s. nfc (nfc s) = nfc s" by (auto simp: normalizes_def)
  have "\<forall>m \<in> set ?d. plain_member m"
    using assms(2) result_outcome_value_ascii command_state_value_ascii
    by (auto simp: result_body_def plain_member_def) (simp_all add: ascii_def lit_def)
  from canon_plain [OF nfc(1) this distinct] obtain d where
    d: "canon nfc (PDict ?d) = PDict d" "map_of d = map_of ?d" by blast
  have keys: "has_keys d [''commandResult'', ''commandId'', ''state'']"
    unfolding has_keys_def set_dict_keys d(2) unfolding set_dict_keys [symmetric] by (auto simp: result_body_def)
  have "get d = get ?d" by (simp add: fun_eq_iff get_def d(2))
  then have got: "get d (lit ''commandId'') = PStr (result_command p)" "get d (lit ''commandResult'') = PStr (result_outcome_value oc)"
    "get d (lit ''state'') = PStr (command_state_value s)"
    by (simp_all add: result_body_def get_Cons)
  from decoded_canonical [OF nfc ok b] have "decode_bytes nfc b = Inr (PDict d)" "canonical_bytes nfc (PDict d) = Inr b"
    by (simp_all only: d(1))
  moreover have "outcome_named (get d (lit ''commandResult'')) = Some oc" "state_named (get d (lit ''state'')) = Some s"
    unfolding got by (rule outcome_named_value state_named_value)+
  moreover have "oc \<in> {UPDATED, STALE, MISMATCH}" using assms(4) by (cases oc) simp_all
  ultimately show ?thesis using keys got(1) assms(5) by (auto simp: duplicate_state_def)
qed


lemma answer_result_Inr:
  "answer_result nfc p oc s db = Inr (r, db') \<longleftrightarrow> db' = db \<and> result_kind r = oc \<and> result_state r = s
     \<and> command_result_bytes nfc p oc s = Inr (result_answer r)"
  by (cases r) (auto simp: answer_result_def)

lemma result_event_Inr: "result_event t = Inr ev \<Longrightarrow> ev \<in> {ACKNOWLEDGE, SUCCEED, FAIL}"
  by (auto simp: result_event_def RESULT_EVENTS_def split: option.splits if_splits)

text \<open>A result either moves the compared row along one edge of the lifecycle or leaves every row alone.\<close>

lemma apply_result_cases:
  assumes "apply_result nfc e p current db = Inr (r, db')"
  obtains (unmoved) "db' = db" "result_kind r \<in> {STALE, MISMATCH}" "result_state r = progress_state (progress current)"
      "command_result_bytes nfc p (result_kind r) (result_state r) = Inr (result_answer r)"
  | (moved) ev facts became where "result_matches p current" "ev \<in> {ACKNOWLEDGE, SUCCEED, FAIL}"
      "record_transition current ev GATEWAY_BUDGET facts db = Inr (became, db')" 
      "result_kind r = UPDATED" "result_state r = progress_state (progress became)"
      "command_result_bytes nfc p (result_kind r) (result_state r) = Inr (result_answer r)"
proof (cases "result_matches p current")
  case False
  with assms unmoved show thesis by (auto simp: apply_result_def answer_result_Inr)
next
  case True
  let ?f = "\<lparr>last_sent_at = last_sent_at (progress_facts current), deadline_at = None,
                result_id = Some (envelope_id e), updated_at = time e\<rparr>"
  from assms True obtain ev where ev: "result_event (result_outcome p) = Inr ev" by (auto simp: apply_result_def)
  show thesis
  proof (cases "record_transition current ev GATEWAY_BUDGET ?f db")
    case (Inl x)
    with assms True ev unmoved show thesis by (cases x) (simp_all add: apply_result_def answer_result_Inr bindT_def pure_def)
  next
    case (Inr y)
    with assms True ev result_event_Inr [OF ev] moved show thesis
      by (cases y) (simp add: apply_result_def answer_result_Inr bindT_def pure_def)
  qed
qed

lemma advance_result_state:
  "advance q ev b = Inr q' \<Longrightarrow> ev \<in> {ACKNOWLEDGE, SUCCEED, FAIL} \<Longrightarrow> progress_state q' \<in> {ACKNOWLEDGED, SUCCEEDED, FAILED}"
  by (cases "progress_state q") (auto simp: advance_rules split: if_splits)

lemma apply_result_readable:
  assumes "apply_result nfc e p current db = Inr (r, db')" "normalizes nfc" "ascii (result_command p)"
  shows "duplicate_state nfc (result_answer r) (result_command p) = Inr (result_state r)"
  using assms(1)
proof (cases rule: apply_result_cases)
  case unmoved
  with duplicate_state_bytes [OF assms(2,3) unmoved(4)] show ?thesis by auto
next
  case moved
  then have "result_state r \<in> {ACKNOWLEDGED, SUCCEEDED, FAILED}"
    by (auto simp: record_transition_Inr dest: advance_result_state)
  with duplicate_state_bytes [OF assms(2,3) moved(6)] moved(4) show ?thesis by auto
qed

lemma apply_result_inbox: "apply_result nfc e p current db = Inr (r, db') \<Longrightarrow> inbox db' = inbox db"
  by (erule apply_result_cases) (auto simp: record_transition_Inr)

lemma result_unit_inbox:
  assumes "result_unit nfc i e p db = Inr (r, db')"
  shows "inbox_kept db db' \<and> completed i (result_answer r) db'"
    and "normalizes nfc \<Longrightarrow> ascii (result_command p) \<Longrightarrow> duplicate_state nfc (result_answer r) (result_command p) = Inr (result_state r)"
proof -
  from assms obtain oc db1 where oc: "inbox_claim i db = Inr (oc, db1)"
    and rest: "(if inbox_decision oc = InboxDecision.DUPLICATE
       then (case prior_result oc of
               None \<Rightarrow> raiseT (ProgressionError ProgressionRefusal.DUPLICATE_RESULT)
             | Some b \<Rightarrow> bindT (pure (duplicate_state nfc b (result_command p))) (\<lambda>s.
                 returnT \<lparr>result_kind = DUPLICATE, result_state = s, result_answer = b\<rparr>))
       else bindT (raising Stored (load_progress (result_command p))) (\<lambda>current.
            bindT (apply_result nfc e p current) (\<lambda>r.
            bindT (raising Stored (inbox_complete i (result_answer r) (time e))) (\<lambda>_. returnT r)))) db1 = Inr (r, db')"
    by (auto simp: result_unit_def)
  have "inbox_kept db db' \<and> completed i (result_answer r) db'
    \<and> (normalizes nfc \<longrightarrow> ascii (result_command p) \<longrightarrow> duplicate_state nfc (result_answer r) (result_command p) = Inr (result_state r))"
  proof (cases "inbox_decision oc = InboxDecision.DUPLICATE")
    case True
    with rest inbox_claim_keeps [OF oc] inbox_claim_duplicate [OF oc True] show ?thesis by (auto split: option.splits)
  next
    case False
    with rest obtain current db2 u where applied: "apply_result nfc e p current db1 = Inr (r, db2)"
      and final: "inbox_complete i (result_answer r) (time e) db2 = Inr (u, db')"
      by (auto simp: load_progress_Inr)
    have "inbox_kept db1 db2" by (rule inbox_kept_same) (rule apply_result_inbox [OF applied])
    with inbox_claim_keeps [OF oc] inbox_complete_keeps [OF final] apply_result_readable [OF applied]
    show ?thesis by (blast intro: inbox_kept_trans)
  qed
  then show "inbox_kept db db' \<and> completed i (result_answer r) db'"
    "normalizes nfc \<Longrightarrow> ascii (result_command p) \<Longrightarrow> duplicate_state nfc (result_answer r) (result_command p) = Inr (result_state r)"
    by blast+
qed

definition result_consumer ::
    "(pystr \<Rightarrow> pystr) \<Rightarrow> Envelope \<times> CommandResultPayload \<Rightarrow> unit \<Rightarrow> (handler_error, CommandResult) tx" where
  "result_consumer nfc ep u =
     (case result_identity nfc (fst ep) (snd ep) of
        Inl error \<Rightarrow> raiseT error
      | Inr i \<Rightarrow> result_unit nfc i (fst ep) (snd ep))"

lemma result_consumer_Inr:
  "result_consumer nfc ep u db = Inr r \<longleftrightarrow>
     (\<exists>i. result_identity nfc (fst ep) (snd ep) = Inr i \<and> result_unit nfc i (fst ep) (snd ep) db = Inr r)"
  by (auto simp: result_consumer_def split: sum.splits)

interpretation resulting: guaranteed_consumer "result_consumer nfc" result_answer
    "\<lambda>ep. normalizes nfc \<and> ascii (result_command (snd ep))" for nfc
proof
  show "inbox_kept db db'" if "result_consumer nfc ep u db = Inr (r, db')" for ep u db r db'
    using that result_unit_inbox by (auto simp: result_consumer_Inr)
  show "\<exists>r'. result_consumer nfc ep u' later = Inr (r', later) \<and> result_answer r' = result_answer r"
    if ok: "normalizes nfc \<and> ascii (result_command (snd ep))" and first: "result_consumer nfc ep u db = Inr (r, db')"
      and kept: "inbox_kept db' later" for ep u u' db r db' later
  proof -
    from first obtain i where i: "result_identity nfc (fst ep) (snd ep) = Inr i"
      and unit: "result_unit nfc i (fst ep) (snd ep) db = Inr (r, db')"
      by (auto simp: result_consumer_Inr)
    from result_unit_inbox(1) [OF unit] completed_kept kept
    have "completed i (result_answer r) later" by blast
    with i ok result_unit_inbox(2) [OF unit] show ?thesis
      by (auto simp: result_consumer_Inr result_unit_def inbox_claim_completed)
  qed
qed

lemma handle_command_result_Inr:
  "handle_command_result nfc delivery env db = (Inr r, db', s) \<longleftrightarrow>
     (\<exists>topic e p. accept_ingress nfc (delivery_payload delivery) (PStr (delivery_topic delivery)) = Inr (CommandResultIngress topic e p)
        \<and> result_consumer nfc (e, p) () db = Inr (r, db') \<and> unit_fate env = Commits \<and> settles env \<and> s = Some (Accept (envelope_id e)))"
  by (auto simp: handle_command_result_def result_consumer_Inr settled_unit_Inr split: sum.splits ingress_error.splits AcceptedIngress.splits)

lemma handle_command_result_leaves:
  "leaves db (\<lambda>db'. \<exists>topic e p x.
       accept_ingress nfc (delivery_payload delivery) (PStr (delivery_topic delivery)) = Inr (CommandResultIngress topic e p)
       \<and> result_consumer nfc (e, p) () db = Inr (x, db'))
     (handle_command_result nfc delivery env db)"
  unfolding handle_command_result_def
  by (intro leaving) (auto simp: result_consumer_Inr intro!: leaving split: AcceptedIngress.splits)

section \<open>Progress moves along the lifecycle\<close>

text \<open>One row of the progress table took one edge of the dispatch lifecycle; the inbox may have changed with it.\<close>

definition progressed :: "CommandEvent set \<Rightarrow> database \<Rightarrow> database \<Rightarrow> bool" where
  "progressed evs db db' \<longleftrightarrow>
     (\<exists>k row ev q facts rows. ev \<in> evs \<and> command_progress db k = Some row \<and> advance (progress row) ev GATEWAY_BUDGET = Inr q
        \<and> db' = db\<lparr>inbox := rows, command_progress := (command_progress db)(k \<mapsto> row\<lparr>progress := q, progress_facts := facts\<rparr>)\<rparr>)"

lemma record_transition_progressed:
  assumes "record_transition current ev GATEWAY_BUDGET facts db = Inr (became, db')" "ev \<in> evs"
  shows "progressed evs db db'"
proof -
  from assms(1) obtain q row where q: "advance (progress current) ev GATEWAY_BUDGET = Inr q"
    and row: "command_progress db (ident_command (progress_identity current)) = Some row"
      "progress_state (progress row) = progress_state (progress current)" "sends (progress row) = sends (progress current)"
    and db': "db' = db\<lparr>command_progress := (command_progress db)(ident_command (progress_identity current)
                \<mapsto> row\<lparr>progress := q, progress_facts := facts\<rparr>)\<rparr>"
    by (auto simp: record_transition_Inr)
  from row(2,3) have "progress row = progress current" by (cases "progress row"; cases "progress current") simp
  with q row(1) db' assms(2) show ?thesis
    unfolding progressed_def
    by (intro exI [of _ "ident_command (progress_identity current)"] exI [of _ row] exI [of _ ev] exI [of _ q] exI [of _ facts]
        exI [of _ "inbox db"]) simp
qed

lemma record_transition_inbox: "record_transition current ev b facts db = Inr (became, db') \<Longrightarrow> inbox db' = inbox db"
  by (auto simp: record_transition_Inr)

lemma progressed_inbox: "progressed evs (db\<lparr>inbox := a\<rparr>) db' \<Longrightarrow> progressed evs db (db'\<lparr>inbox := b\<rparr>)"
  unfolding progressed_def
  by (elim exE conjE, intro exI conjI, assumption) (simp_all, cases db, simp)

lemma record_progress_effects:
  assumes "record_progress f current ev facts db = (r, db')"
  shows "db' = db \<or> progressed {ev} db db' \<and> inbox db' = inbox db"
  using transaction_database [OF assms [unfolded record_progress_def]] record_transition_progressed record_transition_inbox by auto

lemma record_send_effects: "record_send f current clock db = (r, db') \<Longrightarrow> db' = db \<or> progressed {SEND} db db' \<and> inbox db' = inbox db"
  using record_progress_effects by (simp add: record_send_def)

lemma record_timeout_effects: "record_timeout f current at jitter db = (r, db') \<Longrightarrow> db' = db \<or> progressed {TIME_OUT} db db' \<and> inbox db' = inbox db"
  by (auto simp: record_timeout_def split: prod.splits sum.splits dest!: record_progress_effects)

lemma result_unit_effects:
  assumes "result_unit nfc i e p db = Inr (r, db')"
  obtains (unmoved) rows where "db' = db\<lparr>inbox := rows\<rparr>" "result_kind r \<noteq> UPDATED"
  | (moved) "progressed {ACKNOWLEDGE, SUCCEED, FAIL} db db'" "result_kind r = UPDATED"
proof -
  note outcomes = that
  from assms obtain oc db1 where oc: "inbox_claim i db = Inr (oc, db1)"
    and rest: "(if inbox_decision oc = InboxDecision.DUPLICATE
       then (case prior_result oc of
               None \<Rightarrow> raiseT (ProgressionError ProgressionRefusal.DUPLICATE_RESULT)
             | Some b \<Rightarrow> bindT (pure (duplicate_state nfc b (result_command p))) (\<lambda>s.
                 returnT \<lparr>result_kind = DUPLICATE, result_state = s, result_answer = b\<rparr>))
       else bindT (raising Stored (load_progress (result_command p))) (\<lambda>current.
            bindT (apply_result nfc e p current) (\<lambda>r.
            bindT (raising Stored (inbox_complete i (result_answer r) (time e))) (\<lambda>_. returnT r)))) db1 = Inr (r, db')"
    by (auto simp: result_unit_def)
  from inbox_claim_only [OF oc] obtain rows where db1: "db1 = db\<lparr>inbox := rows\<rparr>" by blast
  show thesis
  proof (cases "inbox_decision oc = InboxDecision.DUPLICATE")
    case True
    with rest db1 outcomes(1) show thesis by (auto split: option.splits)
  next
    case False
    with rest obtain current db2 u where applied: "apply_result nfc e p current db1 = Inr (r, db2)"
      and final: "inbox_complete i (result_answer r) (time e) db2 = Inr (u, db')"
      by (auto simp: load_progress_Inr)
    from final obtain rows' where db': "db' = db2\<lparr>inbox := rows'\<rparr>" by (auto simp: inbox_complete_Inr)
    from applied show thesis
    proof (cases rule: apply_result_cases)
      case unmoved
      with db1 db' outcomes(1) show thesis by auto
    next
      case (moved ev facts became)
      from progressed_inbox [OF record_transition_progressed [OF moved(3,2), unfolded db1]] db' moved(4) outcomes(2) show thesis
        by blast
    qed
  qed
qed

lemma result_consumer_steady: "steady (result_consumer nfc ep u)"
proof -
  have "steady (apply_result nfc e p current)" for e p current
    unfolding apply_result_def answer_result_def
    by (intro steadying) (auto simp: steady_def record_transition_Inr split: sum.splits store_error.splits)
  then show ?thesis unfolding result_consumer_def result_unit_def by (intro steadying)
qed

section \<open>An acknowledgement\<close>

text \<open>A drone acknowledges a command that is in flight.\<close>

definition acknowledgement :: Envelope where
  "acknowledgement = \<lparr>envelope_id = lit ''e-9'', source = lit ''urn:aerial-rescue:drone:d-1'',
     envelope_type = lit ''aerial-rescue.v1.drone.command-result'', subject = lit ''m-1'', time = lit ''2026-01-02T03:04:05.678Z'',
     dataschema = lit ''https://aerial-rescue.invalid/schemas/v1/payload/drone-command-result.schema.json'',
     sequence = lit ''000000000000007'', correlation_id = lit ''c-1'',
     traceparent = lit ''00-0af7651916cd43dd8448eb211c80319c-b7ad6b7169203331-01'',
     data = obj [(''commandId'', PStr (lit ''k-1'')), (''droneId'', PStr (lit ''d-1'')), (''missionId'', PStr (lit ''m-1'')),
                 (''outcome'', PStr (lit ''acknowledged''))],
     causation_id = Some (lit ''e-8''), tracestate = None\<rparr>"

definition acknowledged_delivery :: GuaranteedDelivery where
  "acknowledged_delivery = \<lparr>delivery_topic = lit ''aerial-rescue/v1/m-1/drone/d-1/command-result/k-1'',
     delivery_payload = projr (canonical_bytes id (PDict (envelope_document acknowledgement)))\<rparr>"

definition in_flight_store :: database where
  "in_flight_store = EMPTY_DATABASE\<lparr>command_progress := [lit ''k-1'' \<mapsto>
     \<lparr>progress_identity = \<lparr>ident_command = lit ''k-1'', ident_mission = lit ''m-1'', ident_drone = lit ''d-1''\<rparr>,
      progress = \<lparr>progress_state = IN_FLIGHT, sends = 1\<rparr>,
      progress_facts = \<lparr>last_sent_at = Some (lit ''2026-01-02T03:04:04.000Z''), deadline_at = Some (lit ''2026-01-02T03:04:10.000Z''),
        result_id = None, updated_at = lit ''2026-01-02T03:04:04.000Z''\<rparr>\<rparr>]\<rparr>"

definition acknowledged_payload :: CommandResultPayload where
  "acknowledged_payload = \<lparr>result_mission = lit ''m-1'', result_drone = lit ''d-1'', result_command = lit ''k-1'', result_outcome = lit ''acknowledged''\<rparr>"

lemma acknowledgement_encodes:
  "canonical_bytes id (PDict (envelope_document acknowledgement)) = Inr (delivery_payload acknowledged_delivery)"
proof -
  have "\<not> isl (canonical_bytes id (PDict (envelope_document acknowledgement)))" by code_simp
  then show ?thesis by (simp add: acknowledged_delivery_def)
qed

lemma acknowledgement_decodes: "decode_envelope id (delivery_payload acknowledged_delivery) = Inr acknowledgement"
proof -
  have "dict_ok (PDict (envelope_document acknowledgement))" by code_simp
  from decoded_canonical [OF _ _ this acknowledgement_encodes]
  have "decode_bytes id (delivery_payload acknowledged_delivery) = Inr (canon id (PDict (envelope_document acknowledgement)))" by simp
  moreover have "parse_envelope id (canon id (PDict (envelope_document acknowledgement))) = Inr acknowledgement" by code_simp
  ultimately show ?thesis by (simp add: decode_envelope_def)
qed

lemma acknowledgement_accepted:
  "\<exists>topic. accept_ingress id (delivery_payload acknowledged_delivery) (PStr (delivery_topic acknowledged_delivery))
     = Inr (CommandResultIngress topic acknowledgement acknowledged_payload)"
proof -
  let ?t = "\<lparr>family = DRONE_COMMAND_RESULT, mission_id = lit ''m-1'', topic_parameters = [(lit ''droneId'', lit ''d-1''), (lit ''commandId'', lit ''k-1'')]\<rparr>"
  have "ingress_topic (PStr (lit ''aerial-rescue/v1/m-1/drone/d-1/command-result/k-1'')) = Inr ?t" by code_simp
  moreover have "check_topic_binding acknowledgement ?t = Inr ()" by code_simp
  moreover have "validate_command_result (data acknowledgement) = Some acknowledged_payload" by code_simp
  ultimately show ?thesis
    using acknowledgement_decodes
    by (simp add: accept_ingress_def command_result_def ingress_envelope_def ingress_payload_def acknowledged_delivery_def)
qed

text \<open>The lifecycle takes the acknowledgement of the command in flight.\<close>

lemma acknowledgement_applies:
  assumes "command_progress db (lit ''k-1'') = Some row" "row = the (command_progress in_flight_store (lit ''k-1''))"
  obtains r db' where "apply_result id acknowledgement acknowledged_payload row db = Inr (r, db')" "result_kind r = UPDATED"
    "inbox db' = inbox db"
proof -
  have "\<not> isl (command_result_bytes id acknowledged_payload UPDATED ACKNOWLEDGED)" by code_simp
  then obtain b where b: "command_result_bytes id acknowledged_payload UPDATED ACKNOWLEDGED = Inr b"
    by (cases "command_result_bytes id acknowledged_payload UPDATED ACKNOWLEDGED") auto
  have range: "in_send_range 1" by code_simp
  have row: "result_matches acknowledged_payload row" "progress row = \<lparr>progress_state = IN_FLIGHT, sends = 1\<rparr>"
    "ident_command (progress_identity row) = lit ''k-1''"
    unfolding assms(2) by code_simp+
  have "advance (progress row) ACKNOWLEDGE GATEWAY_BUDGET = Inr \<lparr>progress_state = ACKNOWLEDGED, sends = 1\<rparr>"
    unfolding row(2) by code_simp
  then have "\<exists>became db'. record_transition row ACKNOWLEDGE GATEWAY_BUDGET facts db = Inr (became, db')
      \<and> inbox db' = inbox db \<and> progress_state (progress became) = ACKNOWLEDGED" for facts
    using assms(1) row range by (auto simp: record_transition_Inr)
  then obtain became db' where moved: "record_transition row ACKNOWLEDGE GATEWAY_BUDGET
      \<lparr>last_sent_at = last_sent_at (progress_facts row), deadline_at = None, result_id = Some (envelope_id acknowledgement),
       updated_at = time acknowledgement\<rparr> db = Inr (became, db')" "inbox db' = inbox db" "progress_state (progress became) = ACKNOWLEDGED"
    by blast
  have "result_event (result_outcome acknowledged_payload) = Inr ACKNOWLEDGE" by code_simp
  with row(1) b moved
  have "apply_result id acknowledgement acknowledged_payload row db
      = Inr (\<lparr>result_kind = UPDATED, result_state = ACKNOWLEDGED, result_answer = b\<rparr>, db')"
    by (simp add: apply_result_def answer_result_def)
  from that [OF this _ moved(2)] show thesis by simp
qed

lemma acknowledged_once:
  obtains r db' settled where "handle_command_result id acknowledged_delivery \<lparr>unit_fate = Commits, observed_at = at, settles = True\<rparr> in_flight_store
    = (Inr r, db', settled)" "result_kind r = UPDATED"
proof -
  from acknowledgement_accepted obtain topic where a: "accept_ingress id (delivery_payload acknowledged_delivery)
      (PStr (delivery_topic acknowledged_delivery)) = Inr (CommandResultIngress topic acknowledgement acknowledged_payload)" ..
  obtain i where i: "result_identity id acknowledgement acknowledged_payload = Inr i"
    by (simp add: result_identity_def envelope_identity_def acknowledgement_encodes)
  let ?row = "the (command_progress in_flight_store (lit ''k-1''))"
  let ?db = "in_flight_store\<lparr>inbox := (inbox in_flight_store)(inbox_key i \<mapsto>
    InboxIdentity.extend i \<lparr>inbox_result = None, inbox_processed_at = None\<rparr>)\<rparr>"
  have claimed: "inbox_claim i in_flight_store = Inr (\<lparr>inbox_decision = CLAIMED, prior_result = None\<rparr>, ?db)"
    by (simp add: inbox_claim_Inr in_flight_store_def EMPTY_DATABASE_def)
  have "in_send_range (sends (progress ?row))" by code_simp
  moreover have row: "command_progress ?db (lit ''k-1'') = Some ?row" by (simp add: in_flight_store_def)
  moreover obtain r db' where "apply_result id acknowledgement acknowledged_payload ?row ?db = Inr (r, db')" and r: "result_kind r = UPDATED"
    and "inbox db' = inbox ?db" by (rule acknowledgement_applies [OF row refl])
  moreover from this(3) obtain db'' where "inbox_complete i (result_answer r) (time acknowledgement) db' = Inr ((), db'')"
    by (auto simp: inbox_complete_Inr InboxIdentity.extend_def)
  moreover have "result_command acknowledged_payload = lit ''k-1''" by (simp add: acknowledged_payload_def)
  ultimately have "result_unit id i acknowledgement acknowledged_payload in_flight_store = Inr (r, db'')"
    using claimed by (auto simp: result_unit_def load_progress_Inr)
  with a i show thesis
    by (intro that [of r db'' "Some (Accept (envelope_id acknowledgement))", OF _ r]) (auto simp: handle_command_result_Inr result_consumer_Inr)
qed

end
