(* ===== verification/OperatorApproval.thy ===== *)
theory OperatorApproval
  imports Progression
begin

text \<open>
  \<open>services/command_gateway/src/aerial_rescue_command_gateway/operator_approval.py\<close>: an approval event is compared with the
  binding the dashboard persisted; if they agree the approval is bound, once, to the clock epoch of this gateway.
\<close>

section \<open>Data\<close>

datatype ApprovalIngressOutcome = VERIFIED | MISMATCH | EXPIRED | CLOCK_REGRESSION | EPOCH_MISMATCH | DUPLICATE

record ApprovalIngressResult =
  approval_outcome :: ApprovalIngressOutcome
  approval_answer :: bytes

text \<open>The binding of \<open>ports.py\<close>, assembled from both durable rows.\<close>

record VerifiedBinding =
  port_approval :: pystr
  port_mission :: pystr
  port_operator :: pystr
  port_decision :: pystr
  port_issued_at :: pystr
  port_expires_at :: "pystr option"
  port_proposal :: pystr
  port_proposal_digest :: pystr
  port_proposal_version :: int
  port_evidence :: pystr
  port_evidence_digest :: pystr
  port_evidence_version :: int
  port_action :: ApprovalAction
  port_runtime :: pystr
  port_time_to_live :: int

definition APPROVAL_CHANNEL :: pystr where
  "APPROVAL_CHANNEL = lit ''command-gateway-operator-approval''"

fun approval_outcome_value :: "ApprovalIngressOutcome \<Rightarrow> pystr" where
  "approval_outcome_value VERIFIED = lit ''verified''"
| "approval_outcome_value MISMATCH = lit ''persisted-binding-mismatch''"
| "approval_outcome_value EXPIRED = lit ''expired-before-gateway-binding''"
| "approval_outcome_value CLOCK_REGRESSION = lit ''wall-clock-regressed-before-gateway-binding''"
| "approval_outcome_value EPOCH_MISMATCH = lit ''approval-is-bound-to-another-gateway-epoch''"
| "approval_outcome_value DUPLICATE = lit ''duplicate''"

section \<open>The persisted binding\<close>

definition map_approval_binding ::
    "(pystr \<Rightarrow> pystr) \<Rightarrow> StoredApproval \<Rightarrow> StoredApprovalBinding \<Rightarrow> handler_error + VerifiedBinding" where
  "map_approval_binding nfc a b =
     bindE (adapter_approval a b) (\<lambda>approval.
     bindE (expiry_text (wall (issued approval))) (\<lambda>issued_at.
     bindE (adapter_action nfc (binding_action b)) (\<lambda>action.
       Inr \<lparr>port_approval = binding_approval b, port_mission = approval_mission approval,
            port_operator = operator_identity approval, port_decision = binding_decision b, port_issued_at = issued_at,
            port_expires_at = binding_expires b, port_proposal = approval_proposal approval,
            port_proposal_digest = approval_digest approval, port_proposal_version = binding_proposal_version b,
            port_evidence = binding_evidence b, port_evidence_digest = binding_evidence_digest b,
            port_evidence_version = binding_evidence_version b, port_action = action, port_runtime = binding_runtime b,
            port_time_to_live = stored_time_to_live a\<rparr>)))"

definition load_verified_binding :: "(pystr \<Rightarrow> pystr) \<Rightarrow> pystr \<Rightarrow> (handler_error, VerifiedBinding) tx" where
  "load_verified_binding nfc approval =
     bindT (raising Stored (load_by_approval approval)) (\<lambda>b.
     bindT (raising Stored (load_for_update (binding_proposal b))) (\<lambda>a.
       pure (map_approval_binding nfc a b)))"

definition approval_identity :: "(pystr \<Rightarrow> pystr) \<Rightarrow> Envelope \<Rightarrow> OperatorApprovalPayload \<Rightarrow> handler_error + InboxIdentity" where
  "approval_identity nfc e p = envelope_identity nfc e (approved_mission p)"

definition approval_matches :: "Envelope \<Rightarrow> OperatorApprovalPayload \<Rightarrow> VerifiedBinding \<Rightarrow> bool" where
  "approval_matches e p b \<longleftrightarrow>
     source e = lit ''urn:aerial-rescue:dashboard-api:'' @ port_runtime b
     \<and> port_approval b = approved_id p \<and> port_mission b = approved_mission p \<and> port_operator b = approved_operator p
     \<and> port_decision b = approved_decision p \<and> port_issued_at b = approved_issued_at p
     \<and> port_expires_at b = approved_expires_at p \<and> port_proposal b = approved_proposal p
     \<and> port_proposal_digest b = approved_proposal_digest p \<and> port_proposal_version b = approved_proposal_version p
     \<and> port_evidence b = approved_evidence p \<and> port_evidence_digest b = approved_evidence_digest p
     \<and> port_evidence_version b = approved_evidence_version p \<and> port_action b = approved_action p"

text \<open>\<open>parse_instant(format_instant(wall))\<close>: the instant cut to the millisecond.\<close>

definition formatted_wall :: "int \<Rightarrow> int option" where
  "formatted_wall w =
     (case expiry_text w of
        Inl error \<Rightarrow> None
      | Inr text \<Rightarrow> (case parse_instant (PStr text) of Inl error \<Rightarrow> None | Inr d \<Rightarrow> Some (int (microseconds d))))"

definition rebased_authority :: "VerifiedBinding \<Rightarrow> AuthorizationClock \<Rightarrow> ApprovalIngressOutcome + StoredApprovalAuthority" where
  "rebased_authority b now =
     (case (parse_instant (PStr (port_issued_at b)), formatted_wall (wall (clock_reading now))) of
        (Inr issued_wall, Some current_wall) \<Rightarrow>
          (let elapsed = current_wall - int (microseconds issued_wall); ttl = port_time_to_live b;
               elapsed_ms = elapsed div MILLISECOND
           in if elapsed < 0 then Inl CLOCK_REGRESSION
              else if ttl \<le> 0 then Inl MISMATCH
              else if ttl \<le> elapsed_ms then Inl EXPIRED
              else if monotonic (clock_reading now) < 0 \<or> runtime_epoch now = [] then Inl CLOCK_REGRESSION
              else Inr \<lparr>authority_epoch = runtime_epoch now,
                        authority_monotonic = monotonic (clock_reading now) div MILLISECOND - elapsed_ms\<rparr>)
      | _ \<Rightarrow> Inl CLOCK_REGRESSION)"

definition approval_result_bytes ::
    "(pystr \<Rightarrow> pystr) \<Rightarrow> OperatorApprovalPayload \<Rightarrow> ApprovalIngressOutcome \<Rightarrow> handler_error + bytes" where
  "approval_result_bytes nfc p oc =
     map_sum CanonicalFailed id (canonical_bytes nfc
       (PDict (obj [(''approvalIngress'', PStr (approval_outcome_value oc)), (''approvalId'', PStr (approved_id p))])))"

section \<open>The handler\<close>

definition verify_new_claim ::
    "(pystr \<Rightarrow> pystr) \<Rightarrow> Envelope \<Rightarrow> OperatorApprovalPayload \<Rightarrow> AuthorizationClock \<Rightarrow> (handler_error, ApprovalIngressOutcome) tx" where
  "verify_new_claim nfc e p now =
     bindT (load_verified_binding nfc (approved_id p)) (\<lambda>b.
       if \<not> approval_matches e p b then returnT MISMATCH
       else (case rebased_authority b now of
               Inl oc \<Rightarrow> returnT oc
             | Inr a \<Rightarrow>
                 bindT (raising Stored (bind_authority (approved_id p) a)) (\<lambda>bound.
                   returnT (if bound = EPOCH_CONFLICT then EPOCH_MISMATCH else VERIFIED))))"

definition approval_unit ::
    "(pystr \<Rightarrow> pystr) \<Rightarrow> InboxIdentity \<Rightarrow> Envelope \<Rightarrow> OperatorApprovalPayload \<Rightarrow> AuthorizationClock
      \<Rightarrow> (handler_error, ApprovalIngressResult) tx" where
  "approval_unit nfc i e p now =
     bindT (raising Stored (inbox_claim i)) (\<lambda>claimed.
       if inbox_decision claimed = InboxDecision.DUPLICATE
       then (case prior_result claimed of
               None \<Rightarrow> raiseT (ApprovalIngressError ApprovalIngressRefusal.DUPLICATE_RESULT)
             | Some b \<Rightarrow> returnT \<lparr>approval_outcome = DUPLICATE, approval_answer = b\<rparr>)
       else bindT (verify_new_claim nfc e p now) (\<lambda>oc.
            bindT (pure (approval_result_bytes nfc p oc)) (\<lambda>b.
            bindT (raising Stored (inbox_complete i b (time e))) (\<lambda>_.
              returnT \<lparr>approval_outcome = oc, approval_answer = b\<rparr>))))"

definition handle_operator_approval ::
    "(pystr \<Rightarrow> pystr) \<Rightarrow> GuaranteedDelivery \<Rightarrow> AuthorizationClock \<Rightarrow> environment \<Rightarrow> database \<Rightarrow> ApprovalIngressResult handled" where
  "handle_operator_approval nfc delivery now env db =
     (case accept_ingress nfc (delivery_payload delivery) (PStr (delivery_topic delivery)) of
        Inl (IngressError kind) \<Rightarrow>
          then_raise (Ingressed (IngressError kind))
            (reject_after_refusal nfc delivery APPROVAL_CHANNEL (refusal_code kind) env db)
      | Inl IngressKeyError \<Rightarrow> (Inl (Raised (Ingressed IngressKeyError)), db, None)
      | Inr (OperatorApprovalIngress topic e p) \<Rightarrow>
          (case approval_identity nfc e p of
             Inl error \<Rightarrow> (Inl (Raised error), db, None)
           | Inr i \<Rightarrow> settled_unit env (envelope_id e) (approval_unit nfc i e p now) db)
      | Inr _ \<Rightarrow>
          then_raise (ApprovalIngressError ApprovalIngressRefusal.INGRESS_KIND)
            (reject_after_refusal nfc delivery APPROVAL_CHANNEL (lit ''unexpected-family'') env db))"

section \<open>The consumer contract\<close>

lemma bind_statement_unchanged: "\<not> (\<exists>b \<in> set (bindings db). unbound i b) \<Longrightarrow> snd (bind_statement i a db) = db"
proof -
  assume "\<not> (\<exists>b \<in> set (bindings db). unbound i b)"
  then have "map (\<lambda>b. if unbound i b then b\<lparr>binding_epoch := Some (authority_epoch a),
      binding_issued_monotonic := Some (authority_monotonic a)\<rparr> else b) (bindings db) = bindings db"
    by (intro map_idI) auto
  then show ?thesis by (simp add: bind_statement_def)
qed

lemma bind_authority_Inr:
  assumes "bind_authority i a db = Inr (d, db')"
  shows "authority_epoch a \<noteq> [] \<and> db' = snd (bind_statement i a db) \<and> (d \<noteq> BOUND \<longrightarrow> db' = db)"
proof (cases "\<exists>b \<in> set (bindings db). unbound i b")
  case True
  with assms show ?thesis by (auto simp: bind_authority_def bind_statement_def split: if_splits)
next
  case False
  with bind_statement_unchanged [OF False] have "bind_statement i a db = (False, db)"
    by (simp add: bind_statement_def)
  with assms bind_statement_unchanged [OF False] show ?thesis
    by (auto simp: bind_authority_def load_by_approval_def load_binding_where_Inr split: if_splits)
qed

lemma load_verified_binding_reads [reading]: "reads_only (load_verified_binding nfc i)"
  by (auto simp: reads_only_def load_verified_binding_def load_by_approval_def repository_Inr)

text \<open>A verified approval binds the authority computed for it; every other outcome leaves the database alone.\<close>

lemma verify_new_claim_changes:
  assumes "verify_new_claim nfc e p now db = Inr (oc, db')"
  shows "oc \<noteq> VERIFIED \<and> db' = db
    \<or> oc = VERIFIED \<and> (\<exists>b a. load_verified_binding nfc (approved_id p) db = Inr (b, db) \<and> approval_matches e p b
        \<and> rebased_authority b now = Inr a \<and> authority_epoch a \<noteq> [] \<and> db' = snd (bind_statement (approved_id p) a db))"
proof -
  from assms obtain b db1 where b: "load_verified_binding nfc (approved_id p) db = Inr (b, db1)"
    and rest: "(if \<not> approval_matches e p b then returnT MISMATCH
       else (case rebased_authority b now of
               Inl oc \<Rightarrow> returnT oc
             | Inr a \<Rightarrow>
                 bindT (raising Stored (bind_authority (approved_id p) a)) (\<lambda>bound.
                   returnT (if bound = EPOCH_CONFLICT then EPOCH_MISMATCH else VERIFIED)))) db1 = Inr (oc, db')"
    by (auto simp: verify_new_claim_def)
  from reads_onlyD [OF load_verified_binding_reads b] have same: "db1 = db" .
  show ?thesis
  proof (cases "approval_matches e p b")
    case False
    with rest same show ?thesis by simp
  next
    case True
    show ?thesis
    proof (cases "rebased_authority b now")
      case (Inl x)
      moreover from Inl have "x \<noteq> VERIFIED"
        by (auto simp: rebased_authority_def Let_def split: sum.splits option.splits if_splits)
      ultimately show ?thesis using rest same True by simp
    next
      case (Inr a)
      with rest same True obtain d where "bind_authority (approved_id p) a db = Inr (d, db')"
        "oc = (if d = EPOCH_CONFLICT then EPOCH_MISMATCH else VERIFIED)" by auto
      with bind_authority_Inr [OF this(1)] Inr True b same show ?thesis by auto
    qed
  qed
qed

lemma verify_new_claim_inbox: "verify_new_claim nfc e p now db = Inr (oc, db') \<Longrightarrow> inbox db' = inbox db"
  using verify_new_claim_changes [of nfc e p now db oc db'] by (auto simp: bind_statement_def)

lemma approval_unit_inbox:
  assumes "approval_unit nfc i e p now db = Inr (r, db')"
  shows "inbox_kept db db' \<and> completed i (approval_answer r) db'"
proof -
  from assms obtain oc db1 where oc: "inbox_claim i db = Inr (oc, db1)"
    and rest: "(if inbox_decision oc = InboxDecision.DUPLICATE
       then (case prior_result oc of
               None \<Rightarrow> raiseT (ApprovalIngressError ApprovalIngressRefusal.DUPLICATE_RESULT)
             | Some b \<Rightarrow> returnT \<lparr>approval_outcome = DUPLICATE, approval_answer = b\<rparr>)
       else bindT (verify_new_claim nfc e p now) (\<lambda>oc.
            bindT (pure (approval_result_bytes nfc p oc)) (\<lambda>b.
            bindT (raising Stored (inbox_complete i b (time e))) (\<lambda>_.
              returnT \<lparr>approval_outcome = oc, approval_answer = b\<rparr>)))) db1 = Inr (r, db')"
    by (auto simp: approval_unit_def)
  show ?thesis
  proof (cases "inbox_decision oc = InboxDecision.DUPLICATE")
    case True
    with rest inbox_claim_keeps [OF oc] inbox_claim_duplicate [OF oc True] show ?thesis by (auto split: option.splits)
  next
    case False
    with rest obtain v db2 u where verified: "verify_new_claim nfc e p now db1 = Inr (v, db2)"
      and final: "inbox_complete i (approval_answer r) (time e) db2 = Inr (u, db')" by auto
    have "inbox_kept db1 db2" by (rule inbox_kept_same) (rule verify_new_claim_inbox [OF verified])
    with inbox_claim_keeps [OF oc] inbox_complete_keeps [OF final] show ?thesis by (blast intro: inbox_kept_trans)
  qed
qed

definition approval_consumer ::
    "(pystr \<Rightarrow> pystr) \<Rightarrow> Envelope \<times> OperatorApprovalPayload \<Rightarrow> AuthorizationClock \<Rightarrow> (handler_error, ApprovalIngressResult) tx" where
  "approval_consumer nfc ep now =
     (case approval_identity nfc (fst ep) (snd ep) of
        Inl error \<Rightarrow> raiseT error
      | Inr i \<Rightarrow> approval_unit nfc i (fst ep) (snd ep) now)"

lemma approval_consumer_Inr:
  "approval_consumer nfc ep now db = Inr r \<longleftrightarrow>
     (\<exists>i. approval_identity nfc (fst ep) (snd ep) = Inr i \<and> approval_unit nfc i (fst ep) (snd ep) now db = Inr r)"
  by (auto simp: approval_consumer_def split: sum.splits)

interpretation approving: guaranteed_consumer "approval_consumer nfc" approval_answer "\<lambda>_. True" for nfc
proof
  show "inbox_kept db db'" if "approval_consumer nfc ep now db = Inr (r, db')" for ep now db r db'
    using that approval_unit_inbox by (auto simp: approval_consumer_Inr)
  show "\<exists>r'. approval_consumer nfc ep now' later = Inr (r', later) \<and> approval_answer r' = approval_answer r"
    if "approval_consumer nfc ep now db = Inr (r, db')" "inbox_kept db' later" for ep now now' db r db' later
  proof -
    from that(1) obtain i where i: "approval_identity nfc (fst ep) (snd ep) = Inr i"
      and unit: "approval_unit nfc i (fst ep) (snd ep) now db = Inr (r, db')"
      by (auto simp: approval_consumer_Inr)
    from approval_unit_inbox [OF unit] completed_kept that(2) have "completed i (approval_answer r) later" by blast
    with i show ?thesis by (auto simp: approval_consumer_Inr approval_unit_def inbox_claim_completed)
  qed
qed

lemma handle_operator_approval_Inr:
  "handle_operator_approval nfc delivery now env db = (Inr r, db', s) \<longleftrightarrow>
     (\<exists>topic e p. accept_ingress nfc (delivery_payload delivery) (PStr (delivery_topic delivery)) = Inr (OperatorApprovalIngress topic e p)
        \<and> approval_consumer nfc (e, p) now db = Inr (r, db') \<and> unit_fate env = Commits \<and> settles env \<and> s = Some (Accept (envelope_id e)))"
  by (auto simp: handle_operator_approval_def approval_consumer_Inr settled_unit_Inr split: sum.splits ingress_error.splits AcceptedIngress.splits)

lemma handle_operator_approval_leaves:
  "leaves db (\<lambda>db'. \<exists>topic e p x.
       accept_ingress nfc (delivery_payload delivery) (PStr (delivery_topic delivery)) = Inr (OperatorApprovalIngress topic e p)
       \<and> approval_consumer nfc (e, p) now db = Inr (x, db'))
     (handle_operator_approval nfc delivery now env db)"
  unfolding handle_operator_approval_def
  by (intro leaving) (auto simp: approval_consumer_Inr intro!: leaving split: AcceptedIngress.splits)

section \<open>The approval window\<close>

lemma load_verified_binding_inbox:
  "load_verified_binding nfc i (db\<lparr>inbox := rows\<rparr>) = Inr (b, db\<lparr>inbox := rows\<rparr>)
     \<longleftrightarrow> load_verified_binding nfc i db = Inr (b, db)"
  by (auto simp: load_verified_binding_def load_by_approval_def repository_Inr)

lemma approval_unit_effects:
  assumes "approval_unit nfc i e p now db = Inr (r, db')"
  obtains (inert) "quiet db db'"
  | (verified) b a where "load_verified_binding nfc (approved_id p) db = Inr (b, db)" "approval_matches e p b"
      "rebased_authority b now = Inr a"
      "db' = db\<lparr>inbox := inbox db', bindings := map (\<lambda>b. if unbound (approved_id p) b
         then b\<lparr>binding_epoch := Some (authority_epoch a), binding_issued_monotonic := Some (authority_monotonic a)\<rparr>
         else b) (bindings db)\<rparr>"
proof -
  note outcomes = that
  from assms obtain oc db1 where oc: "inbox_claim i db = Inr (oc, db1)"
    and rest: "(if inbox_decision oc = InboxDecision.DUPLICATE
       then (case prior_result oc of
               None \<Rightarrow> raiseT (ApprovalIngressError ApprovalIngressRefusal.DUPLICATE_RESULT)
             | Some b \<Rightarrow> returnT \<lparr>approval_outcome = DUPLICATE, approval_answer = b\<rparr>)
       else bindT (verify_new_claim nfc e p now) (\<lambda>oc.
            bindT (pure (approval_result_bytes nfc p oc)) (\<lambda>b.
            bindT (raising Stored (inbox_complete i b (time e))) (\<lambda>_.
              returnT \<lparr>approval_outcome = oc, approval_answer = b\<rparr>)))) db1 = Inr (r, db')"
    by (auto simp: approval_unit_def)
  from inbox_claim_only [OF oc] obtain rows where db1: "db1 = db\<lparr>inbox := rows\<rparr>" by blast
  show thesis
  proof (cases "inbox_decision oc = InboxDecision.DUPLICATE")
    case True
    with rest db1 outcomes(1) show thesis by (auto simp: quiet_def split: option.splits)
  next
    case False
    with rest obtain v db2 u where verified: "verify_new_claim nfc e p now db1 = Inr (v, db2)"
      and final: "inbox_complete i (approval_answer r) (time e) db2 = Inr (u, db')" by auto
    from final obtain rows' where db': "db' = db2\<lparr>inbox := rows'\<rparr>" by (auto simp: inbox_complete_Inr)
    from verify_new_claim_changes [OF verified] show thesis
    proof
      assume "v \<noteq> VERIFIED \<and> db2 = db1"
      with db1 db' outcomes(1) show thesis by (simp add: quiet_def)
    next
      assume "v = VERIFIED \<and> (\<exists>b a. load_verified_binding nfc (approved_id p) db1 = Inr (b, db1) \<and> approval_matches e p b
        \<and> rebased_authority b now = Inr a \<and> authority_epoch a \<noteq> [] \<and> db2 = snd (bind_statement (approved_id p) a db1))"
      then obtain b a where "load_verified_binding nfc (approved_id p) db1 = Inr (b, db1)" "approval_matches e p b"
        "rebased_authority b now = Inr a" "db2 = snd (bind_statement (approved_id p) a db1)" by blast
      with db1 db' outcomes(2) [of b a] show thesis by (simp add: load_verified_binding_inbox bind_statement_def)
    qed
  qed
qed


lemma expiry_text_parsed:
  assumes "expiry_text w = Inr text" "parse_instant (PStr text) = Inr d"
  shows "int (microseconds d) = w div 1000 * 1000"
proof -
  from assms(1) obtain e where e: "datetime_at (nat w) = Some e" "format_instant e = Inr text"
    by (auto simp: expiry_text_def Exchange.map_sum_Inr split: option.splits)
  have "0 \<le> w"
  proof (rule ccontr)
    assume "\<not> 0 \<le> w"
    with e(1) show False by (simp add: datetime_at_def Let_def split: prod.splits)
  qed
  moreover from formatted_microseconds [OF e assms(2)] have "microseconds d = nat w div 1000 * 1000" .
  ultimately show ?thesis by (simp add: zdiv_int)
qed

lemma formatted_wall_Some: "formatted_wall w = Some c \<Longrightarrow> c = w div 1000 * 1000"
  by (auto simp: formatted_wall_def expiry_text_parsed split: sum.splits)

text \<open>The authority rebased on the gateway's monotonic clock: its window is open, and what is left of it is what is left of
  the operator's window on the wall clock, to the millisecond.\<close>

lemma rebased_authority_Inr:
  assumes "rebased_authority b now = Inr a" "expiry_text issued_us = Inr (port_issued_at b)"
  defines "left \<equiv> (authority_monotonic a + port_time_to_live b) * 1000 - monotonic (clock_reading now)"
  shows "authority_epoch a = runtime_epoch now" "authority_monotonic a * 1000 \<le> monotonic (clock_reading now)" "0 < left"
    "left < issued_us + port_time_to_live b * 1000 - wall (clock_reading now) + 1000"
    "left = issued_us + port_time_to_live b * 1000 - wall (clock_reading now) + wall (clock_reading now) mod 1000
      - monotonic (clock_reading now) mod 1000 - issued_us mod 1000"
    "authority_monotonic a + port_time_to_live b - monotonic (clock_reading now) div 1000
      = issued_us div 1000 + port_time_to_live b - wall (clock_reading now) div 1000"
proof -
  let ?w = "wall (clock_reading now)" let ?m = "monotonic (clock_reading now)"
  from assms(1) obtain d c where d: "parse_instant (PStr (port_issued_at b)) = Inr d" and c: "formatted_wall ?w = Some c"
    and e: "0 \<le> c - int (microseconds d)" "(c - int (microseconds d)) div 1000 < port_time_to_live b"
    "a = \<lparr>authority_epoch = runtime_epoch now, authority_monotonic = ?m div 1000 - (c - int (microseconds d)) div 1000\<rparr>"
    by (auto simp: rebased_authority_def Let_def MILLISECOND_def split: sum.splits option.splits if_splits)
  from expiry_text_parsed [OF assms(2) d] formatted_wall_Some [OF c]
  have "c - int (microseconds d) = (?w div 1000 - issued_us div 1000) * 1000" by (simp add: algebra_simps)
  then have "(c - int (microseconds d)) div 1000 = ?w div 1000 - issued_us div 1000" by simp
  with e(1,2) have x: "issued_us div 1000 \<le> ?w div 1000" "?w div 1000 - issued_us div 1000 < port_time_to_live b"
    "authority_monotonic a = ?m div 1000 - (?w div 1000 - issued_us div 1000)"
    using \<open>c - _ = _\<close> by (simp_all add: e(3))
  show "authority_epoch a = runtime_epoch now" by (simp add: e(3))
  show "authority_monotonic a * 1000 \<le> ?m" using x by linarith
  have cut: "z div 1000 * 1000 \<le> z \<and> z < z div 1000 * 1000 + 1000" for z :: int by linarith
  have "(?w div 1000 - issued_us div 1000 + 1) * 1000 \<le> port_time_to_live b * 1000"
    using zless_imp_add1_zle [OF x(2)] by (rule mult_right_mono) simp
  with cut [of ?m] show "0 < left" unfolding left_def x(3) distrib_right left_diff_distrib by linarith
  from cut [of ?m] cut [of ?w] cut [of issued_us]
  show "left < issued_us + port_time_to_live b * 1000 - ?w + 1000" unfolding left_def x(3) distrib_right left_diff_distrib by linarith
  have parts: "z = z div 1000 * 1000 + z mod 1000" for z :: int by simp
  from parts [of ?m] parts [of ?w] parts [of issued_us]
  show "left = issued_us + port_time_to_live b * 1000 - ?w + ?w mod 1000 - ?m mod 1000 - issued_us mod 1000"
    unfolding left_def x(3) distrib_right left_diff_distrib by linarith
  show "authority_monotonic a + port_time_to_live b - ?m div 1000 = issued_us div 1000 + port_time_to_live b - ?w div 1000" by (simp add: x(3))
qed

lemma load_verified_binding_Inr:
  assumes "load_verified_binding nfc i db = Inr (b, db')"
  obtains bound row x where "List.find (\<lambda>b. binding_approval b = i) (bindings db) = Some bound"
    "approvals db (binding_proposal bound) = Some row" "adapter_approval row bound = Inr x"
    "map_approval_binding nfc row bound = Inr b" "expiry_text (wall (issued x)) = Inr (port_issued_at b)"
    "port_time_to_live b = stored_time_to_live row" "port_mission b = approval_mission x" "port_proposal b = approval_proposal x"
    "port_operator b = operator_identity x" "port_proposal_digest b = approval_digest x"
  using assms
  by (auto simp: load_verified_binding_def load_by_approval_def repository_Inr map_approval_binding_def)

text \<open>C8. Whatever is delivered as an operator approval, the gateway's authority tables stay as they were, or one approval that
  agrees with its durable row has its unbound bindings bound to this runtime epoch and to a starting point on the
  monotonic clock. On readings floored to the millisecond, as both clocks are, the rebased window is open and exactly as
  much is left of it as of the operator's own window on the wall clock. On the unfloored clocks it is open too, and what is left of
  it differs from what is left of the operator's by exactly the fractions that the floors cut off: it closes less than a
  millisecond later than the operator's, and it does close later when the wall clock was read later in its millisecond.\<close>

theorem approval_window_rebased:
  "case handle_operator_approval nfc delivery now env db of (r, db', s) \<Rightarrow>
     quiet db db' \<or>
     (\<exists>topic e p a row issued_at.
        accept_ingress nfc (delivery_payload delivery) (PStr (delivery_topic delivery)) = Inr (OperatorApprovalIngress topic e p)
        \<and> approvals db (approved_proposal p) = Some row \<and> stored_mission row = approved_mission p
        \<and> stored_operator row = approved_operator p \<and> stored_digest row = approved_proposal_digest p
        \<and> parse_instant (PStr (stored_issued_wall row)) = Inr issued_at
        \<and> db' = db\<lparr>inbox := inbox db', bindings := map (\<lambda>b. if unbound (approved_id p) b
             then b\<lparr>binding_epoch := Some (runtime_epoch now), binding_issued_monotonic := Some a\<rparr> else b) (bindings db)\<rparr>
        \<and> a + stored_time_to_live row - monotonic (clock_reading now) div 1000
            = int (microseconds issued_at) div 1000 + stored_time_to_live row - wall (clock_reading now) div 1000
        \<and> (let remaining = (a + stored_time_to_live row) * 1000 - monotonic (clock_reading now)
           in a * 1000 \<le> monotonic (clock_reading now) \<and> 0 < remaining
              \<and> remaining < int (microseconds issued_at) + stored_time_to_live row * 1000 - wall (clock_reading now) + 1000
              \<and> remaining = int (microseconds issued_at) + stored_time_to_live row * 1000 - wall (clock_reading now)
                  + wall (clock_reading now) mod 1000 - monotonic (clock_reading now) mod 1000 - int (microseconds issued_at) mod 1000))"
proof -
  obtain r db' s where h: "handle_operator_approval nfc delivery now env db = (r, db', s)" by (metis prod_cases3)
  from handle_operator_approval_leaves h show ?thesis
  proof (cases rule: leavesE)
    case refused
    with h show ?thesis by (auto simp: quiet_def)
  next
    case ran
    then obtain topic e p x i where ran:
      "accept_ingress nfc (delivery_payload delivery) (PStr (delivery_topic delivery)) = Inr (OperatorApprovalIngress topic e p)"
      "approval_unit nfc i e p now db = Inr (x, db')" by (auto simp: approval_consumer_Inr)
    from ran(2) show ?thesis
    proof (cases rule: approval_unit_effects)
      case inert
      with h show ?thesis by simp
    next
      case (verified b a)
      from verified(1) show ?thesis
      proof (rule load_verified_binding_Inr)
        fix bound row x
        assume rows: "approvals db (binding_proposal bound) = Some row" "adapter_approval row bound = Inr x"
          and port: "expiry_text (wall (issued x)) = Inr (port_issued_at b)" "port_time_to_live b = stored_time_to_live row"
            "port_mission b = approval_mission x" "port_proposal b = approval_proposal x"
            "port_operator b = operator_identity x" "port_proposal_digest b = approval_digest x"
        note w = rebased_authority_Inr [OF verified(3) port(1)]
        from adapter_approval_Inr [OF rows(2)] obtain issued_at where
          iw: "parse_instant (PStr (stored_issued_wall row)) = Inr issued_at" and x: "wall (issued x) = int (microseconds issued_at)"
            "approval_mission x = stored_mission row" "approval_proposal x = stored_proposal row" "stored_proposal row = binding_proposal bound"
            "operator_identity x = stored_operator row" "approval_digest x = stored_digest row" by auto
        have "approvals db (approved_proposal p) = Some row \<and> stored_mission row = approved_mission p
          \<and> stored_operator row = approved_operator p \<and> stored_digest row = approved_proposal_digest p"
          using verified(2) rows(1) port x by (simp add: approval_matches_def)
        moreover have "authority_monotonic a + stored_time_to_live row - monotonic (clock_reading now) div 1000
            = int (microseconds issued_at) div 1000 + stored_time_to_live row - wall (clock_reading now) div 1000"
          using w(6) unfolding x(1) port(2) .
        moreover have "let remaining = (authority_monotonic a + stored_time_to_live row) * 1000 - monotonic (clock_reading now)
           in authority_monotonic a * 1000 \<le> monotonic (clock_reading now) \<and> 0 < remaining
              \<and> remaining < int (microseconds issued_at) + stored_time_to_live row * 1000 - wall (clock_reading now) + 1000
              \<and> remaining = int (microseconds issued_at) + stored_time_to_live row * 1000 - wall (clock_reading now)
                  + wall (clock_reading now) mod 1000 - monotonic (clock_reading now) mod 1000 - int (microseconds issued_at) mod 1000"
          using w(2-5) unfolding Let_def x(1) port(2) by blast
        ultimately show ?thesis unfolding h prod.case using ran(1) iw verified(4) [unfolded w(1)] by blast
      qed
    qed
  qed
qed

lemma approval_consumer_steady: "steady (approval_consumer nfc ep now)"
  unfolding approval_consumer_def approval_unit_def verify_new_claim_def load_verified_binding_def by (intro steadying)

end
