(* ===== verification/Normalization.thy ===== *)
theory Normalization
  imports Authorization
begin

text \<open>
  \<open>services/command_gateway/src/aerial_rescue_command_gateway/normalization.py\<close> and \<open>agent_response.py\<close>: an agent's answer
  becomes a proposal and an audit event. Identities, instants and destinations come from trusted context; the answer
  contributes the candidate's fields only.
\<close>

section \<open>Data\<close>

type_synonym PendingInvocation = StoredPendingInvocation

record NormalizationStamp =
  norm_producer :: pystr
  norm_proposal :: pystr
  norm_proposal_event :: pystr
  norm_audit_record :: pystr
  norm_audit_event :: pystr
  norm_occurred_at :: pystr
  norm_proposal_sequence :: int
  norm_audit_sequence :: int
  norm_trace :: pystr
  norm_tracestate :: "pystr option"

record NormalizationArtifacts =
  norm_stored :: "StoredProposal option"
  norm_events :: "StagedApplicationEvent list"
  norm_result :: bytes

definition PROPOSAL_TYPE :: pystr where
  "PROPOSAL_TYPE = lit ''candidate-location''"

definition PROPOSAL_VERSION :: int where
  "PROPOSAL_VERSION = 1"

definition AUDIT_VERSION :: int where
  "AUDIT_VERSION = 1"

section \<open>Building the effects\<close>

definition bind_pending :: "AgentResponse \<Rightarrow> PendingInvocation \<Rightarrow> handler_error + unit" where
  "bind_pending r v =
     (if (agent_mission r, agent_name r, invocation_id r, agent_correlation r)
         \<noteq> (pending_mission v, pending_agent v, pending_invocation v, pending_correlation v)
      then Inl (NormalizationError IDENTITY_MISMATCH)
      else (case candidate r of
              None \<Rightarrow> Inr ()
            | Some c \<Rightarrow>
                if source_event_id c \<noteq> pending_source_event v then Inl (NormalizationError IDENTITY_MISMATCH)
                else if candidate_digest c \<noteq> pending_source_digest v then Inl (NormalizationError DIGEST_MISMATCH)
                else Inr ()))"

definition proposal_fields :: "AgentCandidate \<Rightarrow> PendingInvocation \<Rightarrow> pystr \<Rightarrow> members" where
  "proposal_fields c v proposal =
     obj [(''canonicalizationVersion'', PInt 1), (''proposalVersion'', PInt PROPOSAL_VERSION),
          (''missionId'', PStr (pending_mission v)), (''proposalId'', PStr proposal), (''proposalType'', PStr (proposal_type c)),
          (''agentName'', PStr (pending_agent v)), (''sourceInvocationId'', PStr (pending_invocation v)),
          (''sourceEventId'', PStr (pending_source_event v)), (''sourceEventDigest'', PStr (pending_source_digest v)),
          (''commandType'', PStr (candidate_command c)), (''droneId'', PStr (drone_id c)),
          (''latitudeMicrodegrees'', PInt (candidate_latitude c)), (''longitudeMicrodegrees'', PInt (candidate_longitude c))]"

text \<open>The payload and its digest.\<close>

definition proposal_payload ::
    "(pystr \<Rightarrow> pystr) \<Rightarrow> AgentResponse \<Rightarrow> PendingInvocation \<Rightarrow> NormalizationStamp \<Rightarrow> handler_error + members \<times> pystr" where
  "proposal_payload nfc r v stamp =
     (case candidate r of
        None \<Rightarrow> Inl (NormalizationError RESPONSE_KIND)
      | Some c \<Rightarrow>
          let d = proposal_fields c v (norm_proposal stamp)
          in bindE (map_sum DigestFailed id (Digest.proposal_digest nfc (PDict d))) (\<lambda>h.
               Inr (d @ obj [(''proposalDigest'', PStr h)], h)))"

definition normalization_audit ::
    "AgentResponse \<Rightarrow> PendingInvocation \<Rightarrow> NormalizationStamp \<Rightarrow> pystr option \<Rightarrow> handler_error + members" where
  "normalization_audit r v stamp proposed =
     (let common = obj [(''auditVersion'', PInt AUDIT_VERSION), (''missionId'', PStr (pending_mission v)),
            (''recordId'', PStr (norm_audit_record stamp)), (''recordType'', PStr (lit ''proposal-normalization'')),
            (''agentName'', PStr (pending_agent v)), (''invocationId'', PStr (pending_invocation v)),
            (''correlationId'', PStr (pending_correlation v)),
            (''outcome'', PStr (if proposed \<noteq> None then lit ''normalized'' else lit ''abstained''))]
      in case proposed of
           None \<Rightarrow> (case reason r of
                      None \<Rightarrow> Inl (NormalizationError RESPONSE_KIND)
                    | Some why \<Rightarrow> Inr (common @ obj [(''reason'', PStr (reason_value why))]))
         | Some h \<Rightarrow> Inr (common @ obj [(''sourceEventId'', PStr (pending_source_event v)),
             (''sourceEventDigest'', PStr (pending_source_digest v)), (''proposalId'', PStr (norm_proposal stamp)),
             (''proposalDigest'', PStr h), (''proposalVersion'', PInt PROPOSAL_VERSION)]))"

definition notification_document ::
    "PendingInvocation \<Rightarrow> NormalizationStamp \<Rightarrow> pystr \<Rightarrow> members \<Rightarrow> pystr \<Rightarrow> pystr \<Rightarrow> pystr \<Rightarrow> members" where
  "notification_document v stamp i content kind schema seq =
     obj [(''specversion'', PStr (lit ''1.0'')), (''id'', PStr i),
          (''source'', PStr (lit ''urn:aerial-rescue:command-gateway:'' @ norm_producer stamp)), (''type'', PStr kind),
          (''subject'', PStr (pending_mission v)), (''time'', PStr (norm_occurred_at stamp)),
          (''datacontenttype'', PStr (lit ''application/json'')), (''dataschema'', PStr schema), (''data'', PDict content),
          (''sequence'', PStr seq), (''correlationid'', PStr (pending_correlation v)),
          (''causationid'', PStr (pending_source_event v)), (''traceparent'', PStr (norm_trace stamp))]
     @ optional_member ''tracestate'' (norm_tracestate stamp)"

definition notification ::
    "(pystr \<Rightarrow> pystr) \<Rightarrow> PendingInvocation \<Rightarrow> NormalizationStamp \<Rightarrow> Topic \<Rightarrow> members \<Rightarrow> pystr \<Rightarrow> int \<Rightarrow> handler_error + bytes" where
  "notification nfc v stamp topic content i number =
     (case sequence_text number of
        None \<Rightarrow> Inl (NormalizationError NormalizationRefusal.SEQUENCE)
      | Some seq \<Rightarrow>
          bindE (map_sum TopicFailed id (event_type topic)) (\<lambda>kind.
          bindE (map_sum EnvelopeFailed id (binding_for kind)) (\<lambda>bd.
            let document = notification_document v stamp i content kind (bound_dataschema bd) seq
            in bindE (map_sum EnvelopeFailed id (parse_envelope nfc (PDict document))) (\<lambda>envelope.
               bindE (map_sum EnvelopeFailed id (check_topic_binding envelope topic)) (\<lambda>_.
                 map_sum CanonicalFailed id (canonical_bytes nfc (PDict document)))))))"

definition staged_event :: "(pystr \<Rightarrow> pystr) \<Rightarrow> bytes \<Rightarrow> Topic \<Rightarrow> handler_error + StagedApplicationEvent" where
  "staged_event nfc raw topic =
     bindE (case decode_envelope nfc raw of
              Inl (EnvelopeText error) \<Rightarrow> Inl (DecodeFailed error)
            | Inl (EnvelopeRefused error) \<Rightarrow> Inl (EnvelopeFailed error)
            | Inr e \<Rightarrow> Inr e) (\<lambda>e.
     bindE (map_sum TopicFailed id (format_topic topic)) (\<lambda>text.
       Inr \<lparr>app_producer = PRODUCER, app_event = envelope_id e, app_family = outbox_family (family topic), app_topic = text,
            app_headers = EMPTY_HEADERS, app_payload = raw, app_traceparent = traceparent e, app_tracestate = tracestate e,
            app_correlation = correlation_id e, app_causation = causation_id e, app_staged_at = time e\<rparr>))"

definition proposal_row ::
    "(pystr \<Rightarrow> pystr) \<Rightarrow> AgentCandidate \<Rightarrow> members \<Rightarrow> pystr \<Rightarrow> StagedApplicationEvent \<Rightarrow> PendingInvocation \<Rightarrow> NormalizationStamp
      \<Rightarrow> handler_error + StoredProposal" where
  "proposal_row nfc c d h event v stamp =
     bindE (map_sum CanonicalFailed id (canonical_bytes nfc (PDict d))) (\<lambda>b.
       Inr \<lparr>prop_id = norm_proposal stamp, prop_mission = pending_mission v, prop_source_event = pending_source_event v,
            prop_source_digest = pending_source_digest v, prop_agent = pending_agent v, prop_invocation = pending_invocation v,
            prop_type = proposal_type c, prop_digest = h, prop_payload = b, prop_drone = drone_id c,
            prop_latitude = candidate_latitude c, prop_longitude = candidate_longitude c, prop_command = candidate_command c,
            prop_issued_at = norm_occurred_at stamp, prop_sequence = norm_proposal_sequence stamp,
            prop_correlation = pending_correlation v, prop_causation = app_causation event, prop_traceparent = app_traceparent event\<rparr>)"

definition proposal_topic :: "PendingInvocation \<Rightarrow> Topic" where
  "proposal_topic v = \<lparr>family = AGENT_PROPOSAL, mission_id = pending_mission v,
     topic_parameters = [(lit ''agentName'', pending_agent v), (lit ''proposalType'', PROPOSAL_TYPE)]\<rparr>"

definition normalization_topic :: "PendingInvocation \<Rightarrow> Topic" where
  "normalization_topic v = \<lparr>family = AUDIT, mission_id = pending_mission v,
     topic_parameters = [(lit ''recordType'', lit ''proposal-normalization'')]\<rparr>"

text \<open>The branch of a candidate: its digest, the proposal and the event that announces it.\<close>

definition propose ::
    "(pystr \<Rightarrow> pystr) \<Rightarrow> AgentResponse \<Rightarrow> PendingInvocation \<Rightarrow> NormalizationStamp
      \<Rightarrow> handler_error + (pystr \<times> StoredProposal \<times> StagedApplicationEvent)" where
  "propose nfc r v stamp =
     bindE (proposal_payload nfc r v stamp) (\<lambda>(d, h).
     bindE (notification nfc v stamp (proposal_topic v) d (norm_proposal_event stamp) (norm_proposal_sequence stamp)) (\<lambda>raw.
     bindE (staged_event nfc raw (proposal_topic v)) (\<lambda>event.
       case candidate r of
         None \<Rightarrow> Inl (NormalizationError RESPONSE_KIND)
       | Some c \<Rightarrow> bindE (proposal_row nfc c d h event v stamp) (\<lambda>p. Inr (h, p, event)))))"

definition build_normalization ::
    "(pystr \<Rightarrow> pystr) \<Rightarrow> AgentResponse \<Rightarrow> PendingInvocation \<Rightarrow> NormalizationStamp \<Rightarrow> handler_error + NormalizationArtifacts" where
  "build_normalization nfc r v stamp =
     bindE (bind_pending r v) (\<lambda>_.
     bindE (if agent_outcome r = CANDIDATE then map_sum id Some (propose nfc r v stamp) else Inr None) (\<lambda>proposed.
     bindE (normalization_audit r v stamp (map_option fst proposed)) (\<lambda>audit_data.
     bindE (notification nfc v stamp (normalization_topic v) audit_data (norm_audit_event stamp) (norm_audit_sequence stamp)) (\<lambda>raw.
     bindE (staged_event nfc raw (normalization_topic v)) (\<lambda>event.
       Inr (case proposed of
              None \<Rightarrow> \<lparr>norm_stored = None, norm_events = [event], norm_result = app_payload event\<rparr>
            | Some (h, p, first) \<Rightarrow>
                \<lparr>norm_stored = Some p, norm_events = [first, event], norm_result = app_payload first\<rparr>))))))"

section \<open>The handler\<close>

datatype NormalizationOutcome = COMMITTED | DUPLICATE

record NormalizationResult =
  norm_outcome :: NormalizationOutcome
  norm_answer :: bytes

record DirectDelivery =
  direct_topic :: pystr
  direct_payload :: bytes
  direct_properties :: members

definition EVENT_MESH_SOURCE :: pystr where
  "EVENT_MESH_SOURCE = lit ''event-mesh-gateway''"

definition INVOCATION_ID_PROPERTY :: string where
  "INVOCATION_ID_PROPERTY = ''aerial-rescue-agent-response-invocation-id''"

definition CORRELATION_ID_PROPERTY :: string where
  "CORRELATION_ID_PROPERTY = ''aerial-rescue-agent-response-correlation-id''"

definition MISSION_ID_PROPERTY :: string where
  "MISSION_ID_PROPERTY = ''aerial-rescue-agent-response-mission-id''"

definition SOURCE_EVENT_ID_PROPERTY :: string where
  "SOURCE_EVENT_ID_PROPERTY = ''aerial-rescue-agent-response-source-event-id''"

definition SOURCE_EVENT_DIGEST_PROPERTY :: string where
  "SOURCE_EVENT_DIGEST_PROPERTY = ''aerial-rescue-agent-response-source-event-digest''"

definition AGENT_NAME_PROPERTY :: string where
  "AGENT_NAME_PROPERTY = ''aerial-rescue-agent-response-agent-name''"

definition TRANSPORT_PROPERTIES :: "string list" where
  "TRANSPORT_PROPERTIES = [INVOCATION_ID_PROPERTY, CORRELATION_ID_PROPERTY, MISSION_ID_PROPERTY, SOURCE_EVENT_ID_PROPERTY,
     SOURCE_EVENT_DIGEST_PROPERTY, AGENT_NAME_PROPERTY]"

definition transport_property :: "members \<Rightarrow> string \<Rightarrow> regex \<Rightarrow> handler_error + pystr" where
  "transport_property d name pattern =
     (case get d (lit name) of
        PStr t \<Rightarrow> if fullmatch pattern t then Inr t else Inl (NormalizationError TRANSPORT_CONTEXT)
      | _ \<Rightarrow> Inl (NormalizationError TRANSPORT_CONTEXT))"

definition pending_context :: "members \<Rightarrow> handler_error + PendingInvocation" where
  "pending_context d =
     (if \<not> has_keys d TRANSPORT_PROPERTIES then Inl (NormalizationError TRANSPORT_CONTEXT)
      else bindE (transport_property d MISSION_ID_PROPERTY IDENTIFIER_PATTERN) (\<lambda>mission.
           bindE (transport_property d AGENT_NAME_PROPERTY AGENT_NAME_PATTERN) (\<lambda>agent.
           bindE (transport_property d INVOCATION_ID_PROPERTY IDENTIFIER_PATTERN) (\<lambda>invocation.
           bindE (transport_property d CORRELATION_ID_PROPERTY IDENTIFIER_PATTERN) (\<lambda>correlation.
           bindE (transport_property d SOURCE_EVENT_ID_PROPERTY IDENTIFIER_PATTERN) (\<lambda>event.
           bindE (transport_property d SOURCE_EVENT_DIGEST_PROPERTY DIGEST_PATTERN) (\<lambda>h.
             Inr \<lparr>pending_invocation = invocation, pending_mission = mission, pending_agent = agent,
                  pending_correlation = correlation, pending_source_event = event, pending_source_digest = h\<rparr>)))))))"

definition response_identity :: "(pystr \<Rightarrow> pystr) \<Rightarrow> AgentResponse \<Rightarrow> handler_error + InboxIdentity" where
  "response_identity nfc r =
     bindE (map_sum CanonicalFailed id (canonical_bytes nfc (PDict (agent_response_document r)))) (\<lambda>encoded.
       Inr \<lparr>inbox_consumer = CONSUMER, inbox_source = EVENT_MESH_SOURCE, inbox_event = invocation_id r,
            inbox_mission = agent_mission r, inbox_digest = sha256_hexdigest encoded\<rparr>)"

fun stage_all :: "StagedApplicationEvent list \<Rightarrow> (handler_error, unit) tx" where
  "stage_all [] = returnT ()"
| "stage_all (e # es) = bindT (raising Stored (stage_application e)) (\<lambda>_. stage_all es)"

definition normalization_unit ::
    "(pystr \<Rightarrow> pystr) \<Rightarrow> InboxIdentity \<Rightarrow> AgentResponse \<Rightarrow> PendingInvocation \<Rightarrow> NormalizationStamp
      \<Rightarrow> (handler_error, NormalizationResult) tx" where
  "normalization_unit nfc i r trusted stamp =
     bindT (raising Stored (record_pending trusted)) (\<lambda>_.
     bindT (raising Stored (load_pending (pending_invocation trusted))) (\<lambda>v.
     bindT (pure (build_normalization nfc r v stamp)) (\<lambda>artifacts.
     bindT (raising Stored (inbox_claim i)) (\<lambda>claimed.
       if inbox_decision claimed = InboxDecision.DUPLICATE
       then (case prior_result claimed of
               None \<Rightarrow> raiseT (NormalizationError NormalizationRefusal.DUPLICATE_RESULT)
             | Some b \<Rightarrow> returnT \<lparr>norm_outcome = DUPLICATE, norm_answer = b\<rparr>)
       else bindT (case norm_stored artifacts of
                     None \<Rightarrow> returnT ()
                   | Some p \<Rightarrow> bindT (raising Stored (record_proposal p)) (\<lambda>_. returnT ())) (\<lambda>_.
            bindT (stage_all (norm_events artifacts)) (\<lambda>_.
            bindT (raising Stored (inbox_complete i (norm_result artifacts) (norm_occurred_at stamp))) (\<lambda>_.
              returnT \<lparr>norm_outcome = COMMITTED, norm_answer = norm_result artifacts\<rparr>)))))))"

text \<open>\<open>except PendingInvocationError\<close> around the whole unit of work.\<close>

fun context_conflict :: "handler_error unit_error \<Rightarrow> handler_error unit_error" where
  "context_conflict (Raised (Stored (PendingInvocationError kind i))) = Raised (NormalizationError TRANSPORT_CONTEXT_CONFLICT)"
| "context_conflict error = error"

definition handle_agent_response ::
    "(pystr \<Rightarrow> pystr) \<Rightarrow> DirectDelivery \<Rightarrow> NormalizationStamp \<Rightarrow> fate \<Rightarrow> database
      \<Rightarrow> (handler_error unit_error + NormalizationResult) \<times> database" where
  "handle_agent_response nfc delivery stamp f db =
     (case accept_ingress nfc (direct_payload delivery) (PStr (direct_topic delivery)) of
        Inl error \<Rightarrow> (Inl (Raised (Ingressed error)), db)
      | Inr (AgentResponseIngress topic r) \<Rightarrow>
          (case bindE (pending_context (direct_properties delivery)) (\<lambda>trusted.
                bindE (response_identity nfc r) (\<lambda>i. Inr (trusted, i))) of
             Inl error \<Rightarrow> (Inl (Raised error), db)
           | Inr (trusted, i) \<Rightarrow>
               (case transaction f (normalization_unit nfc i r trusted stamp) db of
                  (Inl error, db') \<Rightarrow> (Inl (context_conflict error), db')
                | (Inr result, db') \<Rightarrow> (Inr result, db')))
      | Inr _ \<Rightarrow> (Inl (Raised (NormalizationError RESPONSE_KIND)), db))"

section \<open>What the unit of work does when it returns\<close>

lemma record_pending_Inr:
  "record_pending v db = Inr (d, db') \<longleftrightarrow>
     (case invocations db (pending_invocation v) of
        None \<Rightarrow> d = PendingInvocationDecision.STORED \<and> db' = db\<lparr>invocations := (invocations db)(pending_invocation v \<mapsto> v)\<rparr>
      | Some row \<Rightarrow> d = PendingInvocationDecision.DUPLICATE \<and> row = v \<and> db' = db)"
  by (auto simp: record_pending_def pending_invocation_statement_def insert_absent_def found_or_Inr split: option.splits)

lemma load_pending_Inr: "load_pending i db = Inr (v, db') \<longleftrightarrow> invocations db i = Some v \<and> db' = db"
  by (auto simp: load_pending_def found_or_Inr)

lemma record_proposal_Inr:
  "record_proposal p db = Inr (d, db') \<longleftrightarrow>
     (case proposals db (prop_id p) of
        None \<Rightarrow> d = ProposalDecision.STORED \<and> db' = db\<lparr>proposals := (proposals db)(prop_id p \<mapsto> p)\<rparr>
      | Some row \<Rightarrow> d = ProposalDecision.DUPLICATE \<and> row = p \<and> db' = db)"
  by (auto simp: record_proposal_def proposal_statement_def insert_absent_def found_or_Inr split: option.splits)

text \<open>The rows a list of staged events adds.\<close>

definition staged_rows :: "StagedApplicationEvent list \<Rightarrow> ((pystr \<times> pystr) \<times> application_row) list" where
  "staged_rows es = map (\<lambda>e. ((app_producer e, app_event e),
     StagedApplicationEvent.extend e \<lparr>app_state = Outbox.INITIAL_STATE, app_confirmed_at = None\<rparr>)) es"

lemma stage_all_Inr:
  "stage_all es db = Inr (u, db') \<Longrightarrow> db' = db\<lparr>application_outbox := application_outbox db @ staged_rows es\<rparr>"
proof (induction es arbitrary: db)
  case (Cons e es)
  then obtain db1 where "db1 = db\<lparr>application_outbox := application_outbox db @ staged_rows [e]\<rparr>" "stage_all es db1 = Inr (u, db')"
    by (auto simp: stage_application_Inr staged_rows_def)
  with Cons.IH [of db1] show ?case by (simp add: staged_rows_def)
qed (simp add: staged_rows_def)

text \<open>The tables a normalization may write; a stored proposal stays.\<close>

definition normalized :: "database \<Rightarrow> database \<Rightarrow> bool" where
  "normalized db db' \<longleftrightarrow> (\<exists>a b c d. db' = db\<lparr>inbox := a, proposals := b, application_outbox := c, invocations := d\<rparr>)
     \<and> proposals db \<subseteq>\<^sub>m proposals db'"

lemma normalization_unit_cases:
  assumes "normalization_unit nfc i r trusted stamp db = Inr (x, db')"
  obtains v artifacts where "v = trusted" "build_normalization nfc r v stamp = Inr artifacts"
    "invocations db' (pending_invocation trusted) = Some trusted"
    "normalized db db'" "inbox_kept db db' \<and> completed i (norm_answer x) db'"
    "case norm_stored artifacts of None \<Rightarrow> proposals db' = proposals db
       | Some p \<Rightarrow> norm_outcome x = COMMITTED \<longrightarrow> proposals db' (prop_id p) = Some p"
proof -
  from assms obtain d1 db1 v artifacts oc db2 where
    pending: "record_pending trusted db = Inr (d1, db1)" and loaded: "load_pending (pending_invocation trusted) db1 = Inr (v, db1)"
    and built: "build_normalization nfc r v stamp = Inr artifacts" and oc: "inbox_claim i db1 = Inr (oc, db2)"
    and rest: "(if inbox_decision oc = InboxDecision.DUPLICATE
       then (case prior_result oc of
               None \<Rightarrow> raiseT (NormalizationError NormalizationRefusal.DUPLICATE_RESULT)
             | Some b \<Rightarrow> returnT \<lparr>norm_outcome = DUPLICATE, norm_answer = b\<rparr>)
       else bindT (case norm_stored artifacts of
                     None \<Rightarrow> returnT ()
                   | Some p \<Rightarrow> bindT (raising Stored (record_proposal p)) (\<lambda>_. returnT ())) (\<lambda>_.
            bindT (stage_all (norm_events artifacts)) (\<lambda>_.
            bindT (raising Stored (inbox_complete i (norm_result artifacts) (norm_occurred_at stamp))) (\<lambda>_.
              returnT \<lparr>norm_outcome = COMMITTED, norm_answer = norm_result artifacts\<rparr>)))) db2 = Inr (x, db')"
    by (auto simp: normalization_unit_def load_pending_Inr)
  from pending loaded have v: "v = trusted" "invocations db1 (pending_invocation trusted) = Some trusted"
    by (auto simp: record_pending_Inr load_pending_Inr split: option.splits)
  from pending have one: "\<exists>rows. db1 = db\<lparr>invocations := rows\<rparr>"
    by (auto simp: record_pending_Inr split: option.splits) (metis database.surjective database.update_convs(13))
  from inbox_claim_only [OF oc] obtain rows where two: "db2 = db1\<lparr>inbox := rows\<rparr>" by blast
  have kept: "inbox_kept db db2" using one inbox_claim_keeps [OF oc] by (auto simp: inbox_kept_def)
  show thesis
  proof (cases "inbox_decision oc = InboxDecision.DUPLICATE")
    case True
    with rest have "db' = db2" "norm_outcome x = DUPLICATE" "completed i (norm_answer x) db2"
      using inbox_claim_duplicate [OF oc True] by (auto split: option.splits)
    moreover from this one two have "normalized db db'"
      unfolding normalized_def by (cases db) auto
    ultimately show thesis using that [OF v(1) built] v one two kept by (auto split: option.splits)
  next
    case False
    with rest obtain db3 db4 u where
      stored: "(case norm_stored artifacts of
                     None \<Rightarrow> returnT ()
                   | Some p \<Rightarrow> bindT (raising Stored (record_proposal p)) (\<lambda>_. returnT ())) db2 = Inr ((), db3)"
      and staged: "stage_all (norm_events artifacts) db3 = Inr ((), db4)"
      and final: "inbox_complete i (norm_answer x) (norm_occurred_at stamp) db4 = Inr (u, db')"
      and x: "norm_outcome x = COMMITTED" by auto
    have grown: "proposals db2 \<subseteq>\<^sub>m proposals db3"
      using stored by (auto simp: record_proposal_Inr map_le_def split: option.splits)
    have three: "\<exists>rows. db3 = db2\<lparr>proposals := rows\<rparr>" and saved: "case norm_stored artifacts of None \<Rightarrow> proposals db3 = proposals db2
        | Some p \<Rightarrow> proposals db3 (prop_id p) = Some p"
      using stored by (auto simp: record_proposal_Inr split: option.splits)
        (metis database.surjective database.update_convs(5))+
    from final obtain rows' where five: "db' = db4\<lparr>inbox := rows'\<rparr>" by (auto simp: inbox_complete_Inr)
    note four = stage_all_Inr [OF staged]
    have "inbox db4 = inbox db2" using three four by auto
    with kept inbox_complete_keeps [OF final] have kept2: "inbox_kept db db' \<and> completed i (norm_answer x) db'"
      using inbox_kept_same inbox_kept_trans by blast
    have "normalized db db'" using one two three four five grown unfolding normalized_def by (cases db) auto
    then show thesis using that [OF v(1) built _ _ kept2] v one two three four five saved x by (auto split: option.splits)
  qed
qed

lemma handle_agent_response_effects:
  assumes "handle_agent_response nfc delivery stamp f db = (r, db')"
  shows "db' = db \<or> normalized db db' \<and> inbox_kept db db'"
proof -
  have "db' = db \<or> (\<exists>i r' trusted x. normalization_unit nfc i r' trusted stamp db = Inr (x, db'))"
    using assms transaction_database
    by (fastforce simp: handle_agent_response_def split: sum.splits AcceptedIngress.splits prod.splits)
  then show ?thesis using normalization_unit_cases by metis
qed

end
