(* ===== verification/Publication.thy ===== *)
theory Publication
  imports Authorization
begin

text \<open>
  \<open>services/command_gateway/src/aerial_rescue_command_gateway/publication.py\<close> and the outbox adapters of \<open>store_adapter.py\<close>:
  staged commands and application events are published in bounded, oldest-first batches. A publication the broker
  definitely refused stays staged; one whose fate is unknown is marked for reconciliation and is never
  published again. The broker's answer and the fate of the recording unit of work are the environment of each row.
\<close>

section \<open>Data\<close>

datatype publish_answer = Confirmed | Refused | Ambiguous | Failed

type_synonym broker = "nat \<Rightarrow> publish_answer \<times> fate"

record PublicationReport =
  report_confirmed :: nat
  report_ambiguous :: nat
  report_refused :: nat

definition APPLICATION_PRODUCER :: pystr where
  "APPLICATION_PRODUCER = lit ''command-gateway''"

definition COMMAND_TYPE_PREFIX :: pystr where
  "COMMAND_TYPE_PREFIX = lit ''aerial-rescue.v1.drone.command.''"

text \<open>One message handed to the publisher: its topic, its bytes, and what the broker answered.\<close>

type_synonym sent = "pystr \<times> bytes \<times> publish_answer"

section \<open>Commands\<close>

definition removeprefix :: "pystr \<Rightarrow> pystr \<Rightarrow> pystr" where
  "removeprefix p t = (if take (length p) t = p then drop (length p) t else t)"

definition command_binding_holds :: "StagedCommand \<Rightarrow> Envelope \<Rightarrow> pystr \<Rightarrow> bool" where
  "command_binding_holds c e kind \<longleftrightarrow>
     envelope_type e \<noteq> kind \<and> kind \<in> {lit ''assign-sector'', lit ''escalate-rescue''}
     \<and> get (data e) (lit ''missionId'') = PStr (cmd_mission c) \<and> get (data e) (lit ''droneId'') = PStr (cmd_drone c)
     \<and> get (data e) (lit ''commandId'') = PStr (cmd_id c)
     \<and> correlation_id e = cmd_correlation c \<and> causation_id e = cmd_causation c \<and> traceparent e = cmd_traceparent c"

definition publication_topic :: "(pystr \<Rightarrow> pystr) \<Rightarrow> StagedCommand \<Rightarrow> handler_error + pystr" where
  "publication_topic nfc c =
     (case decode_envelope nfc (cmd_payload c) of
        Inl (EnvelopeRefused error) \<Rightarrow>
          Inl (if is_value_error error then PublicationError COMMAND_BINDING else EnvelopeFailed error)
      | Inl (EnvelopeText error) \<Rightarrow> Inl (PublicationError COMMAND_BINDING)
      | Inr e \<Rightarrow>
          (let kind = removeprefix COMMAND_TYPE_PREFIX (envelope_type e)
           in if \<not> command_binding_holds c e kind then Inl (PublicationError COMMAND_BINDING)
              else let topic = \<lparr>family = DRONE_COMMAND, mission_id = cmd_mission c,
                         topic_parameters = [(lit ''droneId'', cmd_drone c), (lit ''commandType'', kind)]\<rparr>
                   in bindE (map_sum EnvelopeFailed id (check_topic_binding e topic)) (\<lambda>_.
                        map_sum TopicFailed id (format_topic topic))))"

text \<open>\<open>StoreCommandOutbox.record\<close>: the shape of the evidence, then the transition in its own unit of work.\<close>

definition record_outcome ::
    "fate \<Rightarrow> pystr \<Rightarrow> OutboxState \<Rightarrow> OutboxEvent \<Rightarrow> pystr option \<Rightarrow> database \<Rightarrow> (handler_error unit_error + unit) \<times> database" where
  "record_outcome f i was event confirmed_at db =
     (if \<not> (event = CONFIRM \<and> confirmed_at \<noteq> None \<or> event = AMBIGUOUS \<and> confirmed_at = None)
         \<or> (case confirmed_at of None \<Rightarrow> False | Some t \<Rightarrow> isl (parse_instant (PStr t)))
      then (Inl (Raised (StoreAdapterError StoreAdapterRefusal.CONFIRMATION)), db)
      else transaction f (raising Stored (bindT (Repositories.record_publication i was event) (\<lambda>_. returnT ()))) db)"

definition publish_one ::
    "(pystr \<Rightarrow> pystr) \<Rightarrow> publish_answer \<times> fate \<Rightarrow> pystr \<Rightarrow> CommandOutboxRecord \<Rightarrow> database
      \<Rightarrow> (handler_error unit_error + nat \<times> nat \<times> nat) \<times> database \<times> sent list" where
  "publish_one nfc reply confirmed_at row db =
     (if outbox_state row \<noteq> STAGED then (Inl (Raised (PublicationError OUTBOX_STATE)), db, [])
      else let c = outbox_command row
           in case publication_topic nfc c of
                Inl error \<Rightarrow> (Inl (Raised error), db, [])
              | Inr topic \<Rightarrow>
                  (let sent = [(topic, cmd_payload c, fst reply)]
                   in case fst reply of
                        Refused \<Rightarrow> (Inr (0, 0, 1), db, sent)
                      | Failed \<Rightarrow> (Inl (Raised (PublicationError PublicationRefusal.BROKER_OUTCOME)), db, sent)
                      | Ambiguous \<Rightarrow>
                          (case record_outcome (snd reply) (cmd_id c) (outbox_state row) AMBIGUOUS None db of
                             (Inl error, db') \<Rightarrow> (Inl error, db', sent)
                           | (Inr _, db') \<Rightarrow> (Inr (0, 1, 0), db', sent))
                      | Confirmed \<Rightarrow>
                          (case record_outcome (snd reply) (cmd_id c) (outbox_state row) CONFIRM (Some confirmed_at) db of
                             (Inl error, db') \<Rightarrow> (Inl error, db', sent)
                           | (Inr _, db') \<Rightarrow> (Inr (1, 0, 0), db', sent))))"

text \<open>The loop over the rows read; it stops at the first exception.\<close>

fun publish_rows ::
    "(pystr \<Rightarrow> pystr) \<Rightarrow> broker \<Rightarrow> nat \<Rightarrow> pystr \<Rightarrow> PublicationReport \<Rightarrow> CommandOutboxRecord list \<Rightarrow> database
      \<Rightarrow> (handler_error unit_error + PublicationReport) \<times> database \<times> sent list" where
  "publish_rows nfc broker n confirmed_at report [] db = (Inr report, db, [])"
| "publish_rows nfc broker n confirmed_at report (row # rows) db =
     (case publish_one nfc (broker n) confirmed_at row db of
        (Inl error, db', sent) \<Rightarrow> (Inl error, db', sent)
      | (Inr (c, a, r), db', sent) \<Rightarrow>
          (case publish_rows nfc broker (Suc n) confirmed_at
                  \<lparr>report_confirmed = report_confirmed report + c, report_ambiguous = report_ambiguous report + a,
                   report_refused = report_refused report + r\<rparr> rows db' of
             (result, db'', later) \<Rightarrow> (result, db'', sent @ later)))"

definition publish_batch ::
    "(pystr \<Rightarrow> pystr) \<Rightarrow> broker \<Rightarrow> fate \<Rightarrow> pystr \<Rightarrow> database
      \<Rightarrow> (handler_error unit_error + PublicationReport) \<times> database \<times> sent list" where
  "publish_batch nfc broker f confirmed_at db =
     (case transaction f (raising Stored (pending_commands STAGED COMMAND_PUBLICATION_BATCH_SIZE)) db of
        (Inl error, db') \<Rightarrow> (Inl error, db', [])
      | (Inr rows, db') \<Rightarrow>
          if COMMAND_PUBLICATION_BATCH_SIZE < int (length rows)
          then (Inl (Raised (PublicationError PublicationRefusal.BATCH_EXCEEDED)), db', [])
          else publish_rows nfc broker 0 confirmed_at \<lparr>report_confirmed = 0, report_ambiguous = 0, report_refused = 0\<rparr> rows db')"

definition reconcile_publication ::
    "CommandOutboxRecord \<Rightarrow> bool \<Rightarrow> fate \<Rightarrow> pystr \<Rightarrow> database \<Rightarrow> (handler_error unit_error + bool) \<times> database" where
  "reconcile_publication row evidence f confirmed_at db =
     (if outbox_state row \<noteq> RECONCILIATION_NEEDED then (Inl (Raised (PublicationError OUTBOX_STATE)), db)
      else if \<not> evidence then (Inr False, db)
      else (case record_outcome f (cmd_id (outbox_command row)) (outbox_state row) CONFIRM (Some confirmed_at) db of
              (Inl error, db') \<Rightarrow> (Inl error, db')
            | (Inr _, db') \<Rightarrow> (Inr True, db')))"

section \<open>Application events\<close>

definition application_binding_holds :: "application_row \<Rightarrow> Envelope \<Rightarrow> bool" where
  "application_binding_holds row e \<longleftrightarrow>
     envelope_id e = app_event row \<and> traceparent e = app_traceparent row \<and> tracestate e = app_tracestate row
     \<and> correlation_id e = app_correlation row \<and> causation_id e = app_causation row \<and> time e = app_staged_at row"

definition bind_application_event :: "(pystr \<Rightarrow> pystr) \<Rightarrow> application_row \<Rightarrow> Topic \<Rightarrow> handler_error + unit" where
  "bind_application_event nfc row topic =
     (case decode_envelope nfc (app_payload row) of
        Inl (EnvelopeRefused error) \<Rightarrow>
          Inl (if is_value_error error then ApplicationPublicationError IDENTITY else EnvelopeFailed error)
      | Inl (EnvelopeText error) \<Rightarrow> Inl (ApplicationPublicationError IDENTITY)
      | Inr e \<Rightarrow>
          (case check_topic_binding e topic of
             Inl error \<Rightarrow> Inl (if is_value_error error then ApplicationPublicationError IDENTITY else EnvelopeFailed error)
           | Inr _ \<Rightarrow>
               if application_binding_holds row e then Inr () else Inl (ApplicationPublicationError IDENTITY)))"

definition application_properties :: "(pystr \<Rightarrow> pystr) \<Rightarrow> application_row \<Rightarrow> handler_error + members" where
  "application_properties nfc row =
     (case ingress_topic (PStr (app_topic row)) of
        Inl IngressKeyError \<Rightarrow> Inl (Ingressed IngressKeyError)
      | Inl (IngressError kind) \<Rightarrow> Inl (ApplicationPublicationError IDENTITY)
      | Inr topic \<Rightarrow>
          if app_producer row \<noteq> APPLICATION_PRODUCER \<or> app_family row \<noteq> outbox_family (family topic)
          then Inl (ApplicationPublicationError IDENTITY)
          else bindE (bind_application_event nfc row topic) (\<lambda>_.
            case decode_bytes nfc (app_headers row) of
              Inl error \<Rightarrow> Inl (ApplicationPublicationError HEADERS)
            | Inr (PDict d) \<Rightarrow>
                if list_all (\<lambda>k. case k of KStr t \<Rightarrow> True | KObj t \<Rightarrow> False) (dict_keys d) then Inr d
                else Inl (ApplicationPublicationError HEADERS)
            | Inr _ \<Rightarrow> Inl (ApplicationPublicationError HEADERS)))"

definition record_application ::
    "fate \<Rightarrow> application_row \<Rightarrow> OutboxEvent \<Rightarrow> pystr option \<Rightarrow> database \<Rightarrow> (handler_error unit_error + unit) \<times> database" where
  "record_application f row event confirmed_at db =
     transaction f (raising Stored (bindT
       (record_application_publication (app_producer row, app_event row) STAGED event confirmed_at) (\<lambda>_. returnT ()))) db"

definition publish_event ::
    "(pystr \<Rightarrow> pystr) \<Rightarrow> publish_answer \<times> fate \<Rightarrow> pystr \<Rightarrow> application_row \<Rightarrow> database
      \<Rightarrow> (handler_error unit_error + nat \<times> nat \<times> nat) \<times> database \<times> sent list" where
  "publish_event nfc reply confirmed_at row db =
     (case application_properties nfc row of
        Inl error \<Rightarrow> (Inl (Raised error), db, [])
      | Inr headers \<Rightarrow>
          (let sent = [(app_topic row, app_payload row, fst reply)]
           in case fst reply of
                Refused \<Rightarrow> (Inr (0, 0, 1), db, sent)
              | Failed \<Rightarrow> (Inl (Raised (ApplicationPublicationError BROKER_OUTCOME)), db, sent)
              | Ambiguous \<Rightarrow>
                  (case record_application (snd reply) row AMBIGUOUS None db of
                     (Inl error, db') \<Rightarrow> (Inl error, db', sent)
                   | (Inr _, db') \<Rightarrow> (Inr (0, 1, 0), db', sent))
              | Confirmed \<Rightarrow>
                  (case record_application (snd reply) row CONFIRM (Some confirmed_at) db of
                     (Inl error, db') \<Rightarrow> (Inl error, db', sent)
                   | (Inr _, db') \<Rightarrow> (Inr (1, 0, 0), db', sent))))"

fun publish_events ::
    "(pystr \<Rightarrow> pystr) \<Rightarrow> broker \<Rightarrow> nat \<Rightarrow> pystr \<Rightarrow> PublicationReport \<Rightarrow> application_row list \<Rightarrow> database
      \<Rightarrow> (handler_error unit_error + PublicationReport) \<times> database \<times> sent list" where
  "publish_events nfc broker n confirmed_at report [] db = (Inr report, db, [])"
| "publish_events nfc broker n confirmed_at report (row # rows) db =
     (case publish_event nfc (broker n) confirmed_at row db of
        (Inl error, db', sent) \<Rightarrow> (Inl error, db', sent)
      | (Inr (c, a, r), db', sent) \<Rightarrow>
          (case publish_events nfc broker (Suc n) confirmed_at
                  \<lparr>report_confirmed = report_confirmed report + c, report_ambiguous = report_ambiguous report + a,
                   report_refused = report_refused report + r\<rparr> rows db' of
             (result, db'', later) \<Rightarrow> (result, db'', sent @ later)))"

definition publish_application_batch ::
    "(pystr \<Rightarrow> pystr) \<Rightarrow> broker \<Rightarrow> fate \<Rightarrow> pystr \<Rightarrow> database
      \<Rightarrow> (handler_error unit_error + nat \<times> PublicationReport) \<times> database \<times> sent list" where
  "publish_application_batch nfc broker f confirmed_at db =
     (case parse_instant (PStr confirmed_at) of
        Inl error \<Rightarrow> (Inl (Raised (ApplicationPublicationError ApplicationPublicationRefusal.CONFIRMATION)), db, [])
      | Inr _ \<Rightarrow>
          (case transaction f (raising Stored (pending_application APPLICATION_PRODUCER)) db of
             (Inl error, db') \<Rightarrow> (Inl error, db', [])
           | (Inr rows, db') \<Rightarrow>
               if APPLICATION_OUTBOX_BATCH_SIZE < length rows
               then (Inl (Raised (ApplicationPublicationError ApplicationPublicationRefusal.BATCH_EXCEEDED)), db', [])
               else (case publish_events nfc broker 0 confirmed_at
                            \<lparr>report_confirmed = 0, report_ambiguous = 0, report_refused = 0\<rparr> rows db' of
                       (Inl error, db'', sent) \<Rightarrow> (Inl error, db'', sent)
                     | (Inr report, db'', sent) \<Rightarrow> (Inr (length rows, report), db'', sent))))"

section \<open>Outbox rows only move forward\<close>

text \<open>The states a row may be in after it was in a state.\<close>

fun outbox_later :: "OutboxState \<Rightarrow> OutboxState \<Rightarrow> bool" where
  "outbox_later STAGED s = True"
| "outbox_later RECONCILIATION_NEEDED s = (s \<noteq> STAGED)"
| "outbox_later CONFIRMED s = (s = CONFIRMED)"

lemma outbox_later_refl [simp]: "outbox_later s s" by (cases s) simp_all

lemma outbox_later_trans: "outbox_later s t \<Longrightarrow> outbox_later t u \<Longrightarrow> outbox_later s u"
  by (cases s; cases t; cases u) simp_all

lemma transition_later: "Outbox.transition s e = Inr s' \<Longrightarrow> outbox_later s s' \<and> s' \<noteq> STAGED"
  by (cases s; cases e) (auto simp: outbox_transition_iff Outbox.TRANSITIONS_def)

text \<open>The command outbox keeps its rows, their order and their commands; no row goes back.\<close>

definition row_advanced :: "pystr \<times> CommandOutboxRecord \<Rightarrow> pystr \<times> CommandOutboxRecord \<Rightarrow> bool" where
  "row_advanced p q \<longleftrightarrow> fst q = fst p \<and> outbox_command (snd q) = outbox_command (snd p)
     \<and> outbox_later (outbox_state (snd p)) (outbox_state (snd q))"

definition commands_advanced :: "database \<Rightarrow> database \<Rightarrow> bool" where
  "commands_advanced db db' \<longleftrightarrow>
     (\<exists>rows. db' = db\<lparr>command_outbox := rows\<rparr> \<and> list_all2 row_advanced (command_outbox db) rows)"

lemma row_advanced_refl: "row_advanced p p" by (simp add: row_advanced_def)

lemma row_advanced_trans: "row_advanced p q \<Longrightarrow> row_advanced q r \<Longrightarrow> row_advanced p r"
  by (auto simp: row_advanced_def intro: outbox_later_trans)

lemma commands_advanced_refl [simp]: "commands_advanced db db"
  unfolding commands_advanced_def
  by (rule exI [of _ "command_outbox db"]) (simp add: list.rel_refl row_advanced_refl)

lemma commands_advanced_trans [trans]: "commands_advanced a b \<Longrightarrow> commands_advanced b c \<Longrightarrow> commands_advanced a c"
  unfolding commands_advanced_def
  using list_all2_trans [of row_advanced row_advanced row_advanced, OF row_advanced_trans] by force

lemma record_outcome_advanced:
  assumes "record_outcome f i was event at db = (r, db')"
  shows "commands_advanced db db'"
proof -
  have "db' = db \<or> (\<exists>became. Outbox.transition was event = Inr became \<and> publication_statement i was became db = (True, db'))"
    using assms transaction_database
    by (fastforce simp: record_outcome_def Repositories.record_publication_def scalar_or_Inr Exchange.map_sum_Inr split: if_splits)
  then show ?thesis
  proof
    assume "\<exists>became. Outbox.transition was event = Inr became \<and> publication_statement i was became db = (True, db')"
    then obtain became where b: "outbox_later was became" "publication_statement i was became db = (True, db')"
      using transition_later by blast
    let ?f = "\<lambda>(k, row). if k = i \<and> outbox_state row = was then (k, row\<lparr>outbox_state := became\<rparr>) else (k, row)"
    have "row_advanced p (?f p)" for p using b(1) by (cases p) (auto simp: row_advanced_def)
    then have "list_all2 row_advanced (command_outbox db) (map ?f (command_outbox db))"
      by (simp add: list_all2_map2 list_all2_same)
    with b(2) show ?thesis unfolding commands_advanced_def publication_statement_def Let_def by auto
  qed simp
qed

lemma publish_one_advanced: "publish_one nfc reply at row db = (r, db', sent) \<Longrightarrow> commands_advanced db db'"
  by (auto simp: publish_one_def Let_def dest: record_outcome_advanced
      split: if_splits sum.splits publish_answer.splits prod.splits)

lemma publish_rows_advanced:
  "publish_rows nfc broker n at report rows db = (r, db', sent) \<Longrightarrow> commands_advanced db db'"
proof (induction rows arbitrary: n report db r db' sent)
  case (Cons row rows)
  obtain x db1 sent1 where one: "publish_one nfc (broker n) at row db = (x, db1, sent1)" by (metis prod_cases3)
  note first = publish_one_advanced [OF one]
  from Cons one first commands_advanced_trans show ?case
    by (fastforce split: sum.splits prod.splits)
qed simp

text \<open>Each row of a batch that returns is counted once.\<close>

definition report_total :: "PublicationReport \<Rightarrow> nat" where
  "report_total r = report_confirmed r + report_ambiguous r + report_refused r"

lemma publish_one_counts: "publish_one nfc reply at row db = (Inr (c, a, r), db', sent) \<Longrightarrow> c + a + r = 1"
  by (auto simp: publish_one_def Let_def split: if_splits sum.splits publish_answer.splits prod.splits)

lemma publish_rows_counts:
  "publish_rows nfc broker n at report rows db = (Inr report', db', sent) \<Longrightarrow> report_total report' = report_total report + length rows"
proof (induction rows arbitrary: n report db db' sent)
  case (Cons row rows)
  obtain x db1 sent1 where one: "publish_one nfc (broker n) at row db = (x, db1, sent1)" by (metis prod_cases3)
  with Cons.prems obtain c a r where x: "x = Inr (c, a, r)" by (cases x) auto
  with Cons.prems one obtain sent' where
    "publish_rows nfc broker (Suc n) at \<lparr>report_confirmed = report_confirmed report + c, report_ambiguous = report_ambiguous report + a,
                   report_refused = report_refused report + r\<rparr> rows db1 = (Inr report', db', sent')"
    by (auto split: prod.splits)
  from Cons.IH [OF this] publish_one_counts [OF one [unfolded x]] show ?case by (simp add: report_total_def)
qed simp

lemma publish_batch_advanced: "publish_batch nfc broker f at db = (r, db', sent) \<Longrightarrow> commands_advanced db db'"
proof -
  assume *: "publish_batch nfc broker f at db = (r, db', sent)"
  obtain x db1 where t: "transaction f (raising Stored (pending_commands STAGED COMMAND_PUBLICATION_BATCH_SIZE)) db = (x, db1)"
    by fastforce
  have "db1 = db" using transaction_database [OF t] by (auto simp: pending_commands_def split: if_splits)
  with * t publish_rows_advanced show ?thesis by (fastforce simp: publish_batch_def split: sum.splits if_splits)
qed

section \<open>Application events\<close>

definition events_written :: "database \<Rightarrow> database \<Rightarrow> bool" where
  "events_written db db' \<longleftrightarrow> (\<exists>rows. db' = db\<lparr>application_outbox := rows\<rparr>)"

lemma events_written_refl [simp]: "events_written db db"
  unfolding events_written_def by (rule exI [of _ "application_outbox db"]) simp

lemma events_written_trans: "events_written a b \<Longrightarrow> events_written b c \<Longrightarrow> events_written a c"
  by (auto simp: events_written_def)

lemma record_application_publication_written: "record_application_publication i was event at db = Inr (s, db') \<Longrightarrow> events_written db db'"
  by (auto simp: record_application_publication_def application_publication_statement_def scalar_or_Inr events_written_def
      split: if_splits)

lemma record_application_written: "record_application f row event at db = (r, db') \<Longrightarrow> events_written db db'"
  unfolding record_application_def
  by (drule transaction_database) (auto dest: record_application_publication_written)

lemma publish_event_written: "publish_event nfc reply at row db = (r, db', sent) \<Longrightarrow> events_written db db'"
  by (auto simp: publish_event_def Let_def dest: record_application_written
      split: if_splits sum.splits publish_answer.splits prod.splits)

lemma publish_events_written:
  "publish_events nfc broker n at report rows db = (r, db', sent) \<Longrightarrow> events_written db db'"
proof (induction rows arbitrary: n report db r db' sent)
  case (Cons row rows)
  obtain x db1 sent1 where one: "publish_event nfc (broker n) at row db = (x, db1, sent1)" by (metis prod_cases3)
  note first = publish_event_written [OF one]
  from Cons one first events_written_trans show ?case
    by (fastforce split: sum.splits prod.splits)
qed simp

lemma publish_application_batch_cases:
  assumes "publish_application_batch nfc broker f at db = (r, db', sent)"
  shows "events_written db db'" "r = Inr (n, report) \<Longrightarrow> n = length (selection_statement APPLICATION_PRODUCER STAGED db)"
    "r = Inr (0, report) \<Longrightarrow> db' = db \<and> sent = []"
proof -
  obtain x db1 where t: "transaction f (raising Stored (pending_application APPLICATION_PRODUCER)) db = (x, db1)"
    by fastforce
  have db1: "db1 = db" using transaction_database [OF t] by (auto simp: pending_application_def split: option.splits)
  have rows: "rows = selection_statement APPLICATION_PRODUCER STAGED db" if "x = Inr rows" for rows
    using t that by (auto simp: transaction_Inr pending_application_def split: option.splits)
  have *: "events_written db db' \<and> (r = Inr (n, report) \<longrightarrow> n = length (selection_statement APPLICATION_PRODUCER STAGED db))
    \<and> (r = Inr (0, report) \<longrightarrow> db' = db \<and> sent = [])" for n report
    using assms t db1 rows publish_events_written
    by (fastforce simp: publish_application_batch_def split: sum.splits if_splits prod.splits)
  then show "events_written db db'" "r = Inr (n, report) \<Longrightarrow> n = length (selection_statement APPLICATION_PRODUCER STAGED db)"
    "r = Inr (0, report) \<Longrightarrow> db' = db \<and> sent = []" by blast+
qed

lemma publish_batch_empty:
  assumes "publish_batch nfc broker f at db = (Inr report, db', sent)" "report_total report = 0"
  shows "pending_statement STAGED COMMAND_PUBLICATION_BATCH_SIZE db = [] \<and> db' = db \<and> sent = []"
proof -
  obtain x db1 where t: "transaction f (raising Stored (pending_commands STAGED COMMAND_PUBLICATION_BATCH_SIZE)) db = (x, db1)"
    by fastforce
  with assms(1) obtain rows where x: "x = Inr rows" by (cases x) (auto simp: publish_batch_def)
  with t have rows: "rows = pending_statement STAGED COMMAND_PUBLICATION_BATCH_SIZE db" "db1 = db"
    by (auto simp: transaction_Inr pending_commands_def split: if_splits)
  from assms(1) t x have run: "publish_rows nfc broker 0 at \<lparr>report_confirmed = 0, report_ambiguous = 0, report_refused = 0\<rparr> rows db1
      = (Inr report, db', sent)"
    by (auto simp: publish_batch_def split: if_splits)
  from publish_rows_counts [OF this] assms(2) have "rows = []" by (simp add: report_total_def)
  with run rows show ?thesis by simp
qed

text \<open>What a bounded read of the oldest rows finds when it finds nothing.\<close>

lemma sort_key_empty: "sort_key f xs = [] \<longleftrightarrow> xs = []"
  by (metis length_0_conv length_sort)

lemma pending_statement_empty:
  "pending_statement s COMMAND_PUBLICATION_BATCH_SIZE db = [] \<longleftrightarrow> list_all (\<lambda>(k, row). outbox_state row \<noteq> s) (command_outbox db)"
  by (auto simp: sort_key_empty pending_statement_def COMMAND_PUBLICATION_BATCH_SIZE_def filter_empty_conv list_all_iff split: prod.splits)

lemma selection_statement_empty:
  "selection_statement producer s db = []
     \<longleftrightarrow> list_all (\<lambda>(k, row). \<not> (app_producer row = producer \<and> app_state row = s)) (application_outbox db)"
  by (auto simp: sort_key_empty selection_statement_def APPLICATION_OUTBOX_BATCH_SIZE_def filter_empty_conv list_all_iff split: prod.splits)

end
