(* ===== verification/Readiness.thy ===== *)
theory Readiness
  imports Prelude
begin

text \<open>
  \<open>packages/broker/src/aerial_rescue_broker/messaging.py\<close>, \<open>BrokerLifecycle\<close>: the readiness signal that the listeners of
  the broker client and the application update. Every method holds one lock, so a history of calls is a sequence. A
  publisher is named by its identity, \<open>None\<close> being the anonymous one; times are milliseconds.
\<close>

section \<open>The signal\<close>

datatype BrokerLifecycleState = STARTING | CONNECTED | RECOVERING | RECOVERY_PENDING | EXHAUSTED | CLOSED

record BrokerLifecycle =
  broker_state :: BrokerLifecycleState
  application_ready :: bool
  blocked_publishers :: "pystr option set"
  registered_receivers :: "pystr set"
  active_receivers :: "pystr set"
  receiver_event_times :: "pystr \<rightharpoonup> int"
  transport_event_time :: "int option"
  reconnect_cutoff :: "int option"

definition STARTED :: BrokerLifecycle where
  "STARTED = \<lparr>broker_state = STARTING, application_ready = False, blocked_publishers = {}, registered_receivers = {},
     active_receivers = {}, receiver_event_times = Map.empty, transport_event_time = None, reconnect_cutoff = None\<rparr>"

definition terminal_unlocked :: "BrokerLifecycle \<Rightarrow> bool" where
  "terminal_unlocked s \<longleftrightarrow> broker_state s \<in> {EXHAUSTED, CLOSED}"

definition all_receivers_active :: "BrokerLifecycle \<Rightarrow> bool" where
  "all_receivers_active s \<longleftrightarrow> registered_receivers s \<subseteq> active_receivers s"

definition is_ready :: "BrokerLifecycle \<Rightarrow> bool" where
  "is_ready s \<longleftrightarrow> broker_state s = CONNECTED \<and> application_ready s \<and> blocked_publishers s = {} \<and> all_receivers_active s"

text \<open>A callback is accepted unless a newer one was; the time of the newest is kept.\<close>

definition accept_receiver_event :: "pystr \<Rightarrow> int option \<Rightarrow> BrokerLifecycle \<Rightarrow> bool \<times> BrokerLifecycle" where
  "accept_receiver_event r at s =
     (case at of
        None \<Rightarrow> (True, s)
      | Some t \<Rightarrow>
          (case receiver_event_times s r of
             None \<Rightarrow> (True, s\<lparr>receiver_event_times := (receiver_event_times s)(r \<mapsto> t)\<rparr>)
           | Some previous \<Rightarrow>
               if t < previous then (False, s)
               else (True, s\<lparr>receiver_event_times := (receiver_event_times s)(r \<mapsto> t)\<rparr>)))"

definition in_recovery_epoch :: "int option \<Rightarrow> BrokerLifecycle \<Rightarrow> bool" where
  "in_recovery_epoch at s =
     (case (at, reconnect_cutoff s) of (Some t, Some cutoff) \<Rightarrow> cutoff \<le> t | _ \<Rightarrow> True)"

definition accept_transport_event :: "int option \<Rightarrow> BrokerLifecycle \<Rightarrow> bool \<times> BrokerLifecycle" where
  "accept_transport_event at s =
     (case at of
        None \<Rightarrow> (True, s\<lparr>transport_event_time := None\<rparr>)
      | Some t \<Rightarrow>
          (case transport_event_time s of
             None \<Rightarrow> (True, s\<lparr>transport_event_time := Some t\<rparr>)
           | Some previous \<Rightarrow> if t < previous then (False, s) else (True, s\<lparr>transport_event_time := Some t\<rparr>)))"

definition connected :: "BrokerLifecycle \<Rightarrow> BrokerLifecycle" where
  "connected s =
     (if terminal_unlocked s then s
      else s\<lparr>broker_state := CONNECTED, application_ready := False, active_receivers := {},
             receiver_event_times := Map.empty, transport_event_time := None, reconnect_cutoff := None\<rparr>)"

definition mark_ready :: "BrokerLifecycle \<Rightarrow> BrokerLifecycle" where
  "mark_ready s =
     (if broker_state s \<in> {CONNECTED, RECOVERY_PENDING}
      then (let s = s\<lparr>application_ready := True\<rparr> in if all_receivers_active s then s\<lparr>broker_state := CONNECTED\<rparr> else s)
      else s)"

definition receiver_registered :: "pystr \<Rightarrow> BrokerLifecycle \<Rightarrow> BrokerLifecycle" where
  "receiver_registered r s =
     (if terminal_unlocked s then s
      else s\<lparr>registered_receivers := insert r (registered_receivers s), active_receivers := active_receivers s - {r},
             receiver_event_times := (receiver_event_times s)(r := None), application_ready := False\<rparr>)"

text \<open>The test of a flow callback, with the time it records; the epoch is only asked for an accepted callback.\<close>

definition flow_event :: "pystr \<Rightarrow> int option \<Rightarrow> BrokerLifecycle \<Rightarrow> bool \<times> BrokerLifecycle" where
  "flow_event r at s =
     (if terminal_unlocked s \<or> r \<notin> registered_receivers s then (False, s)
      else (case accept_receiver_event r at s of (accepted, s') \<Rightarrow> (accepted \<and> in_recovery_epoch at s', s')))"

definition receiver_active :: "pystr \<Rightarrow> int option \<Rightarrow> BrokerLifecycle \<Rightarrow> BrokerLifecycle" where
  "receiver_active r at s =
     (case flow_event r at s of
        (False, s) \<Rightarrow> s
      | (True, s) \<Rightarrow>
          (let s = s\<lparr>active_receivers := insert r (active_receivers s)\<rparr>
           in if broker_state s = RECOVERY_PENDING \<and> application_ready s \<and> all_receivers_active s
              then s\<lparr>broker_state := CONNECTED\<rparr> else s))"

definition receiver_passive :: "pystr \<Rightarrow> int option \<Rightarrow> BrokerLifecycle \<Rightarrow> BrokerLifecycle" where
  "receiver_passive r at s =
     (case flow_event r at s of
        (False, s) \<Rightarrow> s
      | (True, s) \<Rightarrow>
          (let s = s\<lparr>active_receivers := active_receivers s - {r}, application_ready := False\<rparr>
           in if broker_state s = CONNECTED then s\<lparr>broker_state := RECOVERY_PENDING\<rparr> else s))"

definition publisher_blocked :: "pystr option \<Rightarrow> BrokerLifecycle \<Rightarrow> BrokerLifecycle" where
  "publisher_blocked p s =
     (if terminal_unlocked s then s
      else s\<lparr>blocked_publishers := insert p (blocked_publishers s), application_ready := False\<rparr>)"

definition recovery_required :: "BrokerLifecycle \<Rightarrow> BrokerLifecycle" where
  "recovery_required s = (if terminal_unlocked s then s else s\<lparr>application_ready := False\<rparr>)"

definition publisher_available :: "pystr option \<Rightarrow> BrokerLifecycle \<Rightarrow> BrokerLifecycle" where
  "publisher_available p s =
     (if terminal_unlocked s then s else s\<lparr>blocked_publishers := blocked_publishers s - {p}\<rparr>)"

definition reconnecting :: "int option \<Rightarrow> BrokerLifecycle \<Rightarrow> BrokerLifecycle" where
  "reconnecting at s =
     (if terminal_unlocked s then s
      else (case accept_transport_event at s of
              (False, s) \<Rightarrow> s
            | (True, s) \<Rightarrow>
                s\<lparr>broker_state := RECOVERING, application_ready := False, reconnect_cutoff := at,
                  active_receivers := {r \<in> active_receivers s.
                    case (at, receiver_event_times s r) of (Some t, Some u) \<Rightarrow> t \<le> u | _ \<Rightarrow> False}\<rparr>))"

definition reconnected :: "int option \<Rightarrow> BrokerLifecycle \<Rightarrow> BrokerLifecycle" where
  "reconnected at s =
     (if terminal_unlocked s then s
      else (case accept_transport_event at s of
              (False, s) \<Rightarrow> s
            | (True, s) \<Rightarrow> s\<lparr>broker_state := RECOVERY_PENDING, application_ready := False\<rparr>))"

definition exhausted :: "BrokerLifecycle \<Rightarrow> BrokerLifecycle" where
  "exhausted s = s\<lparr>broker_state := EXHAUSTED, application_ready := False, active_receivers := {}\<rparr>"

definition closed :: "BrokerLifecycle \<Rightarrow> BrokerLifecycle" where
  "closed s = s\<lparr>broker_state := CLOSED, application_ready := False, active_receivers := {}\<rparr>"

section \<open>Histories\<close>

datatype signal =
    Connected | MarkReady | Registered pystr | Active pystr "int option" | Passive pystr "int option"
  | Blocked "pystr option" | RecoveryRequired | Available "pystr option"
  | Reconnecting "int option" | Reconnected "int option" | Exhausted | Closed

fun signalled :: "signal \<Rightarrow> BrokerLifecycle \<Rightarrow> BrokerLifecycle" where
  "signalled Connected s = connected s"
| "signalled MarkReady s = mark_ready s"
| "signalled (Registered r) s = receiver_registered r s"
| "signalled (Active r t) s = receiver_active r t s"
| "signalled (Passive r t) s = receiver_passive r t s"
| "signalled (Blocked p) s = publisher_blocked p s"
| "signalled RecoveryRequired s = recovery_required s"
| "signalled (Available p) s = publisher_available p s"
| "signalled (Reconnecting t) s = reconnecting t s"
| "signalled (Reconnected t) s = reconnected t s"
| "signalled Exhausted s = exhausted s"
| "signalled Closed s = closed s"

definition history :: "signal list \<Rightarrow> BrokerLifecycle" where
  "history es = fold signalled es STARTED"

lemma history_snoc [simp]: "history [] = STARTED" "history (es @ [e]) = signalled e (history es)"
  by (simp_all add: history_def)

lemmas signal_defs = connected_def mark_ready_def receiver_registered_def receiver_active_def receiver_passive_def
  publisher_blocked_def recovery_required_def publisher_available_def reconnecting_def reconnected_def exhausted_def closed_def
  flow_event_def accept_receiver_event_def accept_transport_event_def in_recovery_epoch_def terminal_unlocked_def
  all_receivers_active_def Let_def

text \<open>The listeners of the client report the time of every callback.\<close>

fun timed :: "signal \<Rightarrow> bool" where
  "timed (Active r t) \<longleftrightarrow> t \<noteq> None"
| "timed (Passive r t) \<longleftrightarrow> t \<noteq> None"
| "timed (Reconnecting t) \<longleftrightarrow> t \<noteq> None"
| "timed (Reconnected t) \<longleftrightarrow> t \<noteq> None"
| "timed e \<longleftrightarrow> True"

text \<open>What takes readiness away: everything that says that the transport, a flow, a publisher or the durable
  outboxes may be behind, unless a newer callback of the same kind was already seen.\<close>

fun interrupts :: "BrokerLifecycle \<Rightarrow> signal \<Rightarrow> bool" where
  "interrupts s MarkReady \<longleftrightarrow> False"
| "interrupts s (Active r t) \<longleftrightarrow> False"
| "interrupts s (Available p) \<longleftrightarrow> False"
| "interrupts s (Passive r t) \<longleftrightarrow> fst (flow_event r t s)"
| "interrupts s (Reconnecting t) \<longleftrightarrow> fst (accept_transport_event t s)"
| "interrupts s (Reconnected t) \<longleftrightarrow> fst (accept_transport_event t s)"
| "interrupts s e \<longleftrightarrow> True"

text \<open>The history since the application last completed its recovery on a connected transport.\<close>

definition recovered :: "signal list \<Rightarrow> bool" where
  "recovered es \<longleftrightarrow> (\<exists>pre post. es = pre @ MarkReady # post \<and> broker_state (history pre) \<in> {CONNECTED, RECOVERY_PENDING}
     \<and> (\<forall>mid e rest. post = mid @ e # rest \<longrightarrow> \<not> interrupts (history (pre @ MarkReady # mid)) e))"

lemma ready_state: "application_ready (history es) \<Longrightarrow> broker_state (history es) \<in> {CONNECTED, RECOVERY_PENDING}"
proof (induction es rule: rev_induct)
  case Nil
  then show ?case by (simp add: STARTED_def)
next
  case (snoc e es)
  then show ?case
    by (cases e) (auto simp: signal_defs split: if_splits option.splits prod.splits bool.splits)
qed

lemma application_ready_step:
  assumes "application_ready s \<Longrightarrow> broker_state s \<in> {CONNECTED, RECOVERY_PENDING}"
  shows "application_ready (signalled e s) \<longleftrightarrow>
     e = MarkReady \<and> broker_state s \<in> {CONNECTED, RECOVERY_PENDING} \<or> application_ready s \<and> \<not> interrupts s e"
  using assms by (cases e) (auto simp: signal_defs split: if_splits option.splits prod.splits bool.splits)

lemma recovered_snoc:
  "recovered (es @ [e]) \<longleftrightarrow>
     e = MarkReady \<and> broker_state (history es) \<in> {CONNECTED, RECOVERY_PENDING} \<or> recovered es \<and> \<not> interrupts (history es) e"
proof
  assume "recovered (es @ [e])"
  then obtain pre post where split: "es @ [e] = pre @ MarkReady # post" and ok: "broker_state (history pre) \<in> {CONNECTED, RECOVERY_PENDING}"
    and calm: "\<And>mid e rest. post = mid @ e # rest \<Longrightarrow> \<not> interrupts (history (pre @ MarkReady # mid)) e"
    by (auto simp: recovered_def)
  show "e = MarkReady \<and> broker_state (history es) \<in> {CONNECTED, RECOVERY_PENDING} \<or> recovered es \<and> \<not> interrupts (history es) e"
  proof (cases post rule: rev_cases)
    case Nil
    with split ok show ?thesis by simp
  next
    case (snoc post' x)
    with split have es: "es = pre @ MarkReady # post'" "x = e" by simp_all
    from calm [of post' x "[]"] snoc es have "\<not> interrupts (history es) e" by simp
    moreover have "recovered es"
      unfolding recovered_def using es ok calm snoc by (intro exI [of _ pre] exI [of _ post']) auto
    ultimately show ?thesis by blast
  qed
next
  assume "e = MarkReady \<and> broker_state (history es) \<in> {CONNECTED, RECOVERY_PENDING} \<or> recovered es \<and> \<not> interrupts (history es) e"
  then show "recovered (es @ [e])"
  proof
    assume "e = MarkReady \<and> broker_state (history es) \<in> {CONNECTED, RECOVERY_PENDING}"
    then show ?thesis unfolding recovered_def by (intro exI [of _ es] exI [of _ "[]"]) simp
  next
    assume *: "recovered es \<and> \<not> interrupts (history es) e"
    then obtain pre post where es: "es = pre @ MarkReady # post" and ok: "broker_state (history pre) \<in> {CONNECTED, RECOVERY_PENDING}"
      and calm: "\<And>mid e rest. post = mid @ e # rest \<Longrightarrow> \<not> interrupts (history (pre @ MarkReady # mid)) e"
      by (auto simp: recovered_def)
    have "\<not> interrupts (history (pre @ MarkReady # mid)) x" if "post @ [e] = mid @ x # rest" for mid x rest
      using that calm * es by (cases rest rule: rev_cases) auto
    then show ?thesis unfolding recovered_def using es ok by (intro exI [of _ pre] exI [of _ "post @ [e]"]) simp
  qed
qed

lemma application_ready_recovered: "application_ready (history es) \<longleftrightarrow> recovered es"
proof (induction es rule: rev_induct)
  case Nil
  show ?case by (simp add: recovered_def STARTED_def)
next
  case (snoc e es)
  have "broker_state (history es) \<in> {CONNECTED, RECOVERY_PENDING}" if "application_ready (history es)"
    using that by (rule ready_state)
  from application_ready_step [OF this] snoc show ?case by (simp add: recovered_snoc)
qed

text \<open>An active flow was reported active, and its newest report is not older than the last reconnect attempt.\<close>

definition not_before :: "int \<Rightarrow> int option \<Rightarrow> bool" where
  "not_before t cutoff \<longleftrightarrow> (case cutoff of None \<Rightarrow> True | Some c \<Rightarrow> c \<le> t)"

definition vouched_active :: "signal list \<Rightarrow> pystr \<Rightarrow> bool" where
  "vouched_active es r \<longleftrightarrow> (\<exists>t. receiver_event_times (history es) r = Some t \<and> Active r (Some t) \<in> set es
     \<and> not_before t (reconnect_cutoff (history es)))"

lemma flow_event_fields:
  assumes "flow_event q (Some t) s = (ok, s')"
  shows "active_receivers s' = active_receivers s" "reconnect_cutoff s' = reconnect_cutoff s"
    "ok \<Longrightarrow> receiver_event_times s' = (receiver_event_times s)(q \<mapsto> t)" "ok \<Longrightarrow> not_before t (reconnect_cutoff s)"
    "\<not> ok \<Longrightarrow> receiver_event_times s q = Some u \<Longrightarrow> not_before u (reconnect_cutoff s) \<Longrightarrow> s' = s"
    "q \<noteq> r \<Longrightarrow> receiver_event_times s' r = receiver_event_times s r"
  using assms by (auto simp: signal_defs not_before_def split: if_splits option.splits)

lemma accept_transport_event_fields:
  "accept_transport_event at s = (ok, s') \<Longrightarrow> receiver_event_times s' = receiver_event_times s
     \<and> active_receivers s' = active_receivers s \<and> reconnect_cutoff s' = reconnect_cutoff s"
  by (auto simp: accept_transport_event_def split: option.splits if_splits)

lemma active_step:
  assumes "timed e" "r \<in> active_receivers (signalled e s)"
  obtains (reported) t where "e = Active r (Some t)" "receiver_event_times (signalled e s) r = Some t"
      "not_before t (reconnect_cutoff (signalled e s))"
  | (kept) "r \<in> active_receivers s"
      "\<And>t. receiver_event_times s r = Some t \<Longrightarrow> not_before t (reconnect_cutoff s)
         \<Longrightarrow> receiver_event_times (signalled e s) r = Some t \<and> not_before t (reconnect_cutoff (signalled e s))"
proof (cases e)
  case (Active q at)
  with assms(1) obtain t where at: "at = Some t" by auto
  obtain ok s' where f: "flow_event q (Some t) s = (ok, s')" by fastforce
  have "signalled e s = s' \<or> ok \<and> receiver_event_times (signalled e s) = receiver_event_times s'
     \<and> reconnect_cutoff (signalled e s) = reconnect_cutoff s' \<and> active_receivers (signalled e s) = insert q (active_receivers s')"
    using f by (auto simp: Active at receiver_active_def Let_def split: bool.splits)
  with flow_event_fields [OF f] f assms(2) Active at reported kept show thesis
    by (cases "q = r"; cases ok) (auto simp: receiver_active_def)
next
  case (Passive q at)
  with assms(1) obtain t where at: "at = Some t" by auto
  obtain ok s' where f: "flow_event q (Some t) s = (ok, s')" by fastforce
  with flow_event_fields [OF f] assms(2) kept Passive at show thesis
    by (cases "q = r"; cases ok) (auto simp: receiver_passive_def Let_def split: if_splits)
next
  case (Reconnecting at)
  with assms(1) obtain t where at: "at = Some t" by auto
  obtain ok s' where f: "accept_transport_event at s = (ok, s')" by fastforce
  with accept_transport_event_fields [OF f] assms(2) kept Reconnecting at show thesis
    by (auto simp: reconnecting_def not_before_def split: if_splits bool.splits option.splits)
next
  case (Reconnected at)
  obtain ok s' where f: "accept_transport_event at s = (ok, s')" by fastforce
  with accept_transport_event_fields [OF f] assms(2) kept Reconnected show thesis
    by (auto simp: reconnected_def split: if_splits bool.splits)
qed (use assms kept in \<open>auto simp: connected_def mark_ready_def receiver_registered_def publisher_blocked_def
  recovery_required_def publisher_available_def exhausted_def closed_def Let_def split: if_splits\<close>)

lemma active_vouched:
  "list_all timed es \<Longrightarrow> r \<in> active_receivers (history es) \<Longrightarrow> vouched_active es r"
proof (induction es rule: rev_induct)
  case Nil
  then show ?case by (simp add: STARTED_def)
next
  case (snoc e es)
  from snoc(2,3) have "timed e" "r \<in> active_receivers (signalled e (history es))" by simp_all
  then show ?case
    by (cases rule: active_step) (use snoc in \<open>auto simp: vouched_active_def\<close>)
qed

text \<open>C10. A service is ready only if it earned it: whatever the order in which the callbacks of the broker client and the calls of
  the application arrive, a ready signal means that the transport is connected, that the application completed its
  recovery on a connected transport and that nothing since then interrupted it (no connection attempt, registration, blocked
  publisher, passive flow or recovery requirement other than stale callbacks), and that the newest accepted report of every
  registered flow is not older than the last reconnect attempt and said it was active.\<close>

theorem readiness_is_earned:
  assumes "list_all timed es" "is_ready (history es)"
  shows "broker_state (history es) = CONNECTED \<and> recovered es \<and> blocked_publishers (history es) = {}
    \<and> (\<forall>r \<in> registered_receivers (history es). vouched_active es r)"
  using assms active_vouched [OF assms(1)]
  by (auto simp: is_ready_def all_receivers_active_def application_ready_recovered)

theorem readiness_is_earned_witness:
  "let es = [Connected, Registered (lit ''q''), Active (lit ''q'') (Some 5), MarkReady, Reconnecting (Some 7), Active (lit ''q'') (Some 6),
       Reconnected (Some 9), MarkReady, Active (lit ''q'') (Some 8)]
   in is_ready (history es) \<and> recovered es \<and> vouched_active es (lit ''q'')"
proof -
  let ?es = "[Connected, Registered (lit ''q''), Active (lit ''q'') (Some 5), MarkReady, Reconnecting (Some 7), Active (lit ''q'') (Some 6),
       Reconnected (Some 9), MarkReady, Active (lit ''q'') (Some 8)]"
  have "is_ready (history ?es)" "lit ''q'' \<in> registered_receivers (history ?es)"
    by (simp_all add: history_def signal_defs STARTED_def is_ready_def)
  with readiness_is_earned [of ?es] show ?thesis by (simp add: Let_def)
qed

end
