(* ===== verification/Service.thy ===== *)
theory Service
  imports OperatorApproval Normalization Publication Readiness
begin

text \<open>
  \<open>services/command_gateway/src/aerial_rescue_command_gateway/service.py\<close>: one delivery routed to its handler, the stamps a
  producer mints, one publication turn, the recovery that restores readiness, and the order in which the scheduler visits
  its channels. What the process cannot choose (identifiers, clocks, the broker's answers and the fates of its units of
  work) is an argument.
\<close>

section \<open>Stamps\<close>

record CountingStamps =
  stamps_sequence :: int
  stamps_producer :: pystr
  stamps_drawn :: nat
  stamps_read :: nat

text \<open>The injected sources: the identifiers drawn and the clock readings, in order.\<close>

record sources =
  identifiers :: "nat \<Rightarrow> pystr"
  utc_clock :: "nat \<Rightarrow> datetime"

definition TRACE_SAMPLED :: pystr where
  "TRACE_SAMPLED = lit ''01''"

definition TRACE_VERSION :: pystr where
  "TRACE_VERSION = lit ''00''"

definition TRACE_PARENT_DIGITS :: nat where
  "TRACE_PARENT_DIGITS = 16"

definition draw :: "sources \<Rightarrow> CountingStamps \<Rightarrow> pystr \<times> CountingStamps" where
  "draw src s = (identifiers src (stamps_drawn s), s\<lparr>stamps_drawn := Suc (stamps_drawn s)\<rparr>)"

definition instant_now :: "sources \<Rightarrow> CountingStamps \<Rightarrow> (InstantError + pystr) \<times> CountingStamps" where
  "instant_now src s = (format_instant (utc_clock src (stamps_read s)), s\<lparr>stamps_read := Suc (stamps_read s)\<rparr>)"

definition next_sequence :: "CountingStamps \<Rightarrow> int \<times> CountingStamps" where
  "next_sequence s = (stamps_sequence s, s\<lparr>stamps_sequence := stamps_sequence s + 1\<rparr>)"

definition mint_traceparent :: "sources \<Rightarrow> CountingStamps \<Rightarrow> pystr \<times> CountingStamps" where
  "mint_traceparent src s =
     (let (trace, s) = draw src s; (parent, s) = draw src s
      in (join_with 45 [TRACE_VERSION, trace, take TRACE_PARENT_DIGITS parent, TRACE_SAMPLED], s))"

definition next_stamp :: "sources \<Rightarrow> CountingStamps \<Rightarrow> (InstantError + RecordStamp) \<times> CountingStamps" where
  "next_stamp src s =
     (let (event, s) = draw src s
      in case instant_now src s of
           (Inl error, s) \<Rightarrow> (Inl error, s)
         | (Inr at, s) \<Rightarrow>
             (let (n, s) = next_sequence s; (trace, s) = mint_traceparent src s
              in (Inr \<lparr>stamp_event_id = event, occurred_at = at, stamp_sequence = n, stamp_traceparent = trace\<rparr>, s)))"

definition next_authorization :: "sources \<Rightarrow> CountingStamps \<Rightarrow> (InstantError + AuthorizationStamp) \<times> CountingStamps" where
  "next_authorization src s =
     (let (command_event, s) = draw src s; (record_id, s) = draw src s; (audit_event, s) = draw src s
      in case instant_now src s of
           (Inl error, s) \<Rightarrow> (Inl error, s)
         | (Inr at, s) \<Rightarrow>
             (let (command_number, s) = next_sequence s; (audit_number, s) = next_sequence s;
                  (trace, s) = mint_traceparent src s
              in (Inr \<lparr>stamp_producer = stamps_producer s, stamp_command_event = command_event,
                    stamp_audit_record = record_id, stamp_audit_event = audit_event, stamp_occurred_at = at,
                    stamp_command_sequence = command_number, stamp_audit_sequence = audit_number,
                    stamp_trace = trace, stamp_tracestate = None\<rparr>, s)))"

definition next_normalization :: "sources \<Rightarrow> CountingStamps \<Rightarrow> (InstantError + NormalizationStamp) \<times> CountingStamps" where
  "next_normalization src s =
     (let (proposal, s) = draw src s; (proposal_event, s) = draw src s; (record_id, s) = draw src s;
          (audit_event, s) = draw src s
      in case instant_now src s of
           (Inl error, s) \<Rightarrow> (Inl error, s)
         | (Inr at, s) \<Rightarrow>
             (let (proposal_number, s) = next_sequence s; (audit_number, s) = next_sequence s;
                  (trace, s) = mint_traceparent src s
              in (Inr \<lparr>norm_producer = stamps_producer s, norm_proposal = proposal, norm_proposal_event = proposal_event,
                    norm_audit_record = record_id, norm_audit_event = audit_event, norm_occurred_at = at,
                    norm_proposal_sequence = proposal_number, norm_audit_sequence = audit_number, norm_trace = trace,
                    norm_tracestate = None\<rparr>, s)))"

section \<open>Dispatch\<close>

datatype DirectDispatchOutcome = REQUEST_REPLIED | RESPONSE_NORMALIZED | REFUSED

datatype GuaranteedDispatchOutcome = COMMITTED | REFUSED

datatype service_error =
    FromExchange exchange_error
  | FromGateway "handler_error unit_error"
  | FromStamp InstantError
  | FromTopicKey pystr

definition direct_parts :: "InboundMessage \<Rightarrow> (pystr \<times> bytes \<times> members) option" where
  "direct_parts m =
     (case (destination_name m, inbound_payload (payload m), user_properties m) of
        (PStr topic, Some raw, PDict d) \<Rightarrow>
          if list_all (\<lambda>k. case k of KStr t \<Rightarrow> True | KObj t \<Rightarrow> False) (dict_keys d) then Some (topic, raw, d) else None
      | _ \<Rightarrow> None)"

text \<open>\<open>except IngressError, NormalizationError\<close>\<close>

fun direct_refusal :: "handler_error unit_error \<Rightarrow> bool" where
  "direct_refusal (Raised (Ingressed (IngressError kind))) = True"
| "direct_refusal (Raised (NormalizationError kind)) = True"
| "direct_refusal error = False"

type_synonym 'o dispatched = "(service_error + 'o) \<times> CountingStamps \<times> database"

definition dispatch_direct ::
    "(pystr \<Rightarrow> pystr) \<Rightarrow> (publication \<Rightarrow> bool) \<Rightarrow> sources \<Rightarrow> InboundMessage \<Rightarrow> fate \<Rightarrow> CountingStamps \<Rightarrow> database
      \<Rightarrow> DirectDispatchOutcome dispatched \<times> publication list" where
  "dispatch_direct nfc accepts src m f s db =
     (case direct_parts m of
        None \<Rightarrow> ((Inr DirectDispatchOutcome.REFUSED, s, db), [])
      | Some (text, raw, properties) \<Rightarrow>
     (case parse_topic (PStr text) of
        Inl (KeyError k) \<Rightarrow> ((Inl (FromTopicKey k), s, db), [])
      | Inl error \<Rightarrow> ((Inr DirectDispatchOutcome.REFUSED, s, db), [])
      | Inr topic \<Rightarrow>
          if family topic = GATEWAY_REQUEST
          then (case next_stamp src s of
                  (Inl error, s) \<Rightarrow> ((Inl (FromStamp error), s, db), [])
                | (Inr stamp, s) \<Rightarrow>
                    (case handle_message nfc accepts m stamp of
                       (Inl error, published) \<Rightarrow> ((Inl (FromExchange error), s, db), published)
                     | (Inr x, published) \<Rightarrow>
                         ((Inr (if exchange_outcome x = REPLIED then REQUEST_REPLIED else DirectDispatchOutcome.REFUSED), s, db),
                          published)))
          else if family topic \<noteq> AGENT_RESPONSE then ((Inr DirectDispatchOutcome.REFUSED, s, db), [])
          else (case next_normalization src s of
                  (Inl error, s) \<Rightarrow> ((Inl (FromStamp error), s, db), [])
                | (Inr stamp, s) \<Rightarrow>
                    (case handle_agent_response nfc \<lparr>direct_topic = text, direct_payload = raw, direct_properties = properties\<rparr>
                            stamp f db of
                       (Inl error, db') \<Rightarrow>
                         ((if direct_refusal error then Inr DirectDispatchOutcome.REFUSED else Inl (FromGateway error), s, db'), [])
                     | (Inr _, db') \<Rightarrow> ((Inr RESPONSE_NORMALIZED, s, db'), [])))))"

definition guaranteed_delivery :: "InboundMessage \<Rightarrow> GuaranteedDelivery" where
  "guaranteed_delivery m =
     \<lparr>delivery_topic = (case destination_name m of PStr t \<Rightarrow> t | _ \<Rightarrow> []),
      delivery_payload = (case inbound_payload (payload m) of Some raw \<Rightarrow> raw | None \<Rightarrow> [])\<rparr>"

text \<open>\<open>except IngressError, AuthorizationError, ApprovalIngressError, ProgressionError\<close>\<close>

fun guaranteed_refusal :: "handler_error unit_error \<Rightarrow> bool" where
  "guaranteed_refusal (Raised (Ingressed (IngressError kind))) = True"
| "guaranteed_refusal (Raised (AuthorizationError kind)) = True"
| "guaranteed_refusal (Raised (ApprovalIngressError kind)) = True"
| "guaranteed_refusal (Raised (ProgressionError kind)) = True"
| "guaranteed_refusal error = False"

definition guaranteed_outcome ::
    "CountingStamps \<Rightarrow> 'r handled \<Rightarrow> GuaranteedDispatchOutcome dispatched \<times> Settlement option" where
  "guaranteed_outcome s h =
     (case h of
        (Inl error, db, settled) \<Rightarrow>
          ((if guaranteed_refusal error then Inr GuaranteedDispatchOutcome.REFUSED else Inl (FromGateway error), s, db), settled)
      | (Inr _, db, settled) \<Rightarrow> ((Inr COMMITTED, s, db), settled))"

definition dispatch_guaranteed ::
    "(pystr \<Rightarrow> pystr) \<Rightarrow> sources \<Rightarrow> pystr \<Rightarrow> InboundMessage \<Rightarrow> AuthorizationClock \<Rightarrow> environment \<Rightarrow> CountingStamps \<Rightarrow> database
      \<Rightarrow> GuaranteedDispatchOutcome dispatched \<times> Settlement option" where
  "dispatch_guaranteed nfc src channel m now env s db =
     (let delivery = guaranteed_delivery m
      in if channel = literal_suffix OPERATOR_COMMAND
         then (case next_authorization src s of
                 (Inl error, s) \<Rightarrow> ((Inl (FromStamp error), s, db), None)
               | (Inr stamp, s) \<Rightarrow> guaranteed_outcome s (handle_operator_command nfc delivery stamp now env db))
         else if channel = literal_suffix Family.OPERATOR_APPROVAL
         then guaranteed_outcome s (handle_operator_approval nfc delivery now env db)
         else if channel = literal_suffix DRONE_COMMAND_RESULT
         then guaranteed_outcome s (handle_command_result nfc delivery env db)
         else ((Inr GuaranteedDispatchOutcome.REFUSED, s, db), None))"

text \<open>A message whose native trace the receiver refused: its safe context is recorded, then it is rejected.\<close>

record UnsettledMessageMetadata =
  unsettled_source :: "pystr option"
  unsettled_family :: "pystr option"
  unsettled_digest :: pystr

definition native_trace_candidate :: "UnsettledMessageMetadata \<Rightarrow> pystr \<Rightarrow> BrokerRefusalCandidate" where
  "native_trace_candidate d channel =
     \<lparr>refused_consumer = CONSUMER, refused_source = unsettled_source d, refused_family = unsettled_family d,
      refused_channel = channel, refused_code = lit ''native-trace-refused'', refused_digest = unsettled_digest d\<rparr>"

definition refuse_unsettled :: "UnsettledMessageMetadata \<Rightarrow> pystr \<Rightarrow> environment \<Rightarrow> database \<Rightarrow> unit handled" where
  "refuse_unsettled d channel env db =
     (case transaction (unit_fate env) (raising Stored (record_refused (native_trace_candidate d channel) (observed_at env))) db of
        (Inl error, db') \<Rightarrow> (Inl error, db', None)
      | (Inr _, db') \<Rightarrow> settle env Reject () db')"

section \<open>Publication turns and recovery\<close>

text \<open>What the broker and the database make of the two batches of a turn.\<close>

record turn_environment =
  event_broker :: broker
  event_fate :: fate
  event_instant :: pystr
  command_broker :: broker
  command_fate :: fate
  command_instant :: pystr
  reconciliation_fate :: fate

definition reconciliation_application :: "pystr \<Rightarrow> application_row list store" where
  "reconciliation_application producer =
     bindT (query (selection_statement producer RECONCILIATION_NEEDED)) (\<lambda>rows.
       case List.find (\<lambda>row. \<not> readable_application row) rows of
         Some row \<Rightarrow> raiseT (ApplicationOutboxError ApplicationOutboxRefusal.UNREADABLE_ROW (app_event row))
       | None \<Rightarrow> returnT rows)"

definition drain_application ::
    "(pystr \<Rightarrow> pystr) \<Rightarrow> turn_environment \<Rightarrow> database \<Rightarrow> (handler_error unit_error + bool) \<times> database \<times> sent list" where
  "drain_application nfc t db =
     (case publish_application_batch nfc (event_broker t) (event_fate t) (event_instant t) db of
        (Inl error, db', sent) \<Rightarrow> (Inl error, db', sent)
      | (Inr (visited, report), db', sent) \<Rightarrow>
          if report_ambiguous report \<noteq> 0 \<or> report_refused report \<noteq> 0 \<or> visited \<noteq> 0 then (Inr False, db', sent)
          else (case transaction (reconciliation_fate t) (raising Stored (reconciliation_application APPLICATION_PRODUCER)) db' of
                  (Inl error, db'') \<Rightarrow> (Inl error, db'', sent)
                | (Inr rows, db'') \<Rightarrow> (Inr (rows = []), db'', sent)))"

definition drain_commands ::
    "(pystr \<Rightarrow> pystr) \<Rightarrow> turn_environment \<Rightarrow> database \<Rightarrow> (handler_error unit_error + bool) \<times> database \<times> sent list" where
  "drain_commands nfc t db =
     (case publish_batch nfc (command_broker t) (command_fate t) (command_instant t) db of
        (Inl error, db', sent) \<Rightarrow> (Inl error, db', sent)
      | (Inr report, db', sent) \<Rightarrow>
          if report_ambiguous report \<noteq> 0 \<or> report_refused report \<noteq> 0 \<or> report_confirmed report \<noteq> 0 then (Inr False, db', sent)
          else (case transaction (reconciliation_fate t)
                       (raising Stored (pending_commands RECONCILIATION_NEEDED COMMAND_PUBLICATION_BATCH_SIZE)) db' of
                  (Inl error, db'') \<Rightarrow> (Inl error, db'', sent)
                | (Inr rows, db'') \<Rightarrow> (Inr (rows = []), db'', sent)))"

definition recover_application ::
    "(pystr \<Rightarrow> pystr) \<Rightarrow> turn_environment \<Rightarrow> BrokerLifecycle \<Rightarrow> database
      \<Rightarrow> (handler_error unit_error + bool) \<times> BrokerLifecycle \<times> database \<times> sent list" where
  "recover_application nfc t readiness db =
     (let readiness = recovery_required readiness
      in if broker_state readiness \<notin> {CONNECTED, RECOVERY_PENDING} then (Inr False, readiness, db, [])
         else (case drain_application nfc t db of
                 (Inl error, db', sent) \<Rightarrow> (Inl error, readiness, db', sent)
               | (Inr False, db', sent) \<Rightarrow> (Inr False, readiness, db', sent)
               | (Inr True, db', sent) \<Rightarrow>
                   (case drain_commands nfc t db' of
                      (Inl error, db'', sent') \<Rightarrow> (Inl error, readiness, db'', sent @ sent')
                    | (Inr False, db'', sent') \<Rightarrow> (Inr False, readiness, db'', sent @ sent')
                    | (Inr True, db'', sent') \<Rightarrow>
                        (let readiness = mark_ready readiness in (Inr (is_ready readiness), readiness, db'', sent @ sent')))))"

definition publish_connected ::
    "(pystr \<Rightarrow> pystr) \<Rightarrow> turn_environment \<Rightarrow> BrokerLifecycle \<Rightarrow> database
      \<Rightarrow> (handler_error unit_error + bool) \<times> BrokerLifecycle \<times> database \<times> sent list" where
  "publish_connected nfc t readiness db =
     (case publish_application_batch nfc (event_broker t) (event_fate t) (event_instant t) db of
        (Inl error, db', sent) \<Rightarrow> (Inl error, readiness, db', sent)
      | (Inr (visited, events), db', sent) \<Rightarrow>
     (case publish_batch nfc (command_broker t) (command_fate t) (command_instant t) db' of
        (Inl error, db'', sent') \<Rightarrow> (Inl error, readiness, db'', sent @ sent')
      | (Inr commands, db'', sent') \<Rightarrow>
          (let ready = \<not> (report_ambiguous events \<noteq> 0 \<or> report_refused events \<noteq> 0
                         \<or> report_ambiguous commands \<noteq> 0 \<or> report_refused commands \<noteq> 0)
           in (Inr ready, if ready then readiness else recovery_required readiness, db'', sent @ sent'))))"

definition restore_readiness ::
    "(pystr \<Rightarrow> pystr) \<Rightarrow> turn_environment \<Rightarrow> BrokerLifecycle \<Rightarrow> database
      \<Rightarrow> (handler_error unit_error + bool) \<times> BrokerLifecycle \<times> database \<times> sent list" where
  "restore_readiness nfc t readiness db =
     (if broker_state readiness \<in> {CONNECTED, RECOVERY_PENDING}
      then (case recover_application nfc t readiness db of
              (Inl error, rest) \<Rightarrow> (Inl error, rest)
            | (Inr _, readiness', rest) \<Rightarrow> (Inr (is_ready readiness'), readiness', rest))
      else (Inr (is_ready readiness), readiness, db, []))"

section \<open>The scheduler\<close>

datatype ServiceExit = STOPPED | BROKER_EXHAUSTED

datatype turn = Exit ServiceExit | Pause | Serve

text \<open>What a turn of \<open>serve_application\<close> does after \<open>_restore_readiness\<close> has had its chance.\<close>

definition turn_of :: "BrokerLifecycle \<Rightarrow> bool \<Rightarrow> bool \<Rightarrow> turn" where
  "turn_of readiness running restored =
     (if broker_state readiness = EXHAUSTED then Exit BROKER_EXHAUSTED
      else if broker_state readiness = CLOSED then Exit STOPPED
      else if \<not> running then Exit STOPPED
      else if is_ready readiness \<or> restored then Serve
      else Pause)"

definition channel_order :: "nat \<Rightarrow> pystr list \<Rightarrow> pystr list" where
  "channel_order first channels = map (\<lambda>offset. channels ! ((first + offset) mod length channels)) [0..<length channels]"

definition next_channel :: "nat \<Rightarrow> pystr list \<Rightarrow> nat" where
  "next_channel first channels = (first + 1) mod length channels"

section \<open>Recovery means drained\<close>

text \<open>No command waits in the command outbox, and no event of the gateway waits in the application outbox, which other producers share: to be
  published or to be reconciled.\<close>

definition drained :: "database \<Rightarrow> bool" where
  "drained db \<longleftrightarrow> list_all (\<lambda>(k, row). outbox_state row = CONFIRMED) (command_outbox db)
     \<and> list_all (\<lambda>(k, row). app_producer row = APPLICATION_PRODUCER \<longrightarrow> app_state row = CONFIRMED) (application_outbox db)"

lemma confirmed_iff: "s = CONFIRMED \<longleftrightarrow> s \<noteq> STAGED \<and> s \<noteq> RECONCILIATION_NEEDED"
  by (cases s) simp_all

lemma drain_application_True:
  assumes "drain_application nfc t db = (Inr True, db', sent)"
  shows "db' = db \<and> sent = []
    \<and> list_all (\<lambda>(k, row). app_producer row = APPLICATION_PRODUCER \<longrightarrow> app_state row = CONFIRMED) (application_outbox db)"
proof -
  obtain r db1 sent1 where batch: "publish_application_batch nfc (event_broker t) (event_fate t) (event_instant t) db = (r, db1, sent1)"
    by (metis prod_cases3)
  with assms obtain report where r: "r = Inr (0, report)"
    by (auto simp: drain_application_def split: sum.splits if_splits prod.splits)
  from publish_application_batch_cases(2,3) [OF batch r] have same: "db1 = db" "sent1 = []"
    and staged: "selection_statement APPLICATION_PRODUCER STAGED db = []" by simp_all
  obtain x db2 where read: "transaction (reconciliation_fate t) (raising Stored (reconciliation_application APPLICATION_PRODUCER)) db = (x, db2)"
    by fastforce
  with assms batch r same have x: "x = Inr []" "db2 = db'" "sent = []"
    by (auto simp: drain_application_def split: sum.splits if_splits)
  with read have "selection_statement APPLICATION_PRODUCER RECONCILIATION_NEEDED db = []" "db' = db"
    by (auto simp: transaction_Inr reconciliation_application_def split: option.splits)
  with staged x(3) show ?thesis unfolding confirmed_iff selection_statement_empty by (auto simp: list_all_iff)
qed

lemma drain_commands_True:
  assumes "drain_commands nfc t db = (Inr True, db', sent)"
  shows "db' = db \<and> sent = [] \<and> list_all (\<lambda>(k, row). outbox_state row = CONFIRMED) (command_outbox db)"
proof -
  obtain r db1 sent1 where batch: "publish_batch nfc (command_broker t) (command_fate t) (command_instant t) db = (r, db1, sent1)"
    by (metis prod_cases3)
  with assms obtain report where r: "r = Inr report" and none: "report_total report = 0"
    by (auto simp: drain_commands_def report_total_def split: sum.splits if_splits)
  from publish_batch_empty [OF batch [unfolded r] none] have same: "db1 = db" "sent1 = []"
    and staged: "pending_statement STAGED COMMAND_PUBLICATION_BATCH_SIZE db = []" by simp_all
  obtain x db2 where read: "transaction (reconciliation_fate t)
      (raising Stored (pending_commands RECONCILIATION_NEEDED COMMAND_PUBLICATION_BATCH_SIZE)) db = (x, db2)"
    by fastforce
  with assms batch r same have x: "x = Inr []" "db2 = db'" "sent = []"
    by (auto simp: drain_commands_def split: sum.splits if_splits)
  with read have "pending_statement RECONCILIATION_NEEDED COMMAND_PUBLICATION_BATCH_SIZE db = []" "db' = db"
    by (auto simp: transaction_Inr pending_commands_def split: if_splits)
  with staged x(3) show ?thesis unfolding confirmed_iff pending_statement_empty by (auto simp: list_all_iff)
qed

text \<open>C9. Recovery restores readiness only over drained outboxes: if it reports success, every command in the command outbox and every
  application event of the gateway is confirmed (none is staged, none awaits reconciliation), it published nothing in
  that attempt and changed no row, and the signal it leaves is ready. Otherwise the signal is not ready; in particular an
  attempt that did publish something leaves it unready, and the next one has to find both outboxes empty.\<close>

theorem recovery_means_drained:
  "case recover_application nfc t readiness db of
     (Inr True, readiness', db', sent) \<Rightarrow> drained db' \<and> db' = db \<and> sent = [] \<and> is_ready readiness'
   | (r, readiness', db', sent) \<Rightarrow> \<not> is_ready readiness'"
proof -
  let ?r = "recovery_required readiness"
  show ?thesis
  proof (cases "broker_state ?r \<in> {CONNECTED, RECOVERY_PENDING}")
    case False
    then show ?thesis by (auto simp: recover_application_def Let_def is_ready_def)
  next
    case True
    then have unready: "\<not> application_ready ?r" by (auto simp: recovery_required_def terminal_unlocked_def split: if_splits)
    obtain x db1 sent1 where events: "drain_application nfc t db = (x, db1, sent1)" by (metis prod_cases3)
    obtain y db2 sent2 where commands: "drain_commands nfc t db1 = (y, db2, sent2)" by (metis prod_cases3)
    show ?thesis
    proof (cases "x = Inr True \<and> y = Inr True")
      case both: True
      with drain_application_True events have one: "db1 = db" "sent1 = []"
        "list_all (\<lambda>(k, row). app_producer row = APPLICATION_PRODUCER \<longrightarrow> app_state row = CONFIRMED) (application_outbox db)"
        by blast+
      from both drain_commands_True commands one(1) have two: "db2 = db" "sent2 = []"
        "list_all (\<lambda>(k, row). outbox_state row = CONFIRMED) (command_outbox db)" by blast+
      from True both events commands one two show ?thesis
        by (auto simp: recover_application_def Let_def drained_def split: bool.splits)
    next
      case False
      with True unready events commands show ?thesis
        by (auto simp: recover_application_def Let_def is_ready_def split: sum.splits bool.splits)
    qed
  qed
qed

section \<open>Fair turns\<close>

text \<open>Every turn visits each channel once, and over as many turns as there are channels each one comes first once.\<close>

lemma channel_order_rotates:
  assumes "first < length channels"
  shows "channel_order first channels = drop first channels @ take first channels"
proof (rule nth_equalityI)
  show "length (channel_order first channels) = length (drop first channels @ take first channels)"
    using assms by (simp add: channel_order_def)
  fix i assume i: "i < length (channel_order first channels)"
  then have i': "i < length channels" by (simp add: channel_order_def)
  show "channel_order first channels ! i = (drop first channels @ take first channels) ! i"
  proof (cases "first + i < length channels")
    case True
    then have "i < length channels - first" by linarith
    with True i' show ?thesis by (simp add: channel_order_def nth_append)
  next
    case False
    with i' assms have "(first + i) mod length channels = first + i - length channels"
      by (simp add: mod_if)
    moreover from False have "\<not> i < length channels - first" by linarith
    ultimately show ?thesis using i' assms by (simp add: channel_order_def nth_append add.commute)
  qed
qed

lemma turns_start:
  "0 < length channels \<Longrightarrow> ((\<lambda>first. next_channel first channels) ^^ n) 0 = n mod length channels"
  by (induction n) (simp_all add: next_channel_def mod_Suc_eq)

end
