(* ===== verification/Provenance.thy ===== *)
theory Provenance
  imports Ingress
begin

text \<open>
  \<open>packages/store/src/aerial_rescue_store/processing/source_events.py\<close> and \<open>source_evidence.py\<close>, and the writes of \<open>evidence.py\<close>:
  the exact source events, the immutable facts observed of them, and the evidence items and decisions of a proposal. Rows are
  typed by their columns; what the repositories check beyond the types is checked here.
\<close>

section \<open>Data\<close>

definition MAXIMUM_FACTS :: nat where
  "MAXIMUM_FACTS = 23"

definition QUERY_LIMIT :: nat where
  "QUERY_LIMIT = MAXIMUM_FACTS + 1"

fun origin_value :: "ObservationOrigin \<Rightarrow> pystr" where
  "origin_value LIVE_MODEL = lit ''live-model''"
| "origin_value LIVE_SENSOR = lit ''live-sensor''"
| "origin_value RECORDED = lit ''recorded''"

datatype SourceEventDecision = STORED | DUPLICATE

datatype SourceEvidenceDecision = STORED | DUPLICATE

record StoredSourceEvidenceFact =
  fact_item :: pystr
  fact_source :: pystr
  fact_origin :: ObservationOrigin
  fact_digest :: pystr
  fact_bytes :: bytes
  fact_document :: members
  fact_observed_at :: pystr

record StoredSourceEvidence =
  evidence_topic :: pystr
  evidence_event :: bytes
  evidence_facts :: "StoredSourceEvidenceFact list"

text \<open>Whether an \<open>except TypeError, ValueError\<close> clause catches an exception; a KeyError passes it.\<close>

datatype caught = Caught | Escapes

definition topic_caught :: "topic_error \<Rightarrow> caught" where
  "topic_caught error = (case error of KeyError k \<Rightarrow> Escapes | _ \<Rightarrow> Caught)"

definition envelope_caught :: "envelope_error \<Rightarrow> caught" where
  "envelope_caught error = (if is_value_error error then Caught else Escapes)"

fun decoded_caught :: "envelope_decode_error \<Rightarrow> caught" where
  "decoded_caught (EnvelopeText error) = Caught"
| "decoded_caught (EnvelopeRefused error) = envelope_caught error"

section \<open>Source events\<close>

abbreviation source_key :: "StoredSourceEvent \<Rightarrow> pystr \<times> pystr" where
  "source_key ev \<equiv> (src_source ev, src_event ev)"

definition source_event_statement :: "StoredSourceEvent \<Rightarrow> database \<Rightarrow> bool \<times> database" where
  "source_event_statement ev db =
     (if map_of (source_events db) (source_key ev) = None
      then (True, db\<lparr>source_events := source_events db @ [(source_key ev, ev)]\<rparr>) else (False, db))"

definition identity_statement :: "pystr \<Rightarrow> pystr \<Rightarrow> database \<Rightarrow> StoredSourceEvent option" where
  "identity_statement src i db = map_of (source_events db) (src, i)"

definition record_source_event :: "StoredSourceEvent \<Rightarrow> SourceEventDecision store" where
  "record_source_event ev =
     bindT (execute (source_event_statement ev)) (\<lambda>inserted.
       if inserted then returnT SourceEventDecision.STORED
       else bindT (found_or (SourceEventError SourceEventRefusal.IDENTITY_VANISHED (src_event ev))
                    (identity_statement (src_source ev) (src_event ev))) (\<lambda>stored.
         if stored \<noteq> ev then raiseT (SourceEventError SourceEventRefusal.IDENTITY_CONFLICT (src_event ev))
         else returnT SourceEventDecision.DUPLICATE))"

section \<open>Validation of events and facts\<close>

abbreviation malformed_event :: "pystr \<Rightarrow> store_error" where
  "malformed_event i \<equiv> SourceEvidenceError MALFORMED_EVENT i"

abbreviation malformed_fact :: "pystr \<Rightarrow> store_error" where
  "malformed_fact i \<equiv> SourceEvidenceError MALFORMED_FACT i"

text \<open>The body of the \<open>try\<close>: the canonical bytes, the envelope and the digest of the stored event.\<close>

definition decoded_event :: "(pystr \<Rightarrow> pystr) \<Rightarrow> StoredSourceEvent \<Rightarrow> caught + bytes \<times> Envelope \<times> pystr" where
  "decoded_event nfc ev =
     bindE (map_sum (\<lambda>_. Caught) id (decode_bytes nfc (src_payload ev))) (\<lambda>document.
     bindE (map_sum (\<lambda>_. Caught) id (canonical_bytes nfc document)) (\<lambda>rendered.
     bindE (map_sum decoded_caught id (decode_envelope nfc (src_payload ev))) (\<lambda>e.
     bindE (map_sum topic_caught id (parse_topic (PStr (src_topic ev)))) (\<lambda>topic.
     bindE (map_sum envelope_caught id (check_topic_binding e topic)) (\<lambda>_.
     bindE (map_sum (\<lambda>_. Caught) id (parse_instant (PStr (src_observed_at ev)))) (\<lambda>_.
     bindE (map_sum (\<lambda>_. Caught) id (source_event_digest nfc e)) (\<lambda>computed.
       Inr (rendered, e, computed))))))))"

definition validated_event :: "(pystr \<Rightarrow> pystr) \<Rightarrow> StoredSourceEvent \<Rightarrow> pystr \<Rightarrow> pystr \<Rightarrow> store_error + StoredSourceEvent" where
  "validated_event nfc ev mission i =
     (case decoded_event nfc ev of
        Inl Caught \<Rightarrow> Inl (malformed_event i)
      | Inl Escapes \<Rightarrow> Inl StoreKeyError
      | Inr (rendered, e, computed) \<Rightarrow>
          if rendered = src_payload ev \<and> source e = src_source ev \<and> envelope_id e = i \<and> subject e = mission
             \<and> fullmatch DIGEST_PATTERN (src_digest ev) \<and> matches (src_digest ev) computed = Inr True
          then Inr ev else Inl (malformed_event i))"

text \<open>A digest of the declared form is ASCII, so that \<open>matches\<close> compares.\<close>

definition fact_members ::
    "(pystr \<Rightarrow> pystr) \<Rightarrow> pystr \<Rightarrow> pystr \<Rightarrow> ObservationOrigin \<Rightarrow> pystr \<Rightarrow> bytes \<Rightarrow> pystr \<Rightarrow> pystr
      \<Rightarrow> store_error + StoredSourceEvidenceFact" where
  "fact_members nfc item src orig h raw at i =
     (if \<not> fullmatch DIGEST_PATTERN h then Inl (malformed_fact i)
      else case bindE (map_sum (\<lambda>_. ()) id (decode_bytes nfc raw)) (\<lambda>decoded.
                bindE (map_sum (\<lambda>_. ()) id (canonical_bytes nfc decoded)) (\<lambda>rendered.
                bindE (map_sum (\<lambda>_. ()) id (parse_instant (PStr at))) (\<lambda>_. Inr (decoded, rendered)))) of
             Inr (PDict d, rendered) \<Rightarrow>
               if rendered \<noteq> raw then Inl (malformed_fact i)
               else if \<not> (get d (lit ''evidenceItemId'') = PStr item \<and> get d (lit ''sourceId'') = PStr src
                          \<and> get d (lit ''origin'') = PStr (origin_value orig) \<and> get d (lit ''sourceEventId'') = PStr i)
               then Inl (malformed_fact i)
               else bindE (map_sum FromDigest id (digest nfc Context.EVIDENCE (PDict d))) (\<lambda>computed.
                      if matches h computed = Inr True
                      then Inr \<lparr>fact_item = item, fact_source = src, fact_origin = orig, fact_digest = h, fact_bytes = raw,
                                fact_document = d, fact_observed_at = at\<rparr>
                      else Inl (malformed_fact i))
           | _ \<Rightarrow> Inl (malformed_fact i))"

abbreviation row_fact :: "(pystr \<Rightarrow> pystr) \<Rightarrow> source_item_row \<Rightarrow> pystr \<Rightarrow> store_error + StoredSourceEvidenceFact" where
  "row_fact nfc r i \<equiv> fact_members nfc (row_item r) (row_source_id r) (row_origin r) (row_digest r) (row_document r) (row_observed_at r) i"

section \<open>Reading the evidence of a source\<close>

text \<open>The outer join, ordered by source and ordinal; a source without facts has one row with no fact.\<close>

definition facts_statement :: "pystr \<Rightarrow> pystr \<Rightarrow> database \<Rightarrow> source_item_row list" where
  "facts_statement src i db = sort_key row_ordinal (filter (\<lambda>r. row_source r = src \<and> row_event r = i) (source_items db))"

definition source_evidence_statement :: "pystr \<Rightarrow> pystr \<Rightarrow> database \<Rightarrow> (StoredSourceEvent \<times> source_item_row option) list" where
  "source_evidence_statement mission i db =
     take QUERY_LIMIT (concat (map (\<lambda>ev.
       case facts_statement (src_source ev) (src_event ev) db of
         [] \<Rightarrow> [(ev, None)]
       | rows \<Rightarrow> map (\<lambda>r. (ev, Some r)) rows)
       (sort_key src_source (filter (\<lambda>ev. src_mission ev = mission \<and> src_event ev = i) (map snd (source_events db))))))"

fun facts_from ::
    "(pystr \<Rightarrow> pystr) \<Rightarrow> int \<Rightarrow> pystr list \<Rightarrow> source_item_row option list \<Rightarrow> pystr \<Rightarrow> store_error + StoredSourceEvidenceFact list" where
  "facts_from nfc expected seen [] i = Inr []"
| "facts_from nfc expected seen (None # rows) i = Inl (SourceEvidenceError FACT_ORDER i)"
| "facts_from nfc expected seen (Some r # rows) i =
     (if row_ordinal r \<noteq> expected then Inl (SourceEvidenceError FACT_ORDER i)
      else bindE (row_fact nfc r i) (\<lambda>f.
        if fact_item f \<in> set seen then Inl (malformed_fact i)
        else bindE (facts_from nfc (expected + 1) (fact_item f # seen) rows i) (\<lambda>fs. Inr (f # fs))))"

definition load_source_evidence :: "(pystr \<Rightarrow> pystr) \<Rightarrow> pystr \<Rightarrow> pystr \<Rightarrow> StoredSourceEvidence option store" where
  "load_source_evidence nfc mission i =
     bindT (query (source_evidence_statement mission i)) (\<lambda>rows.
       case rows of
         [] \<Rightarrow> returnT None
       | (ev, first) # rest \<Rightarrow>
           if \<exists>r \<in> set rest. source_key (fst r) \<noteq> source_key ev
           then raiseT (SourceEvidenceError AMBIGUOUS_SOURCE i)
           else if \<exists>r \<in> set rest. fst r \<noteq> ev then raiseT (malformed_event i)
           else bindT (pure (validated_event nfc ev mission i)) (\<lambda>stored.
             if first = None then (if rest \<noteq> [] then raiseT (malformed_fact i) else returnT None)
             else if MAXIMUM_FACTS < length rows then raiseT (SourceEvidenceError FACT_LIMIT i)
             else bindT (pure (facts_from nfc 1 [] (map snd rows) i)) (\<lambda>fs.
               returnT (Some \<lparr>evidence_topic = src_topic stored, evidence_event = src_payload stored, evidence_facts = fs\<rparr>))))"

section \<open>Recording the evidence of a source\<close>

text \<open>Dataclasses are equal when their members are, and read-only mappings when their contents are.\<close>

definition same_fact :: "StoredSourceEvidenceFact \<Rightarrow> StoredSourceEvidenceFact \<Rightarrow> bool" where
  "same_fact f g \<longleftrightarrow> f\<lparr>fact_document := []\<rparr> = g\<lparr>fact_document := []\<rparr> \<and> pyeq (PDict (fact_document f)) (PDict (fact_document g))"

definition validated_input_fact ::
    "(pystr \<Rightarrow> pystr) \<Rightarrow> StoredSourceEvidenceFact \<Rightarrow> pystr \<Rightarrow> store_error + StoredSourceEvidenceFact" where
  "validated_input_fact nfc f i =
     bindE (fact_members nfc (fact_item f) (fact_source f) (fact_origin f) (fact_digest f) (fact_bytes f) (fact_observed_at f) i) (\<lambda>mapped.
       if pyeq (PDict (fact_document mapped)) (PDict (fact_document f)) then Inr mapped else Inl (malformed_fact i))"

fun validated_facts ::
    "(pystr \<Rightarrow> pystr) \<Rightarrow> pystr list \<Rightarrow> StoredSourceEvidenceFact list \<Rightarrow> pystr \<Rightarrow> store_error + StoredSourceEvidenceFact list" where
  "validated_facts nfc seen [] i = Inr []"
| "validated_facts nfc seen (f # fs) i =
     bindE (validated_input_fact nfc f i) (\<lambda>mapped.
       if fact_item mapped \<in> set seen then Inl (malformed_fact i)
       else bindE (validated_facts nfc (fact_item mapped # seen) fs i) (\<lambda>rest. Inr (mapped # rest)))"

definition validated_input ::
    "(pystr \<Rightarrow> pystr) \<Rightarrow> StoredSourceEvent \<Rightarrow> StoredSourceEvidenceFact list \<Rightarrow> store_error + StoredSourceEvidenceFact list" where
  "validated_input nfc ev fs =
     bindE (validated_event nfc ev (src_mission ev) (src_event ev)) (\<lambda>_.
       if \<not> (1 \<le> length fs \<and> length fs \<le> MAXIMUM_FACTS) then Inl (SourceEvidenceError FACT_COUNT (src_event ev))
       else validated_facts nfc [] fs (src_event ev))"

fun stored_facts ::
    "(pystr \<Rightarrow> pystr) \<Rightarrow> int \<Rightarrow> source_item_row list \<Rightarrow> pystr \<Rightarrow> store_error + StoredSourceEvidenceFact list" where
  "stored_facts nfc expected [] i = Inr []"
| "stored_facts nfc expected (r # rows) i =
     (if row_ordinal r \<noteq> expected then Inl (malformed_fact i)
      else bindE (row_fact nfc r i) (\<lambda>f. bindE (stored_facts nfc (expected + 1) rows i) (\<lambda>fs. Inr (f # fs))))"

abbreviation identity_conflict :: "StoredSourceEvent \<Rightarrow> store_error" where
  "identity_conflict ev \<equiv> SourceEvidenceError SourceEvidenceRefusal.IDENTITY_CONFLICT (src_event ev)"

definition stored_fact_set ::
    "(pystr \<Rightarrow> pystr) \<Rightarrow> source_item_row list \<Rightarrow> StoredSourceEvent \<Rightarrow> store_error + StoredSourceEvidenceFact list" where
  "stored_fact_set nfc rows ev =
     (if MAXIMUM_FACTS < length rows then Inl (identity_conflict ev) else stored_facts nfc 1 rows (src_event ev))"

definition contains_exact_fact_set ::
    "(pystr \<Rightarrow> pystr) \<Rightarrow> source_item_row list \<Rightarrow> StoredSourceEvent \<Rightarrow> StoredSourceEvidenceFact list \<Rightarrow> store_error + bool" where
  "contains_exact_fact_set nfc rows ev expected =
     (if rows = [] then Inr False
      else bindE (stored_fact_set nfc rows ev) (\<lambda>fs.
        if list_all2 same_fact fs expected then Inr True else Inl (identity_conflict ev)))"

text \<open>A plain insert: a second row for the primary key or for the identity of the item is the driver's error.\<close>

definition source_fact_statement :: "StoredSourceEvent \<Rightarrow> int \<Rightarrow> StoredSourceEvidenceFact \<Rightarrow> unit store" where
  "source_fact_statement ev ordinal f = (\<lambda>db.
     if \<exists>r \<in> set (source_items db). row_source r = src_source ev \<and> row_event r = src_event ev
          \<and> (row_ordinal r = ordinal \<or> row_item r = fact_item f)
     then Inl IntegrityError
     else Inr ((), db\<lparr>source_items := source_items db @
       [\<lparr>row_source = src_source ev, row_event = src_event ev, row_ordinal = ordinal, row_item = fact_item f,
         row_source_id = fact_source f, row_origin = fact_origin f, row_digest = fact_digest f, row_document = fact_bytes f,
         row_observed_at = fact_observed_at f\<rparr>]\<rparr>))"

fun insert_facts :: "StoredSourceEvent \<Rightarrow> int \<Rightarrow> StoredSourceEvidenceFact list \<Rightarrow> unit store" where
  "insert_facts ev ordinal [] = returnT ()"
| "insert_facts ev ordinal (f # fs) = bindT (source_fact_statement ev ordinal f) (\<lambda>_. insert_facts ev (ordinal + 1) fs)"

definition source_fact_claim_statement :: "StoredSourceEvent \<Rightarrow> database \<Rightarrow> bool" where
  "source_fact_claim_statement ev db \<longleftrightarrow> map_of (source_events db) (source_key ev) = Some ev"

definition claim_empty_fact_set :: "StoredSourceEvent \<Rightarrow> unit store" where
  "claim_empty_fact_set ev =
     bindT (query (source_fact_claim_statement ev)) (\<lambda>found. if found then returnT () else raiseT (identity_conflict ev))"

definition record_source_evidence ::
    "(pystr \<Rightarrow> pystr) \<Rightarrow> StoredSourceEvent \<Rightarrow> StoredSourceEvidenceFact list \<Rightarrow> SourceEvidenceDecision store" where
  "record_source_evidence nfc ev fs =
     bindT (pure (validated_input nfc ev fs)) (\<lambda>validated.
     bindT (\<lambda>db. case record_source_event ev db of
               Inl (SourceEventError r i) \<Rightarrow> Inl (identity_conflict ev)
             | x \<Rightarrow> x) (\<lambda>event_decision.
       let insertion = bindT (insert_facts ev 1 validated) (\<lambda>_. returnT SourceEvidenceDecision.STORED)
       in if event_decision = SourceEventDecision.STORED then insertion
          else bindT (query (\<lambda>db. take QUERY_LIMIT (facts_statement (src_source ev) (src_event ev) db))) (\<lambda>rows.
               bindT (pure (contains_exact_fact_set nfc rows ev validated)) (\<lambda>same.
                 if same then returnT SourceEvidenceDecision.DUPLICATE
                 else bindT (claim_empty_fact_set ev) (\<lambda>_.
                      bindT (query (\<lambda>db. take QUERY_LIMIT (facts_statement (src_source ev) (src_event ev) db))) (\<lambda>again.
                      bindT (pure (contains_exact_fact_set nfc again ev validated)) (\<lambda>now_same.
                        if now_same then returnT SourceEvidenceDecision.DUPLICATE else insertion)))))))"

section \<open>Evidence items and decisions\<close>

definition record_item_statement :: "StoredEvidenceItem \<Rightarrow> database \<Rightarrow> bool \<times> database" where
  "record_item_statement item db =
     (let (inserted, rows) = insert_absent (item_id item) item (evidence_items db) in (inserted, db\<lparr>evidence_items := rows\<rparr>))"

definition record_item :: "StoredEvidenceItem \<Rightarrow> unit store" where
  "record_item item = scalar_or (EvidenceStoreError ALREADY_STORED (item_id item)) (record_item_statement item)"

definition record_decision_statement :: "StoredEvidenceDecision \<Rightarrow> database \<Rightarrow> bool \<times> database" where
  "record_decision_statement dec db =
     (let (inserted, rows) = insert_absent (dec_id dec) dec (decisions db) in (inserted, db\<lparr>decisions := rows\<rparr>))"

definition record_decision :: "StoredEvidenceDecision \<Rightarrow> unit store" where
  "record_decision dec = scalar_or (EvidenceStoreError ALREADY_STORED (dec_id dec)) (record_decision_statement dec)"

end
