(* ===== verification/Assessment.thy ===== *)
theory Assessment
  imports Provenance Settlement
begin

text \<open>
  \<open>services/evidence_service/src/aerial_rescue_evidence_service\<close>: \<open>wire.py\<close>, \<open>source.py\<close>, \<open>evaluation.py\<close> and \<open>publication.py\<close>. A proposal
  is accepted from its bytes, checked against the durable source it names, scored from provenance that the service derives
  itself, and the decision is built with the two events that announce it. The payload models are closed and strict; each is a
  record with the validator the declaration denotes.
\<close>

section \<open>Proposal ingress\<close>

definition agent_name_field :: "pyval \<Rightarrow> pystr option" where
  "agent_name_field = text_field AGENT_NAME_PATTERN 64"

record ProposalPayload =
  pay_version :: int
  pay_mission :: pystr
  pay_proposal :: pystr
  pay_type :: pystr
  pay_agent :: pystr
  pay_invocation :: pystr
  pay_source_event :: pystr
  pay_source_digest :: pystr
  pay_command :: pystr
  pay_drone :: pystr
  pay_latitude :: int
  pay_longitude :: int
  pay_digest :: pystr

definition validate_proposal :: "members \<Rightarrow> ProposalPayload option" where
  "validate_proposal d =
     (if \<not> closed_model [''canonicalizationVersion'', ''proposalVersion'', ''missionId'', ''proposalId'', ''proposalType'',
          ''agentName'', ''sourceInvocationId'', ''sourceEventId'', ''sourceEventDigest'', ''commandType'', ''droneId'',
          ''latitudeMicrodegrees'', ''longitudeMicrodegrees'', ''proposalDigest''] [] d then None
      else field_of d ''canonicalizationVersion'' strict_one (\<lambda>_.
           field_of d ''proposalVersion'' strict_one (\<lambda>version.
           field_of d ''missionId'' identifier_field (\<lambda>mission.
           field_of d ''proposalId'' identifier_field (\<lambda>proposal.
           field_of d ''proposalType'' (literal_field [lit ''candidate-location'']) (\<lambda>kind.
           field_of d ''agentName'' agent_name_field (\<lambda>agent.
           field_of d ''sourceInvocationId'' identifier_field (\<lambda>invocation.
           field_of d ''sourceEventId'' identifier_field (\<lambda>event.
           field_of d ''sourceEventDigest'' digest_field (\<lambda>sd.
           field_of d ''commandType'' (literal_field [lit ''escalate-rescue'']) (\<lambda>command.
           field_of d ''droneId'' identifier_field (\<lambda>drone.
           field_of d ''latitudeMicrodegrees'' latitude_field (\<lambda>lat.
           field_of d ''longitudeMicrodegrees'' longitude_field (\<lambda>lon.
           field_of d ''proposalDigest'' digest_field (\<lambda>pd.
             Some \<lparr>pay_version = version, pay_mission = mission, pay_proposal = proposal, pay_type = kind, pay_agent = agent,
               pay_invocation = invocation, pay_source_event = event, pay_source_digest = sd, pay_command = command,
               pay_drone = drone, pay_latitude = lat, pay_longitude = lon, pay_digest = pd\<rparr>)))))))))))))))"

record AcceptedProposal =
  accepted_envelope :: Envelope
  accepted_payload :: ProposalPayload

definition proposal_envelope :: "(pystr \<Rightarrow> pystr) \<Rightarrow> bytes \<Rightarrow> Topic \<Rightarrow> handler_error + Envelope" where
  "proposal_envelope nfc raw topic =
     (case decode_envelope nfc raw of
        Inl (EnvelopeText error) \<Rightarrow> Inl (ProposalIngressError UNREADABLE)
      | Inl (EnvelopeRefused error) \<Rightarrow> Inl (if is_value_error error then ProposalIngressError UNREADABLE else EnvelopeFailed error)
      | Inr e \<Rightarrow>
          (case check_topic_binding e topic of
             Inl error \<Rightarrow> Inl (if is_value_error error then ProposalIngressError UNREADABLE else EnvelopeFailed error)
           | Inr _ \<Rightarrow> Inr e))"

definition accept_proposal :: "(pystr \<Rightarrow> pystr) \<Rightarrow> bytes \<Rightarrow> pystr \<Rightarrow> handler_error + AcceptedProposal" where
  "accept_proposal nfc raw topic_text =
     (case parse_topic (PStr topic_text) of
        Inl (KeyError k) \<Rightarrow> Inl (TopicFailed (KeyError k))
      | Inl error \<Rightarrow> Inl (ProposalIngressError UNROUTED)
      | Inr topic \<Rightarrow>
          if family topic \<noteq> AGENT_PROPOSAL then Inl (ProposalIngressError UNROUTED)
          else bindE (proposal_envelope nfc raw topic) (\<lambda>e.
            case validate_proposal (data e) of
              None \<Rightarrow> Inl (ProposalIngressError ProposalIngressRefusal.PAYLOAD)
            | Some p \<Rightarrow>
                bindE (map_sum DigestFailed id (proposal_digest_matches nfc (data e))) (\<lambda>bound.
                  if bound then Inr \<lparr>accepted_envelope = e, accepted_payload = p\<rparr>
                  else Inl (ProposalIngressError ProposalIngressRefusal.DIGEST_MISMATCH))))"

section \<open>Source and provenance\<close>

definition MAXIMUM_CONTRIBUTORS :: nat where
  "MAXIMUM_CONTRIBUTORS = 23"

definition SALIENT_EVENT_TYPE :: pystr where
  "SALIENT_EVENT_TYPE = lit ''aerial-rescue.v1.drone.event.salient''"

definition MODEL_ID_PREFIX :: pystr where
  "MODEL_ID_PREFIX = lit ''model-''"

record ProvenanceFact =
  prov_item :: pystr
  prov_source :: pystr
  prov_origin :: ObservationOrigin
  prov_digest :: pystr
  prov_document :: members
  prov_observed_at :: pystr

record SourceEvidence =
  source_topic :: pystr
  source_event :: bytes
  source_observations :: "ProvenanceFact list"

definition kind_field :: "pyval \<Rightarrow> pystr option" where
  "kind_field = text_field KIND_PATTERN 32"

fun detail_field :: "pyval \<Rightarrow> pystr option" where
  "detail_field (PStr t) = (if 1 \<le> length t \<and> length t \<le> 4096 then Some t else None)"
| "detail_field v = None"

record SalientPayload =
  salient_mission :: pystr
  salient_drone :: pystr
  salient_observation :: pystr
  salient_latitude :: int
  salient_longitude :: int
  salient_detail :: pystr

definition validate_salient :: "members \<Rightarrow> SalientPayload option" where
  "validate_salient d =
     (if \<not> closed_model [''missionId'', ''droneId'', ''observation'', ''latitudeMicrodegrees'', ''longitudeMicrodegrees'',
          ''detail''] [] d then None
      else field_of d ''missionId'' identifier_field (\<lambda>mission.
           field_of d ''droneId'' identifier_field (\<lambda>drone.
           field_of d ''observation'' kind_field (\<lambda>observation.
           field_of d ''latitudeMicrodegrees'' latitude_field (\<lambda>lat.
           field_of d ''longitudeMicrodegrees'' longitude_field (\<lambda>lon.
           field_of d ''detail'' detail_field (\<lambda>detail.
             Some \<lparr>salient_mission = mission, salient_drone = drone, salient_observation = observation, salient_latitude = lat,
               salient_longitude = lon, salient_detail = detail\<rparr>)))))))"

datatype ProvenanceRefusal = MISSING | MISMATCH

text \<open>A \<open>ProvenanceError\<close>, which the handler turns into a decision, or an exception that leaves it.\<close>

datatype provenance_error = ProvenanceError ProvenanceRefusal | Beyond handler_error

definition drone_source :: "pystr \<Rightarrow> pystr" where
  "drone_source drone = lit ''urn:aerial-rescue:drone:'' @ drone"

definition source_binding_matches :: "AcceptedProposal \<Rightarrow> Family \<Rightarrow> Envelope \<Rightarrow> SalientPayload \<Rightarrow> bool" where
  "source_binding_matches proposal fam e p \<longleftrightarrow>
     fam = DRONE_EVENT \<and> envelope_type e = SALIENT_EVENT_TYPE \<and> envelope_id e = pay_source_event (accepted_payload proposal)
     \<and> salient_mission p = pay_mission (accepted_payload proposal) \<and> salient_drone p = pay_drone (accepted_payload proposal)
     \<and> source e = drone_source (salient_drone p)"

definition fact_form_matches :: "ProvenanceFact \<Rightarrow> pystr \<Rightarrow> bool" where
  "fact_form_matches f i \<longleftrightarrow>
     fullmatch IDENTIFIER_PATTERN (prov_item f) \<and> fullmatch IDENTIFIER_PATTERN (prov_source f)
     \<and> fullmatch DIGEST_PATTERN (prov_digest f) \<and> (\<exists>at. parse_instant (PStr (prov_observed_at f)) = Inr at)
     \<and> get (prov_document f) (lit ''evidenceItemId'') = PStr (prov_item f)
     \<and> get (prov_document f) (lit ''sourceId'') = PStr (prov_source f)
     \<and> get (prov_document f) (lit ''origin'') = PStr (origin_value (prov_origin f))
     \<and> get (prov_document f) (lit ''sourceEventId'') = PStr i"

definition provenance_matches :: "(pystr \<Rightarrow> pystr) \<Rightarrow> ProvenanceFact \<Rightarrow> pystr \<Rightarrow> bool" where
  "provenance_matches nfc f i \<longleftrightarrow> fact_form_matches f i
     \<and> (case digest nfc Context.EVIDENCE (PDict (prov_document f)) of
          Inl error \<Rightarrow> False
        | Inr computed \<Rightarrow> matches (prov_digest f) computed = Inr True)"

text \<open>The body of the \<open>try\<close>: the family of the topic, the envelope and its payload.\<close>

definition read_source :: "(pystr \<Rightarrow> pystr) \<Rightarrow> pystr \<Rightarrow> bytes \<Rightarrow> caught + Family \<times> Envelope \<times> SalientPayload" where
  "read_source nfc topic_text raw =
     bindE (map_sum topic_caught id (parse_topic (PStr topic_text))) (\<lambda>topic.
     bindE (map_sum decoded_caught id (decode_envelope nfc raw)) (\<lambda>e.
     bindE (map_sum envelope_caught id (check_topic_binding e topic)) (\<lambda>_.
       case validate_salient (data e) of None \<Rightarrow> Inl Caught | Some p \<Rightarrow> Inr (family topic, e, p))))"

definition validate_source ::
    "(pystr \<Rightarrow> pystr) \<Rightarrow> AcceptedProposal \<Rightarrow> SourceEvidence option \<Rightarrow> provenance_error + ProvenanceFact list" where
  "validate_source nfc proposal evidence =
     (case evidence of
        None \<Rightarrow> Inl (ProvenanceError MISSING)
      | Some s \<Rightarrow>
          let observed = source_observations s
          in if observed = [] then Inl (ProvenanceError MISSING)
             else if MAXIMUM_CONTRIBUTORS < length observed then Inl (ProvenanceError MISMATCH)
             else if \<not> distinct (map prov_item observed) then Inl (ProvenanceError MISMATCH)
             else (case read_source nfc (source_topic s) (source_event s) of
                     Inl Caught \<Rightarrow> Inl (ProvenanceError MISMATCH)
                   | Inl Escapes \<Rightarrow> Inl (Beyond (KeyFailed (source_topic s)))
                   | Inr (fam, e, p) \<Rightarrow>
                       if \<not> source_binding_matches proposal fam e p then Inl (ProvenanceError MISMATCH)
                       else bindE (map_sum (Beyond \<circ> DigestFailed) id (source_event_digest nfc e)) (\<lambda>computed.
                            bindE (map_sum (Beyond \<circ> DigestFailed) id
                                     (matches (pay_source_digest (accepted_payload proposal)) computed)) (\<lambda>same.
                              if \<not> same then Inl (ProvenanceError MISMATCH)
                              else if \<forall>f \<in> set observed. provenance_matches nfc f (pay_source_event (accepted_payload proposal))
                              then Inr observed else Inl (ProvenanceError MISMATCH)))))"

definition model_document :: "ProposalPayload \<Rightarrow> pystr \<Rightarrow> members" where
  "model_document p item =
     obj [(''canonicalizationVersion'', PInt 1), (''evidenceItemId'', PStr item), (''sourceId'', PStr (pay_invocation p)),
          (''origin'', PStr (origin_value LIVE_MODEL)), (''sourceEventId'', PStr (pay_source_event p)),
          (''proposalId'', PStr (pay_proposal p)), (''proposalDigest'', PStr (pay_digest p)), (''agentName'', PStr (pay_agent p))]"

text \<open>\<open>(proposal_id + "\\0" + proposal_digest).encode()\<close>: both are ASCII by their patterns.\<close>

definition model_item :: "ProposalPayload \<Rightarrow> pystr" where
  "model_item p = MODEL_ID_PREFIX @ take 57 (sha256_hexdigest (pay_proposal p @ [0] @ pay_digest p))"

definition eligible_sensor :: "AcceptedProposal \<Rightarrow> ProvenanceFact \<Rightarrow> bool" where
  "eligible_sensor proposal f \<longleftrightarrow> prov_origin f = LIVE_SENSOR
     \<and> get (prov_document f) (lit ''sourceEventDigest'') = PStr (pay_source_digest (accepted_payload proposal))"

definition with_model_provenance ::
    "(pystr \<Rightarrow> pystr) \<Rightarrow> AcceptedProposal \<Rightarrow> ProvenanceFact list \<Rightarrow> handler_error + ProvenanceFact list" where
  "with_model_provenance nfc proposal observed =
     (let p = accepted_payload proposal; item = model_item p
      in if \<exists>f \<in> set observed. prov_origin f = LIVE_MODEL then Inr observed
         else if \<not> (\<exists>f \<in> set observed. eligible_sensor proposal f) then Inr observed
         else bindE (map_sum DigestFailed id (digest nfc Context.EVIDENCE (PDict (model_document p item)))) (\<lambda>h.
           Inr (observed @ [\<lparr>prov_item = item, prov_source = pay_invocation p, prov_origin = LIVE_MODEL, prov_digest = h,
             prov_document = model_document p item, prov_observed_at = Envelope.time (accepted_envelope proposal)\<rparr>])))"

section \<open>Evaluation\<close>

definition V1_BOUNDARIES :: BandBoundaries where
  "V1_BOUNDARIES = \<lparr>weak = 25, supported = 50, corroborated = 75\<rparr>"

definition LIVE_SENSOR_WEIGHT :: int where
  "LIVE_SENSOR_WEIGHT = 40"

definition LIVE_MODEL_WEIGHT :: int where
  "LIVE_MODEL_WEIGHT = 35"

datatype EvidenceRejectionReason = PROVENANCE_MISSING | PROVENANCE_MISMATCH | RECORDED_ORIGIN

fun rejection_value :: "EvidenceRejectionReason \<Rightarrow> pystr" where
  "rejection_value PROVENANCE_MISSING = lit ''provenance-missing''"
| "rejection_value PROVENANCE_MISMATCH = lit ''provenance-mismatch''"
| "rejection_value RECORDED_ORIGIN = lit ''recorded-origin''"

record Contributor =
  contributor_item :: pystr
  contributor_source :: pystr
  contributor_origin :: ObservationOrigin
  contributor_weight :: int
  contributor_digest :: pystr

record Evaluation =
  eval_outcome :: EvidenceDecisionOutcome
  eval_reason :: "EvidenceRejectionReason option"
  eval_score :: "int option"
  eval_band :: "EvidenceBand option"
  eval_score_version :: "int option"
  eval_contributors :: "Contributor list"
  eval_items :: "StoredEvidenceItem list"

definition refused :: "EvidenceRejectionReason \<Rightarrow> StoredEvidenceItem list \<Rightarrow> Evaluation" where
  "refused why items = \<lparr>eval_outcome = EvidenceDecisionOutcome.REJECTED, eval_reason = Some why, eval_score = None, eval_band = None,
     eval_score_version = None, eval_contributors = [], eval_items = items\<rparr>"

fun weight_of :: "ObservationOrigin \<Rightarrow> int" where
  "weight_of LIVE_SENSOR = LIVE_SENSOR_WEIGHT"
| "weight_of LIVE_MODEL = LIVE_MODEL_WEIGHT"
| "weight_of RECORDED = 0"

definition contribution_of :: "ProvenanceFact \<Rightarrow> handler_error + Contribution" where
  "contribution_of f = map_sum ScoreFailed id (make_contribution (prov_source f) (prov_origin f) (weight_of (prov_origin f)))"

definition lifecycle_of :: "ObservationOrigin \<Rightarrow> EvidenceError + EvidenceState" where
  "lifecycle_of orig =
     bindE (Evidence.transition Evidence.INITIAL_STATE OBSERVE) (\<lambda>observed.
       if orig = RECORDED then Evidence.transition observed EvidenceEvent.REJECT
       else bindE (Evidence.transition observed VALIDATE) (\<lambda>validated. Evidence.transition validated ADMIT))"

definition ITEM_IDENTITY_PREFIX :: pystr where
  "ITEM_IDENTITY_PREFIX = lit ''item-''"

definition ITEM_IDENTITY_DIGEST_LENGTH :: nat where
  "ITEM_IDENTITY_DIGEST_LENGTH = 59"

definition item_identity :: "(pystr \<Rightarrow> pystr) \<Rightarrow> pystr \<Rightarrow> ProvenanceFact \<Rightarrow> handler_error + pystr" where
  "item_identity nfc proposal f =
     bindE (map_sum DigestFailed id (digest nfc Context.EVIDENCE (PDict (obj [(''canonicalizationVersion'', PInt 1),
              (''proposalId'', PStr proposal), (''evidenceItemId'', PStr (prov_item f))])))) (\<lambda>h.
       Inr (ITEM_IDENTITY_PREFIX @ take ITEM_IDENTITY_DIGEST_LENGTH h))"

definition stored_item :: "(pystr \<Rightarrow> pystr) \<Rightarrow> pystr \<Rightarrow> pystr \<Rightarrow> ProvenanceFact \<Rightarrow> handler_error + StoredEvidenceItem" where
  "stored_item nfc mission proposal f =
     bindE (item_identity nfc proposal f) (\<lambda>i.
     bindE (map_sum LifecycleFailed id (lifecycle_of (prov_origin f))) (\<lambda>reached.
     bindE (map_sum CanonicalFailed id (canonical_bytes nfc (PDict (prov_document f)))) (\<lambda>raw.
       Inr \<lparr>item_id = i, item_mission = mission, item_proposal = proposal, item_source = prov_source f, item_kind = prov_origin f,
            item_lifecycle = reached, item_digest = prov_digest f, item_payload = raw, item_observed_at = prov_observed_at f\<rparr>)))"

definition contributor_of :: "ProvenanceFact \<Rightarrow> Contributor" where
  "contributor_of f = \<lparr>contributor_item = prov_item f, contributor_source = prov_source f, contributor_origin = prov_origin f,
     contributor_weight = weight_of (prov_origin f), contributor_digest = prov_digest f\<rparr>"

definition evaluate :: "(pystr \<Rightarrow> pystr) \<Rightarrow> pystr \<Rightarrow> pystr \<Rightarrow> ProvenanceFact list \<Rightarrow> handler_error + Evaluation" where
  "evaluate nfc mission proposal observed =
     bindE (mapE (stored_item nfc mission proposal) observed) (\<lambda>items.
     bindE (mapE contribution_of observed) (\<lambda>contributions.
       case decision_band contributions V1_BOUNDARIES of
         Inl (RECORDED_CONTRIBUTION i) \<Rightarrow> Inr (refused RECORDED_ORIGIN items)
       | Inl error \<Rightarrow> Inl (ScoreFailed error)
       | Inr band \<Rightarrow>
           Inr \<lparr>eval_outcome = EvidenceDecisionOutcome.CONTRIBUTING, eval_reason = None, eval_score = Some (score contributions),
                eval_band = Some band, eval_score_version = Some SCORE_VERSION, eval_contributors = map contributor_of observed,
                eval_items = items\<rparr>))"

section \<open>The decision and its events\<close>

record DecisionStamp =
  ds_producer :: pystr
  ds_decision :: pystr
  ds_decision_event :: pystr
  ds_audit_record :: pystr
  ds_audit_event :: pystr
  ds_decided_at :: pystr
  ds_decision_sequence :: int
  ds_audit_sequence :: int
  ds_trace :: pystr

record DecisionArtifacts =
  art_decision :: StoredEvidenceDecision
  art_items :: "StoredEvidenceItem list"
  art_decision_event :: StagedApplicationEvent
  art_audit_event :: StagedApplicationEvent

definition EVIDENCE_PRODUCER :: pystr where
  "EVIDENCE_PRODUCER = lit ''evidence-service''"

definition DECISION_VERSION :: int where
  "DECISION_VERSION = 1"

definition DECISION_AUDIT_VERSION :: int where
  "DECISION_AUDIT_VERSION = 1"

definition contributor_document :: "Contributor \<Rightarrow> members" where
  "contributor_document c =
     obj [(''evidenceItemId'', PStr (contributor_item c)), (''sourceId'', PStr (contributor_source c)),
          (''origin'', PStr (origin_value (contributor_origin c))), (''weight'', PInt (contributor_weight c)),
          (''provenanceDigest'', PStr (contributor_digest c))]"

fun optional_int :: "int option \<Rightarrow> pyval" where
  "optional_int None = PNone"
| "optional_int (Some n) = PInt n"

fun optional_band :: "EvidenceBand option \<Rightarrow> pyval" where
  "optional_band None = PNone"
| "optional_band (Some NONE) = PStr (lit ''none'')"
| "optional_band (Some WEAK) = PStr (lit ''weak'')"
| "optional_band (Some SUPPORTED) = PStr (lit ''supported'')"
| "optional_band (Some CORROBORATED) = PStr (lit ''corroborated'')"

fun outcome_text :: "EvidenceDecisionOutcome \<Rightarrow> pystr" where
  "outcome_text EvidenceDecisionOutcome.CONTRIBUTING = lit ''contributing''"
| "outcome_text EvidenceDecisionOutcome.MANUAL_REVIEW = lit ''manual-review''"
| "outcome_text EvidenceDecisionOutcome.ABSTAINED = lit ''abstained''"
| "outcome_text EvidenceDecisionOutcome.REJECTED = lit ''rejected''"

definition contributors_value :: "Evaluation \<Rightarrow> pyval" where
  "contributors_value ev = PList (map (\<lambda>c. PDict (contributor_document c)) (eval_contributors ev))"

definition contributing_members :: "Evaluation \<Rightarrow> members" where
  "contributing_members ev =
     obj [(''scoreVersion'', optional_int (eval_score_version ev)), (''score'', optional_int (eval_score ev)),
          (''band'', optional_band (eval_band ev)), (''contributors'', contributors_value ev)]"

definition decision_members :: "AcceptedProposal \<Rightarrow> Evaluation \<Rightarrow> DecisionStamp \<Rightarrow> members" where
  "decision_members proposal ev stamp =
     (let p = accepted_payload proposal
      in obj [(''canonicalizationVersion'', PInt 1), (''evidenceDecisionVersion'', PInt DECISION_VERSION),
              (''missionId'', PStr (pay_mission p)), (''proposalId'', PStr (pay_proposal p)), (''proposalDigest'', PStr (pay_digest p)),
              (''proposalVersion'', PInt (pay_version p)), (''evidenceDecisionId'', PStr (ds_decision stamp)),
              (''outcome'', PStr (outcome_text (eval_outcome ev)))]
         @ (case eval_reason ev of
              Some why \<Rightarrow> obj [(''reason'', PStr (rejection_value why))]
            | None \<Rightarrow> contributing_members ev))"

text \<open>The payload and its digest.\<close>

definition decision_payload ::
    "(pystr \<Rightarrow> pystr) \<Rightarrow> AcceptedProposal \<Rightarrow> Evaluation \<Rightarrow> DecisionStamp \<Rightarrow> handler_error + members \<times> pystr" where
  "decision_payload nfc proposal ev stamp =
     bindE (map_sum DigestFailed id (evidence_decision_digest nfc (PDict (decision_members proposal ev stamp)))) (\<lambda>h.
       Inr (decision_members proposal ev stamp @ obj [(''evidenceDecisionDigest'', PStr h)], h))"

definition decision_audit :: "AcceptedProposal \<Rightarrow> Evaluation \<Rightarrow> DecisionStamp \<Rightarrow> pystr \<Rightarrow> members" where
  "decision_audit proposal ev stamp h =
     (let p = accepted_payload proposal
      in obj [(''auditVersion'', PInt DECISION_AUDIT_VERSION), (''missionId'', PStr (pay_mission p)),
              (''recordId'', PStr (ds_audit_record stamp)), (''recordType'', PStr (lit ''evidence-decision'')),
              (''proposalId'', PStr (pay_proposal p)), (''proposalDigest'', PStr (pay_digest p)),
              (''proposalVersion'', PInt (pay_version p)), (''evidenceDecisionId'', PStr (ds_decision stamp)),
              (''evidenceDecisionDigest'', PStr h), (''outcome'', PStr (outcome_text (eval_outcome ev)))]
         @ (case eval_reason ev of None \<Rightarrow> [] | Some why \<Rightarrow> obj [(''reason'', PStr (rejection_value why))]))"

definition decision_event_document ::
    "AcceptedProposal \<Rightarrow> DecisionStamp \<Rightarrow> Family \<Rightarrow> members \<Rightarrow> pystr \<Rightarrow> pystr \<Rightarrow> pystr \<Rightarrow> members" where
  "decision_event_document proposal stamp fam content i cause seq =
     obj [(''specversion'', PStr (lit ''1.0'')), (''id'', PStr i),
          (''source'', PStr (lit ''urn:aerial-rescue:evidence-service:'' @ ds_producer stamp)),
          (''type'', PStr (if fam = EVIDENCE_DECISION then lit ''aerial-rescue.v1.evidence.decision''
                           else lit ''aerial-rescue.v1.audit.evidence-decision'')),
          (''subject'', PStr (pay_mission (accepted_payload proposal))), (''time'', PStr (ds_decided_at stamp)),
          (''datacontenttype'', PStr (lit ''application/json'')),
          (''dataschema'', PStr (lit ''https://aerial-rescue.invalid/schemas/v1/payload/'' @
             (if fam = EVIDENCE_DECISION then lit ''evidence-decision.schema.json'' else lit ''audit.schema.json''))),
          (''data'', PDict content), (''sequence'', PStr seq),
          (''correlationid'', PStr (correlation_id (accepted_envelope proposal))), (''causationid'', PStr cause),
          (''traceparent'', PStr (ds_trace stamp))]"

definition decision_event ::
    "(pystr \<Rightarrow> pystr) \<Rightarrow> AcceptedProposal \<Rightarrow> DecisionStamp \<Rightarrow> Topic \<Rightarrow> members \<Rightarrow> pystr \<Rightarrow> int \<Rightarrow> pystr \<Rightarrow> handler_error + bytes" where
  "decision_event nfc proposal stamp topic content i number cause =
     (case sequence_text number of
        None \<Rightarrow> Inl (DecisionPublicationError DecisionPublicationRefusal.SEQUENCE)
      | Some seq \<Rightarrow>
          let document = decision_event_document proposal stamp (family topic) content i cause seq
          in bindE (map_sum EnvelopeFailed id (parse_envelope nfc (PDict document))) (\<lambda>e.
             bindE (map_sum EnvelopeFailed id (check_topic_binding e topic)) (\<lambda>_.
               map_sum CanonicalFailed id (canonical_bytes nfc (PDict document)))))"

definition decision_topic :: "pystr \<Rightarrow> pystr \<Rightarrow> Topic" where
  "decision_topic mission proposal = \<lparr>family = EVIDENCE_DECISION, mission_id = mission, topic_parameters = [(lit ''proposalId'', proposal)]\<rparr>"

definition decision_audit_topic :: "pystr \<Rightarrow> Topic" where
  "decision_audit_topic mission =
     \<lparr>family = AUDIT, mission_id = mission, topic_parameters = [(lit ''recordType'', lit ''evidence-decision'')]\<rparr>"

text \<open>The proposal of a decision event is a text by construction.\<close>

definition staged_decision :: "(pystr \<Rightarrow> pystr) \<Rightarrow> bytes \<Rightarrow> Family \<Rightarrow> handler_error + StagedApplicationEvent" where
  "staged_decision nfc raw fam =
     bindE (case decode_envelope nfc raw of
              Inl (EnvelopeText error) \<Rightarrow> Inl (DecodeFailed error)
            | Inl (EnvelopeRefused error) \<Rightarrow> Inl (EnvelopeFailed error)
            | Inr e \<Rightarrow> Inr e) (\<lambda>e.
     bindE (if fam = EVIDENCE_DECISION
            then (case get (data e) (lit ''proposalId'') of
                    PStr t \<Rightarrow> Inr (decision_topic (subject e) t)
                  | _ \<Rightarrow> Inl (KeyFailed (lit ''proposalId'')))
            else Inr (decision_audit_topic (subject e))) (\<lambda>topic.
     bindE (map_sum TopicFailed id (format_topic topic)) (\<lambda>text.
       Inr \<lparr>app_producer = EVIDENCE_PRODUCER, app_event = envelope_id e,
            app_family = (if fam = EVIDENCE_DECISION then lit ''evidence-decision'' else lit ''audit''), app_topic = text,
            app_headers = EMPTY_HEADERS, app_payload = raw, app_traceparent = traceparent e, app_tracestate = tracestate e,
            app_correlation = correlation_id e, app_causation = causation_id e, app_staged_at = Envelope.time e\<rparr>)))"

definition stored_decision ::
    "(pystr \<Rightarrow> pystr) \<Rightarrow> AcceptedProposal \<Rightarrow> Evaluation \<Rightarrow> DecisionStamp \<Rightarrow> members \<Rightarrow> pystr \<Rightarrow> handler_error + StoredEvidenceDecision" where
  "stored_decision nfc proposal ev stamp content h =
     bindE (if has_member content (lit ''contributors'')
            then map_sum CanonicalFailed Some (canonical_bytes nfc (get content (lit ''contributors''))) else Inr None) (\<lambda>raw.
     bindE (map_sum CanonicalFailed id (canonical_bytes nfc (PDict content))) (\<lambda>b.
       Inr \<lparr>dec_id = ds_decision stamp, dec_mission = pay_mission (accepted_payload proposal),
            dec_proposal = pay_proposal (accepted_payload proposal), dec_proposal_digest = pay_digest (accepted_payload proposal),
            dec_digest = h, dec_version = DECISION_VERSION, dec_score_version = eval_score_version ev, dec_score = eval_score ev,
            dec_band = eval_band ev, dec_outcome = eval_outcome ev, dec_contributors = raw, dec_payload = b,
            dec_decided_at = ds_decided_at stamp, dec_sequence = ds_decision_sequence stamp\<rparr>))"

definition build_artifacts ::
    "(pystr \<Rightarrow> pystr) \<Rightarrow> AcceptedProposal \<Rightarrow> Evaluation \<Rightarrow> DecisionStamp \<Rightarrow> handler_error + DecisionArtifacts" where
  "build_artifacts nfc proposal ev stamp =
     (let mission = pay_mission (accepted_payload proposal)
      in bindE (decision_payload nfc proposal ev stamp) (\<lambda>(content, h).
         bindE (decision_event nfc proposal stamp (decision_topic mission (pay_proposal (accepted_payload proposal))) content
                  (ds_decision_event stamp) (ds_decision_sequence stamp) (envelope_id (accepted_envelope proposal))) (\<lambda>event.
         bindE (decision_event nfc proposal stamp (decision_audit_topic mission) (decision_audit proposal ev stamp h)
                  (ds_audit_event stamp) (ds_audit_sequence stamp) (ds_decision_event stamp)) (\<lambda>audit.
         bindE (stored_decision nfc proposal ev stamp content h) (\<lambda>dec.
         bindE (staged_decision nfc event EVIDENCE_DECISION) (\<lambda>first.
         bindE (staged_decision nfc audit AUDIT) (\<lambda>second.
           Inr \<lparr>art_decision = dec, art_items = eval_items ev, art_decision_event = first, art_audit_event = second\<rparr>)))))))"

section \<open>Properties\<close>

lemma map_sum_Inr_iff: "map_sum f g x = Inr y \<longleftrightarrow> (\<exists>z. x = Inr z \<and> y = g z)"
  by (cases x) auto

lemma map_sum_Inl_iff: "map_sum f g x = Inl y \<longleftrightarrow> (\<exists>z. x = Inl z \<and> y = f z)"
  by (cases x) auto

abbreviation facts_of :: "ObservationOrigin \<Rightarrow> ProvenanceFact list \<Rightarrow> int" where
  "facts_of orig fs \<equiv> int (length (filter (\<lambda>f. prov_origin f = orig) fs))"

lemma contribution_of_eq:
  "contribution_of f = Inr \<lparr>source_id = prov_source f, origin = prov_origin f, weight = weight_of (prov_origin f)\<rparr>"
  by (cases "prov_origin f")
     (simp_all add: contribution_of_def make_contribution_def score_constants LIVE_SENSOR_WEIGHT_def LIVE_MODEL_WEIGHT_def)

lemma lifecycle_of_each:
  "lifecycle_of LIVE_MODEL = Inr EvidenceState.CONTRIBUTING" "lifecycle_of LIVE_SENSOR = Inr EvidenceState.CONTRIBUTING" "lifecycle_of RECORDED = Inr EvidenceState.REJECTED"
  by code_simp+

lemma lifecycle_of_eq: "lifecycle_of orig = Inr (if orig = RECORDED then EvidenceState.REJECTED else EvidenceState.CONTRIBUTING)"
  by (cases orig) (simp_all add: lifecycle_of_each)

lemma refuse_recorded_Inl: "\<exists>c \<in> set cs. origin c = RECORDED \<Longrightarrow> \<exists>i. refuse_recorded cs = Inl (RECORDED_CONTRIBUTION i)"
  by (induction cs) auto

lemma contribution_weights:
  "\<forall>f \<in> set fs. prov_origin f \<noteq> RECORDED \<Longrightarrow>
     sum_list (map (\<lambda>f. weight_of (prov_origin f)) fs) = 40 * facts_of LIVE_SENSOR fs + 35 * facts_of LIVE_MODEL fs"
proof (induction fs)
  case (Cons f fs)
  then show ?case by (cases "prov_origin f") (auto simp: LIVE_SENSOR_WEIGHT_def LIVE_MODEL_WEIGHT_def algebra_simps)
qed simp

text \<open>The item that records a fact for a proposal.\<close>

definition records_fact :: "(pystr \<Rightarrow> pystr) \<Rightarrow> pystr \<Rightarrow> pystr \<Rightarrow> ProvenanceFact \<Rightarrow> StoredEvidenceItem \<Rightarrow> bool" where
  "records_fact nfc mission proposal f item \<longleftrightarrow>
     item_identity nfc proposal f = Inr (item_id item) \<and> item_mission item = mission \<and> item_proposal item = proposal
     \<and> item_source item = prov_source f \<and> item_kind item = prov_origin f
     \<and> item_lifecycle item = (if prov_origin f = RECORDED then EvidenceState.REJECTED else EvidenceState.CONTRIBUTING)
     \<and> item_digest item = prov_digest f \<and> canonical_bytes nfc (PDict (prov_document f)) = Inr (item_payload item)
     \<and> item_observed_at item = prov_observed_at f"

lemma stored_items_record:
  "mapE (stored_item nfc mission proposal) observed = Inr items \<Longrightarrow> list_all2 (records_fact nfc mission proposal) observed items"
  unfolding mapE_Inr_iff by (erule list_all2_mono) (auto simp: stored_item_def lifecycle_of_eq records_fact_def map_sum_Inr_iff)

lemma stored_items_error:
  "mapE (stored_item nfc mission proposal) observed = Inl error \<Longrightarrow> (\<forall>x. error \<noteq> ScoreFailed x) \<and> (\<forall>x. error \<noteq> LifecycleFailed x)"
  by (induction observed) (auto simp: stored_item_def item_identity_def lifecycle_of_eq bindE_eq_Inl map_sum_Inl_iff)

text \<open>C23. What the service decides from the facts that the wire contract provides for: one to twenty-three of them, of distinct sources. Every
  fact becomes one item, in order, with the members of the fact, contributing if it is live and rejected if it was replayed. One
  replayed fact refuses the proposal for its recorded origin: no score, no band, no contributors. Otherwise every fact contributes,
  with its own item, source, origin and digest and a weight of forty for a sensor and thirty-five for a model; the score is the sum
  of the weights, at most a hundred, and the band is corroborated from 75 with two sources, supported from 50 or from 75 with
  one source, weak from 25, and none below. Only encoding a fact may fail.\<close>

theorem evaluation_by_origin:
  assumes "1 \<le> length observed" "length observed \<le> 23" "distinct (map prov_source observed)"
  shows "case evaluate nfc mission proposal observed of
     Inr ev \<Rightarrow>
       list_all2 (records_fact nfc mission proposal) observed (eval_items ev)
       \<and> (if RECORDED \<in> prov_origin ` set observed
          then eval_outcome ev = EvidenceDecisionOutcome.REJECTED \<and> eval_reason ev = Some RECORDED_ORIGIN
               \<and> eval_score ev = None \<and> eval_band ev = None \<and> eval_score_version ev = None \<and> eval_contributors ev = []
          else let n = min 100 (40 * facts_of LIVE_SENSOR observed + 35 * facts_of LIVE_MODEL observed)
               in eval_outcome ev = EvidenceDecisionOutcome.CONTRIBUTING \<and> eval_reason ev = None \<and> eval_score ev = Some n
                  \<and> eval_score_version ev = Some 1
                  \<and> eval_contributors ev = map (\<lambda>f. \<lparr>contributor_item = prov_item f, contributor_source = prov_source f,
                       contributor_origin = prov_origin f, contributor_weight = (if prov_origin f = LIVE_SENSOR then 40 else 35),
                       contributor_digest = prov_digest f\<rparr>) observed
                  \<and> eval_band ev = Some (if n < 25 then NONE else if n < 50 then WEAK
                       else if n < 75 \<or> length observed < 2 then SUPPORTED else CORROBORATED))
   | Inl error \<Rightarrow> (\<forall>e. error \<noteq> ScoreFailed e) \<and> (\<forall>e. error \<noteq> LifecycleFailed e)"
proof -
  let ?cs = "map (\<lambda>f. \<lparr>source_id = prov_source f, origin = prov_origin f, weight = weight_of (prov_origin f)\<rparr>) observed"
  have cs: "mapE contribution_of observed = Inr ?cs" by (rule mapE_all_Inr) (rule contribution_of_eq)
  have sources: "corroborating_sources ?cs = length observed"
    using distinct_card [OF assms(3)] by (simp add: corroborating_sources_def image_image)
  show ?thesis
  proof (cases "mapE (stored_item nfc mission proposal) observed")
    case (Inl error)
    with stored_items_error [OF Inl] show ?thesis by (simp add: evaluate_def)
  next
    case (Inr stored)
    note items = stored_items_record [OF Inr]
    show ?thesis
    proof (cases "RECORDED \<in> prov_origin ` set observed")
      case True
      then have "\<exists>c \<in> set ?cs. origin c = RECORDED" by force
      from refuse_recorded_Inl [OF this] obtain i where "refuse_recorded ?cs = Inl (RECORDED_CONTRIBUTION i)" ..
      with True Inr cs items show ?thesis by (simp add: evaluate_def decision_band_eq refused_def)
    next
      case False
      then have live: "\<forall>f \<in> set observed. prov_origin f \<noteq> RECORDED" by force
      then have "refuse_recorded ?cs = Inr ()" by (simp add: refuse_recorded_Inr)
      moreover have "score ?cs = min 100 (40 * facts_of LIVE_SENSOR observed + 35 * facts_of LIVE_MODEL observed)"
        using contribution_weights [OF live] by (simp add: score_def MAXIMUM_SCORE_def comp_def)
      moreover have "weight_of (prov_origin f) = (if prov_origin f = LIVE_SENSOR then 40 else 35)" if "f \<in> set observed" for f
        using live that by (cases "prov_origin f") (auto simp: LIVE_SENSOR_WEIGHT_def LIVE_MODEL_WEIGHT_def)
      ultimately show ?thesis using False Inr cs items sources
        by (auto simp: evaluate_def decision_band_eq band_for_def V1_BOUNDARIES_def Let_def contributor_of_def comp_def SCORE_VERSION_def)
    qed
  qed
qed

text \<open>A sensor and the model that read it.\<close>

definition sample_facts :: "ProvenanceFact list" where
  "sample_facts = map (\<lambda>(s, orig). \<lparr>prov_item = lit ''i-'' @ lit s, prov_source = lit s, prov_origin = orig, prov_digest = lit ''0f'',
     prov_document = obj [(''sourceId'', PStr (lit s))], prov_observed_at = lit ''2026-01-02T03:04:05.678Z''\<rparr>)
     [(''sensor-1'', LIVE_SENSOR), (''model-1'', LIVE_MODEL)]"

lemma stored_item_encodes:
  assumes "canonical_bytes nfc (PDict (obj [(''canonicalizationVersion'', PInt 1), (''proposalId'', PStr proposal),
      (''evidenceItemId'', PStr (prov_item f))])) = Inr b" "canonical_bytes nfc (PDict (prov_document f)) = Inr c"
  shows "\<exists>item. stored_item nfc mission proposal f = Inr item"
proof -
  have "covered_members (PDict (obj [(''canonicalizationVersion'', PInt 1), (''proposalId'', PStr proposal), (''evidenceItemId'', PStr (prov_item f))]))
      DIGEST_FIELD = Inr (obj [(''canonicalizationVersion'', PInt 1), (''proposalId'', PStr proposal), (''evidenceItemId'', PStr (prov_item f))])"
    by (simp add: get_Cons CANONICALIZATION_VERSION_def VERSION_FIELD_def DIGEST_FIELD_def)
  with assms show ?thesis
    by (simp add: stored_item_def item_identity_def digest_def digest_covered_def lifecycle_of_eq del: obj_simps covered_members.simps)
qed

theorem evaluation_by_origin_witness:
  "\<exists>ev. evaluate id (lit ''m-1'') (lit ''p-1'') sample_facts = Inr ev \<and> eval_score ev = Some 75 \<and> eval_band ev = Some CORROBORATED
     \<and> map contributor_weight (eval_contributors ev) = [40, 35]"
proof -
  have facts: "1 \<le> length sample_facts" "length sample_facts \<le> 23" "distinct (map prov_source sample_facts)" by code_simp+
  have "\<forall>f \<in> set sample_facts. \<not> isl (canonical_bytes id (PDict (prov_document f)))
      \<and> \<not> isl (canonical_bytes id (PDict (obj [(''canonicalizationVersion'', PInt 1), (''proposalId'', PStr (lit ''p-1'')),
          (''evidenceItemId'', PStr (prov_item f))])))" by code_simp
  then have "\<forall>f \<in> set sample_facts. \<exists>item. stored_item id (lit ''m-1'') (lit ''p-1'') f = Inr item"
    using stored_item_encodes by (metis sum.collapse(2))
  then obtain items where items: "mapE (stored_item id (lit ''m-1'') (lit ''p-1'')) sample_facts = Inr items"
    by (auto simp: sample_facts_def)
  have "decision_band (map (\<lambda>f. \<lparr>source_id = prov_source f, origin = prov_origin f, weight = weight_of (prov_origin f)\<rparr>) sample_facts) V1_BOUNDARIES
      = Inr CORROBORATED" by code_simp
  moreover have "mapE contribution_of sample_facts
      = Inr (map (\<lambda>f. \<lparr>source_id = prov_source f, origin = prov_origin f, weight = weight_of (prov_origin f)\<rparr>) sample_facts)"
    by (rule mapE_all_Inr) (rule contribution_of_eq)
  ultimately obtain ev where ev: "evaluate id (lit ''m-1'') (lit ''p-1'') sample_facts = Inr ev"
    using items by (simp add: evaluate_def)
  from evaluation_by_origin [OF facts, of id "lit ''m-1''" "lit ''p-1''"] ev show ?thesis by (simp add: sample_facts_def)
qed

end
