(* ===== verification/EvidenceService.thy ===== *)
theory EvidenceService
  imports Assessment Authorization
begin

text \<open>
  \<open>services/evidence_service/src/aerial_rescue_evidence_service\<close>: \<open>source_processing.py\<close>, \<open>processing.py\<close> and \<open>store_adapter.py\<close>. A salient
  event of a drone becomes a durable source with the fact that its sensor saw it; a proposal becomes a decision. Both
  commit before the delivery is settled.
\<close>

section \<open>Deliveries\<close>

record InboundDelivery =
  in_topic :: pystr
  in_payload :: bytes
  in_digest :: pystr

definition EVIDENCE_CONSUMER :: pystr where
  "EVIDENCE_CONSUMER = lit ''evidence-service''"

definition PROPOSAL_CHANNEL :: pystr where
  "PROPOSAL_CHANNEL = lit ''evidence-service-agent-proposal''"

definition SOURCE_CHANNEL :: pystr where
  "SOURCE_CHANNEL = lit ''evidence-service-drone-event''"

definition evidence_candidate ::
    "(pystr \<Rightarrow> pystr) \<Rightarrow> InboundDelivery \<Rightarrow> pystr \<Rightarrow> pystr \<Rightarrow> ingress_error + BrokerRefusalCandidate" where
  "evidence_candidate nfc delivery channel code =
     map_sum id (\<lambda>c. c\<lparr>refused_consumer := EVIDENCE_CONSUMER\<rparr>)
       (refusal_candidate nfc \<lparr>delivery_topic = in_topic delivery, delivery_payload = in_payload delivery\<rparr> channel code)"

text \<open>Claim the inbox row; return the result of an exact duplicate, or do the work and complete the row with its result.\<close>

definition once ::
    "InboxIdentity \<Rightarrow> handler_error \<Rightarrow> (bool \<Rightarrow> bytes \<Rightarrow> 'r) \<Rightarrow> (handler_error, bytes \<times> pystr) tx \<Rightarrow> (handler_error, 'r) tx" where
  "once i missing wrap work =
     bindT (raising Stored (inbox_claim i)) (\<lambda>oc.
       if inbox_decision oc = InboxDecision.DUPLICATE
       then (case prior_result oc of None \<Rightarrow> raiseT missing | Some b \<Rightarrow> returnT (wrap True b))
       else bindT work (\<lambda>(b, at).
            bindT (raising Stored (inbox_complete i b at)) (\<lambda>_. returnT (wrap False b))))"

section \<open>Salient events\<close>

datatype SourceProcessingOutcome = COMMITTED | DUPLICATE

record SourceProcessingResult =
  source_outcome :: SourceProcessingOutcome
  source_answer :: bytes

definition SENSOR_ID_PREFIX :: pystr where
  "SENSOR_ID_PREFIX = lit ''sensor-''"

record AcceptedSource =
  accepted_event :: StoredSourceEvent
  accepted_fact :: StoredSourceEvidenceFact

definition sensor_document :: "StoredSourceEvent \<Rightarrow> SalientPayload \<Rightarrow> pystr \<Rightarrow> members" where
  "sensor_document ev p item =
     obj [(''canonicalizationVersion'', PInt 1), (''evidenceItemId'', PStr item), (''sourceId'', PStr (salient_drone p)),
          (''origin'', PStr (origin_value LIVE_SENSOR)), (''sourceEventId'', PStr (src_event ev)),
          (''sourceEventDigest'', PStr (src_digest ev)), (''observation'', PStr (salient_observation p)),
          (''latitudeMicrodegrees'', PInt (salient_latitude p)), (''longitudeMicrodegrees'', PInt (salient_longitude p))]"

definition sensor_item :: "StoredSourceEvent \<Rightarrow> pystr" where
  "sensor_item ev = SENSOR_ID_PREFIX @ take 56 (src_digest ev)"

definition sensor_fact :: "(pystr \<Rightarrow> pystr) \<Rightarrow> StoredSourceEvent \<Rightarrow> SalientPayload \<Rightarrow> caught + StoredSourceEvidenceFact" where
  "sensor_fact nfc ev p =
     (let document = sensor_document ev p (sensor_item ev)
      in bindE (map_sum (\<lambda>_. Caught) id (canonical_bytes nfc (PDict document))) (\<lambda>rendered.
         bindE (map_sum (\<lambda>_. Caught) id (digest nfc Context.EVIDENCE (PDict document))) (\<lambda>h.
           Inr \<lparr>fact_item = sensor_item ev, fact_source = salient_drone p, fact_origin = LIVE_SENSOR, fact_digest = h,
                fact_bytes = rendered, fact_document = document, fact_observed_at = src_observed_at ev\<rparr>)))"

definition accept_source :: "(pystr \<Rightarrow> pystr) \<Rightarrow> InboundDelivery \<Rightarrow> caught + AcceptedSource" where
  "accept_source nfc delivery =
     bindE (map_sum (\<lambda>_. Caught) id (decode_bytes nfc (in_payload delivery))) (\<lambda>document.
     bindE (map_sum (\<lambda>_. Caught) id (canonical_bytes nfc document)) (\<lambda>rendered.
       if rendered \<noteq> in_payload delivery then Inl Caught
       else bindE (read_source nfc (in_topic delivery) (in_payload delivery)) (\<lambda>(fam, e, p).
         if \<not> (fam = DRONE_EVENT \<and> envelope_type e = SALIENT_EVENT_TYPE \<and> source e = drone_source (salient_drone p)
               \<and> subject e = salient_mission p)
         then Inl Caught
         else bindE (map_sum (\<lambda>_. Caught) id (source_event_digest nfc e)) (\<lambda>h.
           let ev = \<lparr>src_source = source e, src_event = envelope_id e, src_mission = salient_mission p,
                 src_topic = in_topic delivery, src_digest = h, src_payload = in_payload delivery, src_observed_at = Envelope.time e\<rparr>
           in bindE (sensor_fact nfc ev p) (\<lambda>f. Inr \<lparr>accepted_event = ev, accepted_fact = f\<rparr>)))))"

definition source_identity :: "InboundDelivery \<Rightarrow> StoredSourceEvent \<Rightarrow> InboxIdentity" where
  "source_identity delivery ev = \<lparr>inbox_consumer = EVIDENCE_CONSUMER, inbox_source = src_source ev, inbox_event = src_event ev,
     inbox_mission = src_mission ev, inbox_digest = in_digest delivery\<rparr>"

text \<open>What a new claim does: the source and its fact are recorded; the result names the digest of the event.\<close>

definition observe_source :: "(pystr \<Rightarrow> pystr) \<Rightarrow> AcceptedSource \<Rightarrow> (handler_error, bytes \<times> pystr) tx" where
  "observe_source nfc a =
     bindT (pure (map_sum CanonicalFailed id
              (canonical_bytes nfc (PDict (obj [(''sourceEventDigest'', PStr (src_digest (accepted_event a)))]))))) (\<lambda>result.
     bindT (raising Stored (record_source_evidence nfc (accepted_event a) [accepted_fact a])) (\<lambda>_.
       returnT (result, src_observed_at (accepted_event a))))"

definition source_result :: "bool \<Rightarrow> bytes \<Rightarrow> SourceProcessingResult" where
  "source_result known b = \<lparr>source_outcome = (if known then DUPLICATE else COMMITTED), source_answer = b\<rparr>"

definition source_unit :: "(pystr \<Rightarrow> pystr) \<Rightarrow> InboundDelivery \<times> AcceptedSource \<Rightarrow> (handler_error, SourceProcessingResult) tx" where
  "source_unit nfc da =
     once (source_identity (fst da) (accepted_event (snd da))) (SourceProcessingError SourceProcessingRefusal.DUPLICATE_RESULT)
       source_result (observe_source nfc (snd da))"

definition handle_source_delivery ::
    "(pystr \<Rightarrow> pystr) \<Rightarrow> InboundDelivery \<Rightarrow> environment \<Rightarrow> database \<Rightarrow> SourceProcessingResult handled" where
  "handle_source_delivery nfc delivery env db =
     (case accept_source nfc delivery of
        Inl Escapes \<Rightarrow> (Inl (Raised (KeyFailed (in_topic delivery))), db, None)
      | Inl Caught \<Rightarrow> then_raise (SourceProcessingError INVALID_INGRESS)
          (reject_candidate (evidence_candidate nfc delivery SOURCE_CHANNEL (lit ''invalid-ingress'')) env db)
      | Inr a \<Rightarrow>
          if \<not> fullmatch DIGEST_PATTERN (in_digest delivery)
          then then_raise (SourceProcessingError SourceProcessingRefusal.CANONICAL_DIGEST)
            (reject_candidate (evidence_candidate nfc delivery SOURCE_CHANNEL (lit ''canonical-digest'')) env db)
          else settled_unit env (src_event (accepted_event a)) (source_unit nfc (delivery, a)) db)"

section \<open>Proposals\<close>

datatype ProcessingOutcome = COMMITTED | DUPLICATE

record ProcessingResult =
  processing_outcome :: ProcessingOutcome
  processing_answer :: bytes

text \<open>\<open>refusal.name.lower().replace("_", "-")\<close>\<close>

fun proposal_refusal_code :: "ProposalIngressRefusal \<Rightarrow> pystr" where
  "proposal_refusal_code UNREADABLE = lit ''unreadable''"
| "proposal_refusal_code UNROUTED = lit ''unrouted''"
| "proposal_refusal_code ProposalIngressRefusal.PAYLOAD = lit ''payload''"
| "proposal_refusal_code ProposalIngressRefusal.DIGEST_MISMATCH = lit ''digest-mismatch''"

definition proposal_identity :: "InboundDelivery \<Rightarrow> AcceptedProposal \<Rightarrow> InboxIdentity" where
  "proposal_identity delivery a = \<lparr>inbox_consumer = EVIDENCE_CONSUMER, inbox_source = source (accepted_envelope a),
     inbox_event = envelope_id (accepted_envelope a), inbox_mission = pay_mission (accepted_payload a), inbox_digest = in_digest delivery\<rparr>"

text \<open>\<open>int(envelope.sequence)\<close>: the sequence of an envelope is digits.\<close>

definition proposal_record :: "(pystr \<Rightarrow> pystr) \<Rightarrow> AcceptedProposal \<Rightarrow> handler_error + StoredProposal" where
  "proposal_record nfc a =
     (let p = accepted_payload a; e = accepted_envelope a
      in bindE (map_sum CanonicalFailed id (canonical_bytes nfc (PDict (data e)))) (\<lambda>b.
           Inr \<lparr>prop_id = pay_proposal p, prop_mission = pay_mission p, prop_source_event = pay_source_event p,
                prop_source_digest = pay_source_digest p, prop_agent = pay_agent p, prop_invocation = pay_invocation p,
                prop_type = pay_type p, prop_digest = pay_digest p, prop_payload = b, prop_drone = pay_drone p,
                prop_latitude = pay_latitude p, prop_longitude = pay_longitude p, prop_command = pay_command p,
                prop_issued_at = Envelope.time e, prop_sequence = int (numeral_of (sequence e)), prop_correlation = correlation_id e,
                prop_causation = causation_id e, prop_traceparent = traceparent e\<rparr>))"

definition source_of :: "StoredSourceEvidence option \<Rightarrow> SourceEvidence option" where
  "source_of stored = map_option (\<lambda>s. \<lparr>source_topic = evidence_topic s, source_event = evidence_event s,
     source_observations = map (\<lambda>f. \<lparr>prov_item = fact_item f, prov_source = fact_source f, prov_origin = fact_origin f,
       prov_digest = fact_digest f, prov_document = fact_document f, prov_observed_at = fact_observed_at f\<rparr>) (evidence_facts s)\<rparr>) stored"

definition assess ::
    "(pystr \<Rightarrow> pystr) \<Rightarrow> AcceptedProposal \<Rightarrow> SourceEvidence option \<Rightarrow> handler_error + Evaluation" where
  "assess nfc a evidence =
     (case validate_source nfc a evidence of
        Inl (ProvenanceError MISSING) \<Rightarrow> Inr (refused PROVENANCE_MISSING [])
      | Inl (ProvenanceError MISMATCH) \<Rightarrow> Inr (refused PROVENANCE_MISMATCH [])
      | Inl (Beyond error) \<Rightarrow> Inl error
      | Inr observed \<Rightarrow>
          bindE (with_model_provenance nfc a observed)
            (evaluate nfc (pay_mission (accepted_payload a)) (pay_proposal (accepted_payload a))))"

fun record_items :: "StoredEvidenceItem list \<Rightarrow> (handler_error, unit) tx" where
  "record_items [] = returnT ()"
| "record_items (item # items) = bindT (raising Stored (record_item item)) (\<lambda>_. record_items items)"

text \<open>\<open>_persist\<close> up to the completion of the inbox row.\<close>

definition persist_artifacts :: "DecisionArtifacts \<Rightarrow> (handler_error, unit) tx" where
  "persist_artifacts artifacts =
     bindT (record_items (art_items artifacts)) (\<lambda>_.
     bindT (raising Stored (record_decision (art_decision artifacts))) (\<lambda>_.
     bindT (raising Stored (stage_application (art_decision_event artifacts))) (\<lambda>_.
       raising Stored (stage_application (art_audit_event artifacts)))))"

definition decide_proposal :: "(pystr \<Rightarrow> pystr) \<Rightarrow> AcceptedProposal \<Rightarrow> DecisionStamp \<Rightarrow> (handler_error, bytes \<times> pystr) tx" where
  "decide_proposal nfc a stamp =
     bindT (raising Stored (load_proposal (pay_proposal (accepted_payload a)))) (\<lambda>stored.
     bindT (pure (proposal_record nfc a)) (\<lambda>expected.
       if stored \<noteq> expected then raiseT (ProcessingError PROPOSAL_MISMATCH)
       else bindT (raising Stored (load_source_evidence nfc (pay_mission (accepted_payload a)) (pay_source_event (accepted_payload a)))) (\<lambda>found.
            bindT (pure (assess nfc a (source_of found))) (\<lambda>ev.
            bindT (pure (build_artifacts nfc a ev stamp)) (\<lambda>artifacts.
            bindT (persist_artifacts artifacts) (\<lambda>_.
              returnT (app_payload (art_decision_event artifacts), dec_decided_at (art_decision artifacts))))))))"

definition processing_result :: "bool \<Rightarrow> bytes \<Rightarrow> ProcessingResult" where
  "processing_result known b = \<lparr>processing_outcome = (if known then DUPLICATE else COMMITTED), processing_answer = b\<rparr>"

definition proposal_unit ::
    "(pystr \<Rightarrow> pystr) \<Rightarrow> InboundDelivery \<times> AcceptedProposal \<Rightarrow> DecisionStamp \<Rightarrow> (handler_error, ProcessingResult) tx" where
  "proposal_unit nfc da stamp =
     once (proposal_identity (fst da) (snd da)) (ProcessingError ProcessingRefusal.DUPLICATE_RESULT)
       processing_result (decide_proposal nfc (snd da) stamp)"

definition handle_delivery ::
    "(pystr \<Rightarrow> pystr) \<Rightarrow> InboundDelivery \<Rightarrow> DecisionStamp \<Rightarrow> environment \<Rightarrow> database \<Rightarrow> ProcessingResult handled" where
  "handle_delivery nfc delivery stamp env db =
     (case accept_proposal nfc (in_payload delivery) (in_topic delivery) of
        Inl (ProposalIngressError kind) \<Rightarrow> then_raise (ProposalIngressError kind)
          (reject_candidate (evidence_candidate nfc delivery PROPOSAL_CHANNEL (proposal_refusal_code kind)) env db)
      | Inl error \<Rightarrow> (Inl (Raised error), db, None)
      | Inr a \<Rightarrow>
          if \<not> fullmatch DIGEST_PATTERN (in_digest delivery)
          then then_raise (ProcessingError ProcessingRefusal.CANONICAL_DIGEST)
            (reject_candidate (evidence_candidate nfc delivery PROPOSAL_CHANNEL (lit ''canonical-digest'')) env db)
          else settled_unit env (envelope_id (accepted_envelope a)) (proposal_unit nfc (delivery, a) stamp) db)"

section \<open>A claimed row is completed once\<close>

lemma once_cases:
  assumes "once i missing wrap work db = Inr (r, db')"
  obtains (known) b where "r = wrap True b" "completed i b db'" "inbox_kept db db'" "\<exists>rows. db' = db\<lparr>inbox := rows\<rparr>"
  | (fresh) b at rows db2 rows' where "r = wrap False b" "work (db\<lparr>inbox := rows\<rparr>) = Inr ((b, at), db2)"
      "db' = db2\<lparr>inbox := rows'\<rparr>" "completed i b db'" "inbox_kept db (db\<lparr>inbox := rows\<rparr>)" "inbox_kept db2 db'"
proof -
  from assms obtain oc db1 where oc: "inbox_claim i db = Inr (oc, db1)"
    and rest: "(if inbox_decision oc = InboxDecision.DUPLICATE
       then (case prior_result oc of None \<Rightarrow> raiseT missing | Some b \<Rightarrow> returnT (wrap True b))
       else bindT work (\<lambda>(b, at). bindT (raising Stored (inbox_complete i b at)) (\<lambda>_. returnT (wrap False b)))) db1 = Inr (r, db')"
    by (auto simp: once_def)
  from inbox_claim_only [OF oc] obtain rows where rows: "db1 = db\<lparr>inbox := rows\<rparr>" by blast
  show thesis
  proof (cases "inbox_decision oc = InboxDecision.DUPLICATE")
    case True
    with rest rows inbox_claim_duplicate [OF oc True] inbox_claim_keeps [OF oc] known show thesis
      by (auto split: option.splits)
  next
    case False
    with rest obtain b at db2 u where work: "work db1 = Inr ((b, at), db2)" and final: "inbox_complete i b at db2 = Inr (u, db')"
      and r: "r = wrap False b" by auto
    from final obtain rows' where "db' = db2\<lparr>inbox := rows'\<rparr>" by (auto simp: inbox_complete_Inr)
    with work r rows inbox_complete_keeps [OF final] inbox_claim_keeps [OF oc] fresh [of b rows at db2 rows'] show thesis by simp
  qed
qed

text \<open>Work that leaves the inbox alone makes a consumer.\<close>

lemma once_keeps:
  assumes "once i missing wrap work db = Inr (r, db')" "\<And>db r db'. work db = Inr (r, db') \<Longrightarrow> inbox db' = inbox db"
  obtains known b where "r = wrap known b" "completed i b db'" "inbox_kept db db'"
  using assms(1)
proof (cases rule: once_cases)
  case (known b)
  with that show thesis by blast
next
  case (fresh b at rows db2 rows')
  from assms(2) [OF fresh(2)] have "inbox_kept (db\<lparr>inbox := rows\<rparr>) db2" by (intro inbox_kept_same) simp
  with fresh that show thesis by (blast intro: inbox_kept_trans)
qed

lemma once_replays:
  "completed i b later \<Longrightarrow> once i missing wrap work later = Inr (wrap True b, later)"
  by (auto simp: once_def inbox_claim_completed)

section \<open>What the units of work write\<close>

lemma record_source_event_Inr:
  "record_source_event ev db = Inr (d, db') \<longleftrightarrow>
     (case map_of (source_events db) (source_key ev) of
        None \<Rightarrow> d = SourceEventDecision.STORED \<and> db' = db\<lparr>source_events := source_events db @ [(source_key ev, ev)]\<rparr>
      | Some stored \<Rightarrow> d = SourceEventDecision.DUPLICATE \<and> stored = ev \<and> db' = db)"
  by (auto simp: record_source_event_def source_event_statement_def identity_statement_def found_or_Inr split: option.splits)

lemma fact_members_Inr:
  assumes "fact_members nfc item src orig h raw at i = Inr f"
  shows "fact_item f = item" "fact_source f = src" "fact_origin f = orig" "fact_digest f = h" "fact_bytes f = raw" "fact_observed_at f = at"
proof -
  from assms have "fact_item f = item \<and> fact_source f = src \<and> fact_origin f = orig \<and> fact_digest f = h \<and> fact_bytes f = raw
      \<and> fact_observed_at f = at"
    unfolding fact_members_def by (auto split: if_splits sum.splits prod.splits pyval.splits)
  then show "fact_item f = item" "fact_source f = src" "fact_origin f = orig" "fact_digest f = h" "fact_bytes f = raw" "fact_observed_at f = at"
    by blast+
qed

definition fact_row :: "StoredSourceEvent \<Rightarrow> int \<Rightarrow> StoredSourceEvidenceFact \<Rightarrow> source_item_row" where
  "fact_row ev ordinal f = \<lparr>row_source = src_source ev, row_event = src_event ev, row_ordinal = ordinal, row_item = fact_item f,
     row_source_id = fact_source f, row_origin = fact_origin f, row_digest = fact_digest f, row_document = fact_bytes f,
     row_observed_at = fact_observed_at f\<rparr>"

lemma source_fact_statement_Inr:
  "source_fact_statement ev ordinal f db = Inr (u, db') \<longleftrightarrow>
     (\<forall>r \<in> set (source_items db). \<not> (row_source r = src_source ev \<and> row_event r = src_event ev
        \<and> (row_ordinal r = ordinal \<or> row_item r = fact_item f)))
     \<and> db' = db\<lparr>source_items := source_items db @ [fact_row ev ordinal f]\<rparr>"
  by (auto simp: source_fact_statement_def fact_row_def)

text \<open>One fact: nothing new for an exact replay, or the event unless it is known, and the row of the fact.\<close>

lemma record_one_fact:
  assumes "record_source_evidence nfc ev [f] db = Inr (d, db')"
  shows "(\<exists>events. set (source_events db) \<subseteq> set events \<and> set events \<subseteq> insert (source_key ev, ev) (set (source_events db))
            \<and> db' = db\<lparr>source_events := events, source_items := source_items db @ [fact_row ev 1 f]\<rparr>
            \<and> (\<forall>r \<in> set (source_items db). \<not> (row_source r = src_source ev \<and> row_event r = src_event ev \<and> row_ordinal r = 1)))
         \<or> db' = db"
proof -
  from assms obtain g where g: "validated_input nfc ev [f] = Inr [g]" and run: "\<exists>sd db1. record_source_event ev db = Inr (sd, db1)
      \<and> (db' = db1 \<and> sd \<noteq> SourceEventDecision.STORED \<or> (\<exists>u. source_fact_statement ev 1 g db1 = Inr (u, db')))"
    by (auto simp: record_source_evidence_def Let_def validated_input_def claim_empty_fact_set_def
        split: if_splits sum.splits store_error.splits prod.splits)
  from g have "validated_input_fact nfc f (src_event ev) = Inr g"
    by (auto simp: validated_input_def split: if_splits)
  then have "fact_members nfc (fact_item f) (fact_source f) (fact_origin f) (fact_digest f) (fact_bytes f) (fact_observed_at f)
      (src_event ev) = Inr g"
    by (auto simp: validated_input_fact_def split: if_splits)
  from fact_members_Inr [OF this] have same: "fact_row ev 1 g = fact_row ev 1 f" by (simp add: fact_row_def)
  from run obtain sd db1 where db1: "record_source_event ev db = Inr (sd, db1)"
    and "db' = db1 \<and> sd \<noteq> SourceEventDecision.STORED \<or> (\<exists>u. source_fact_statement ev 1 g db1 = Inr (u, db'))" by blast
  then consider "db' = db1" "sd \<noteq> SourceEventDecision.STORED" | u where "source_fact_statement ev 1 g db1 = Inr (u, db')" by blast
  then show ?thesis
  proof cases
    case 1
    with db1 show ?thesis by (auto simp: record_source_event_Inr split: option.splits)
  next
    case 2
    then have *: "\<forall>r \<in> set (source_items db1). \<not> (row_source r = src_source ev \<and> row_event r = src_event ev \<and> row_ordinal r = 1)"
      "db' = db1\<lparr>source_items := source_items db1 @ [fact_row ev 1 f]\<rparr>"
      by (auto simp: source_fact_statement_Inr same)
    with db1 show ?thesis
      by (intro disjI1 exI [of _ "source_events db1"]) (cases db, auto simp: record_source_event_Inr split: option.splits)
  qed
qed

text \<open>The tables that a salient event writes, and those that a decision writes.\<close>

lemma observe_source_Inr:
  assumes "observe_source nfc a db = Inr (r, db')"
  shows "\<exists>d. record_source_evidence nfc (accepted_event a) [accepted_fact a] db = Inr (d, db')"
  using assms by (auto simp: observe_source_def)

lemma source_unit_writes:
  assumes "source_unit nfc (delivery, a) db = Inr (r, db')"
  obtains rows d db2 where "\<exists>i. db' = db2\<lparr>inbox := i\<rparr>" "record_source_evidence nfc (accepted_event a) [accepted_fact a] (db\<lparr>inbox := rows\<rparr>) = Inr (d, db2)"
  | rows where "db' = db\<lparr>inbox := rows\<rparr>"
  using assms unfolding source_unit_def
  by (cases rule: once_cases) (auto dest!: observe_source_Inr)

lemma record_items_Inr: "record_items items db = Inr (u, db') \<Longrightarrow> \<exists>rows. db' = db\<lparr>evidence_items := rows\<rparr>"
proof (induction items arbitrary: db)
  case Nil
  then show ?case by (auto intro: exI [of _ "evidence_items db'"])
next
  case (Cons item items)
  then obtain db1 where "record_item item db = Inr ((), db1)" "record_items items db1 = Inr (u, db')" by auto
  with Cons.IH [of db1] show ?case
    by (auto simp: record_item_def scalar_or_Inr record_item_statement_def Let_def split: prod.splits)
qed

lemma record_decision_Inr:
  "record_decision dec db = Inr (u, db') \<longleftrightarrow>
     decisions db (dec_id dec) = None \<and> db' = db\<lparr>decisions := (decisions db)(dec_id dec \<mapsto> dec)\<rparr>"
  by (auto simp: record_decision_def scalar_or_Inr record_decision_statement_def insert_absent_def Let_def split: if_splits)

lemma persist_artifacts_Inr:
  assumes "persist_artifacts artifacts db = Inr (u, db')"
  shows "decisions db (dec_id (art_decision artifacts)) = None
    \<and> (\<exists>items events. db' = db\<lparr>evidence_items := items,
          decisions := (decisions db)(dec_id (art_decision artifacts) \<mapsto> art_decision artifacts), application_outbox := events\<rparr>)"
proof -
  from assms obtain db1 u1 u2 where items: "record_items (art_items artifacts) db = Inr (u1, db1)"
    and dec: "decisions db1 (dec_id (art_decision artifacts)) = None"
    and rest: "\<exists>events. db' = db1\<lparr>decisions := (decisions db1)(dec_id (art_decision artifacts) \<mapsto> art_decision artifacts),
        application_outbox := events\<rparr>"
    by (auto simp: persist_artifacts_def record_decision_Inr stage_application_Inr)
  from record_items_Inr [OF items] obtain rows where "db1 = db\<lparr>evidence_items := rows\<rparr>" by blast
  with dec rest show ?thesis by auto
qed

lemma decide_proposal_Inr:
  assumes "decide_proposal nfc a stamp db = Inr (r, db')"
  obtains stored found ev artifacts where
    "proposals db (pay_proposal (accepted_payload a)) = Some stored" "proposal_record nfc a = Inr stored"
    "load_source_evidence nfc (pay_mission (accepted_payload a)) (pay_source_event (accepted_payload a)) db = Inr (found, db)"
    "assess nfc a (source_of found) = Inr ev" "build_artifacts nfc a ev stamp = Inr artifacts"
    "decisions db (dec_id (art_decision artifacts)) = None"
    "\<exists>items events. db' = db\<lparr>evidence_items := items,
          decisions := (decisions db)(dec_id (art_decision artifacts) \<mapsto> art_decision artifacts), application_outbox := events\<rparr>"
    "fst r = app_payload (art_decision_event artifacts)"
proof -
  have reads: "load_source_evidence nfc m i db = Inr (found, db1) \<Longrightarrow> db1 = db" for m i found db1
    by (auto simp: load_source_evidence_def split: list.splits if_splits)
  from assms show thesis
    by (auto simp: decide_proposal_def load_proposal_Inr split: if_splits dest!: persist_artifacts_Inr
        intro!: that dest: reads)
qed

lemma observe_source_tables:
  assumes "observe_source nfc a db = Inr (r, db')"
  shows "\<exists>events items. db' = db\<lparr>source_events := events, source_items := items\<rparr>"
proof -
  from observe_source_Inr [OF assms] obtain d where "record_source_evidence nfc (accepted_event a) [accepted_fact a] db = Inr (d, db')" ..
  from record_one_fact [OF this] show ?thesis
  proof
    assume "db' = db"
    then have "db' = db\<lparr>source_events := source_events db, source_items := source_items db\<rparr>" by simp
    then show ?thesis by blast
  qed blast
qed

lemma decide_proposal_inbox: "decide_proposal nfc a stamp db = Inr (r, db') \<Longrightarrow> inbox db' = inbox db"
  by (erule decide_proposal_Inr) auto

interpretation sourcing: guaranteed_consumer "\<lambda>da (u :: unit). source_unit nfc da" source_answer "\<lambda>_. True" for nfc
proof
  have quiet_inbox: "observe_source nfc a db = Inr (r, db') \<Longrightarrow> inbox db' = inbox db" for nfc a db r db'
    by (drule observe_source_tables) auto
  show "inbox_kept db db'" if "source_unit nfc da db = Inr (r, db')" for nfc da db r db'
    using that unfolding source_unit_def by (rule once_keeps) (rule quiet_inbox)
  show "\<exists>r'. source_unit nfc da later = Inr (r', later) \<and> source_answer r' = source_answer r"
    if "source_unit nfc da db = Inr (r, db')" "inbox_kept db' later" for nfc da db r db' later
    using that(1) unfolding source_unit_def
  proof (rule once_keeps)
    fix known b
    assume "r = source_result known b" "completed (source_identity (fst da) (accepted_event (snd da))) b db'"
    with completed_kept that(2) once_replays show "\<exists>r'. once (source_identity (fst da) (accepted_event (snd da)))
        (SourceProcessingError SourceProcessingRefusal.DUPLICATE_RESULT) source_result (observe_source nfc (snd da)) later = Inr (r', later)
        \<and> source_answer r' = source_answer r"
      by (fastforce simp: source_result_def)
  qed (rule quiet_inbox)
qed

interpretation assessing: guaranteed_consumer "proposal_unit nfc" processing_answer "\<lambda>_. True" for nfc
proof
  show "inbox_kept db db'" if "proposal_unit nfc da stamp db = Inr (r, db')" for nfc da stamp db r db'
    using that unfolding proposal_unit_def by (rule once_keeps) (rule decide_proposal_inbox)
  show "\<exists>r'. proposal_unit nfc da stamp' later = Inr (r', later) \<and> processing_answer r' = processing_answer r"
    if "proposal_unit nfc da stamp db = Inr (r, db')" "inbox_kept db' later" for nfc da stamp stamp' db r db' later
    using that(1) unfolding proposal_unit_def
  proof (rule once_keeps)
    fix known b
    assume "r = processing_result known b" "completed (proposal_identity (fst da) (snd da)) b db'"
    with completed_kept that(2) once_replays show "\<exists>r'. once (proposal_identity (fst da) (snd da))
        (ProcessingError ProcessingRefusal.DUPLICATE_RESULT) processing_result (decide_proposal nfc (snd da) stamp') later = Inr (r', later)
        \<and> processing_answer r' = processing_answer r"
      by (fastforce simp: processing_result_def)
  qed (rule decide_proposal_inbox)
qed

text \<open>No table that authorizes or releases commands is among them.\<close>

lemma source_unit_tables:
  assumes "source_unit nfc (delivery, a) db = Inr (r, db')"
  shows "\<exists>i events items. db' = db\<lparr>source_events := events, source_items := items, inbox := i\<rparr>"
  using assms unfolding source_unit_def
proof (cases rule: once_cases)
  case (known b)
  then obtain rows where "db' = db\<lparr>source_events := source_events db, source_items := source_items db, inbox := rows\<rparr>" by auto
  then show ?thesis by blast
next
  case (fresh b at rows db2 rows')
  then obtain events items where "db2 = db\<lparr>inbox := rows, source_events := events, source_items := items\<rparr>"
    by (auto dest!: observe_source_tables)
  with fresh(3) show ?thesis by auto
qed

lemma proposal_unit_tables:
  assumes "proposal_unit nfc da stamp db = Inr (r, db')"
  shows "\<exists>i items decs events. db' = db\<lparr>evidence_items := items, decisions := decs, application_outbox := events, inbox := i\<rparr>"
  using assms unfolding proposal_unit_def
proof (cases rule: once_cases)
  case (known b)
  then obtain rows where "db' = db\<lparr>evidence_items := evidence_items db, decisions := decisions db,
      application_outbox := application_outbox db, inbox := rows\<rparr>" by auto
  then show ?thesis by blast
next
  case (fresh b at rows db2 rows')
  from fresh(2) obtain items decs events where
    "db2 = db\<lparr>inbox := rows, evidence_items := items, decisions := decs, application_outbox := events\<rparr>"
    by (rule decide_proposal_Inr) auto
  with fresh(3) show ?thesis by auto
qed

section \<open>The handlers\<close>

lemma handle_source_delivery_Inr:
  "handle_source_delivery nfc delivery env db = (Inr r, db', s) \<longleftrightarrow>
     (\<exists>a. accept_source nfc delivery = Inr a \<and> fullmatch DIGEST_PATTERN (in_digest delivery)
        \<and> source_unit nfc (delivery, a) db = Inr (r, db') \<and> unit_fate env = Commits \<and> settles env
        \<and> s = Some (Accept (src_event (accepted_event a))))"
  by (auto simp: handle_source_delivery_def settled_unit_Inr split: sum.splits caught.splits)

lemma handle_delivery_Inr:
  "handle_delivery nfc delivery stamp env db = (Inr r, db', s) \<longleftrightarrow>
     (\<exists>a. accept_proposal nfc (in_payload delivery) (in_topic delivery) = Inr a \<and> fullmatch DIGEST_PATTERN (in_digest delivery)
        \<and> proposal_unit nfc (delivery, a) stamp db = Inr (r, db') \<and> unit_fate env = Commits \<and> settles env
        \<and> s = Some (Accept (envelope_id (accepted_envelope a))))"
  by (auto simp: handle_delivery_def settled_unit_Inr split: sum.splits handler_error.splits)

lemma handle_source_delivery_leaves:
  "leaves db (\<lambda>db'. \<exists>a r. accept_source nfc delivery = Inr a \<and> source_unit nfc (delivery, a) db = Inr (r, db'))
     (handle_source_delivery nfc delivery env db)"
  unfolding handle_source_delivery_def
  by (intro leaving) (auto intro!: leaving split: caught.splits)

lemma handle_delivery_leaves:
  "leaves db (\<lambda>db'. \<exists>a r. proposal_unit nfc (delivery, a) stamp db = Inr (r, db')) (handle_delivery nfc delivery stamp env db)"
  unfolding handle_delivery_def
  by (intro leaving) (auto intro!: leaving split: handler_error.splits)

section \<open>What a corroborated decision rests on\<close>

text \<open>Every fact that is recorded is the first and only one of its event, seen by the sensor of the drone that sent it.\<close>

definition sensor_rows :: "database \<Rightarrow> bool" where
  "sensor_rows db \<longleftrightarrow> (\<forall>r \<in> set (source_items db). row_ordinal r = 1 \<and> row_origin r = LIVE_SENSOR
     \<and> row_source r = drone_source (row_source_id r))"

text \<open>A salient event of the proposal's drone and mission, with the digest the proposal names, is stored with the fact of its sensor.\<close>

definition observed_for :: "database \<Rightarrow> StoredProposal \<Rightarrow> bool" where
  "observed_for db p \<longleftrightarrow> (\<exists>ev \<in> snd ` set (source_events db). \<exists>r \<in> set (source_items db).
     src_event ev = prop_source_event p \<and> src_mission ev = prop_mission p \<and> src_digest ev = prop_source_digest p
     \<and> src_source ev = drone_source (prop_drone p) \<and> row_source r = src_source ev \<and> row_event r = src_event ev
     \<and> row_source_id r = prop_drone p \<and> row_origin r = LIVE_SENSOR)"

definition grounded :: "database \<Rightarrow> StoredEvidenceDecision \<Rightarrow> bool" where
  "grounded db dec \<longleftrightarrow> (\<exists>p. proposals db (dec_proposal dec) = Some p \<and> prop_digest p = dec_proposal_digest dec
     \<and> prop_mission p = dec_mission dec \<and> observed_for db p \<and> prop_invocation p \<noteq> prop_drone p \<and> dec_score dec = Some 75)"

lemma accept_source_Inr:
  assumes "accept_source nfc delivery = Inr a"
  shows "fact_origin (accepted_fact a) = LIVE_SENSOR" "src_source (accepted_event a) = drone_source (fact_source (accepted_fact a))"
proof -
  from assms have "fact_origin (accepted_fact a) = LIVE_SENSOR
      \<and> src_source (accepted_event a) = drone_source (fact_source (accepted_fact a))"
    by (auto simp: accept_source_def sensor_fact_def Let_def split: if_splits)
  then show "fact_origin (accepted_fact a) = LIVE_SENSOR" "src_source (accepted_event a) = drone_source (fact_source (accepted_fact a))"
    by blast+
qed

lemma facts_from_first:
  assumes "facts_from nfc 1 [] rows i = Inr fs" "rows \<noteq> []" "\<forall>r. Some r \<in> set rows \<longrightarrow> row_ordinal r = 1"
  obtains r f where "rows = [Some r]" "row_fact nfc r i = Inr f" "fs = [f]"
proof -
  from assms(1,2) obtain r rest where rows: "rows = Some r # rest" by (cases "(nfc, 1 :: int, [] :: pystr list, rows, i)" rule: facts_from.cases) auto
  with assms(1) obtain f fs' where f: "row_fact nfc r i = Inr f" "facts_from nfc 2 [fact_item f] rest i = Inr fs'" "fs = f # fs'"
    by (auto split: if_splits)
  have "rest = []"
  proof (cases rest)
    case (Cons x xs)
    with f(2) assms(3) rows show ?thesis by (cases x) (auto split: if_splits)
  qed simp
  with rows f that show thesis by simp
qed

text \<open>The rows of the join come from the two tables.\<close>

lemma facts_statement_rows:
  "set (facts_statement src i db) = {r \<in> set (source_items db). row_source r = src \<and> row_event r = i}"
  by (auto simp: facts_statement_def)

lemma source_evidence_rows:
  assumes "(e, x) \<in> set (source_evidence_statement mission i db)"
  shows "e \<in> snd ` set (source_events db) \<and> src_mission e = mission \<and> src_event e = i
      \<and> (\<forall>r. x = Some r \<longrightarrow> r \<in> set (source_items db) \<and> row_source r = src_source e \<and> row_event r = src_event e)"
proof -
  have joined: "e' = e \<and> (\<forall>r. x = Some r \<longrightarrow> r \<in> set (facts_statement (src_source e) (src_event e) db))"
    if "(e, x) \<in> set (case facts_statement (src_source e') (src_event e') db of [] \<Rightarrow> [(e', None)] | y # ys \<Rightarrow> map (\<lambda>r. (e', Some r)) (y # ys))"
    for e'
    using that by (cases "facts_statement (src_source e') (src_event e') db") auto
  from assms obtain e' where "e' \<in> set (sort_key src_source (filter (\<lambda>ev. src_mission ev = mission \<and> src_event ev = i) (map snd (source_events db))))"
    and "(e, x) \<in> set (case facts_statement (src_source e') (src_event e') db of [] \<Rightarrow> [(e', None)] | y # ys \<Rightarrow> map (\<lambda>r. (e', Some r)) (y # ys))"
    unfolding source_evidence_statement_def set_concat set_map by (drule_tac in_set_takeD) (unfold set_concat set_map, blast)
  with joined [of e'] show ?thesis by (auto simp: facts_statement_rows)
qed

lemma load_source_evidence_sensor:
  assumes "load_source_evidence nfc mission i db = Inr (Some s, db')" "sensor_rows db"
  obtains ev r f where "ev \<in> snd ` set (source_events db)" "src_mission ev = mission" "src_event ev = i"
    "validated_event nfc ev mission i = Inr ev" "r \<in> set (source_items db)" "row_source r = src_source ev" "row_event r = src_event ev"
    "row_fact nfc r i = Inr f" "s = \<lparr>evidence_topic = src_topic ev, evidence_event = src_payload ev, evidence_facts = [f]\<rparr>"
proof -
  from assms(1) obtain ev first rest where rows: "source_evidence_statement mission i db = (ev, first) # rest"
    by (auto simp: load_source_evidence_def split: list.splits)
  with assms(1) obtain stored fs where all: "\<forall>r \<in> set rest. fst r = ev" and stored: "validated_event nfc ev mission i = Inr stored"
    and fs: "facts_from nfc 1 [] (map snd ((ev, first) # rest)) i = Inr fs"
    and s: "s = \<lparr>evidence_topic = src_topic stored, evidence_event = src_payload stored, evidence_facts = fs\<rparr>"
    by (auto simp: load_source_evidence_def simp del: facts_from.simps split: if_splits)
  have same: "stored = ev" using stored by (auto simp: validated_event_def split: sum.splits caught.splits prod.splits if_splits)
  have joined: "(ev, x) \<in> set ((ev, first) # rest) \<Longrightarrow> ev \<in> snd ` set (source_events db) \<and> src_mission ev = mission \<and> src_event ev = i
      \<and> (\<forall>r. x = Some r \<longrightarrow> r \<in> set (source_items db) \<and> row_source r = src_source ev \<and> row_event r = src_event ev)" for x
    by (rule source_evidence_rows) (simp only: rows)
  have "row_ordinal r = 1" if "Some r \<in> set (map snd ((ev, first) # rest))" for r
  proof -
    from that all have "(ev, Some r) \<in> set ((ev, first) # rest)" by auto
    from joined [OF this] assms(2) show ?thesis by (simp add: sensor_rows_def)
  qed
  then have ordinals: "\<forall>r. Some r \<in> set (map snd ((ev, first) # rest)) \<longrightarrow> row_ordinal r = 1" by blast
  from facts_from_first [OF fs _ ordinals]
  obtain r f where one: "map snd ((ev, first) # rest) = [Some r]" "row_fact nfc r i = Inr f" "fs = [f]" by blast
  then have "first = Some r" by simp
  with joined [of first] have "ev \<in> snd ` set (source_events db)" "src_mission ev = mission" "src_event ev = i"
    "r \<in> set (source_items db)" "row_source r = src_source ev" "row_event r = src_event ev" by simp_all
  with that stored one(2,3) s show thesis unfolding same by blast
qed

lemma drone_source_inject [simp]: "drone_source a = drone_source b \<longleftrightarrow> a = b"
  by (simp add: drone_source_def)

lemma matches_True: "matches a b = Inr True \<Longrightarrow> a = b"
  by (simp add: matches_def split: if_splits)

lemma validated_event_Inr:
  assumes "validated_event nfc ev mission i = Inr stored"
  shows "\<exists>e. decode_envelope nfc (src_payload ev) = Inr e \<and> source e = src_source ev \<and> source_event_digest nfc e = Inr (src_digest ev)"
  using assms by (auto simp: validated_event_def decoded_event_def map_sum_Inr_iff
      simp del: parse_topic.simps parse_instant.simps split: sum.splits caught.splits prod.splits if_splits dest!: matches_True)

lemma validate_source_Inr:
  assumes "validate_source nfc a (Some s) = Inr observed"
  shows "observed = source_observations s
    \<and> (\<exists>e. decode_envelope nfc (source_event s) = Inr e \<and> source e = drone_source (pay_drone (accepted_payload a))
         \<and> source_event_digest nfc e = Inr (pay_source_digest (accepted_payload a)))"
proof -
  from assms obtain fam e p computed where "read_source nfc (source_topic s) (source_event s) = Inr (fam, e, p)"
    "source_binding_matches a fam e p" "source_event_digest nfc e = Inr computed"
    "matches (pay_source_digest (accepted_payload a)) computed = Inr True" "observed = source_observations s"
    by (auto simp: validate_source_def Let_def map_sum_Inr_iff split: if_splits sum.splits caught.splits prod.splits)
  then show ?thesis
    by (auto simp: read_source_def source_binding_matches_def map_sum_Inr_iff simp del: parse_topic.simps
        split: option.splits dest!: matches_True)
qed

text \<open>One sensor's fact alone is weak; with the proposal of the model the score is 75, and corroborated if the two sources differ.\<close>

lemma sensor_evaluation:
  assumes "with_model_provenance nfc a [f] = Inr observed" "evaluate nfc mission proposal observed = Inr ev"
    and "prov_origin f = LIVE_SENSOR" "eval_band ev = Some CORROBORATED"
  shows "eval_score ev = Some 75" "pay_invocation (accepted_payload a) \<noteq> prov_source f"
proof -
  from assms(2) obtain cs items where cs: "mapE contribution_of observed = Inr cs"
    and rest: "(case decision_band cs V1_BOUNDARIES of
         Inl (RECORDED_CONTRIBUTION i) \<Rightarrow> Inr (refused RECORDED_ORIGIN items)
       | Inl error \<Rightarrow> Inl (ScoreFailed error)
       | Inr band \<Rightarrow>
           Inr \<lparr>eval_outcome = EvidenceDecisionOutcome.CONTRIBUTING, eval_reason = None, eval_score = Some (score cs),
                eval_band = Some band, eval_score_version = Some SCORE_VERSION, eval_contributors = map contributor_of observed,
                eval_items = items\<rparr>) = Inr ev"
    by (auto simp: evaluate_def)
  from rest assms(4) have band: "decision_band cs V1_BOUNDARIES = Inr CORROBORATED" and score: "eval_score ev = Some (score cs)"
    by (cases "decision_band cs V1_BOUNDARIES"; auto simp: refused_def split: ScoreError.splits)+
  have contribution: "contribution_of g = Inr c \<Longrightarrow> source_id c = prov_source g \<and> weight c = weight_of (prov_origin g)" for g c
    by (auto simp: contribution_of_def make_contribution_def split: if_splits)
  from assms(1,3) consider "observed = [f]"
    | m where "observed = [f, m]" "prov_source m = pay_invocation (accepted_payload a)" "prov_origin m = LIVE_MODEL"
    by (auto simp: with_model_provenance_def Let_def split: if_splits)
  then have "score cs = 75 \<and> pay_invocation (accepted_payload a) \<noteq> prov_source f"
  proof cases
    case 1
    with cs obtain c where "cs = [c]" by auto
    with band show ?thesis by (simp add: decision_band_eq corroborating_sources_def band_for_def split: if_splits)
  next
    case 2
    with cs obtain c d where "cs = [c, d]" "contribution_of f = Inr c" "contribution_of m = Inr d" by auto
    with band 2 assms(3) contribution [of f c] contribution [of m d] show ?thesis
      by (auto simp: decision_band_eq corroborating_sources_def score_def MAXIMUM_SCORE_def LIVE_SENSOR_WEIGHT_def LIVE_MODEL_WEIGHT_def
          band_for_def V1_BOUNDARIES_def split: if_splits)
  qed
  with score show "eval_score ev = Some 75" "pay_invocation (accepted_payload a) \<noteq> prov_source f" by simp_all
qed

lemma build_artifacts_decision:
  assumes "build_artifacts nfc a ev stamp = Inr artifacts"
  shows "let d = art_decision artifacts; p = accepted_payload a
    in dec_band d = eval_band ev \<and> dec_score d = eval_score ev \<and> dec_proposal d = pay_proposal p \<and> dec_proposal_digest d = pay_digest p
       \<and> dec_mission d = pay_mission p"
  using assms by (auto simp: build_artifacts_def stored_decision_def Let_def split: if_splits)

lemma proposal_record_Inr:
  assumes "proposal_record nfc a = Inr p"
  shows "let q = accepted_payload a in prop_mission p = pay_mission q \<and> prop_source_event p = pay_source_event q
    \<and> prop_source_digest p = pay_source_digest q \<and> prop_invocation p = pay_invocation q \<and> prop_digest p = pay_digest q
    \<and> prop_drone p = pay_drone q"
  using assms by (auto simp: proposal_record_def Let_def)

text \<open>The evidence tables only grow, and what a decision rests on stays.\<close>

definition evidence_grows :: "database \<Rightarrow> database \<Rightarrow> bool" where
  "evidence_grows db db' \<longleftrightarrow> proposals db \<subseteq>\<^sub>m proposals db' \<and> set (source_events db) \<subseteq> set (source_events db')
     \<and> set (source_items db) \<subseteq> set (source_items db')"

definition evidence_sound :: "database \<Rightarrow> bool" where
  "evidence_sound db \<longleftrightarrow> sensor_rows db \<and> (\<forall>dec \<in> ran (decisions db). dec_band dec = Some CORROBORATED \<longrightarrow> grounded db dec)"

lemma evidence_grows_same:
  "proposals db' = proposals db \<Longrightarrow> source_events db' = source_events db \<Longrightarrow> source_items db' = source_items db \<Longrightarrow> evidence_grows db db'"
  by (simp add: evidence_grows_def)

lemma grounded_mono:
  assumes "grounded db dec" "evidence_grows db db'"
  shows "grounded db' dec"
proof -
  from assms(1) obtain p where p: "proposals db (dec_proposal dec) = Some p" "prop_digest p = dec_proposal_digest dec"
    "prop_mission p = dec_mission dec" "observed_for db p" "prop_invocation p \<noteq> prop_drone p" "dec_score dec = Some 75"
    by (auto simp: grounded_def)
  from p(4) assms(2) have "observed_for db' p" unfolding observed_for_def evidence_grows_def by blast
  moreover from p(1) assms(2) have "proposals db' (dec_proposal dec) = Some p"
    by (metis domI evidence_grows_def map_le_def)
  ultimately show ?thesis using p by (auto simp: grounded_def)
qed

lemma sound_grows:
  assumes "evidence_sound db" "evidence_grows db db'" "decisions db' = decisions db" "sensor_rows db'"
  shows "evidence_sound db'"
  using assms grounded_mono unfolding evidence_sound_def by metis

lemma evidence_sound_inbox [simp]:
  "evidence_sound (db\<lparr>inbox := rows\<rparr>) = evidence_sound db" "sensor_rows (db\<lparr>inbox := rows\<rparr>) = sensor_rows db"
  by (simp_all add: evidence_sound_def sensor_rows_def grounded_def observed_for_def)

lemma sound_same:
  assumes "proposals db' = proposals db" "decisions db' = decisions db" "source_events db' = source_events db"
    "source_items db' = source_items db"
  shows "evidence_sound db' = evidence_sound db"
  by (simp add: evidence_sound_def sensor_rows_def grounded_def observed_for_def assms)

lemma steady_sound: "steady m \<Longrightarrow> m db = Inr (r, db') \<Longrightarrow> evidence_sound db' = evidence_sound db"
  by (intro sound_same) (erule (1) steadyD)+

lemma assessed_grounded:
  assumes "load_source_evidence nfc (pay_mission (accepted_payload a)) (pay_source_event (accepted_payload a)) db = Inr (found, db)"
    and "assess nfc a (source_of found) = Inr ev" "eval_band ev = Some CORROBORATED" "sensor_rows db" "proposal_record nfc a = Inr p"
  shows "eval_score ev = Some 75" "observed_for db p" "prop_invocation p \<noteq> prop_drone p"
proof -
  from assms(2,3) obtain s observed where s: "found = Some s" "validate_source nfc a (source_of found) = Inr observed"
    by (cases found) (auto simp: assess_def source_of_def validate_source_def refused_def split: sum.splits provenance_error.splits ProvenanceRefusal.splits)
  with assms(2) obtain facts where facts: "with_model_provenance nfc a observed = Inr facts"
    "evaluate nfc (pay_mission (accepted_payload a)) (pay_proposal (accepted_payload a)) facts = Inr ev" by (auto simp: assess_def)
  from load_source_evidence_sensor [OF assms(1) [unfolded s(1)] assms(4)]
  obtain stored r f where src: "stored \<in> snd ` set (source_events db)" "src_mission stored = pay_mission (accepted_payload a)"
      "src_event stored = pay_source_event (accepted_payload a)" and valid: "validated_event nfc stored (pay_mission (accepted_payload a))
        (pay_source_event (accepted_payload a)) = Inr stored"
    and row: "r \<in> set (source_items db)" "row_source r = src_source stored" "row_event r = src_event stored"
    and f: "row_fact nfc r (pay_source_event (accepted_payload a)) = Inr f"
    and s': "s = \<lparr>evidence_topic = src_topic stored, evidence_event = src_payload stored, evidence_facts = [f]\<rparr>" .
  from validated_event_Inr [OF valid] obtain e where e: "decode_envelope nfc (src_payload stored) = Inr e" "source e = src_source stored"
    "source_event_digest nfc e = Inr (src_digest stored)" by blast
  have "source_event (the (source_of found)) = src_payload stored" and some: "source_of found = Some (the (source_of found))"
    by (simp_all add: s(1) s' source_of_def)
  with validate_source_Inr [of nfc a "the (source_of found)" observed] s(2) e
  have bound: "src_source stored = drone_source (pay_drone (accepted_payload a))" "src_digest stored = pay_source_digest (accepted_payload a)"
    and obs: "observed = source_observations (the (source_of found))" by auto
  from row assms(4) bound have drone: "row_source_id r = pay_drone (accepted_payload a)" "row_origin r = LIVE_SENSOR"
    by (auto simp: sensor_rows_def)
  note fm = fact_members_Inr [OF f]
  obtain g where g: "observed = [g]" "prov_origin g = LIVE_SENSOR" "prov_source g = pay_drone (accepted_payload a)"
    using obs fm drone by (simp add: s(1) s' source_of_def)
  note pr = proposal_record_Inr [OF assms(5), unfolded Let_def]
  note ev = sensor_evaluation [OF facts(1) [unfolded g(1)] facts(2) g(2) assms(3)]
  from ev g(3) pr show "eval_score ev = Some 75" "prop_invocation p \<noteq> prop_drone p" by simp_all
  show "observed_for db p"
    unfolding observed_for_def using src row bound drone pr by (intro bexI [of _ stored] bexI [of _ r]) simp_all
qed

lemma decide_proposal_sound:
  assumes "decide_proposal nfc a stamp db = Inr (r, db')" "evidence_sound db"
  shows "evidence_sound db' \<and> evidence_grows db db'"
  using assms(1)
proof (rule decide_proposal_Inr)
  fix stored found ev artifacts
  assume stored: "proposals db (pay_proposal (accepted_payload a)) = Some stored" "proposal_record nfc a = Inr stored"
    and load: "load_source_evidence nfc (pay_mission (accepted_payload a)) (pay_source_event (accepted_payload a)) db = Inr (found, db)"
    and ev: "assess nfc a (source_of found) = Inr ev" and art: "build_artifacts nfc a ev stamp = Inr artifacts"
    and db': "\<exists>items events. db' = db\<lparr>evidence_items := items,
          decisions := (decisions db)(dec_id (art_decision artifacts) \<mapsto> art_decision artifacts), application_outbox := events\<rparr>"
  have sensor: "sensor_rows db" using assms(2) by (simp add: evidence_sound_def)
  note d = build_artifacts_decision [OF art, unfolded Let_def]
  note pr = proposal_record_Inr [OF stored(2), unfolded Let_def]
  have new: "grounded db (art_decision artifacts)" if "dec_band (art_decision artifacts) = Some CORROBORATED"
  proof -
    from that d have "eval_band ev = Some CORROBORATED" by simp
    from assessed_grounded [OF load ev this sensor stored(2)] d pr stored(1) show ?thesis by (simp add: grounded_def)
  qed
  from db' have same: "proposals db' = proposals db" "source_events db' = source_events db" "source_items db' = source_items db"
    and dec: "decisions db' = (decisions db)(dec_id (art_decision artifacts) \<mapsto> art_decision artifacts)" by auto
  note grows = evidence_grows_same [OF same]
  have "grounded db' x" if "x \<in> ran (decisions db')" "dec_band x = Some CORROBORATED" for x
  proof -
    from that(1) dec have "x = art_decision artifacts \<or> x \<in> ran (decisions db)" by (auto simp: ran_def split: if_splits)
    with new that(2) assms(2) have "grounded db x" by (auto simp: evidence_sound_def)
    from grounded_mono [OF this grows] show ?thesis .
  qed
  with grows sensor same show ?thesis by (auto simp: evidence_sound_def sensor_rows_def)
qed

lemma proposal_unit_sound:
  assumes "proposal_unit nfc da stamp db = Inr (r, db')" "evidence_sound db"
  shows "evidence_sound db' \<and> evidence_grows db db'"
  using assms(1) unfolding proposal_unit_def
proof (cases rule: once_cases)
  case (known b)
  with assms(2) show ?thesis by (auto intro: evidence_grows_same)
next
  case (fresh b at rows db2 rows')
  from decide_proposal_sound [OF fresh(2)] assms(2) fresh(3) show ?thesis
    by (simp add: evidence_grows_def)
qed

lemma source_unit_sound:
  assumes "source_unit nfc (delivery, a) db = Inr (r, db')" "accept_source nfc delivery = Inr a" "evidence_sound db"
  shows "evidence_sound db' \<and> evidence_grows db db'"
  using assms(1)
proof (cases rule: source_unit_writes)
  case (1 rows d db2)
  let ?db = "db\<lparr>inbox := rows\<rparr>"
  from record_one_fact [OF 1(2)] have "evidence_sound db2 \<and> evidence_grows ?db db2"
  proof
    assume "\<exists>events. set (source_events ?db) \<subseteq> set events \<and> set events \<subseteq> insert (source_key (accepted_event a), accepted_event a) (set (source_events ?db))
      \<and> db2 = ?db\<lparr>source_events := events, source_items := source_items ?db @ [fact_row (accepted_event a) 1 (accepted_fact a)]\<rparr>
      \<and> (\<forall>r \<in> set (source_items ?db). \<not> (row_source r = src_source (accepted_event a) \<and> row_event r = src_event (accepted_event a) \<and> row_ordinal r = 1))"
    then obtain events where events: "set (source_events ?db) \<subseteq> set events"
      and db2: "db2 = ?db\<lparr>source_events := events, source_items := source_items ?db @ [fact_row (accepted_event a) 1 (accepted_fact a)]\<rparr>"
      by blast
    have grows: "evidence_grows ?db db2" using events by (auto simp: db2 evidence_grows_def)
    moreover have "sensor_rows db2"
      using assms(3) accept_source_Inr [OF assms(2)] by (auto simp: db2 evidence_sound_def sensor_rows_def fact_row_def)
    ultimately show ?thesis using sound_grows [of ?db db2] assms(3) by (simp add: db2)
  qed (use assms(3) in \<open>simp add: evidence_grows_same\<close>)
  with 1(1) show ?thesis by (auto simp: evidence_grows_def)
next
  case (2 rows)
  with assms(3) show ?thesis by (auto intro: evidence_grows_same)
qed

end
