(* ===== verification/Gateway.thy ===== *)
theory Gateway
  imports Service EvidenceService
begin

text \<open>
  The command gateway over time: whatever deliveries, publication turns, recoveries, broker signals, scheduler calls and
  units of work of the other services follow one another, in whatever order and with whatever failures of the database,
  the broker and the settlements, on one durable database that the gateway shares with the evidence service, the
  dashboard and the recorder.
\<close>

section \<open>Runs\<close>

record gateway =
  gateway_stamps :: CountingStamps
  gateway_readiness :: BrokerLifecycle
  gateway_store :: database

text \<open>Up to \<open>Signal\<close> the gateway's own loop; the calls of a scheduler of sends; the dashboard's writes: an operator's decision, its
  binding, and what it publishes of its own; the two handlers of the evidence service; a source event that the recorder captured.\<close>

datatype step =
    Delivered pystr InboundMessage AuthorizationClock environment
  | Direct "publication \<Rightarrow> bool" InboundMessage fate
  | Unsettled UnsettledMessageMetadata pystr environment
  | Published turn_environment
  | Restored turn_environment
  | Signal signal
  | Sent StoredCommandProgress SendClock fate
  | TimedOut StoredCommandProgress pystr int fate
  | Decided StoredApproval fate
  | Bound StoredApprovalBinding fate
  | Announced StagedApplicationEvent fate
  | Observed InboundDelivery environment
  | Assessed InboundDelivery DecisionStamp environment
  | Captured StoredSourceEvent fate

fun gateway_step :: "(pystr \<Rightarrow> pystr) \<Rightarrow> sources \<Rightarrow> step \<Rightarrow> gateway \<Rightarrow> gateway" where
  "gateway_step nfc src (Delivered channel m now env) g =
     (case dispatch_guaranteed nfc src channel m now env (gateway_stamps g) (gateway_store g) of
        ((r, s, db), settled) \<Rightarrow> g\<lparr>gateway_stamps := s, gateway_store := db\<rparr>)"
| "gateway_step nfc src (Direct accepts m f) g =
     (case dispatch_direct nfc accepts src m f (gateway_stamps g) (gateway_store g) of
        ((r, s, db), published) \<Rightarrow> g\<lparr>gateway_stamps := s, gateway_store := db\<rparr>)"
| "gateway_step nfc src (Unsettled d channel env) g =
     (case refuse_unsettled d channel env (gateway_store g) of (r, db, settled) \<Rightarrow> g\<lparr>gateway_store := db\<rparr>)"
| "gateway_step nfc src (Published t) g =
     (case publish_connected nfc t (gateway_readiness g) (gateway_store g) of
        (r, readiness, db, sent) \<Rightarrow> g\<lparr>gateway_readiness := readiness, gateway_store := db\<rparr>)"
| "gateway_step nfc src (Restored t) g =
     (case restore_readiness nfc t (gateway_readiness g) (gateway_store g) of
        (r, readiness, db, sent) \<Rightarrow> g\<lparr>gateway_readiness := readiness, gateway_store := db\<rparr>)"
| "gateway_step nfc src (Signal e) g = g\<lparr>gateway_readiness := signalled e (gateway_readiness g)\<rparr>"
| "gateway_step nfc src (Sent current clock f) g = g\<lparr>gateway_store := snd (record_send f current clock (gateway_store g))\<rparr>"
| "gateway_step nfc src (TimedOut current at jitter f) g =
     g\<lparr>gateway_store := snd (record_timeout f current at jitter (gateway_store g))\<rparr>"
| "gateway_step nfc src (Decided a f) g = g\<lparr>gateway_store := snd (transaction f (record_approval a) (gateway_store g))\<rparr>"
| "gateway_step nfc src (Bound b f) g = g\<lparr>gateway_store := snd (transaction f (record_binding b) (gateway_store g))\<rparr>"
| "gateway_step nfc src (Announced e f) g = g\<lparr>gateway_store := snd (transaction f (stage_application e) (gateway_store g))\<rparr>"
| "gateway_step nfc src (Observed delivery env) g =
     g\<lparr>gateway_store := fst (snd (handle_source_delivery nfc delivery env (gateway_store g)))\<rparr>"
| "gateway_step nfc src (Assessed delivery stamp env) g =
     g\<lparr>gateway_store := fst (snd (handle_delivery nfc delivery stamp env (gateway_store g)))\<rparr>"
| "gateway_step nfc src (Captured ev f) g = g\<lparr>gateway_store := snd (transaction f (record_source_event ev) (gateway_store g))\<rparr>"

definition gateway_run :: "(pystr \<Rightarrow> pystr) \<Rightarrow> sources \<Rightarrow> step list \<Rightarrow> gateway \<Rightarrow> gateway" where
  "gateway_run nfc src steps g = fold (gateway_step nfc src) steps g"

lemma gateway_run_simps [simp]:
  "gateway_run nfc src [] g = g" "gateway_run nfc src (x # xs) g = gateway_run nfc src xs (gateway_step nfc src x g)"
  "gateway_run nfc src (xs @ ys) g = gateway_run nfc src ys (gateway_run nfc src xs g)"
  by (simp_all add: gateway_run_def)

text \<open>A relation on databases that every step respects is respected by every run.\<close>

lemma gateway_run_respects:
  assumes "\<And>db. R db db" "\<And>a b c. R a b \<Longrightarrow> R b c \<Longrightarrow> R a c"
    and "\<And>x g. x \<in> set steps \<Longrightarrow> R (gateway_store g) (gateway_store (gateway_step nfc src x g))"
  shows "R (gateway_store g) (gateway_store (gateway_run nfc src steps g))"
  using assms(3)
proof (induction steps arbitrary: g)
  case (Cons x xs)
  from Cons.prems have "R (gateway_store g) (gateway_store (gateway_step nfc src x g))" by simp
  moreover have "R (gateway_store (gateway_step nfc src x g)) (gateway_store (gateway_run nfc src xs (gateway_step nfc src x g)))"
    using Cons by simp
  ultimately show ?case using assms(2) by (simp del: gateway_step.simps)
qed (use assms(1) in simp)

section \<open>What one step writes\<close>

text \<open>Every way the database may change in one step, by what wrote it.\<close>

inductive writes :: "(pystr \<Rightarrow> pystr) \<Rightarrow> step \<Rightarrow> database \<Rightarrow> database \<Rightarrow> bool" for nfc where
  nothing: "writes nfc x db db"
| refused: "writes nfc x db (db\<lparr>refusals := rows\<rparr>)"
| command: "accept_ingress nfc raw (PStr t) = Inr (OperatorCommandIngress topic e p) \<Longrightarrow>
    guaranteed_delivery m = \<lparr>delivery_topic = t, delivery_payload = raw\<rparr> \<Longrightarrow>
    authorization_body nfc (e, p) (stamp, now) db = Inr (r, db') \<Longrightarrow> writes nfc (Delivered channel m now env) db db'"
| approval: "approval_consumer nfc (e, q) now db = Inr (a, db') \<Longrightarrow> writes nfc (Delivered channel m now env) db db'"
| result: "result_consumer nfc (e, o') () db = Inr (c, db') \<Longrightarrow> writes nfc (Delivered channel m now env) db db'"
| response: "normalized db db' \<Longrightarrow> inbox_kept db db' \<Longrightarrow> writes nfc (Direct accepts m f) db db'"
| publications: "events_written db db1 \<Longrightarrow> commands_advanced db1 db' \<Longrightarrow> writes nfc x db db'"
| sent: "progressed {SEND} db db' \<Longrightarrow> inbox db' = inbox db \<Longrightarrow> writes nfc (Sent current clock f) db db'"
| timed_out: "progressed {TIME_OUT} db db' \<Longrightarrow> inbox db' = inbox db \<Longrightarrow> writes nfc (TimedOut current at jitter f) db db'"
| decided: "record_approval a db = Inr (u, db') \<Longrightarrow> writes nfc (Decided a f) db db'"
| bound: "record_binding b db = Inr (d, db') \<Longrightarrow> writes nfc (Bound b f) db db'"
| observed: "accept_source nfc delivery = Inr a \<Longrightarrow> source_unit nfc (delivery, a) db = Inr (o', db')
    \<Longrightarrow> writes nfc (Observed delivery env) db db'"
| assessed: "proposal_unit nfc (delivery, b) stamp db = Inr (d, db') \<Longrightarrow> writes nfc (Assessed delivery stamp env) db db'"
| captured: "record_source_event ev db = Inr (d, db') \<Longrightarrow> writes nfc (Captured ev f) db db'"

lemma guaranteed_outcome_store [simp]: "snd (snd (fst (guaranteed_outcome s h))) = fst (snd h)"
  by (auto simp: guaranteed_outcome_def split: prod.splits sum.splits)

lemma leaves_written:
  assumes "leaves db P h" "\<And>rows. W (db\<lparr>refusals := rows\<rparr>)" "\<And>db'. P db' \<Longrightarrow> W db'"
  shows "W (fst (snd h))"
  using assms unfolding leaves_def by metis

lemma delivered_writes:
  "writes nfc (Delivered channel m now env) db (snd (snd (fst (dispatch_guaranteed nfc src channel m now env s db))))"
proof -
  let ?d = "guaranteed_delivery m"
  have d: "?d = \<lparr>delivery_topic = delivery_topic ?d, delivery_payload = delivery_payload ?d\<rparr>" by simp
  have command: "writes nfc (Delivered channel m now env) db (fst (snd (handle_operator_command nfc ?d stamp now env db)))" for stamp
    by (rule leaves_written [OF handle_operator_command_leaves]) (auto intro: writes.command [OF _ d] writes.refused)
  have approval: "writes nfc (Delivered channel m now env) db (fst (snd (handle_operator_approval nfc ?d now env db)))"
    by (rule leaves_written [OF handle_operator_approval_leaves]) (auto intro: writes.approval writes.refused)
  have result: "writes nfc (Delivered channel m now env) db (fst (snd (handle_command_result nfc ?d env db)))"
    by (rule leaves_written [OF handle_command_result_leaves]) (auto intro: writes.result writes.refused)
  from command approval result show ?thesis
    by (auto simp: dispatch_guaranteed_def Let_def writes.nothing split: prod.splits sum.splits)
qed

lemma direct_writes:
  "writes nfc (Direct accepts m f) db (snd (snd (fst (dispatch_direct nfc accepts src m f s db))))"
proof -
  have "writes nfc (Direct accepts m f) db db'" if "handle_agent_response nfc delivery stamp f db = (r, db')" for delivery stamp r db'
    using handle_agent_response_effects [OF that] writes.nothing writes.response by blast
  note response = this
  show ?thesis
  proof (cases "direct_parts m")
    case None
    then show ?thesis by (simp add: dispatch_direct_def writes.nothing)
  next
    case (Some parts)
    obtain t raw properties where parts: "parts = (t, raw, properties)" by (metis prod_cases3)
    show ?thesis
    proof (cases "parse_topic (PStr t)")
      case (Inl e)
      with Some parts show ?thesis by (cases e) (simp_all add: dispatch_direct_def writes.nothing del: parse_topic.simps)
    next
      case (Inr topic)
      obtain x s1 where stamp: "next_stamp src s = (x, s1)" by fastforce
      obtain y s2 where norm: "next_normalization src s = (y, s2)" by fastforce
      consider "family topic = GATEWAY_REQUEST" | "family topic \<noteq> GATEWAY_REQUEST" "family topic \<noteq> AGENT_RESPONSE"
        | "family topic = AGENT_RESPONSE" by blast
      then show ?thesis
      proof cases
        case 1
        with Some parts Inr stamp show ?thesis
          by (auto simp: dispatch_direct_def writes.nothing simp del: parse_topic.simps split: sum.splits prod.splits)
      next
        case 2
        with Some parts Inr show ?thesis by (simp add: dispatch_direct_def writes.nothing del: parse_topic.simps)
      next
        case 3
        with Some parts Inr norm response show ?thesis
          by (cases y) (auto simp: dispatch_direct_def writes.nothing simp del: parse_topic.simps split: sum.splits prod.splits)
      qed
    qed
  qed
qed

lemma unsettled_writes: "writes nfc (Unsettled d channel env) db (fst (snd (refuse_unsettled d channel env db)))"
proof -
  obtain r db' where t: "transaction (unit_fate env) (raising Stored (record_refused (native_trace_candidate d channel) (observed_at env))) db
      = (r, db')" by fastforce
  from transaction_database [OF this] have "writes nfc (Unsettled d channel env) db db'"
    by (auto simp: record_refused_def dest!: record_refusal_Inr intro: writes.nothing writes.refused)
  with t show ?thesis by (auto simp: refuse_unsettled_def settle_def split: sum.splits)
qed

lemma events_only: "events_written db db' \<Longrightarrow> writes nfc x db db'"
  by (rule writes.publications [OF _ commands_advanced_refl])

lemma published_writes: "writes nfc (Published t) db (fst (snd (snd (publish_connected nfc t readiness db))))"
proof -
  obtain r db1 sent where events: "publish_application_batch nfc (event_broker t) (event_fate t) (event_instant t) db = (r, db1, sent)"
    by (metis prod_cases3)
  obtain r' db2 sent' where commands: "publish_batch nfc (command_broker t) (command_fate t) (command_instant t) db1 = (r', db2, sent')"
    by (metis prod_cases3)
  note e = publish_application_batch_cases(1) [OF events]
  from e commands events events_only writes.publications [OF e publish_batch_advanced [OF commands]] show ?thesis
    by (auto simp: publish_connected_def Let_def split: sum.splits)
qed

lemma drain_application_writes: "drain_application nfc t db = (r, db', sent) \<Longrightarrow> events_written db db'"
proof -
  assume *: "drain_application nfc t db = (r, db', sent)"
  obtain x db1 sent1 where events: "publish_application_batch nfc (event_broker t) (event_fate t) (event_instant t) db = (x, db1, sent1)"
    by (metis prod_cases3)
  have "transaction f (raising Stored (reconciliation_application APPLICATION_PRODUCER)) db1 = (y, db2) \<Longrightarrow> db2 = db1" for f y db2
    by (drule transaction_database) (auto simp: reconciliation_application_def split: option.splits)
  with * events publish_application_batch_cases(1) [OF events] show ?thesis
    by (auto simp: drain_application_def split: sum.splits if_splits prod.splits)
qed

lemma drain_commands_writes: "drain_commands nfc t db = (r, db', sent) \<Longrightarrow> commands_advanced db db'"
proof -
  assume *: "drain_commands nfc t db = (r, db', sent)"
  obtain x db1 sent1 where batch: "publish_batch nfc (command_broker t) (command_fate t) (command_instant t) db = (x, db1, sent1)"
    by (metis prod_cases3)
  have "transaction f (raising Stored (pending_commands RECONCILIATION_NEEDED COMMAND_PUBLICATION_BATCH_SIZE)) db1 = (y, db2)
      \<Longrightarrow> db2 = db1" for f y db2
    by (drule transaction_database) (auto simp: pending_commands_def split: if_splits)
  with * batch publish_batch_advanced [OF batch] show ?thesis
    by (auto simp: drain_commands_def split: sum.splits if_splits prod.splits)
qed

lemma restored_writes: "writes nfc (Restored t) db (fst (snd (snd (restore_readiness nfc t readiness db))))"
proof -
  obtain r db1 sent where events: "drain_application nfc t db = (r, db1, sent)" by (metis prod_cases3)
  obtain r' db2 sent' where commands: "drain_commands nfc t db1 = (r', db2, sent')" by (metis prod_cases3)
  note e = drain_application_writes [OF events]
  from events commands events_only [OF e] writes.publications [OF e drain_commands_writes [OF commands]] writes.nothing
  show ?thesis
    by (auto simp: restore_readiness_def recover_application_def Let_def split: sum.splits bool.splits)
qed

lemma step_writes: "writes nfc x (gateway_store g) (gateway_store (gateway_step nfc src x g))"
proof (cases x)
  case (Delivered channel m now env)
  with delivered_writes [of nfc channel m now env "gateway_store g" src "gateway_stamps g"] show ?thesis by (auto split: prod.splits)
next
  case (Direct accepts m f)
  with direct_writes [of nfc accepts m f "gateway_store g" src "gateway_stamps g"] show ?thesis by (auto split: prod.splits)
next
  case (Unsettled d channel env)
  with unsettled_writes [of nfc d channel env "gateway_store g"] show ?thesis by (auto split: prod.splits)
next
  case (Published t)
  with published_writes [of nfc t "gateway_store g" "gateway_readiness g"] show ?thesis by (auto split: prod.splits)
next
  case (Restored t)
  with restored_writes [of nfc t "gateway_store g" "gateway_readiness g"] show ?thesis by (auto split: prod.splits)
next
  case (Signal e)
  then show ?thesis by (simp add: writes.nothing)
next
  case (Sent current clock f)
  then show ?thesis using record_send_effects [of f current clock "gateway_store g"] writes.nothing writes.sent
    by (cases "record_send f current clock (gateway_store g)") fastforce
next
  case (TimedOut current at jitter f)
  then show ?thesis using record_timeout_effects [of f current at jitter "gateway_store g"] writes.nothing writes.timed_out
    by (cases "record_timeout f current at jitter (gateway_store g)") fastforce
next
  case (Decided a f)
  then show ?thesis using transaction_database [of f "record_approval a" "gateway_store g"] writes.nothing writes.decided
    by (cases "transaction f (record_approval a) (gateway_store g)") fastforce
next
  case (Bound b f)
  then show ?thesis using transaction_database [of f "record_binding b" "gateway_store g"] writes.nothing writes.bound
    by (cases "transaction f (record_binding b) (gateway_store g)") fastforce
next
  case (Announced e f)
  have "events_written (gateway_store g) (snd (transaction f (stage_application e) (gateway_store g)))"
    using transaction_database [of f "stage_application e" "gateway_store g"]
    by (cases "transaction f (stage_application e) (gateway_store g)") (fastforce simp: stage_application_Inr events_written_def)
  with Announced events_only show ?thesis by simp
next
  case (Observed delivery env)
  have "writes nfc x (gateway_store g) (fst (snd (handle_source_delivery nfc delivery env (gateway_store g))))"
    by (rule leaves_written [OF handle_source_delivery_leaves]) (auto simp: Observed intro: writes.observed writes.refused)
  with Observed show ?thesis by simp
next
  case (Assessed delivery stamp env)
  have "writes nfc x (gateway_store g) (fst (snd (handle_delivery nfc delivery stamp env (gateway_store g))))"
    by (rule leaves_written [OF handle_delivery_leaves]) (auto simp: Assessed intro: writes.assessed writes.refused)
  with Assessed show ?thesis by simp
next
  case (Captured ev f)
  then show ?thesis using transaction_database [of f "record_source_event ev" "gateway_store g"] writes.nothing writes.captured
    by (cases "transaction f (record_source_event ev) (gateway_store g)") fastforce
qed

lemma record_binding_Inr: "record_binding b db = Inr (d, db') \<Longrightarrow> \<exists>rows. db' = db\<lparr>bindings := rows\<rparr>"
  by (auto simp: record_binding_def split: if_splits list.splits) (metis database.surjective database.update_convs(4))

lemma record_source_event_only: "record_source_event ev db = Inr (d, db') \<Longrightarrow> \<exists>rows. db' = db\<lparr>source_events := rows\<rparr>"
  by (cases "map_of (source_events db) (source_key ev)") (auto simp: record_source_event_Inr intro: exI [of _ "source_events db"])

text \<open>What the units of work of the other services write.\<close>

lemmas other_tables = record_binding_Inr source_unit_tables proposal_unit_tables record_source_event_only

section \<open>Redelivery\<close>

lemma writes_inbox: "writes nfc x db db' \<Longrightarrow> inbox_kept db db'"
proof (induction rule: writes.induct)
  case (command raw t topic e p m stamp now db r db' channel env)
  then show ?case using authorizing.keeps by blast
next
  case (approval e q now db a db' channel m env)
  then show ?case using approving.keeps by blast
next
  case (result e o' db c db' channel m now env)
  then show ?case using resulting.keeps by blast
next
  case (observed delivery a db o' db' env)
  then show ?case using sourcing.keeps by blast
next
  case (assessed delivery b stamp db d db' env)
  then show ?case using assessing.keeps by blast
qed (auto simp: events_written_def commands_advanced_def record_approval_Inr intro: inbox_kept_same
      dest!: record_binding_Inr record_source_event_only)

lemma run_inbox: "inbox_kept (gateway_store g) (gateway_store (gateway_run nfc src steps g))"
  by (rule gateway_run_respects) (auto intro: inbox_kept_trans writes_inbox step_writes)

text \<open>A redelivery that reaches the database and is settled.\<close>

definition settled_environment :: "pystr \<Rightarrow> environment" where
  "settled_environment at = \<lparr>unit_fate = Commits, observed_at = at, settles = True\<rparr>"

lemma result_ingress_ascii:
  assumes "accept_ingress nfc raw (PStr t) = Inr (CommandResultIngress topic e p)"
  shows "ascii (result_command p)"
  using ingress_accepted [OF assms] by (simp add: result_typed_def identifier_ascii)

lemma redelivered_result:
  assumes "handle_command_result nfc delivery env db = (Inr r, db', settled)" "inbox_kept db' later" "normalizes nfc"
  shows "\<exists>r'. handle_command_result nfc delivery (settled_environment at) later = (Inr r', later, settled)
    \<and> result_answer r' = result_answer r"
proof -
  from assms(1) obtain topic e p where
    a: "accept_ingress nfc (delivery_payload delivery) (PStr (delivery_topic delivery)) = Inr (CommandResultIngress topic e p)"
    and b: "result_consumer nfc (e, p) () db = Inr (r, db')" and s: "settled = Some (Accept (envelope_id e))"
    by (auto simp: handle_command_result_Inr)
  from resulting.replays [OF _ b assms(2), of "()"] result_ingress_ascii [OF a] assms(3)
  obtain r' where "result_consumer nfc (e, p) () later = Inr (r', later)" "result_answer r' = result_answer r" by auto
  with a s show ?thesis by (auto simp: handle_command_result_Inr settled_environment_def)
qed

text \<open>C4. Exact redelivery is answered from the inbox, on each of the three guaranteed channels of the gateway. If a handler returned for an
  operator command, for an operator approval or for a command result, then after any run of the gateway whatsoever the
  same delivery is accepted again with the very same result bytes, whatever stamps and clocks the second handling uses,
  and changes nothing in the database. The stored answer to a command result is read back as JSON, so that case relies on Unicode
  normalization leaving ASCII alone and being idempotent. Agent responses come on a direct channel, which redelivers nothing.\<close>

theorem gateway_redelivery:
  "(case handle_operator_command nfc delivery stamp now env (gateway_store g) of
      (Inr r, db', settled) \<Rightarrow>
        (let later = gateway_store (gateway_run nfc src steps (g\<lparr>gateway_store := db'\<rparr>))
         in \<exists>r'. handle_operator_command nfc delivery stamp' now' (settled_environment at) later = (Inr r', later, settled)
              \<and> authorization_answer r' = authorization_answer r)
    | _ \<Rightarrow> True)
   \<and> (case handle_operator_approval nfc delivery now env (gateway_store g) of
      (Inr r, db', settled) \<Rightarrow>
        (let later = gateway_store (gateway_run nfc src steps (g\<lparr>gateway_store := db'\<rparr>))
         in \<exists>r'. handle_operator_approval nfc delivery now' (settled_environment at) later = (Inr r', later, settled)
              \<and> approval_answer r' = approval_answer r)
    | _ \<Rightarrow> True)
   \<and> (normalizes nfc \<longrightarrow>
      (case handle_command_result nfc delivery env (gateway_store g) of
        (Inr r, db', settled) \<Rightarrow>
          (let later = gateway_store (gateway_run nfc src steps (g\<lparr>gateway_store := db'\<rparr>))
           in \<exists>r'. handle_command_result nfc delivery (settled_environment at) later = (Inr r', later, settled)
                \<and> result_answer r' = result_answer r)
      | _ \<Rightarrow> True))"
proof -
  have kept: "inbox_kept db' (gateway_store (gateway_run nfc src steps (g\<lparr>gateway_store := db'\<rparr>)))" for db'
    using run_inbox [of "g\<lparr>gateway_store := db'\<rparr>" nfc src steps] by simp
  have env: "unit_fate (settled_environment at) = Commits" "settles (settled_environment at)"
    by (simp_all add: settled_environment_def)
  have "case handle_command_result nfc delivery env (gateway_store g) of
        (Inr r, db', settled) \<Rightarrow>
          (let later = gateway_store (gateway_run nfc src steps (g\<lparr>gateway_store := db'\<rparr>))
           in \<exists>r'. handle_command_result nfc delivery (settled_environment at) later = (Inr r', later, settled)
                \<and> result_answer r' = result_answer r)
      | _ \<Rightarrow> True" if "normalizes nfc"
    using redelivered_result [OF _ kept that] by (auto simp: Let_def split: sum.splits)
  with authorizing.replays [OF _ _ kept] approving.replays [OF _ _ kept] env show ?thesis
    by (auto simp: Let_def handle_operator_command_Inr handle_operator_approval_Inr split: sum.splits)
qed

theorem gateway_redelivery_witness:
  "\<exists>r db' settled r'. handle_command_result id acknowledged_delivery (settled_environment (lit ''2026-01-02T03:04:06.000Z'')) in_flight_store
       = (Inr r, db', settled) \<and> result_kind r = UPDATED
     \<and> handle_command_result id acknowledged_delivery (settled_environment (lit ''2026-01-02T03:09:00.000Z'')) db' = (Inr r', db', settled)
     \<and> result_answer r' = result_answer r"
proof -
  let ?env = "settled_environment (lit ''2026-01-02T03:04:06.000Z'')"
  let ?g = "\<lparr>gateway_stamps = \<lparr>stamps_sequence = 0, stamps_producer = lit ''g-1'', stamps_drawn = 0, stamps_read = 0\<rparr>,
    gateway_readiness = STARTED, gateway_store = in_flight_store\<rparr>"
  obtain r db' settled where first: "handle_command_result id acknowledged_delivery ?env in_flight_store = (Inr r, db', settled)"
    "result_kind r = UPDATED" unfolding settled_environment_def by (rule acknowledged_once)
  have "normalizes id" by (simp add: normalizes_def)
  with gateway_redelivery [where nfc = id and delivery = acknowledged_delivery and env = ?env and g = ?g and steps = "[]"
      and at = "lit ''2026-01-02T03:09:00.000Z''"] first
  show ?thesis by (fastforce simp: Let_def)
qed

text \<open>C5. The evidence service answers redelivery from its inbox too: if it returned for a salient event or for a proposal, then after
  any run whatsoever the same delivery is accepted again with the very same result bytes, whatever stamp the second
  handling uses, and changes nothing: no second decision, no second fact, no second announcement.\<close>

theorem evidence_redelivery:
  "(case handle_source_delivery nfc delivery env (gateway_store g) of
      (Inr r, db', settled) \<Rightarrow>
        (let later = gateway_store (gateway_run nfc src steps (g\<lparr>gateway_store := db'\<rparr>))
         in \<exists>r'. handle_source_delivery nfc delivery (settled_environment at) later = (Inr r', later, settled)
              \<and> source_answer r' = source_answer r)
    | _ \<Rightarrow> True)
   \<and> (case handle_delivery nfc delivery stamp env (gateway_store g) of
      (Inr r, db', settled) \<Rightarrow>
        (let later = gateway_store (gateway_run nfc src steps (g\<lparr>gateway_store := db'\<rparr>))
         in \<exists>r'. handle_delivery nfc delivery stamp' (settled_environment at) later = (Inr r', later, settled)
              \<and> processing_answer r' = processing_answer r)
    | _ \<Rightarrow> True)"
proof -
  have kept: "inbox_kept db' (gateway_store (gateway_run nfc src steps (g\<lparr>gateway_store := db'\<rparr>)))" for db'
    using run_inbox [of "g\<lparr>gateway_store := db'\<rparr>" nfc src steps] by simp
  have env: "unit_fate (settled_environment at) = Commits" "settles (settled_environment at)"
    by (simp_all add: settled_environment_def)
  show ?thesis
    using sourcing.replays [OF _ _ kept] assessing.replays [OF _ _ kept] env
    by (auto simp: Let_def handle_source_delivery_Inr handle_delivery_Inr split: sum.splits)
qed

section \<open>Approvals\<close>

text \<open>A decided approval is never decided again, and one that is not approved any more never changes.\<close>

definition approvals_kept :: "database \<Rightarrow> database \<Rightarrow> bool" where
  "approvals_kept db db' \<longleftrightarrow> (\<forall>p row. approvals db p = Some row \<longrightarrow>
     (approvals db' p = Some row \<or> stored_state row = APPROVED \<and> approvals db' p = Some (row\<lparr>stored_state := ApprovalState.EXECUTED\<rparr>)))"

lemma approvals_kept_refl [simp]: "approvals db' = approvals db \<Longrightarrow> approvals_kept db db'"
  by (simp add: approvals_kept_def)

lemma approvals_kept_trans: "approvals_kept a b \<Longrightarrow> approvals_kept b c \<Longrightarrow> approvals_kept a c"
  unfolding approvals_kept_def by fastforce

lemma approval_consumer_quiet:
  assumes "approval_consumer nfc (e, q) now db = Inr (a, db')"
  shows "command_outbox db' = command_outbox db" "command_progress db' = command_progress db" "approvals db' = approvals db"
proof -
  from assms obtain i where "approval_unit nfc i e q now db = Inr (a, db')" by (auto simp: approval_consumer_Inr)
  then have "command_outbox db' = command_outbox db \<and> command_progress db' = command_progress db \<and> approvals db' = approvals db"
  proof (cases rule: approval_unit_effects)
    case inert
    then show ?thesis by (simp add: quiet_def)
  next
    case (verified b c)
    show ?thesis by (subst verified(4), subst (2) verified(4), subst (3) verified(4)) simp
  qed
  then show "command_outbox db' = command_outbox db" "command_progress db' = command_progress db" "approvals db' = approvals db"
    by blast+
qed

lemma writes_approvals: "writes nfc x db db' \<Longrightarrow> approvals_kept db db'"
proof (induction rule: writes.induct)
  case (command raw t topic e p m stamp now db r db' channel env)
  then obtain i where "authorization_unit nfc i e p stamp now db = Inr (r, db')" by (auto simp: authorization_body_Inr)
  then show ?case
    by (cases rule: authorization_unit_effects)
       (auto simp: quiet_def warranted_def approvals_kept_def)
next
  case (approval e q now db a db' channel m env)
  then show ?case using approval_consumer_quiet(3) by simp
next
  case (result e o' db c db' channel m now env)
  then obtain i where "result_unit nfc i e o' db = Inr (c, db')" by (auto simp: result_consumer_Inr)
  then show ?case by (cases rule: result_unit_effects) (auto simp: progressed_def)
next
  case (decided a db u db' f)
  then show ?case by (auto simp: record_approval_Inr approvals_kept_def)
qed (auto simp: events_written_def commands_advanced_def normalized_def progressed_def dest!: other_tables)

section \<open>Escalations\<close>

text \<open>The proposal that a delivered command asks to escalate.\<close>

definition escalated_proposal :: "(pystr \<Rightarrow> pystr) \<Rightarrow> GuaranteedDelivery \<Rightarrow> pystr option" where
  "escalated_proposal nfc delivery =
     (case accept_ingress nfc (delivery_payload delivery) (PStr (delivery_topic delivery)) of
        Inr (OperatorCommandIngress topic e p) \<Rightarrow>
          (case command_action p of EscalateRescue a \<Rightarrow> Some (escalate_proposal a) | AssignSector a \<Rightarrow> None)
      | _ \<Rightarrow> None)"

text \<open>A step escalates a proposal when it delivers such a command and a command joins the outbox.\<close>

fun escalates :: "(pystr \<Rightarrow> pystr) \<Rightarrow> sources \<Rightarrow> pystr \<Rightarrow> step \<Rightarrow> gateway \<Rightarrow> bool" where
  "escalates nfc src proposal (Delivered channel m now env) g \<longleftrightarrow>
     escalated_proposal nfc (guaranteed_delivery m) = Some proposal
     \<and> length (command_outbox (gateway_store g))
       < length (command_outbox (gateway_store (gateway_step nfc src (Delivered channel m now env) g)))"
| "escalates nfc src proposal x g \<longleftrightarrow> False"

fun escalations :: "(pystr \<Rightarrow> pystr) \<Rightarrow> sources \<Rightarrow> pystr \<Rightarrow> step list \<Rightarrow> gateway \<Rightarrow> nat" where
  "escalations nfc src proposal [] g = 0"
| "escalations nfc src proposal (x # xs) g =
     (if escalates nfc src proposal x g then 1 else 0) + escalations nfc src proposal xs (gateway_step nfc src x g)"

lemma commands_advanced_length: "commands_advanced db db' \<Longrightarrow> length (command_outbox db') = length (command_outbox db)"
  by (auto simp: commands_advanced_def dest: list_all2_lengthD)

lemma escalates_consumes:
  assumes "writes nfc (Delivered channel m now env) db db'" "escalated_proposal nfc (guaranteed_delivery m) = Some proposal"
    and "length (command_outbox db) < length (command_outbox db')"
  shows "\<exists>row. approvals db proposal = Some row \<and> stored_state row = APPROVED
    \<and> approvals db' proposal = Some (row\<lparr>stored_state := ApprovalState.EXECUTED\<rparr>)"
  using assms(1)
proof (cases rule: writes.cases)
  case (command raw t topic e p stamp r)
  then obtain i where "authorization_unit nfc i e p stamp now db = Inr (r, db')" by (auto simp: authorization_body_Inr)
  then show ?thesis
  proof (cases rule: authorization_unit_effects)
    case inert
    with assms(3) show ?thesis by (simp add: quiet_def)
  next
    case (assigned a)
    with assms(2) command show ?thesis by (simp add: escalated_proposal_def)
  next
    case (escalated a row)
    with assms(2) command show ?thesis by (auto simp: escalated_proposal_def warranted_def)
  qed
next
  case (approval e q a)
  with approval_consumer_quiet(1) assms(3) show ?thesis by fastforce
next
  case (result e o' c)
  then obtain i where "result_unit nfc i e o' db = Inr (c, db')" by (auto simp: result_consumer_Inr)
  then have "command_outbox db' = command_outbox db" by (cases rule: result_unit_effects) (auto simp: progressed_def)
  with assms(3) show ?thesis by simp
next
  case (publications db1)
  with assms(3) commands_advanced_length [of db1 db'] show ?thesis by (auto simp: events_written_def)
qed (use assms(3) in simp_all)

lemma no_escalation_after_execution:
  assumes "approvals (gateway_store g) proposal = Some row" "stored_state row = ApprovalState.EXECUTED"
  shows "escalations nfc src proposal steps g = 0"
  using assms(1)
proof (induction steps arbitrary: g)
  case (Cons x xs)
  have kept: "approvals_kept (gateway_store g) (gateway_store (gateway_step nfc src x g))"
    by (rule writes_approvals [OF step_writes])
  with Cons.prems assms(2) have "approvals (gateway_store (gateway_step nfc src x g)) proposal = Some row"
    unfolding approvals_kept_def by fastforce
  moreover have "\<not> escalates nfc src proposal x g"
  proof
    assume e: "escalates nfc src proposal x g"
    then obtain channel m now env where x: "x = Delivered channel m now env" by (cases x) auto
    with e escalates_consumes [OF step_writes [of nfc x g src, unfolded x]] Cons.prems assms(2) show False by auto
  qed
  ultimately show ?case using Cons.IH by simp
qed simp

text \<open>C3. An approval releases at most one escalation, ever: in any run of the gateway, from any state, with any redeliveries,
  duplicated or conflicting commands, failing commits and lost confirmations, at most one step puts an escalation of a given
  proposal into the command outbox.\<close>

theorem gateway_escalates_once: "escalations nfc src proposal steps g \<le> 1"
proof (induction steps arbitrary: g)
  case (Cons x xs)
  show ?case
  proof (cases "escalates nfc src proposal x g")
    case True
    then obtain channel m now env where x: "x = Delivered channel m now env" by (cases x) auto
    with True escalates_consumes [OF step_writes [of nfc x g src, unfolded x]]
    obtain row where "approvals (gateway_store (gateway_step nfc src x g)) proposal = Some (row\<lparr>stored_state := ApprovalState.EXECUTED\<rparr>)"
      by auto
    from no_escalation_after_execution [OF this] True show ?thesis by simp
  qed (use Cons in simp)
qed simp

section \<open>Progress\<close>

definition gateway_start :: "CountingStamps \<Rightarrow> gateway" where
  "gateway_start s = \<lparr>gateway_stamps = s, gateway_readiness = STARTED, gateway_store = EMPTY_DATABASE\<rparr>"

text \<open>How one step may change the progress table: a fresh row, or one edge of the lifecycle.\<close>

inductive progress_change :: "CommandEvent set \<Rightarrow> (pystr \<rightharpoonup> StoredCommandProgress) \<Rightarrow> (pystr \<rightharpoonup> StoredCommandProgress) \<Rightarrow> bool" for evs where
  same: "progress_change evs t t"
| fresh: "t k = None \<Longrightarrow> progress row = INITIAL_PROGRESS \<Longrightarrow> progress_change evs t (t(k \<mapsto> row))"
| moved: "t k = Some row \<Longrightarrow> ev \<in> evs \<Longrightarrow> advance (progress row) ev GATEWAY_BUDGET = Inr q
    \<Longrightarrow> progress_change evs t (t(k \<mapsto> row\<lparr>progress := q, progress_facts := facts\<rparr>))"

lemma progressed_change: "progressed evs db db' \<Longrightarrow> progress_change evs (command_progress db) (command_progress db')"
  by (auto simp: progressed_def intro: progress_change.moved)

lemma released_change:
  assumes "released p stamp db db'"
  shows "progress_change evs (command_progress db) (command_progress db')"
proof -
  from assms obtain i where "command_progress db' = (command_progress db)(command_id p \<mapsto> initial_row i (stamp_occurred_at stamp))"
    "command_progress db (command_id p) = None" by (auto simp: released_def Let_def)
  with progress_change.fresh [of "command_progress db" "command_id p" "initial_row i (stamp_occurred_at stamp)" evs] show ?thesis
    by (simp add: initial_row_def)
qed

text \<open>The calls of a scheduler of sends, which the service never makes.\<close>

fun scheduled :: "step \<Rightarrow> bool" where
  "scheduled (Sent current clock f) = True"
| "scheduled (TimedOut current at jitter f) = True"
| "scheduled x = False"

lemma progress_change_mono: "progress_change evs t t' \<Longrightarrow> evs \<subseteq> evs' \<Longrightarrow> progress_change evs' t t'"
  by (induction rule: progress_change.induct) (auto intro: progress_change.intros)

text \<open>The events by which a step may move a command: a scheduler sends it or times it out, a drone reports on it.\<close>

fun progress_events :: "step \<Rightarrow> CommandEvent set" where
  "progress_events (Sent current clock f) = {SEND}"
| "progress_events (TimedOut current at jitter f) = {TIME_OUT}"
| "progress_events (Delivered channel m now env) = {ACKNOWLEDGE, SUCCEED, FAIL}"
| "progress_events x = {}"

lemma unscheduled_events: "\<not> scheduled x \<Longrightarrow> progress_events x \<subseteq> {ACKNOWLEDGE, SUCCEED, FAIL}"
  by (cases x) auto

lemma writes_progress:
  "writes nfc x db db' \<Longrightarrow>
     progress_change (progress_events x) (command_progress db) (command_progress db')"
proof (induction rule: writes.induct)
  case (command raw t topic e p m stamp now db r db' channel env)
  then obtain i where "authorization_unit nfc i e p stamp now db = Inr (r, db')" by (auto simp: authorization_body_Inr)
  then show ?case
    by (cases rule: authorization_unit_effects)
       (auto simp: quiet_def progress_change.same released_change)
next
  case (approval e q now db a db' channel m env)
  then show ?case using approval_consumer_quiet(2) by (simp add: progress_change.same)
next
  case (result e o' db c db' channel m now env)
  then obtain i where "result_unit nfc i e o' db = Inr (c, db')" by (auto simp: result_consumer_Inr)
  then show ?case
    by (cases rule: result_unit_effects) (auto intro: progress_change.same progressed_change)
next
  case (sent db db' current clock f)
  then show ?case by (auto intro: progress_change_mono [OF progressed_change])
next
  case (timed_out db db' current at jitter f)
  then show ?case by (auto intro: progress_change_mono [OF progressed_change])
qed (auto simp: events_written_def commands_advanced_def normalized_def record_approval_Inr intro: progress_change.same
      dest!: other_tables)

text \<open>What holds of every fresh row and is kept by every edge holds of every row, at any time.\<close>

lemma progress_invariant:
  assumes "P INITIAL_PROGRESS" "\<And>p e q. P p \<Longrightarrow> e \<in> evs \<Longrightarrow> advance p e GATEWAY_BUDGET = Inr q \<Longrightarrow> P q"
    and "\<And>x. x \<in> set steps \<Longrightarrow> progress_events x \<subseteq> evs"
    and "\<forall>row \<in> ran (command_progress (gateway_store g)). P (progress row)"
  shows "\<forall>row \<in> ran (command_progress (gateway_store (gateway_run nfc src steps g))). P (progress row)"
  using assms(3,4)
proof (induction steps arbitrary: g)
  case (Cons x xs)
  let ?g = "gateway_step nfc src x g"
  have "progress_change evs (command_progress (gateway_store g)) (command_progress (gateway_store ?g))"
    using progress_change_mono [OF writes_progress [OF step_writes]] Cons.prems(1) by simp
  then have "\<forall>row \<in> ran (command_progress (gateway_store ?g)). P (progress row)"
    using Cons.prems(2)
  proof (cases rule: progress_change.cases)
    case same
    with Cons.prems(2) show ?thesis by simp
  next
    case (fresh k row)
    with assms(1) Cons.prems(2) show ?thesis by (auto simp: ran_def)
  next
    case (moved k row ev q facts)
    have "P (progress row)" using moved(2) Cons.prems(2) by (auto simp: ran_def)
    with moved assms(2) have "P q" by blast
    with moved(1) Cons.prems(2) show ?thesis by (auto simp: ran_def)
  qed
  then show ?case using Cons by simp
qed simp

text \<open>A later progress table holds every earlier row, moved by a history of the command lifecycle.\<close>

definition progress_extends :: "(pystr \<rightharpoonup> StoredCommandProgress) \<Rightarrow> (pystr \<rightharpoonup> StoredCommandProgress) \<Rightarrow> bool" where
  "progress_extends t t' \<longleftrightarrow> (\<forall>k row. t k = Some row \<longrightarrow>
     (\<exists>row' history. t' k = Some row' \<and> run (\<lambda>p e. advance p e GATEWAY_BUDGET) (progress row) history = Inr (progress row')))"

lemma progress_extends_refl: "progress_extends t t"
  unfolding progress_extends_def by (metis run.simps(1))

lemma progress_extends_trans:
  assumes "progress_extends t t'" "progress_extends t' t''"
  shows "progress_extends t t''"
  unfolding progress_extends_def
proof (intro allI impI)
  fix k row
  assume "t k = Some row"
  with assms(1) obtain row' es where 1: "t' k = Some row'" "run (\<lambda>p e. advance p e GATEWAY_BUDGET) (progress row) es = Inr (progress row')"
    unfolding progress_extends_def by blast
  with assms(2) obtain row'' es' where "t'' k = Some row''"
    "run (\<lambda>p e. advance p e GATEWAY_BUDGET) (progress row') es' = Inr (progress row'')" unfolding progress_extends_def by blast
  with 1 show "\<exists>row'' history. t'' k = Some row'' \<and> run (\<lambda>p e. advance p e GATEWAY_BUDGET) (progress row) history = Inr (progress row'')"
    by (intro exI [of _ row''] exI [of _ "es @ es'"]) (simp add: run_append)
qed

lemma progress_change_extends: "progress_change evs t t' \<Longrightarrow> progress_extends t t'"
proof (induction rule: progress_change.induct)
  case (same t)
  show ?case by (rule progress_extends_refl)
next
  case (fresh t k row)
  then show ?case unfolding progress_extends_def by (metis fun_upd_other option.distinct(1) run.simps(1))
next
  case (moved t k row ev q facts)
  show ?case unfolding progress_extends_def
  proof (intro allI impI)
    fix j r
    assume "t j = Some r"
    with moved show "\<exists>r' history. (t(k \<mapsto> row\<lparr>progress := q, progress_facts := facts\<rparr>)) j = Some r'
        \<and> run (\<lambda>p e. advance p e GATEWAY_BUDGET) (progress r) history = Inr (progress r')"
      by (cases "j = k") (auto intro: exI [of _ "[ev]"] exI [of _ "[]"])
  qed
qed

lemma run_progress_extends:
  "progress_extends (command_progress (gateway_store g)) (command_progress (gateway_store (gateway_run nfc src steps g)))"
  by (rule gateway_run_respects [of "\<lambda>db db'. progress_extends (command_progress db) (command_progress db')"])
     (blast intro: progress_extends_refl progress_extends_trans progress_change_extends writes_progress step_writes)+

text \<open>C6. Durable progress moves only by the command lifecycle. A single step of whatever kind, from whatever state, leaves the progress
  table as it is, adds one fresh row, or moves one row by one transition of the lifecycle under the budget of five: a send in a call
  of the scheduler that sends, a timeout in one that times out, a result in a delivery, and none in any other step. Over any run, then,
  no row disappears and each row is what some history of the lifecycle makes of the row before, so that a command that
  has ended stays as it ended. From an empty database every row keeps the dispatch invariant: it is sent at most five
  times, it waits to be sent again only below the budget, and it is abandoned only at the budget. The calls of the scheduler may
  hold any snapshot of a row, however stale.\<close>

theorem gateway_progress_invariant:
  "progress_change (progress_events x) (command_progress (gateway_store g)) (command_progress (gateway_store (gateway_step nfc src x g)))
   \<and> progress_extends (command_progress (gateway_store g)) (command_progress (gateway_store (gateway_run nfc src steps g)))
   \<and> ran (command_progress (gateway_store (gateway_run nfc src steps (gateway_start s))))
       \<subseteq> {row. dispatch_inv GATEWAY_BUDGET (progress row) \<and> sends (progress row) \<le> 5}"
proof -
  have "\<forall>row \<in> ran (command_progress (gateway_store (gateway_run nfc src steps (gateway_start s)))).
      dispatch_inv GATEWAY_BUDGET (progress row)"
  proof (rule progress_invariant [where evs = UNIV])
    show "dispatch_inv GATEWAY_BUDGET INITIAL_PROGRESS"
      by (simp add: INITIAL_PROGRESS_def GATEWAY_BUDGET_def MAX_COMMAND_SENDS_def)
  qed (simp_all only: advance_inv subset_UNIV gateway_start_def EMPTY_DATABASE_def gateway.select_convs database.select_convs ran_empty ball_empty)
  with writes_progress [OF step_writes] run_progress_extends show ?thesis by (auto simp: GATEWAY_BUDGET_def MAX_COMMAND_SENDS_def)
qed

text \<open>As the service is composed, no command ever leaves its initial progress: its loop calls neither the send nor the
  timeout transition, so in every run of what it does call each progress row is still accepted with no sends, and no result
  of a drone is ever applied: every one that is handled is answered stale, mismatched or as a duplicate.\<close>

lemma served_commands_never_progress:
  "let db = gateway_store (gateway_run nfc src (filter (\<lambda>x. \<not> scheduled x) steps) (gateway_start s))
   in ran (command_progress db) \<subseteq> {row. progress row = INITIAL_PROGRESS}
      \<and> (case handle_command_result nfc delivery env db of
           (Inr r, db', settled) \<Rightarrow> result_kind r \<in> {STALE, CommandResultOutcome.MISMATCH, CommandResultOutcome.DUPLICATE} \<and> command_progress db' = command_progress db
         | (Inl error, db', settled) \<Rightarrow> command_progress db' = command_progress db)"
proof -
  let ?db = "gateway_store (gateway_run nfc src (filter (\<lambda>x. \<not> scheduled x) steps) (gateway_start s))"
  have stuck: "advance INITIAL_PROGRESS e b = Inr q \<Longrightarrow> e \<notin> {ACKNOWLEDGE, SUCCEED, FAIL}" for e b q
    by (auto simp: advance_rules INITIAL_PROGRESS_def)
  have initial: "\<forall>row \<in> ran (command_progress ?db). progress row = INITIAL_PROGRESS"
    by (rule progress_invariant [where evs = "{ACKNOWLEDGE, SUCCEED, FAIL}"])
       (use stuck unscheduled_events in \<open>auto simp: gateway_start_def EMPTY_DATABASE_def\<close>)
  then have none: "\<not> progressed {ACKNOWLEDGE, SUCCEED, FAIL} ?db db'" for db'
    using stuck by (fastforce simp: progressed_def ran_def)
  have consumer: "result_kind r \<noteq> UPDATED \<and> command_progress db' = command_progress ?db"
    if ran: "result_consumer nfc ep u ?db = Inr (r, db')" for ep u r db'
  proof -
    from ran obtain i where "result_unit nfc i (fst ep) (snd ep) ?db = Inr (r, db')" by (auto simp: result_consumer_Inr)
    then show ?thesis by (cases rule: result_unit_effects) (use none in auto)
  qed
  obtain x db' settled where h: "handle_command_result nfc delivery env ?db = (x, db', settled)" by (metis prod_cases3)
  have same: "command_progress db' = command_progress ?db"
    using handle_command_result_leaves [of ?db nfc delivery env] h consumer by (auto simp: leaves_def)
  have "result_kind r \<in> {STALE, CommandResultOutcome.MISMATCH, CommandResultOutcome.DUPLICATE}" if "x = Inr r" for r
    using handle_command_result_Inr h that consumer by (cases "result_kind r") fastforce+
  with same initial h show ?thesis by (auto simp: Let_def split: sum.splits)
qed

section \<open>Evidence\<close>

lemma normalized_sound: "normalized db db' \<Longrightarrow> evidence_sound db \<Longrightarrow> evidence_sound db'"
  by (rule sound_grows [of db db']) (auto simp: normalized_def evidence_grows_def evidence_sound_def sensor_rows_def)

lemma captured_sound:
  assumes "record_source_event ev db = Inr (d, db')" "evidence_sound db"
  shows "evidence_sound db'"
proof (rule sound_grows [OF assms(2)])
  from assms(1) have tables: "proposals db' = proposals db" "decisions db' = decisions db" "source_items db' = source_items db"
    and events: "set (source_events db) \<subseteq> set (source_events db')"
    by (auto simp: record_source_event_Inr split: option.splits)
  then show "evidence_grows db db'" "decisions db' = decisions db" by (simp_all add: evidence_grows_def)
  from assms(2) tables(3) show "sensor_rows db'" by (simp add: evidence_sound_def sensor_rows_def)
qed

text \<open>Every unit of work of every service keeps the evidence sound.\<close>

lemma writes_sound: "writes nfc x db db' \<Longrightarrow> evidence_sound db \<Longrightarrow> evidence_sound db'"
proof (induction rule: writes.induct)
  case (command raw t topic e p m stamp now db r db' channel env)
  then show ?case using steady_sound [OF authorization_body_steady] by blast
next
  case (approval e q now db a db' channel m env)
  then show ?case using steady_sound [OF approval_consumer_steady] by blast
next
  case (result e o' db c db' channel m now env)
  then show ?case using steady_sound [OF result_consumer_steady] by blast
next
  case (publications db db1 db' x)
  then have "evidence_sound db' = evidence_sound db"
    by (intro sound_same) (auto simp: events_written_def commands_advanced_def)
  with publications show ?case by simp
next
  case (sent db db' current clock f)
  then have "evidence_sound db' = evidence_sound db" by (intro sound_same) (auto simp: progressed_def)
  with sent show ?case by simp
next
  case (timed_out db db' current at jitter f)
  then have "evidence_sound db' = evidence_sound db" by (intro sound_same) (auto simp: progressed_def)
  with timed_out show ?case by simp
next
  case (bound b db d db' f)
  then have "evidence_sound db' = evidence_sound db" by (intro sound_same) (auto dest!: record_binding_Inr)
  with bound show ?case by simp
next
  case (decided a db u db' f)
  then have "evidence_sound db' = evidence_sound db" by (intro sound_same) (auto simp: record_approval_Inr)
  with decided show ?case by simp
next
  case (refused x db rows)
  have "evidence_sound (db\<lparr>refusals := rows\<rparr>) = evidence_sound db" by (rule sound_same) simp_all
  with refused show ?case by simp
qed (blast dest: normalized_sound captured_sound source_unit_sound proposal_unit_sound)+

lemma run_sound:
  assumes "evidence_sound (gateway_store g)"
  shows "evidence_sound (gateway_store (gateway_run nfc src steps g))"
proof -
  have "evidence_sound (gateway_store g) \<longrightarrow> evidence_sound (gateway_store (gateway_run nfc src steps g))"
    by (rule gateway_run_respects) (use writes_sound step_writes in blast)+
  with assms show ?thesis by blast
qed

lemma start_sound: "evidence_sound (gateway_store (gateway_start s))"
  by (simp add: gateway_start_def EMPTY_DATABASE_def evidence_sound_def sensor_rows_def)

text \<open>The drone that an escalation sends out saw something: its own salient event, of this mission and with the digest that the stored
  proposal names, is recorded with the fact of its sensor; and the decision counted that fact and a different source.\<close>

definition sighted :: "database \<Rightarrow> EscalateRescueAction \<Rightarrow> bool" where
  "sighted db a \<longleftrightarrow> (\<exists>p d ev r.
     proposals db (escalate_proposal a) = Some p \<and> prop_digest p = escalate_proposal_digest a
     \<and> decisions db (escalate_evidence a) = Some d \<and> dec_proposal d = escalate_proposal a \<and> dec_score d = Some 75
     \<and> ev \<in> snd ` set (source_events db) \<and> src_event ev = prop_source_event p \<and> src_mission ev = prop_mission p
     \<and> src_digest ev = prop_source_digest p \<and> src_source ev = drone_source (escalate_drone a)
     \<and> r \<in> set (source_items db) \<and> row_source r = src_source ev \<and> row_event r = src_event ev
     \<and> row_source_id r = escalate_drone a \<and> row_origin r = LIVE_SENSOR \<and> prop_invocation p \<noteq> escalate_drone a)"

lemma warranted_sighted:
  assumes "warranted nfc db mission a now" "evidence_sound db"
  shows "sighted db a"
proof -
  from assms(1) obtain stored d where stored: "proposals db (escalate_proposal a) = Some stored" "prop_digest stored = escalate_proposal_digest a"
      "prop_drone stored = escalate_drone a"
    and d: "decisions db (escalate_evidence a) = Some d" "dec_band d = Some CORROBORATED" "dec_proposal d = escalate_proposal a"
    unfolding warranted_def by blast
  from d(1) have "d \<in> ran (decisions db)" by (rule ranI)
  with assms(2) d(2) have "grounded db d" by (simp add: evidence_sound_def)
  with stored(1) d(3) have "observed_for db stored" "prop_invocation stored \<noteq> prop_drone stored" "dec_score d = Some 75"
    by (auto simp: grounded_def)
  with stored d show ?thesis unfolding sighted_def observed_for_def by auto
qed

text \<open>C1. No rescue is escalated on words alone. After any run of the gateway and the services that share its database, from an empty
  database, an operator command that is delivered releases nothing, or it releases an assignment, or it escalates a proposal
  whose drone was seen by the system to observe something: the salient event that the proposal cites is stored, it was sent
  by the very drone that the command names, for this mission and with the digest cited, its sensor's fact is recorded, and the
  decision's score is the 75 that takes that fact and the proposal of a model under a different source name.\<close>

theorem escalation_rests_on_observation:
  "let db = gateway_store (gateway_run nfc src steps (gateway_start s))
   in case handle_operator_command nfc delivery stamp now env db of (r, db', settled) \<Rightarrow>
        command_outbox db' = command_outbox db \<or>
        (\<exists>topic e p.
           accept_ingress nfc (delivery_payload delivery) (PStr (delivery_topic delivery)) = Inr (OperatorCommandIngress topic e p)
           \<and> released p stamp db db'
           \<and> (case command_action p of AssignSector a \<Rightarrow> approvals db' = approvals db | EscalateRescue a \<Rightarrow> sighted db a))"
proof -
  define db where "db = gateway_store (gateway_run nfc src steps (gateway_start s))"
  have sound: "evidence_sound db" unfolding db_def by (rule run_sound [OF start_sound])
  obtain r db' settled where h: "handle_operator_command nfc delivery stamp now env db = (r, db', settled)" by (metis prod_cases3)
  from handle_operator_command_leaves h
  have "command_outbox db' = command_outbox db \<or>
        (\<exists>topic e p.
           accept_ingress nfc (delivery_payload delivery) (PStr (delivery_topic delivery)) = Inr (OperatorCommandIngress topic e p)
           \<and> released p stamp db db'
           \<and> (case command_action p of AssignSector a \<Rightarrow> approvals db' = approvals db | EscalateRescue a \<Rightarrow> sighted db a))"
  proof (cases rule: leavesE)
    case ran
    then obtain topic e p x i where ran:
      "accept_ingress nfc (delivery_payload delivery) (PStr (delivery_topic delivery)) = Inr (OperatorCommandIngress topic e p)"
      "authorization_unit nfc i e p stamp now db = Inr (x, db')" by (auto simp: authorization_body_Inr)
    from ran(2) show ?thesis
      by (cases rule: authorization_unit_effects) (use ran(1) warranted_sighted [OF _ sound] in \<open>auto simp: quiet_def\<close>)
  qed auto
  with h show ?thesis by (simp add: Let_def db_def [symmetric])
qed

end
