(* ===== verification/Scenario.thy ===== *)
theory Scenario
  imports Topics Connectivity "HOL-Library.Multiset"
begin

text \<open>
  \<open>services/fleet_simulator/src/aerial_rescue_fleet_simulator\<close>: \<open>bounds.py\<close> and \<open>scenario.py\<close>. A scenario is checked once, when it is
  built; the checks and their order are those of the two \<open>__post_init__\<close> methods.
\<close>

section \<open>Bounds\<close>

record Bound =
  bound_low :: int
  bound_high :: int

definition holds :: "Bound \<Rightarrow> int \<Rightarrow> bool" where
  "holds b value \<longleftrightarrow> bound_low b \<le> value \<and> value \<le> bound_high b"

abbreviation bound :: "int \<Rightarrow> int \<Rightarrow> Bound" where
  "bound a b \<equiv> \<lparr>bound_low = a, bound_high = b\<rparr>"

definition LATITUDE_MICRODEGREES :: Bound where
  "LATITUDE_MICRODEGREES = bound (- 90000000) 90000000"

definition LONGITUDE_MICRODEGREES :: Bound where
  "LONGITUDE_MICRODEGREES = bound (- 180000000) 180000000"

definition ALTITUDE_METRES :: Bound where
  "ALTITUDE_METRES = bound (- 500) 20000"

definition HEADING_DEGREES :: Bound where
  "HEADING_DEGREES = bound 0 359"

definition GROUND_SPEED_CENTIMETRES_PER_SECOND :: Bound where
  "GROUND_SPEED_CENTIMETRES_PER_SECOND = bound 0 10000"

definition PERCENT :: Bound where
  "PERCENT = bound 0 100"

definition PERMILLE_PER_PERCENT :: int where
  "PERMILLE_PER_PERCENT = 10"

definition BATTERY_PERMILLE :: Bound where
  "BATTERY_PERMILLE = bound (bound_low PERCENT * PERMILLE_PER_PERCENT) (bound_high PERCENT * PERMILLE_PER_PERCENT)"

definition NORTH_MICRODEGREES_PER_TICK :: Bound where
  "NORTH_MICRODEGREES_PER_TICK = bound (- bound_high LATITUDE_MICRODEGREES) (bound_high LATITUDE_MICRODEGREES)"

definition EAST_MICRODEGREES_PER_TICK :: Bound where
  "EAST_MICRODEGREES_PER_TICK = bound (- bound_high LONGITUDE_MICRODEGREES) (bound_high LONGITUDE_MICRODEGREES)"

lemmas bound_defs = holds_def LATITUDE_MICRODEGREES_def LONGITUDE_MICRODEGREES_def ALTITUDE_METRES_def HEADING_DEGREES_def
  GROUND_SPEED_CENTIMETRES_PER_SECOND_def PERCENT_def PERMILLE_PER_PERCENT_def BATTERY_PERMILLE_def
  NORTH_MICRODEGREES_PER_TICK_def EAST_MICRODEGREES_PER_TICK_def

section \<open>Scenarios\<close>

definition MINIMUM_POSITIVE :: int where
  "MINIMUM_POSITIVE = 1"

definition SCHEDULE_START :: int where
  "SCHEDULE_START = 0"

datatype ScenarioError =
    EMPTY_ROSTER
  | DUPLICATE_DRONE pystr
  | DUPLICATE_SECTOR pystr
  | IDENTIFIER_FORM string
  | OUT_OF_RANGE string
  | NON_POSITIVE string
  | MOTION_DISAGREEMENT pystr
  | UNKNOWN_DRONE pystr
  | NEGATIVE_TICK int

record DroneStart =
  start_drone :: pystr
  start_sector :: pystr
  start_latitude :: int
  start_longitude :: int
  start_altitude :: int
  start_heading :: int
  start_speed :: int
  start_battery :: int
  start_north :: int
  start_east :: int
  start_drain :: int

record FleetScenario =
  scenario_mission :: pystr
  scenario_drones :: "DroneStart list"
  scenario_interval :: int
  scenario_thresholds :: ConnectivityThresholds
  scenario_sweep :: int
  scenario_absent :: "(pystr, int list) pydict"

definition displaces :: "DroneStart \<Rightarrow> bool" where
  "displaces start \<longleftrightarrow> (start_north start, start_east start) \<noteq> (0, 0)"

definition check_identifier :: "pystr \<Rightarrow> string \<Rightarrow> ScenarioError + unit" where
  "check_identifier value member = (if fullmatch IDENTIFIER_PATTERN value then Inr () else Inl (IDENTIFIER_FORM member))"

definition check_bounded :: "int \<Rightarrow> Bound \<Rightarrow> string \<Rightarrow> ScenarioError + unit" where
  "check_bounded value b member = (if holds b value then Inr () else Inl (OUT_OF_RANGE member))"

definition check_positive :: "int \<Rightarrow> string \<Rightarrow> ScenarioError + unit" where
  "check_positive value member = (if value < MINIMUM_POSITIVE then Inl (NON_POSITIVE member) else Inr ())"

definition bounded_members :: "DroneStart \<Rightarrow> (string \<times> int \<times> Bound) list" where
  "bounded_members start =
     [(''latitude_microdegrees'', start_latitude start, LATITUDE_MICRODEGREES),
      (''longitude_microdegrees'', start_longitude start, LONGITUDE_MICRODEGREES),
      (''altitude_metres'', start_altitude start, ALTITUDE_METRES),
      (''heading_degrees'', start_heading start, HEADING_DEGREES),
      (''ground_speed_centimetres_per_second'', start_speed start, GROUND_SPEED_CENTIMETRES_PER_SECOND),
      (''battery_permille'', start_battery start, BATTERY_PERMILLE),
      (''battery_drain_permille_per_tick'', start_drain start, BATTERY_PERMILLE),
      (''north_microdegrees_per_tick'', start_north start, NORTH_MICRODEGREES_PER_TICK),
      (''east_microdegrees_per_tick'', start_east start, EAST_MICRODEGREES_PER_TICK)]"

definition check_drone :: "DroneStart \<Rightarrow> ScenarioError + unit" where
  "check_drone start =
     bindE (check_identifier (start_drone start) ''drone_id'') (\<lambda>_.
     bindE (check_identifier (start_sector start) ''sector_id'') (\<lambda>_.
     bindE (mapE (\<lambda>(member, value, b). check_bounded value b member) (bounded_members start)) (\<lambda>_.
       if displaces start \<noteq> (0 < start_speed start) then Inl (MOTION_DISAGREEMENT (start_drone start)) else Inr ())))"

definition make_drone :: "DroneStart \<Rightarrow> ScenarioError + DroneStart" where
  "make_drone start = bindE (check_drone start) (\<lambda>_. Inr start)"

fun roster_from :: "pystr list \<Rightarrow> pystr list \<Rightarrow> DroneStart list \<Rightarrow> ScenarioError + pystr list" where
  "roster_from seen held [] = Inr seen"
| "roster_from seen held (drone # drones) =
     (if start_drone drone \<in> set seen then Inl (DUPLICATE_DRONE (start_drone drone))
      else if start_sector drone \<in> set held then Inl (DUPLICATE_SECTOR (start_sector drone))
      else roster_from (start_drone drone # seen) (start_sector drone # held) drones)"

definition check_roster :: "DroneStart list \<Rightarrow> ScenarioError + pystr list" where
  "check_roster drones = (if drones = [] then Inl EMPTY_ROSTER else roster_from [] [] drones)"

definition check_schedule :: "(pystr, int list) pydict \<Rightarrow> pystr list \<Rightarrow> ScenarioError + unit" where
  "check_schedule schedule known =
     bindE (mapE (\<lambda>(drone, ticks).
       if drone \<notin> set known then Inl (UNKNOWN_DRONE drone)
       else bindE (mapE (\<lambda>tick. if tick < SCHEDULE_START then Inl (NEGATIVE_TICK tick) else Inr ()) (sort ticks)) (\<lambda>_. Inr ()))
       schedule) (\<lambda>_. Inr ())"

definition check_scenario :: "FleetScenario \<Rightarrow> ScenarioError + unit" where
  "check_scenario scenario =
     bindE (check_identifier (scenario_mission scenario) ''mission_id'') (\<lambda>_.
     bindE (check_roster (scenario_drones scenario)) (\<lambda>known.
     bindE (check_positive (scenario_interval scenario) ''tick_interval_milliseconds'') (\<lambda>_.
     bindE (check_positive (scenario_sweep scenario) ''ticks_to_sweep'') (\<lambda>_.
       check_schedule (scenario_absent scenario) known))))"

definition make_scenario :: "FleetScenario \<Rightarrow> ScenarioError + FleetScenario" where
  "make_scenario scenario = bindE (check_scenario scenario) (\<lambda>_. Inr scenario)"

definition ordered_drones :: "FleetScenario \<Rightarrow> DroneStart list" where
  "ordered_drones scenario = sort_key start_drone (scenario_drones scenario)"

definition scenario_sectors :: "FleetScenario \<Rightarrow> pystr list" where
  "scenario_sectors scenario = sort (remdups (map start_sector (scenario_drones scenario)))"

section \<open>What the checks promise\<close>

text \<open>An accepted scenario: its members were accepted, its thresholds were built, and its own check passed.\<close>

definition drone_valid :: "DroneStart \<Rightarrow> bool" where
  "drone_valid start \<longleftrightarrow> fullmatch IDENTIFIER_PATTERN (start_drone start) \<and> fullmatch IDENTIFIER_PATTERN (start_sector start)
     \<and> (\<forall>(member, value, b) \<in> set (bounded_members start). holds b value)
     \<and> displaces start = (0 < start_speed start)"

definition scenario_valid :: "FleetScenario \<Rightarrow> bool" where
  "scenario_valid scenario \<longleftrightarrow> fullmatch IDENTIFIER_PATTERN (scenario_mission scenario) \<and> scenario_drones scenario \<noteq> []
     \<and> (\<forall>start \<in> set (scenario_drones scenario). drone_valid start)
     \<and> distinct (map start_drone (scenario_drones scenario)) \<and> distinct (map start_sector (scenario_drones scenario))
     \<and> 1 \<le> scenario_interval scenario \<and> 1 \<le> scenario_sweep scenario \<and> check_thresholds (scenario_thresholds scenario) = Inr ()
     \<and> (\<forall>(drone, ticks) \<in> set (scenario_absent scenario). drone \<in> start_drone ` set (scenario_drones scenario)
          \<and> (\<forall>tick \<in> set ticks. 0 \<le> tick))"

lemma mapE_unit_Inr: "mapE f xs = Inr ys \<Longrightarrow> x \<in> set xs \<Longrightarrow> \<exists>y. f x = Inr y"
  by (auto dest: mapE_InrD)

lemma check_drone_Inr: "check_drone start = Inr () \<longleftrightarrow> drone_valid start"
proof -
  have "(\<exists>ys. mapE (\<lambda>(member, value, b). check_bounded value b member) xs = Inr ys) \<longleftrightarrow> (\<forall>(member, value, b) \<in> set xs. holds b value)"
    for xs
    by (induction xs) (auto simp: check_bounded_def split: if_splits)
  then show ?thesis by (auto simp: check_drone_def drone_valid_def check_identifier_def split: if_splits)
qed

lemma roster_from_Inr:
  "(\<exists>known. roster_from seen held drones = Inr known) \<longleftrightarrow>
     distinct (map start_drone drones) \<and> distinct (map start_sector drones)
     \<and> start_drone ` set drones \<inter> set seen = {} \<and> start_sector ` set drones \<inter> set held = {}"
proof (induction drones arbitrary: seen held)
  case (Cons drone drones)
  have "(\<exists>known. roster_from seen held (drone # drones) = Inr known) \<longleftrightarrow>
      start_drone drone \<notin> set seen \<and> start_sector drone \<notin> set held
      \<and> (\<exists>known. roster_from (start_drone drone # seen) (start_sector drone # held) drones = Inr known)" by simp
  also have "\<dots> \<longleftrightarrow> start_drone drone \<notin> set seen \<and> start_sector drone \<notin> set held
      \<and> distinct (map start_drone drones) \<and> distinct (map start_sector drones)
      \<and> start_drone ` set drones \<inter> set (start_drone drone # seen) = {} \<and> start_sector ` set drones \<inter> set (start_sector drone # held) = {}"
    by (simp only: Cons.IH)
  finally show ?case by auto
qed simp

lemma roster_from_known: "roster_from seen held drones = Inr known \<Longrightarrow> set known = set seen \<union> start_drone ` set drones"
  by (induction drones arbitrary: seen held) (auto split: if_splits)

lemma check_schedule_Inr:
  "check_schedule schedule known = Inr () \<longleftrightarrow>
     (\<forall>(drone, ticks) \<in> set schedule. drone \<in> set known \<and> (\<forall>tick \<in> set ticks. 0 \<le> tick))"
proof -
  have ticks: "(\<exists>ys. mapE (\<lambda>tick. if tick < SCHEDULE_START then Inl (NEGATIVE_TICK tick) else Inr ()) ts = Inr ys) \<longleftrightarrow> (\<forall>t \<in> set ts. 0 \<le> t)" for ts
    by (induction ts) (auto simp: SCHEDULE_START_def not_less)
  have "(\<exists>ys. mapE (\<lambda>(drone, ticks).
       if drone \<notin> set known then Inl (UNKNOWN_DRONE drone)
       else bindE (mapE (\<lambda>tick. if tick < SCHEDULE_START then Inl (NEGATIVE_TICK tick) else Inr ()) (sort ticks)) (\<lambda>_. Inr ()))
       schedule = Inr ys) \<longleftrightarrow> (\<forall>(drone, ticks) \<in> set schedule. drone \<in> set known \<and> (\<forall>tick \<in> set ticks. 0 \<le> tick))"
    using ticks by (induction schedule) (auto split: if_splits)
  then show ?thesis by (auto simp: check_schedule_def)
qed

lemma check_scenario_Inr:
  "check_scenario scenario = Inr () \<longleftrightarrow> fullmatch IDENTIFIER_PATTERN (scenario_mission scenario) \<and> scenario_drones scenario \<noteq> []
     \<and> distinct (map start_drone (scenario_drones scenario)) \<and> distinct (map start_sector (scenario_drones scenario))
     \<and> 1 \<le> scenario_interval scenario \<and> 1 \<le> scenario_sweep scenario
     \<and> (\<forall>(drone, ticks) \<in> set (scenario_absent scenario). drone \<in> start_drone ` set (scenario_drones scenario)
          \<and> (\<forall>tick \<in> set ticks. 0 \<le> tick))"
proof -
  have roster: "check_roster drones = Inr known \<longleftrightarrow> drones \<noteq> [] \<and> roster_from [] [] drones = Inr known" for drones known
    by (simp add: check_roster_def)
  show ?thesis
  proof (cases "\<exists>known. roster_from [] [] (scenario_drones scenario) = Inr known")
    case True
    then obtain known where known: "roster_from [] [] (scenario_drones scenario) = Inr known" ..
    with roster_from_known [OF known] roster_from_Inr [of "[]" "[]" "scenario_drones scenario"] show ?thesis
      by (auto simp: check_scenario_def check_identifier_def check_positive_def MINIMUM_POSITIVE_def roster check_schedule_Inr
          check_roster_def split: if_splits)
  next
    case False
    with roster_from_Inr [of "[]" "[]" "scenario_drones scenario"] show ?thesis
      by (auto simp: check_scenario_def roster)
  qed
qed

lemma scenario_valid_iff:
  "scenario_valid scenario \<longleftrightarrow> check_scenario scenario = Inr () \<and> check_thresholds (scenario_thresholds scenario) = Inr ()
     \<and> (\<forall>start \<in> set (scenario_drones scenario). check_drone start = Inr ())"
  by (auto simp: scenario_valid_def check_scenario_Inr check_drone_Inr)

lemma set_ordered_drones [simp]: "set (ordered_drones scenario) = set (scenario_drones scenario)"
  by (simp add: ordered_drones_def)

lemma distinct_ordered:
  assumes "scenario_valid scenario"
  shows "distinct (map start_drone (ordered_drones scenario))" "distinct (map start_sector (ordered_drones scenario))"
  using assms unfolding scenario_valid_def ordered_drones_def distinct_map by (auto simp: distinct_map)

text \<open>The order of the roster carries nothing.\<close>

lemma ordered_drones_perm:
  assumes "mset (scenario_drones s) = mset (scenario_drones s')" "distinct (map start_drone (scenario_drones s))"
  shows "ordered_drones s = ordered_drones s'"
proof -
  from assms(2) have "inj_on start_drone (set (scenario_drones s))" by (simp add: distinct_map)
  then show ?thesis unfolding ordered_drones_def
    by (rule sort_key_inj_key_eq [rotated]) (simp_all add: assms(1))
qed

end
