(* ===== verification/Fleet.thy ===== *)
theory Fleet
  imports Scenario Mission Sectors "HOL-Library.AList"
begin

text \<open>
  \<open>services/fleet_simulator/src/aerial_rescue_fleet_simulator\<close>: \<open>flight.py\<close> and \<open>fleet.py\<close>. One tick is one observation for each drone, in
  the order of their identifiers; the machines it drives are those of the domain package. A dictionary is an
  association list in insertion order; the identifiers of a scenario that was built are distinct.
\<close>

section \<open>Flight\<close>

record DroneState =
  at_latitude :: int
  at_longitude :: int
  battery :: int

text \<open>What a tick may raise: the refusals of the two modules, those of the machines, and a missing key.\<close>

datatype fleet_error =
    MISSION_ENDED MissionState
  | OUT_OF_RANGE pystr
  | SectorFailed SectorError
  | MissionFailed MissionError
  | FleetKeyError pystr

definition initial_state :: "DroneStart \<Rightarrow> DroneState" where
  "initial_state start = \<lparr>at_latitude = start_latitude start, at_longitude = start_longitude start, battery = start_battery start\<rparr>"

definition advance_drone :: "DroneState \<Rightarrow> DroneStart \<Rightarrow> fleet_error + DroneState" where
  "advance_drone state start =
     (let latitude = at_latitude state + start_north start; longitude = at_longitude state + start_east start
      in if \<not> (holds LATITUDE_MICRODEGREES latitude \<and> holds LONGITUDE_MICRODEGREES longitude)
         then Inl (fleet_error.OUT_OF_RANGE (start_drone start))
         else Inr \<lparr>at_latitude = latitude, at_longitude = longitude,
                   battery = max (bound_low BATTERY_PERMILLE) (battery state - start_drain start)\<rparr>)"

definition battery_percent :: "DroneState \<Rightarrow> int" where
  "battery_percent state = battery state div PERMILLE_PER_PERCENT"

section \<open>One tick\<close>

record Reading =
  reading_drone :: pystr
  reading_latitude :: int
  reading_longitude :: int
  reading_altitude :: int
  reading_heading :: int
  reading_speed :: int
  reading_battery :: int

record DroneRuntime =
  flight :: DroneState
  connectivity :: ConnectivityStatus

record SectorRuntime =
  sector_state :: SectorState
  swept_ticks :: int

type_synonym drone_table = "(pystr, DroneRuntime) pydict"
type_synonym sector_table = "(pystr, SectorRuntime) pydict"

record FleetState =
  fleet_tick :: int
  fleet_mission :: MissionState
  fleet_drones :: drone_table
  fleet_sectors :: sector_table

record Tick =
  tick_state :: FleetState
  tick_readings :: "Reading list"

record Stepped =
  stepped_drones :: drone_table
  stepped_readings :: "Reading list"
  stepped_events :: "(pystr, SectorEvent) pydict"

definition initial_fleet :: "FleetScenario \<Rightarrow> FleetState" where
  "initial_fleet scenario =
     \<lparr>fleet_tick = 0, fleet_mission = PLANNED,
      fleet_drones = map (\<lambda>drone. (start_drone drone, \<lparr>flight = initial_state drone, connectivity = INITIAL_STATUS\<rparr>)) (scenario_drones scenario),
      fleet_sectors = map (\<lambda>drone. (start_sector drone, \<lparr>sector_state = Sectors.INITIAL_STATE, swept_ticks = 0\<rparr>)) (scenario_drones scenario)\<rparr>"

definition reading :: "DroneStart \<Rightarrow> DroneState \<Rightarrow> Reading" where
  "reading start state =
     \<lparr>reading_drone = start_drone start, reading_latitude = at_latitude state, reading_longitude = at_longitude state,
      reading_altitude = start_altitude start, reading_heading = start_heading start, reading_speed = start_speed start,
      reading_battery = battery_percent state\<rparr>"

text \<open>\<open>absent_heartbeats.get(drone_id, frozenset())\<close>\<close>

definition absent_ticks :: "FleetScenario \<Rightarrow> pystr \<Rightarrow> int list" where
  "absent_ticks scenario drone = (case map_of (scenario_absent scenario) drone of None \<Rightarrow> [] | Some ticks \<Rightarrow> ticks)"

definition observe_drone :: "ConnectivityStatus \<Rightarrow> FleetScenario \<Rightarrow> DroneStart \<Rightarrow> int \<Rightarrow> ConnectivityStatus" where
  "observe_drone status scenario start tick =
     (let absent = (tick \<in> set (absent_ticks scenario (start_drone start)))
      in (if absent then heartbeat_missed else heartbeat_received) status (scenario_thresholds scenario))"

definition sector_event :: "ConnectivityState \<Rightarrow> ConnectivityState \<Rightarrow> SectorState \<Rightarrow> SectorEvent option" where
  "sector_event before after sector =
     (if Sectors.is_terminal sector then None
      else if after = OFFLINE \<and> before \<noteq> OFFLINE then Some IMPERIL
      else if before = OFFLINE \<and> after \<noteq> OFFLINE then Some RECOVER
      else None)"

definition move_sector :: "SectorRuntime \<Rightarrow> SectorEvent \<Rightarrow> fleet_error + SectorRuntime" where
  "move_sector runtime event =
     bindE (map_sum SectorFailed id (Sectors.transition (sector_state runtime) event)) (\<lambda>reached. Inr (runtime\<lparr>sector_state := reached\<rparr>))"

definition open_the_search :: "FleetState \<Rightarrow> fleet_error + MissionState \<times> sector_table" where
  "open_the_search state =
     (if fleet_mission state \<noteq> PLANNED then Inr (fleet_mission state, fleet_sectors state)
      else bindE (mapE (\<lambda>(sector, runtime). bindE (move_sector runtime ASSIGN) (\<lambda>r. Inr (sector, r))) (fleet_sectors state)) (\<lambda>assigned.
           bindE (map_sum MissionFailed id (Mission.transition (fleet_mission state) START)) (\<lambda>mission. Inr (mission, assigned))))"

definition subscript :: "(pystr, 'v) pydict \<Rightarrow> pystr \<Rightarrow> fleet_error + 'v" where
  "subscript d k = (case map_of d k of None \<Rightarrow> Inl (FleetKeyError k) | Some v \<Rightarrow> Inr v)"

fun step_each :: "FleetScenario \<Rightarrow> FleetState \<Rightarrow> sector_table \<Rightarrow> DroneStart list \<Rightarrow> fleet_error + Stepped" where
  "step_each scenario state sectors [] = Inr \<lparr>stepped_drones = [], stepped_readings = [], stepped_events = []\<rparr>"
| "step_each scenario state sectors (start # starts) =
     bindE (subscript (fleet_drones state) (start_drone start)) (\<lambda>was.
     bindE (advance_drone (flight was) start) (\<lambda>flown.
     bindE (subscript sectors (start_sector start)) (\<lambda>sector.
       let observed = observe_drone (connectivity was) scenario start (fleet_tick state);
           event = sector_event (link_state (connectivity was)) (link_state observed) (sector_state sector)
       in bindE (step_each scenario state sectors starts) (\<lambda>rest.
            Inr \<lparr>stepped_drones = (start_drone start, \<lparr>flight = flown, connectivity = observed\<rparr>) # stepped_drones rest,
                 stepped_readings = reading start flown # stepped_readings rest,
                 stepped_events = (case event of None \<Rightarrow> [] | Some e \<Rightarrow> [(start_sector start, e)]) @ stepped_events rest\<rparr>))))"

definition step_drones :: "FleetScenario \<Rightarrow> FleetState \<Rightarrow> sector_table \<Rightarrow> fleet_error + Stepped" where
  "step_drones scenario state sectors = step_each scenario state sectors (ordered_drones scenario)"

fun apply_events :: "sector_table \<Rightarrow> (pystr, SectorEvent) pydict \<Rightarrow> fleet_error + sector_table" where
  "apply_events sectors [] = Inr sectors"
| "apply_events sectors ((sector, event) # events) =
     bindE (subscript sectors sector) (\<lambda>runtime.
     bindE (move_sector runtime event) (\<lambda>moved. apply_events (AList.update sector moved sectors) events))"

fun sweep_each :: "FleetScenario \<Rightarrow> drone_table \<Rightarrow> sector_table \<Rightarrow> DroneStart list \<Rightarrow> fleet_error + sector_table" where
  "sweep_each scenario drones sectors [] = Inr sectors"
| "sweep_each scenario drones sectors (start # starts) =
     bindE (subscript sectors (start_sector start)) (\<lambda>runtime.
     bindE (subscript drones (start_drone start)) (\<lambda>drone.
       if sector_state runtime \<noteq> ASSIGNED \<or> link_state (connectivity drone) = OFFLINE
       then sweep_each scenario drones sectors starts
       else let swept = swept_ticks runtime + 1
            in bindE (if scenario_sweep scenario \<le> swept then move_sector runtime SWEEP else Inr runtime) (\<lambda>reached.
                 sweep_each scenario drones (AList.update (start_sector start) (reached\<lparr>swept_ticks := swept\<rparr>) sectors) starts)))"

definition sweep :: "FleetScenario \<Rightarrow> sector_table \<Rightarrow> drone_table \<Rightarrow> fleet_error + sector_table" where
  "sweep scenario sectors drones = sweep_each scenario drones sectors (ordered_drones scenario)"

definition mission_after :: "MissionState \<Rightarrow> sector_table \<Rightarrow> fleet_error + MissionState" where
  "mission_after mission sectors =
     (if mission = SEARCHING \<and> (\<forall>runtime \<in> set (map snd sectors). Sectors.is_terminal (sector_state runtime))
      then map_sum MissionFailed id (Mission.transition mission EXHAUST) else Inr mission)"

definition advance_tick :: "FleetScenario \<Rightarrow> FleetState \<Rightarrow> fleet_error + Tick" where
  "advance_tick scenario state =
     (if Mission.is_terminal (fleet_mission state) then Inl (MISSION_ENDED (fleet_mission state))
      else bindE (open_the_search state) (\<lambda>(mission, opened).
           bindE (step_drones scenario state opened) (\<lambda>stepped.
           bindE (apply_events opened (stepped_events stepped)) (\<lambda>moved.
           bindE (sweep scenario moved (stepped_drones stepped)) (\<lambda>swept.
           bindE (mission_after mission swept) (\<lambda>reached.
             Inr \<lparr>tick_state = \<lparr>fleet_tick = fleet_tick state + 1, fleet_mission = reached,
                    fleet_drones = stepped_drones stepped, fleet_sectors = swept\<rparr>,
                  tick_readings = stepped_readings stepped\<rparr>))))))"

text \<open>A run: ticks until one is refused, at most so many; the readings of each tick, and the refusal that ended it, if any.\<close>

fun fleet_run :: "nat \<Rightarrow> FleetScenario \<Rightarrow> FleetState \<Rightarrow> FleetState \<times> Reading list list \<times> fleet_error option" where
  "fleet_run 0 scenario state = (state, [], None)"
| "fleet_run (Suc n) scenario state =
     (case advance_tick scenario state of
        Inl error \<Rightarrow> (state, [], Some error)
      | Inr t \<Rightarrow> (case fleet_run n scenario (tick_state t) of (final, readings, error) \<Rightarrow> (final, tick_readings t # readings, error)))"

section \<open>Specification\<close>

text \<open>
  What a run computes, drone by drone: where the drone is after some ticks, the link that its history of heartbeats gives, how often
  it was swept for, and what follows for its sector and for the mission. No drone's members depend on another drone.
\<close>

definition flight_at :: "DroneStart \<Rightarrow> nat \<Rightarrow> DroneState" where
  "flight_at start n = \<lparr>at_latitude = start_latitude start + int n * start_north start,
     at_longitude = start_longitude start + int n * start_east start, battery = max 0 (start_battery start - int n * start_drain start)\<rparr>"

definition in_range :: "DroneStart \<Rightarrow> nat \<Rightarrow> bool" where
  "in_range start n \<longleftrightarrow> holds LATITUDE_MICRODEGREES (at_latitude (flight_at start n))
     \<and> holds LONGITUDE_MICRODEGREES (at_longitude (flight_at start n))"

definition heard :: "FleetScenario \<Rightarrow> DroneStart \<Rightarrow> nat \<Rightarrow> bool" where
  "heard scenario start k \<longleftrightarrow> int k \<notin> set (absent_ticks scenario (start_drone start))"

definition status_at :: "FleetScenario \<Rightarrow> DroneStart \<Rightarrow> nat \<Rightarrow> ConnectivityStatus" where
  "status_at scenario start n = status_after (scenario_thresholds scenario) (map (heard scenario start) [0..<n])"

definition online :: "FleetScenario \<Rightarrow> DroneStart \<Rightarrow> nat \<Rightarrow> bool" where
  "online scenario start n \<longleftrightarrow> link_state (status_at scenario start n) \<noteq> OFFLINE"

definition swept_at :: "FleetScenario \<Rightarrow> DroneStart \<Rightarrow> nat \<Rightarrow> int" where
  "swept_at scenario start n =
     min (scenario_sweep scenario) (int (length (filter (\<lambda>k. online scenario start (Suc k)) [0..<n])))"

definition phase_at :: "FleetScenario \<Rightarrow> DroneStart \<Rightarrow> nat \<Rightarrow> SectorState" where
  "phase_at scenario start n =
     (if scenario_sweep scenario \<le> swept_at scenario start n then SEARCHED
      else if online scenario start n then ASSIGNED else AT_RISK)"

definition runtime_at :: "FleetScenario \<Rightarrow> DroneStart \<Rightarrow> nat \<Rightarrow> DroneRuntime" where
  "runtime_at scenario start n = \<lparr>flight = flight_at start n, connectivity = status_at scenario start n\<rparr>"

definition sector_at :: "FleetScenario \<Rightarrow> DroneStart \<Rightarrow> nat \<Rightarrow> SectorRuntime" where
  "sector_at scenario start n =
     \<lparr>sector_state = (if n = 0 then UNASSIGNED else phase_at scenario start n), swept_ticks = swept_at scenario start n\<rparr>"

definition all_swept :: "FleetScenario \<Rightarrow> nat \<Rightarrow> bool" where
  "all_swept scenario n \<longleftrightarrow> (\<forall>start \<in> set (scenario_drones scenario). scenario_sweep scenario \<le> swept_at scenario start n)"

definition mission_at :: "FleetScenario \<Rightarrow> nat \<Rightarrow> MissionState" where
  "mission_at scenario n = (if n = 0 then PLANNED else if all_swept scenario n then EXHAUSTED else SEARCHING)"

text \<open>A dictionary that holds one entry for each member of a set.\<close>

definition tabulates :: "(pystr, 'v) pydict \<Rightarrow> ('s \<Rightarrow> pystr) \<Rightarrow> ('s \<Rightarrow> 'v) \<Rightarrow> 's set \<Rightarrow> bool" where
  "tabulates d key val S \<longleftrightarrow> distinct (map fst d) \<and> fst ` set d = key ` S \<and> (\<forall>s \<in> S. map_of d (key s) = Some (val s))"

definition fleet_at :: "FleetScenario \<Rightarrow> nat \<Rightarrow> FleetState \<Rightarrow> bool" where
  "fleet_at scenario n state \<longleftrightarrow> fleet_tick state = int n \<and> fleet_mission state = mission_at scenario n
     \<and> tabulates (fleet_drones state) start_drone (\<lambda>start. runtime_at scenario start n) (set (scenario_drones scenario))
     \<and> tabulates (fleet_sectors state) start_sector (\<lambda>start. sector_at scenario start n) (set (scenario_drones scenario))"

section \<open>The machines one step on\<close>

lemma flight_at_step:
  assumes "drone_valid start"
  shows "advance_drone (flight_at start n) start =
    (if in_range start (Suc n) then Inr (flight_at start (Suc n)) else Inl (fleet_error.OUT_OF_RANGE (start_drone start)))"
proof -
  have "0 \<le> start_drain start" using assms by (simp add: drone_valid_def bounded_members_def bound_defs)
  then show ?thesis by (auto simp: advance_drone_def flight_at_def in_range_def Let_def bound_defs algebra_simps)
qed

lemma status_at_step:
  "observe_drone (status_at scenario start n) scenario start (int n) = status_at scenario start (Suc n)"
  by (simp add: observe_drone_def status_at_def status_after_def observe_def heard_def Let_def)

lemma swept_at_step:
  assumes "1 \<le> scenario_sweep scenario"
  shows "swept_at scenario start (Suc n) =
    (if online scenario start (Suc n) \<and> swept_at scenario start n < scenario_sweep scenario
     then swept_at scenario start n + 1 else swept_at scenario start n)"
  using assms by (auto simp: swept_at_def)

lemma at_zero [simp]:
  "0 \<le> start_battery start \<Longrightarrow> flight_at start 0 = initial_state start" "status_at scenario start 0 = INITIAL_STATUS"
  "online scenario start 0" "1 \<le> scenario_sweep scenario \<Longrightarrow> swept_at scenario start 0 = 0"
  by (auto simp: flight_at_def initial_state_def status_at_def status_after_def online_def INITIAL_STATUS_def swept_at_def)

lemma terminal_sectors: "set Sectors.TERMINAL_STATES = {SEARCHED}"
  by code_simp

lemma sector_terminal [simp]: "Sectors.is_terminal x \<longleftrightarrow> x = SEARCHED"
  by (simp add: Sectors.is_terminal_def terminal_sectors)

lemma terminal_missions: "set Mission.TERMINAL_STATES = {COMPLETED, EXHAUSTED, ABORTED}"
  by code_simp

lemma mission_terminal [simp]: "Mission.is_terminal x \<longleftrightarrow> x \<in> {COMPLETED, EXHAUSTED, ABORTED}"
  by (simp add: Mission.is_terminal_def terminal_missions)

lemma sector_moves [simp]:
  "Sectors.transition UNASSIGNED ASSIGN = Inr ASSIGNED" "Sectors.transition ASSIGNED IMPERIL = Inr AT_RISK"
  "Sectors.transition AT_RISK RECOVER = Inr ASSIGNED" "Sectors.transition ASSIGNED SWEEP = Inr SEARCHED"
  by code_simp+

lemma mission_moves [simp]: "Mission.transition PLANNED START = Inr SEARCHING" "Mission.transition SEARCHING EXHAUST = Inr EXHAUSTED"
  by code_simp+

section \<open>Tables\<close>

lemma tabulates_lookup: "tabulates d key val S \<Longrightarrow> s \<in> S \<Longrightarrow> subscript d (key s) = Inr (val s)"
  by (simp add: tabulates_def subscript_def)

lemma tabulates_entries: "tabulates d key val S \<Longrightarrow> (k, v) \<in> set d \<Longrightarrow> \<exists>s \<in> S. k = key s \<and> v = val s"
proof -
  assume d: "tabulates d key val S" and kv: "(k, v) \<in> set d"
  from kv have "k \<in> fst ` set d" by force
  with d obtain s where "s \<in> S" "k = key s" by (auto simp: tabulates_def)
  moreover from d kv have "map_of d k = Some v" by (simp add: tabulates_def)
  ultimately show ?thesis using d by (auto simp: tabulates_def simp del: map_of_eq_Some_iff)
qed

lemma tabulates_update:
  assumes "tabulates d key val S" "inj_on key S" "s \<in> S"
  shows "tabulates (AList.update (key s) v d) key (val(s := v)) S"
proof -
  have "fst ` set (AList.update (key s) v d) = fst ` set d"
    using assms(1,3) by (auto simp: tabulates_def update_conv' simp flip: dom_map_of_conv_image_fst)
  with assms show ?thesis by (auto simp: tabulates_def distinct_update update_conv' inj_onD)
qed

lemma tabulates_cong: "tabulates d key val S \<Longrightarrow> (\<And>s. s \<in> S \<Longrightarrow> val s = val' s) \<Longrightarrow> tabulates d key val' S"
  by (simp add: tabulates_def)

lemma tabulates_map: "inj_on key (set xs) \<Longrightarrow> distinct xs \<Longrightarrow> tabulates (map (\<lambda>s. (key s, val s)) xs) key val (set xs)"
  by (auto simp: tabulates_def distinct_map comp_def image_image inj_on_def intro!: map_of_is_SomeI)

lemma tabulates_values:
  assumes "tabulates d key val S"
  shows "snd ` set d = val ` S"
proof (intro set_eqI iffI)
  fix v
  assume "v \<in> snd ` set d"
  then obtain k where "(k, v) \<in> set d" by force
  with tabulates_entries [OF assms] show "v \<in> val ` S" by blast
next
  fix v
  assume "v \<in> val ` S"
  then obtain s where "s \<in> S" "v = val s" by blast
  with assms have "map_of d (key s) = Some v" by (simp add: tabulates_def)
  then have "(key s, v) \<in> set d" by (rule map_of_SomeD)
  then show "v \<in> snd ` set d" by force
qed

text \<open>One pass over the members: the events of each, and the work done for each, touch its own entry only.\<close>

definition events_of :: "('s \<Rightarrow> pystr) \<Rightarrow> ('s \<Rightarrow> SectorEvent option) \<Rightarrow> 's list \<Rightarrow> (pystr, SectorEvent) pydict" where
  "events_of key ev starts = concat (map (\<lambda>s. case ev s of None \<Rightarrow> [] | Some e \<Rightarrow> [(key s, e)]) starts)"

lemma apply_events_each:
  assumes "tabulates d key val S" "inj_on key S" "set starts \<subseteq> S" "distinct starts"
    and "\<And>s. s \<in> set starts \<Longrightarrow> (case ev s of None \<Rightarrow> moved s = val s | Some e \<Rightarrow> move_sector (val s) e = Inr (moved s))"
  shows "\<exists>d'. apply_events d (events_of key ev starts) = Inr d' \<and> tabulates d' key (\<lambda>s. if s \<in> set starts then moved s else val s) S"
  using assms(1,3-)
proof (induction starts arbitrary: d val)
  case (Cons s starts)
  note s = Cons.prems(4) [of s, simplified]
  let ?d = "case ev s of None \<Rightarrow> d | Some e \<Rightarrow> AList.update (key s) (moved s) d"
  have head: "apply_events d (events_of key ev (s # starts)) = apply_events ?d (events_of key ev starts)"
    using s tabulates_lookup [OF Cons.prems(1), of s] Cons.prems(2) by (auto simp: events_of_def split: option.splits)
  have tab: "tabulates ?d key (val(s := moved s)) S"
    using s Cons.prems(1,2) assms(2) tabulates_update [of d key val S s "moved s"] by (auto split: option.splits)
  have evs: "case ev r of None \<Rightarrow> moved r = (val(s := moved s)) r | Some e \<Rightarrow> move_sector ((val(s := moved s)) r) e = Inr (moved r)"
    if "r \<in> set starts" for r
  proof -
    from that Cons.prems(3) have same: "(val(s := moved s)) r = val r" by auto
    show ?thesis unfolding same using Cons.prems(4) [of r] that by simp
  qed
  have rest: "set starts \<subseteq> S" "distinct starts" using Cons.prems(2,3) by simp_all
  from Cons.IH [OF tab rest evs] obtain d' where d': "apply_events ?d (events_of key ev starts) = Inr d'"
    "tabulates d' key (\<lambda>r. if r \<in> set starts then moved r else (val(s := moved s)) r) S" by blast
  have "tabulates d' key (\<lambda>r. if r \<in> set (s # starts) then moved r else val r) S"
    by (rule tabulates_cong [OF d'(2)]) auto
  with d'(1) head show ?case by auto
qed (simp add: events_of_def)

text \<open>What the sweep makes of one sector.\<close>

definition swept_once :: "FleetScenario \<Rightarrow> SectorRuntime \<Rightarrow> bool \<Rightarrow> SectorRuntime" where
  "swept_once scenario runtime offline =
     (if sector_state runtime \<noteq> ASSIGNED \<or> offline then runtime
      else \<lparr>sector_state = (if scenario_sweep scenario \<le> swept_ticks runtime + 1 then SEARCHED else ASSIGNED),
            swept_ticks = swept_ticks runtime + 1\<rparr>)"

lemma sweep_each_all:
  assumes "tabulates d start_sector val S" "inj_on start_sector S" "set starts \<subseteq> S" "distinct starts"
    and "\<And>s. s \<in> S \<Longrightarrow> subscript drones (start_drone s) = Inr (held s)"
  shows "\<exists>d'. sweep_each scenario drones d starts = Inr d'
    \<and> tabulates d' start_sector (\<lambda>s. if s \<in> set starts then swept_once scenario (val s) (link_state (connectivity (held s)) = OFFLINE) else val s) S"
  using assms(1,3,4)
proof (induction starts arbitrary: d val)
  case (Cons s starts)
  let ?v = "swept_once scenario (val s) (link_state (connectivity (held s)) = OFFLINE)"
  let ?d = "if sector_state (val s) \<noteq> ASSIGNED \<or> link_state (connectivity (held s)) = OFFLINE then d else AList.update (start_sector s) ?v d"
  have s: "s \<in> S" using Cons.prems(2) by simp
  have head: "sweep_each scenario drones d (s # starts) = sweep_each scenario drones ?d starts"
    using tabulates_lookup [OF Cons.prems(1) s] assms(5) [OF s]
    by (cases "val s") (auto simp: swept_once_def move_sector_def Let_def)
  have tab: "tabulates ?d start_sector (val(s := ?v)) S"
    using Cons.prems(1) s assms(2) tabulates_update [of d start_sector val S s ?v] by (auto simp: swept_once_def)
  have rest: "set starts \<subseteq> S" "distinct starts" using Cons.prems(2,3) by simp_all
  from Cons.IH [OF tab rest] obtain d' where d': "sweep_each scenario drones ?d starts = Inr d'"
    "tabulates d' start_sector (\<lambda>r. if r \<in> set starts
      then swept_once scenario ((val(s := ?v)) r) (link_state (connectivity (held r)) = OFFLINE) else (val(s := ?v)) r) S"
    by blast
  have "tabulates d' start_sector (\<lambda>r. if r \<in> set (s # starts)
      then swept_once scenario (val r) (link_state (connectivity (held r)) = OFFLINE) else val r) S"
    by (rule tabulates_cong [OF d'(2)]) (use Cons.prems(3) in auto)
  with d'(1) show ?case unfolding head by blast
qed simp

lemma step_each_all:
  assumes "\<And>s. s \<in> set starts \<Longrightarrow> subscript (fleet_drones state) (start_drone s) = Inr (was s) \<and> subscript sectors (start_sector s) = Inr (sec s)"
    and "\<And>s. s \<in> set starts \<Longrightarrow> advance_drone (flight (was s)) s = Inr (flown s)"
  shows "step_each scenario state sectors starts = Inr
    \<lparr>stepped_drones = map (\<lambda>s. (start_drone s, \<lparr>flight = flown s, connectivity = observe_drone (connectivity (was s)) scenario s (fleet_tick state)\<rparr>)) starts,
     stepped_readings = map (\<lambda>s. reading s (flown s)) starts,
     stepped_events = events_of start_sector (\<lambda>s. sector_event (link_state (connectivity (was s)))
       (link_state (observe_drone (connectivity (was s)) scenario s (fleet_tick state))) (sector_state (sec s))) starts\<rparr>"
  using assms by (induction starts) (simp_all add: events_of_def Let_def)

lemma step_each_fails:
  assumes "\<And>s. s \<in> set starts \<Longrightarrow> subscript (fleet_drones state) (start_drone s) = Inr (was s) \<and> subscript sectors (start_sector s) = Inr (sec s)"
    and "\<exists>s \<in> set starts. \<exists>e. advance_drone (flight (was s)) s = Inl e"
  shows "\<exists>s \<in> set starts. \<exists>e. step_each scenario state sectors starts = Inl e \<and> advance_drone (flight (was s)) s = Inl e"
  using assms
proof (induction starts)
  case (Cons s starts)
  show ?case
  proof (cases "advance_drone (flight (was s)) s")
    case (Inl e)
    with Cons.prems(1) [of s] show ?thesis by auto
  next
    case (Inr flown)
    with Cons.prems(2) have "\<exists>r \<in> set starts. \<exists>e. advance_drone (flight (was r)) r = Inl e" by auto
    with Cons.IH Cons.prems(1) obtain r e where "r \<in> set starts" "step_each scenario state sectors starts = Inl e"
      "advance_drone (flight (was r)) r = Inl e" by auto
    with Inr Cons.prems(1) [of s] show ?thesis by (auto simp: Let_def)
  qed
qed simp

section \<open>One tick implements the specification\<close>

lemma valid_facts:
  assumes "scenario_valid scenario"
  shows "inj_on start_drone (set (scenario_drones scenario))" "inj_on start_sector (set (scenario_drones scenario))"
    "distinct (ordered_drones scenario)" "1 \<le> scenario_sweep scenario"
    "\<And>start. start \<in> set (scenario_drones scenario) \<Longrightarrow> drone_valid start"
  using assms by (auto simp: scenario_valid_def distinct_map ordered_drones_def)

lemma initial_fleet_at:
  assumes "scenario_valid scenario"
  shows "fleet_at scenario 0 (initial_fleet scenario)"
proof -
  note v = valid_facts [OF assms]
  have "distinct (scenario_drones scenario)" using assms by (simp add: scenario_valid_def distinct_map)
  note tables = tabulates_map [OF v(1) this] tabulates_map [OF v(2) this]
  have battery: "0 \<le> start_battery start" if "start \<in> set (scenario_drones scenario)" for start
    using v(5) [OF that] by (simp add: drone_valid_def bounded_members_def bound_defs)
  have "tabulates (fleet_drones (initial_fleet scenario)) start_drone (\<lambda>start. runtime_at scenario start 0) (set (scenario_drones scenario))"
    unfolding initial_fleet_def FleetState.select_convs
    by (rule tabulates_cong [OF tables(1)]) (simp add: runtime_at_def battery)
  with tables(2) show ?thesis
    by (simp add: fleet_at_def initial_fleet_def mission_at_def sector_at_def Sectors.INITIAL_STATE_def v(4))
qed

text \<open>The sectors once the search is open.\<close>

abbreviation opened_sector :: "FleetScenario \<Rightarrow> DroneStart \<Rightarrow> nat \<Rightarrow> SectorRuntime" where
  "opened_sector scenario start n \<equiv> \<lparr>sector_state = phase_at scenario start n, swept_ticks = swept_at scenario start n\<rparr>"

lemma open_the_search_at:
  assumes "scenario_valid scenario" "fleet_at scenario n state" "mission_at scenario n \<noteq> EXHAUSTED"
  shows "\<exists>opened. open_the_search state = Inr (SEARCHING, opened)
    \<and> tabulates opened start_sector (\<lambda>start. opened_sector scenario start n) (set (scenario_drones scenario))"
proof (cases "n = 0")
  case True
  note v = valid_facts [OF assms(1)]
  let ?S = "set (scenario_drones scenario)"
  from assms(2) True have table: "tabulates (fleet_sectors state) start_sector (\<lambda>start. sector_at scenario start 0) ?S"
    and planned: "fleet_mission state = PLANNED" by (auto simp: fleet_at_def mission_at_def)
  have entries: "snd kv = \<lparr>sector_state = UNASSIGNED, swept_ticks = 0\<rparr>" if "kv \<in> set (fleet_sectors state)" for kv
    using tabulates_entries [OF table, of "fst kv" "snd kv"] that v(4) by (auto simp: sector_at_def)
  let ?opened = "map (\<lambda>(sector, runtime). (sector, \<lparr>sector_state = ASSIGNED, swept_ticks = 0\<rparr>)) (fleet_sectors state)"
  have "mapE (\<lambda>(sector, runtime). bindE (move_sector runtime ASSIGN) (\<lambda>r. Inr (sector, r))) (fleet_sectors state) = Inr ?opened"
    by (rule mapE_all_Inr) (use entries in \<open>fastforce simp: move_sector_def split: prod.splits\<close>)
  then have "open_the_search state = Inr (SEARCHING, ?opened)" by (simp add: open_the_search_def planned)
  moreover have "tabulates ?opened start_sector (\<lambda>start. opened_sector scenario start 0) ?S"
  proof -
    have keys: "map fst ?opened = map fst (fleet_sectors state)" by (simp add: comp_def case_prod_beta)
    have "map_of ?opened (start_sector s) = Some (opened_sector scenario s 0)" if "s \<in> ?S" for s
    proof -
      from table that have "map_of (fleet_sectors state) (start_sector s) \<noteq> None" by (simp add: tabulates_def)
      then show ?thesis using v(4) by (auto simp: map_of_map phase_at_def)
    qed
    with table keys show ?thesis unfolding tabulates_def by (metis (no_types, lifting) list.set_map)
  qed
  ultimately show ?thesis using True by blast
next
  case False
  with assms(2,3) show ?thesis
    by (auto simp: open_the_search_def fleet_at_def mission_at_def sector_at_def split: if_splits)
qed

text \<open>What one tick does to one sector: the edge of the link, and the state it leads to before the sweep.\<close>

definition event_at :: "FleetScenario \<Rightarrow> DroneStart \<Rightarrow> nat \<Rightarrow> SectorEvent option" where
  "event_at scenario start n =
     sector_event (link_state (status_at scenario start n)) (link_state (status_at scenario start (Suc n))) (phase_at scenario start n)"

definition moved_at :: "FleetScenario \<Rightarrow> DroneStart \<Rightarrow> nat \<Rightarrow> SectorRuntime" where
  "moved_at scenario start n = \<lparr>sector_state = (if scenario_sweep scenario \<le> swept_at scenario start n then SEARCHED
     else if online scenario start (Suc n) then ASSIGNED else AT_RISK), swept_ticks = swept_at scenario start n\<rparr>"

lemma sector_moved:
  "case event_at scenario start n of None \<Rightarrow> moved_at scenario start n = opened_sector scenario start n
   | Some e \<Rightarrow> move_sector (opened_sector scenario start n) e = Inr (moved_at scenario start n)"
  by (auto simp: event_at_def moved_at_def sector_event_def phase_at_def online_def move_sector_def split: option.splits if_splits)

lemma sector_swept:
  assumes "1 \<le> scenario_sweep scenario"
  shows "swept_once scenario (moved_at scenario start n) (link_state (status_at scenario start (Suc n)) = OFFLINE)
    = opened_sector scenario start (Suc n)"
  using swept_at_step [OF assms, of start n]
  by (auto simp: moved_at_def swept_once_def phase_at_def online_def split: if_splits)

text \<open>The edges of the tick and its sweep, for all sectors; and what becomes of the mission.\<close>

lemma sectors_advance:
  assumes "scenario_valid scenario"
    and table: "tabulates opened start_sector (\<lambda>start. opened_sector scenario start n) (set (scenario_drones scenario))"
    and drones: "tabulates drones start_drone (\<lambda>s. runtime_at scenario s (Suc n)) (set (scenario_drones scenario))"
  shows "\<exists>moved swept. apply_events opened (events_of start_sector (\<lambda>s. event_at scenario s n) (ordered_drones scenario)) = Inr moved
    \<and> sweep scenario moved drones = Inr swept
    \<and> tabulates swept start_sector (\<lambda>s. opened_sector scenario s (Suc n)) (set (scenario_drones scenario))"
proof -
  let ?S = "set (scenario_drones scenario)" and ?os = "ordered_drones scenario"
  note v = valid_facts [OF assms(1)]
  have inj: "inj_on start_sector ?S" "set ?os \<subseteq> ?S" "distinct ?os" using v by simp_all
  from apply_events_each [OF table inj sector_moved] obtain moved
    where moved: "apply_events opened (events_of start_sector (\<lambda>s. event_at scenario s n) ?os) = Inr moved"
    and "tabulates moved start_sector (\<lambda>s. if s \<in> set ?os then moved_at scenario s n else opened_sector scenario s n) ?S" by blast
  from tabulates_cong [OF this(2), of "\<lambda>s. moved_at scenario s n"]
  have moved_table: "tabulates moved start_sector (\<lambda>s. moved_at scenario s n) ?S" by simp
  from sweep_each_all [OF moved_table inj tabulates_lookup [OF drones], where scenario = scenario]
  obtain swept where swept: "sweep_each scenario drones moved ?os = Inr swept"
    and "tabulates swept start_sector (\<lambda>s. if s \<in> set ?os then swept_once scenario (moved_at scenario s n)
      (link_state (connectivity (runtime_at scenario s (Suc n))) = OFFLINE) else moved_at scenario s n) ?S" by blast
  from tabulates_cong [OF this(2), of "\<lambda>s. opened_sector scenario s (Suc n)"] sector_swept [OF v(4)]
  have "tabulates swept start_sector (\<lambda>s. opened_sector scenario s (Suc n)) ?S" by (simp add: runtime_at_def)
  with moved swept show ?thesis by (auto simp: sweep_def)
qed

lemma mission_after_at:
  assumes "tabulates swept start_sector (\<lambda>s. opened_sector scenario s (Suc n)) (set (scenario_drones scenario))"
  shows "mission_after SEARCHING swept = Inr (mission_at scenario (Suc n))"
proof -
  have "(\<forall>runtime \<in> set (map snd swept). Sectors.is_terminal (sector_state runtime)) \<longleftrightarrow> all_swept scenario (Suc n)"
    unfolding set_map tabulates_values [OF assms] by (auto simp: all_swept_def phase_at_def split: if_splits)
  then show ?thesis by (simp add: mission_after_def mission_at_def)
qed

text \<open>A tick is refused only if some drone would leave the coordinate range; otherwise it reaches what is specified.\<close>

lemma advance_tick_at:
  assumes "scenario_valid scenario" "fleet_at scenario n state" "mission_at scenario n \<noteq> EXHAUSTED"
  shows "(\<exists>t. advance_tick scenario state = Inr t \<and> fleet_at scenario (Suc n) (tick_state t)
      \<and> tick_readings t = map (\<lambda>start. reading start (flight_at start (Suc n))) (ordered_drones scenario)
      \<and> (\<forall>start \<in> set (scenario_drones scenario). in_range start (Suc n)))
    \<or> (\<exists>start \<in> set (scenario_drones scenario). \<not> in_range start (Suc n)
         \<and> advance_tick scenario state = Inl (fleet_error.OUT_OF_RANGE (start_drone start)))"
proof -
  let ?S = "set (scenario_drones scenario)" and ?os = "ordered_drones scenario"
  note v = valid_facts [OF assms(1)]
  from open_the_search_at [OF assms] obtain opened where opened: "open_the_search state = Inr (SEARCHING, opened)"
    and table: "tabulates opened start_sector (\<lambda>start. opened_sector scenario start n) ?S" by blast
  from assms(2) have tick: "fleet_tick state = int n" and drones: "tabulates (fleet_drones state) start_drone (\<lambda>start. runtime_at scenario start n) ?S"
    and live: "\<not> Mission.is_terminal (fleet_mission state)" using assms(3) by (auto simp: fleet_at_def mission_at_def)
  have lookups: "subscript (fleet_drones state) (start_drone s) = Inr (runtime_at scenario s n)
      \<and> subscript opened (start_sector s) = Inr (opened_sector scenario s n)" if "s \<in> set ?os" for s
    using tabulates_lookup [OF drones] tabulates_lookup [OF table] that by simp
  have flies: "advance_drone (flight (runtime_at scenario s n)) s = (if in_range s (Suc n) then Inr (flight_at s (Suc n))
      else Inl (fleet_error.OUT_OF_RANGE (start_drone s)))" if "s \<in> set ?os" for s
    using flight_at_step v(5) that by (simp add: runtime_at_def)
  show ?thesis
  proof (cases "\<forall>start \<in> ?S. in_range start (Suc n)")
    case False
    then have "\<exists>s \<in> set ?os. \<exists>e. advance_drone (flight (runtime_at scenario s n)) s = Inl e" using flies by auto
    from step_each_fails [OF lookups this, where scenario = scenario] obtain s e where "s \<in> set ?os" "step_drones scenario state opened = Inl e"
      "advance_drone (flight (runtime_at scenario s n)) s = Inl e" by (auto simp: step_drones_def)
    with flies [of s] opened live show ?thesis
      by (intro disjI2 bexI [of _ s]) (auto simp: advance_tick_def split: if_splits)
  next
    case True
    then have flown: "advance_drone (flight (runtime_at scenario s n)) s = Inr (flight_at s (Suc n))" if "s \<in> set ?os" for s
      using flies that by simp
    let ?drones = "map (\<lambda>s. (start_drone s, runtime_at scenario s (Suc n))) ?os"
    let ?events = "events_of start_sector (\<lambda>s. event_at scenario s n) ?os"
    have stepped: "step_drones scenario state opened = Inr \<lparr>stepped_drones = ?drones,
        stepped_readings = map (\<lambda>s. reading s (flight_at s (Suc n))) ?os, stepped_events = ?events\<rparr>"
      using step_each_all [where starts = ?os and scenario = scenario, OF lookups flown]
      by (simp add: step_drones_def tick status_at_step runtime_at_def event_at_def)
    have drones_table: "tabulates ?drones start_drone (\<lambda>s. runtime_at scenario s (Suc n)) ?S"
      using tabulates_map [of start_drone ?os "\<lambda>s. runtime_at scenario s (Suc n)"] v by simp
    from sectors_advance [OF assms(1) table drones_table] obtain moved swept where
      moved: "apply_events opened ?events = Inr moved" and swept: "sweep scenario moved ?drones = Inr swept"
      and swept_table: "tabulates swept start_sector (\<lambda>s. opened_sector scenario s (Suc n)) ?S" by blast
    let ?t = "\<lparr>tick_state = \<lparr>fleet_tick = int n + 1, fleet_mission = mission_at scenario (Suc n), fleet_drones = ?drones, fleet_sectors = swept\<rparr>,
        tick_readings = map (\<lambda>s. reading s (flight_at s (Suc n))) ?os\<rparr>"
    have "advance_tick scenario state = Inr ?t"
      unfolding advance_tick_def using live
      by (simp add: opened stepped moved swept mission_after_at [OF swept_table] tick del: mission_terminal)
    moreover have "fleet_at scenario (Suc n) (tick_state ?t)"
      using swept_table drones_table by (simp add: fleet_at_def sector_at_def)
    ultimately show ?thesis using True by (intro disjI1 exI [of _ ?t]) simp
  qed
qed

section \<open>Runs\<close>

text \<open>The readings of the ticks of a run, and what may end it.\<close>

definition readings_at :: "FleetScenario \<Rightarrow> nat \<Rightarrow> Reading list" where
  "readings_at scenario n = map (\<lambda>start. reading start (flight_at start n)) (ordered_drones scenario)"

definition ends_at :: "FleetScenario \<Rightarrow> nat \<Rightarrow> fleet_error \<Rightarrow> bool" where
  "ends_at scenario n e \<longleftrightarrow> e = MISSION_ENDED EXHAUSTED \<and> mission_at scenario n = EXHAUSTED
     \<or> (\<exists>start \<in> set (scenario_drones scenario). \<not> in_range start (Suc n) \<and> e = fleet_error.OUT_OF_RANGE (start_drone start))"

lemma fleet_run_from:
  assumes "scenario_valid scenario" "fleet_at scenario m state" "fleet_run n scenario state = (final, readings, e)"
  shows "fleet_at scenario (m + length readings) final \<and> readings = map (\<lambda>j. readings_at scenario (Suc (m + j))) [0..<length readings]
    \<and> (\<forall>j < length readings. mission_at scenario (m + j) \<noteq> EXHAUSTED
         \<and> (\<forall>start \<in> set (scenario_drones scenario). in_range start (Suc (m + j))))
    \<and> (case e of None \<Rightarrow> length readings = n | Some error \<Rightarrow> ends_at scenario (m + length readings) error)"
  using assms(2,3)
proof (induction n arbitrary: m state readings)
  case (Suc n)
  show ?case
  proof (cases "mission_at scenario m = EXHAUSTED")
    case True
    with Suc.prems have "advance_tick scenario state = Inl (MISSION_ENDED EXHAUSTED)" by (simp add: advance_tick_def fleet_at_def)
    with Suc.prems True show ?thesis by (auto simp: ends_at_def)
  next
    case False
    from advance_tick_at [OF assms(1) Suc.prems(1) False] show ?thesis
    proof (elim disjE exE bexE conjE)
      fix start
      assume "start \<in> set (scenario_drones scenario)" "\<not> in_range start (Suc m)"
        "advance_tick scenario state = Inl (fleet_error.OUT_OF_RANGE (start_drone start))"
      with Suc.prems show ?thesis by (auto simp: ends_at_def)
    next
      fix t
      assume t: "advance_tick scenario state = Inr t" "fleet_at scenario (Suc m) (tick_state t)"
        "tick_readings t = map (\<lambda>start. reading start (flight_at start (Suc m))) (ordered_drones scenario)"
        "\<forall>start \<in> set (scenario_drones scenario). in_range start (Suc m)"
      from Suc.prems(2) t(1) obtain rest where rest: "fleet_run n scenario (tick_state t) = (final, rest, e)" "readings = tick_readings t # rest"
        by (auto split: prod.splits)
      note ih = Suc.IH [OF t(2) rest(1)]
      have "map (\<lambda>j. readings_at scenario (Suc (m + j))) [0..<Suc (length rest)]
          = readings_at scenario (Suc m) # map (\<lambda>j. readings_at scenario (Suc (Suc m + j))) [0..<length rest]"
        by (simp add: upt_conv_Cons map_Suc_upt [symmetric] comp_def del: upt_Suc)
      moreover have "\<forall>j < length readings. mission_at scenario (m + j) \<noteq> EXHAUSTED
          \<and> (\<forall>start \<in> set (scenario_drones scenario). in_range start (Suc (m + j)))"
        using ih False rest(2) t(4) by (auto simp: less_Suc_eq_0_disj)
      ultimately show ?thesis using ih rest(2) t(3) by (auto simp: readings_at_def split: option.splits)
    qed
  qed
qed simp

section \<open>Liveness\<close>

text \<open>The first tick from which no heartbeat is absent any more.\<close>

definition quiet_from :: "FleetScenario \<Rightarrow> nat" where
  "quiet_from scenario = fold (\<lambda>t n. max (nat (t + 1)) n) (concat (map snd (scenario_absent scenario))) 0"

lemma fold_max_ge: "n \<le> fold (\<lambda>t n. max (nat (t + 1)) n) ts n" for ts :: "int list"
proof (induction ts arbitrary: n)
  case (Cons t ts)
  from Cons [of "max (nat (t + 1)) n"] show ?case by simp
qed simp

lemma fold_max_member: "t \<in> set ts \<Longrightarrow> nat (t + 1) \<le> fold (\<lambda>t n. max (nat (t + 1)) n) ts n" for ts :: "int list"
proof (induction ts arbitrary: n)
  case (Cons u ts)
  then show ?case using fold_max_ge [of "max (nat (u + 1)) n" ts] by auto
qed simp

lemma heard_when_quiet:
  assumes "quiet_from scenario \<le> k"
  shows "heard scenario start k"
proof (rule ccontr)
  assume "\<not> heard scenario start k"
  then obtain ticks where "map_of (scenario_absent scenario) (start_drone start) = Some ticks" "int k \<in> set ticks"
    by (cases "map_of (scenario_absent scenario) (start_drone start)") (auto simp: heard_def absent_ticks_def)
  then have "(start_drone start, ticks) \<in> set (scenario_absent scenario)" "int k \<in> set ticks" by (auto dest: map_of_SomeD)
  then have "int k \<in> set (concat (map snd (scenario_absent scenario)))" by force
  from fold_max_member [OF this, of 0] assms show False by (simp add: quiet_from_def)
qed

lemma heartbeats_count:
  assumes "\<And>k. m \<le> k \<Longrightarrow> heard scenario start k"
  shows "int j \<le> consecutive_heartbeats (status_at scenario start (m + j))"
proof -
  have step: "status_at scenario start (Suc n) = observe (scenario_thresholds scenario) (heard scenario start n) (status_at scenario start n)" for n
    by (simp add: status_at_def status_after_def)
  have nonneg: "0 \<le> consecutive_heartbeats (status_at scenario start n)" for n
    by (induction n) (auto simp: step observe_def heartbeat_received_def heartbeat_missed_def Let_def INITIAL_STATUS_def)
  show ?thesis using assms by (induction j) (auto simp: nonneg step observe_def heartbeat_received_def Let_def)
qed

lemma online_when_recovered:
  assumes "\<And>k. m \<le> k \<Longrightarrow> heard scenario start k" "check_thresholds (scenario_thresholds scenario) = Inr ()"
    and "m + nat (heartbeats_to_recover (scenario_thresholds scenario)) \<le> n"
  shows "online scenario start n"
proof -
  let ?h = "heartbeats_to_recover (scenario_thresholds scenario)"
  have pos: "1 \<le> ?h" using assms(2) by (simp add: check_thresholds_def MINIMUM_COUNT_def split: if_splits)
  define j where "j = n - Suc m"
  from pos assms(3) have n: "n = Suc (m + j)" and recovered: "?h \<le> int j + 1" unfolding j_def by linarith+
  have "status_at scenario start n = heartbeat_received (status_at scenario start (m + j)) (scenario_thresholds scenario)"
    using assms(1) [of "m + j"] by (simp add: n status_at_def status_after_def observe_def)
  moreover have "?h \<le> consecutive_heartbeats (status_at scenario start (m + j)) + 1"
    using heartbeats_count [OF assms(1), of m j] recovered by simp
  ultimately show ?thesis by (simp add: online_def heartbeat_received_def Let_def)
qed

lemma swept_eventually:
  assumes "scenario_valid scenario"
    and "quiet_from scenario + nat (heartbeats_to_recover (scenario_thresholds scenario)) + nat (scenario_sweep scenario) \<le> n"
  shows "all_swept scenario n"
  unfolding all_swept_def
proof
  fix start
  let ?m = "quiet_from scenario + nat (heartbeats_to_recover (scenario_thresholds scenario))"
  have thresholds: "check_thresholds (scenario_thresholds scenario) = Inr ()" using assms(1) by (simp add: scenario_valid_def)
  have "online scenario start (Suc k)" if "?m \<le> k" for k
    by (rule online_when_recovered [OF heard_when_quiet thresholds, of "quiet_from scenario"]) (use that in \<open>simp_all add: le_Suc_eq\<close>)
  then have "set [?m..<n] \<subseteq> set (filter (\<lambda>k. online scenario start (Suc k)) [0..<n])" by auto
  then have "card (set [?m..<n]) \<le> card (set (filter (\<lambda>k. online scenario start (Suc k)) [0..<n]))" by (intro card_mono) auto
  then have "n - ?m \<le> length (filter (\<lambda>k. online scenario start (Suc k)) [0..<n])" by (metis card_length card_atLeastLessThan order_trans set_upt)
  with assms(2) show "scenario_sweep scenario \<le> swept_at scenario start n" by (simp add: swept_at_def)
qed

section \<open>A pair of drones\<close>

text \<open>Two drones, one of which misses its first two heartbeats, goes offline and recovers; the mission is exhausted after three ticks.\<close>

definition pair_start :: "string \<Rightarrow> string \<Rightarrow> int \<Rightarrow> DroneStart" where
  "pair_start drone sector east =
     \<lparr>start_drone = lit drone, start_sector = lit sector, start_latitude = 40000000, start_longitude = - 105000000, start_altitude = 120,
      start_heading = 90, start_speed = 800, start_battery = 1000, start_north = 0, start_east = east, start_drain = 4\<rparr>"

definition pair_scenario :: FleetScenario where
  "pair_scenario =
     \<lparr>scenario_mission = lit ''mission-1'',
      scenario_drones = [pair_start ''drone-b'' ''sector-a'' 90, pair_start ''drone-a'' ''sector-b'' 80],
      scenario_interval = 1000,
      scenario_thresholds = \<lparr>misses_to_degraded = 1, misses_to_offline = 2, heartbeats_to_recover = 1\<rparr>,
      scenario_sweep = 2, scenario_absent = [(lit ''drone-a'', [1, 0])]\<rparr>"

lemma pair_valid: "scenario_valid pair_scenario"
  unfolding scenario_valid_iff by code_simp

lemma pair_run:
  obtains final readings where "fleet_run 9 pair_scenario (initial_fleet pair_scenario) = (final, readings, Some (MISSION_ENDED EXHAUSTED))"
    and "fleet_mission final = EXHAUSTED" "length readings = 3"
proof -
  have "map_prod fleet_mission (map_prod length id) (fleet_run 9 pair_scenario (initial_fleet pair_scenario))
      = (EXHAUSTED, 3, Some (MISSION_ENDED EXHAUSTED))" by code_simp
  with that show thesis by (cases "fleet_run 9 pair_scenario (initial_fleet pair_scenario)") auto
qed

lemma pair_quiet: "quiet_from pair_scenario = 2"
  by code_simp

section \<open>Properties\<close>

text \<open>C16. The fold computes the specification, tick by tick and drone by drone. However long an accepted scenario is run, after the ticks
  that were folded every drone is where its leg took it, with the battery that its drain left, and with the link that its own history
  of heartbeats gives; every sector is searched exactly if its drone was reachable for enough ticks, at risk exactly if the
  drone is offline before that; the mission is exhausted exactly if every sector is searched. The readings of each tick are
  one for each drone in the order of the identifiers. A run stops early only because the mission is exhausted or a drone would
  leave the coordinate range: no machine of the domain ever refuses an edge, and no key is ever missing.\<close>

theorem fleet_run_specified:
  assumes "scenario_valid scenario" "fleet_run n scenario (initial_fleet scenario) = (final, readings, e)"
  shows "fleet_at scenario (length readings) final
    \<and> readings = map (\<lambda>j. readings_at scenario (Suc j)) [0..<length readings]
    \<and> (\<forall>j < length readings. mission_at scenario j \<noteq> EXHAUSTED \<and> (\<forall>start \<in> set (scenario_drones scenario). in_range start (Suc j)))
    \<and> (case e of None \<Rightarrow> length readings = n | Some error \<Rightarrow> ends_at scenario (length readings) error)"
  using fleet_run_from [OF assms(1) initial_fleet_at [OF assms(1)] assms(2), unfolded add_0] .

theorem fleet_run_specified_witness:
  "\<exists>final readings. fleet_run 9 pair_scenario (initial_fleet pair_scenario) = (final, readings, Some (MISSION_ENDED EXHAUSTED))
     \<and> fleet_at pair_scenario 3 final \<and> readings = map (\<lambda>j. readings_at pair_scenario (Suc j)) [0..<3]"
proof -
  obtain final readings where run: "fleet_run 9 pair_scenario (initial_fleet pair_scenario) = (final, readings, Some (MISSION_ENDED EXHAUSTED))"
    and "length readings = 3" by (rule pair_run)
  with fleet_run_specified [OF pair_valid run] show ?thesis by metis
qed

text \<open>C18. A mission always ends. Any accepted scenario, run for one tick more than the ticks until its last absent heartbeat, the heartbeats a
  link needs to recover and the ticks a sweep needs, has stopped: because every sector is searched, or because a drone that was
  told to would have left the coordinate range.\<close>

theorem fleet_mission_ends:
  assumes "scenario_valid scenario"
    and "quiet_from scenario + nat (heartbeats_to_recover (scenario_thresholds scenario)) + nat (scenario_sweep scenario) < n"
  shows "\<exists>final readings error. fleet_run n scenario (initial_fleet scenario) = (final, readings, Some error)
    \<and> length readings < n \<and> (fleet_mission final = EXHAUSTED \<and> error = MISSION_ENDED EXHAUSTED
         \<and> (\<forall>(sector, runtime) \<in> set (fleet_sectors final). sector_state runtime = SEARCHED)
       \<or> (\<exists>start \<in> set (scenario_drones scenario). error = fleet_error.OUT_OF_RANGE (start_drone start)))"
proof -
  let ?m = "quiet_from scenario + nat (heartbeats_to_recover (scenario_thresholds scenario)) + nat (scenario_sweep scenario)"
  obtain final readings e where run: "fleet_run n scenario (initial_fleet scenario) = (final, readings, e)" by (metis prod_cases3)
  note r = fleet_run_from [OF assms(1) initial_fleet_at [OF assms(1)] run, unfolded add_0]
  have "1 \<le> scenario_sweep scenario" using assms(1) by (simp add: scenario_valid_def)
  then have "mission_at scenario ?m = EXHAUSTED" using swept_eventually [OF assms(1), of ?m] by (simp add: mission_at_def)
  with r have short: "length readings \<le> ?m" by (metis not_le)
  with r assms(2) obtain error where error: "e = Some error" "ends_at scenario (length readings) error" by (cases e) auto
  have "sector_state runtime = SEARCHED" if "mission_at scenario (length readings) = EXHAUSTED" "(sector, runtime) \<in> set (fleet_sectors final)"
    for sector runtime
  proof -
    from r have "tabulates (fleet_sectors final) start_sector (\<lambda>start. sector_at scenario start (length readings)) (set (scenario_drones scenario))"
      by (simp add: fleet_at_def)
    from tabulates_entries [OF this that(2)] that(1) show ?thesis
      by (auto simp: sector_at_def mission_at_def all_swept_def phase_at_def split: if_splits)
  qed
  with error r run short assms(2) show ?thesis by (fastforce simp: ends_at_def fleet_at_def)
qed

theorem fleet_mission_ends_witness:
  "\<exists>final readings error. fleet_run 6 pair_scenario (initial_fleet pair_scenario) = (final, readings, Some error) \<and> length readings < 6"
  using fleet_mission_ends [OF pair_valid, of 6] by (auto simp: pair_quiet) (auto simp: pair_scenario_def)

end
