(* ===== verification/Reports.thy ===== *)
theory Reports
  imports Fleet Exchange Commands
begin

text \<open>
  \<open>services/fleet_simulator/src/aerial_rescue_fleet_simulator\<close>: the sources of \<open>__init__.py\<close>, \<open>telemetry.py\<close>, \<open>results.py\<close> and \<open>lifecycle.py\<close>. What a
  drone reports becomes a record that is read back through the contracts before it is published; the stamp of a record is
  an argument. The port of the lifecycle events is the list of calls that a tick makes on it.
\<close>

section \<open>Sources\<close>

definition URN_SCHEME :: pystr where
  "URN_SCHEME = lit ''urn''"

definition PRODUCER_KIND :: pystr where
  "PRODUCER_KIND = lit ''drone''"

definition RUN_PRODUCER_KIND :: pystr where
  "RUN_PRODUCER_KIND = lit ''drone-run''"

definition drone_event_source :: "pystr \<Rightarrow> pystr" where
  "drone_event_source drone = join_with 58 [URN_SCHEME, TOPIC_NAMESPACE_ROOT, PRODUCER_KIND, drone]"

text \<open>The mission and the drone are validated identifiers, so that encoding them as ASCII is the identity.\<close>

definition run_event_source :: "pystr \<Rightarrow> pystr \<Rightarrow> pystr" where
  "run_event_source drone mission =
     join_with 58 [URN_SCHEME, TOPIC_NAMESPACE_ROOT, RUN_PRODUCER_KIND,
       sha256_hexdigest (lit ''aerial-rescue:drone-run:v1'' @ [0] @ mission @ [0] @ drone)]"

section \<open>Records\<close>

record TelemetryStamp =
  tel_event :: pystr
  tel_occurred_at :: pystr
  tel_sequence :: int
  tel_correlation :: pystr
  tel_traceparent :: pystr

record ResultStamp = TelemetryStamp +
  result_causation :: pystr

text \<open>The refusals of the three modules, without the text that an unpublishable record carries, and what they let through.\<close>

datatype report_error =
    UNREPORTABLE_STATE CommandState
  | SEQUENCE_RANGE int
  | UNPUBLISHABLE
  | ReportTopic topic_error
  | ReportUnbound envelope_error
  | ReportKey envelope_error
  | ReportBytes CanonicalizationError
  | ReportDigest digest_error

text \<open>What the three builders share: the document under its stamp, read back through the profile and the binding.\<close>

definition report_document ::
    "(pystr \<Rightarrow> pystr) \<Rightarrow> Topic \<Rightarrow> pystr \<Rightarrow> TelemetryStamp \<Rightarrow> pystr option \<Rightarrow> members \<Rightarrow> report_error + members \<times> Envelope" where
  "report_document nfc topic src stamp cause content =
     (case sequence_text (tel_sequence stamp) of
        None \<Rightarrow> Inl (SEQUENCE_RANGE (tel_sequence stamp))
      | Some rendered \<Rightarrow>
          bindE (map_sum ReportTopic id (event_type topic)) (\<lambda>declared.
          bindE (map_sum ReportUnbound id (binding_for declared)) (\<lambda>bd.
            let document = envelope_document
                  \<lparr>envelope_id = tel_event stamp, source = src, envelope_type = declared, subject = mission_id topic,
                   time = tel_occurred_at stamp, dataschema = bound_dataschema bd, sequence = rendered,
                   correlation_id = tel_correlation stamp, traceparent = tel_traceparent stamp, data = content,
                   causation_id = cause, tracestate = None\<rparr>
            in case bindE (parse_envelope nfc (PDict document)) (\<lambda>e. bindE (check_topic_binding e topic) (\<lambda>_. Inr e)) of
                 Inl error \<Rightarrow> Inl (if is_value_error error then UNPUBLISHABLE else ReportKey error)
               | Inr e \<Rightarrow> Inr (document, e))))"

definition telemetry_payload :: "pystr \<Rightarrow> Reading \<Rightarrow> members" where
  "telemetry_payload mission r =
     obj [(''missionId'', PStr mission), (''droneId'', PStr (reading_drone r)),
          (''latitudeMicrodegrees'', PInt (reading_latitude r)), (''longitudeMicrodegrees'', PInt (reading_longitude r)),
          (''batteryPercent'', PInt (reading_battery r)), (''altitudeMetres'', PInt (reading_altitude r)),
          (''headingDegrees'', PInt (reading_heading r)), (''groundSpeedCentimetresPerSecond'', PInt (reading_speed r))]"

definition telemetry_topic :: "pystr \<Rightarrow> pystr \<Rightarrow> Topic" where
  "telemetry_topic mission drone =
     \<lparr>family = DRONE_TELEMETRY, mission_id = mission, topic_parameters = [(lit ''droneId'', drone)]\<rparr>"

text \<open>\<open>producer_source or event_source(drone)\<close>: an empty source counts as none.\<close>

definition telemetry_record ::
    "(pystr \<Rightarrow> pystr) \<Rightarrow> pystr \<Rightarrow> Reading \<Rightarrow> TelemetryStamp \<Rightarrow> pystr option \<Rightarrow> report_error + pystr \<times> members" where
  "telemetry_record nfc mission r stamp producer_source =
     (let topic = telemetry_topic mission (reading_drone r);
          src = (case producer_source of None \<Rightarrow> drone_event_source (reading_drone r)
                 | Some s \<Rightarrow> if s = [] then drone_event_source (reading_drone r) else s)
      in bindE (report_document nfc topic src stamp None (telemetry_payload mission r)) (\<lambda>(document, e).
         bindE (map_sum ReportTopic id (format_topic topic)) (\<lambda>text. Inr (text, document))))"

fun OUTCOMES :: "CommandState \<Rightarrow> pystr option" where
  "OUTCOMES ACKNOWLEDGED = Some (lit ''acknowledged'')"
| "OUTCOMES SUCCEEDED = Some (lit ''succeeded'')"
| "OUTCOMES FAILED = Some (lit ''failed'')"
| "OUTCOMES x = None"

definition result_topic :: "pystr \<Rightarrow> pystr \<Rightarrow> pystr \<Rightarrow> Topic" where
  "result_topic mission drone command =
     \<lparr>family = DRONE_COMMAND_RESULT, mission_id = mission, topic_parameters = [(lit ''droneId'', drone), (lit ''commandId'', command)]\<rparr>"

definition result_record ::
    "(pystr \<Rightarrow> pystr) \<Rightarrow> pystr \<Rightarrow> pystr \<Rightarrow> pystr \<Rightarrow> CommandState \<Rightarrow> ResultStamp \<Rightarrow> report_error + pystr \<times> members" where
  "result_record nfc mission drone command reached stamp =
     (case OUTCOMES reached of
        None \<Rightarrow> Inl (UNREPORTABLE_STATE reached)
      | Some word \<Rightarrow>
          let topic = result_topic mission drone command
          in bindE (report_document nfc topic (drone_event_source drone) (TelemetryStamp.truncate stamp) (Some (result_causation stamp))
                (obj [(''missionId'', PStr mission), (''droneId'', PStr drone), (''commandId'', PStr command), (''outcome'', PStr word)]))
               (\<lambda>(document, e). bindE (map_sum ReportTopic id (format_topic topic)) (\<lambda>text. Inr (text, document))))"

section \<open>Lifecycle records\<close>

definition CONNECTIVITY_PRODUCER :: pystr where
  "CONNECTIVITY_PRODUCER = lit ''connectivity-lifecycle''"

definition SECTOR_PRODUCER :: pystr where
  "SECTOR_PRODUCER = lit ''sector-lifecycle''"

definition SALIENT_PRODUCER :: pystr where
  "SALIENT_PRODUCER = lit ''salient''"

definition SOURCE_DIGEST_PROPERTY :: pystr where
  "SOURCE_DIGEST_PROPERTY = lit ''aerial-rescue-source-event-digest''"

definition SALIENT_OBSERVATION :: pystr where
  "SALIENT_OBSERVATION = lit ''artifact-sighting''"

record SalientObservation =
  observation_kind :: pystr
  observation_latitude :: int
  observation_longitude :: int
  observation_detail :: pystr

definition lifecycle_source :: "pystr \<Rightarrow> pystr \<Rightarrow> pystr" where
  "lifecycle_source producer producer_id = lit ''urn:aerial-rescue:'' @ producer @ lit '':'' @ producer_id"

definition lifecycle_record ::
    "(pystr \<Rightarrow> pystr) \<Rightarrow> Topic \<Rightarrow> pystr \<Rightarrow> TelemetryStamp \<Rightarrow> members \<Rightarrow> report_error + pystr \<times> nat list \<times> Envelope" where
  "lifecycle_record nfc topic src stamp content =
     bindE (report_document nfc topic src stamp None content) (\<lambda>(document, e).
     bindE (map_sum ReportTopic id (format_topic topic)) (\<lambda>text.
     bindE (map_sum ReportBytes id (canonical_bytes nfc (PDict document))) (\<lambda>b. Inr (text, b, e))))"

fun connectivity_name :: "ConnectivityState \<Rightarrow> pystr" where
  "connectivity_name CONNECTED = lit ''CONNECTED''"
| "connectivity_name DEGRADED = lit ''DEGRADED''"
| "connectivity_name OFFLINE = lit ''OFFLINE''"

fun sector_name :: "SectorState \<Rightarrow> pystr" where
  "sector_name UNASSIGNED = lit ''UNASSIGNED''"
| "sector_name ASSIGNED = lit ''ASSIGNED''"
| "sector_name AT_RISK = lit ''AT_RISK''"
| "sector_name SEARCHED = lit ''SEARCHED''"

definition drone_event_topic :: "pystr \<Rightarrow> pystr \<Rightarrow> pystr \<Rightarrow> Topic" where
  "drone_event_topic mission drone kind =
     \<lparr>family = DRONE_EVENT, mission_id = mission, topic_parameters = [(lit ''droneId'', drone), (lit ''eventType'', kind)]\<rparr>"

definition sector_event_topic :: "pystr \<Rightarrow> pystr \<Rightarrow> Topic" where
  "sector_event_topic mission sector =
     \<lparr>family = SECTOR_EVENT, mission_id = mission, topic_parameters = [(lit ''sectorId'', sector), (lit ''eventType'', lit ''lifecycle'')]\<rparr>"

text \<open>What the publisher is given: the topic, the bytes and the user properties.\<close>

definition connectivity_changed ::
    "(pystr \<Rightarrow> pystr) \<Rightarrow> pystr \<Rightarrow> TelemetryStamp \<Rightarrow> pystr \<Rightarrow> pystr \<Rightarrow> ConnectivityState \<Rightarrow> report_error + pystr \<times> nat list \<times> members" where
  "connectivity_changed nfc producer_id stamp mission drone reached =
     bindE (lifecycle_record nfc (drone_event_topic mission drone (lit ''connectivity-changed''))
              (lifecycle_source CONNECTIVITY_PRODUCER producer_id) stamp
              (obj [(''missionId'', PStr mission), (''droneId'', PStr drone), (''connectivity'', PStr (connectivity_name reached))]))
       (\<lambda>(text, b, e). Inr (text, b, []))"

definition sector_changed ::
    "(pystr \<Rightarrow> pystr) \<Rightarrow> pystr \<Rightarrow> TelemetryStamp \<Rightarrow> pystr \<Rightarrow> pystr \<Rightarrow> pystr \<Rightarrow> SectorState \<Rightarrow> report_error + pystr \<times> nat list \<times> members" where
  "sector_changed nfc producer_id stamp mission sector holder reached =
     bindE (lifecycle_record nfc (sector_event_topic mission sector) (lifecycle_source SECTOR_PRODUCER producer_id) stamp
              (obj [(''missionId'', PStr mission), (''sectorId'', PStr sector), (''state'', PStr (sector_name reached)),
                    (''assignedMemberId'', PStr holder)]))
       (\<lambda>(text, b, e). Inr (text, b, []))"

definition salient_payload :: "pystr \<Rightarrow> pystr \<Rightarrow> SalientObservation \<Rightarrow> members" where
  "salient_payload mission drone observed =
     obj [(''missionId'', PStr mission), (''droneId'', PStr drone), (''observation'', PStr (observation_kind observed)),
          (''latitudeMicrodegrees'', PInt (observation_latitude observed)),
          (''longitudeMicrodegrees'', PInt (observation_longitude observed)), (''detail'', PStr (observation_detail observed))]"

definition salient_observed ::
    "(pystr \<Rightarrow> pystr) \<Rightarrow> TelemetryStamp \<Rightarrow> pystr \<Rightarrow> pystr \<Rightarrow> SalientObservation \<Rightarrow> report_error + pystr \<times> nat list \<times> members" where
  "salient_observed nfc stamp mission drone observed =
     bindE (lifecycle_record nfc (drone_event_topic mission drone (lit ''salient'')) (drone_event_source drone) stamp
              (salient_payload mission drone observed)) (\<lambda>(text, b, e).
     bindE (map_sum ReportDigest id (source_event_digest nfc e)) (\<lambda>h. Inr (text, b, [(KStr SOURCE_DIGEST_PROPERTY, PStr h)])))"

section \<open>The edges of a tick\<close>

text \<open>The calls on the lifecycle port; the mission is the scenario's in each. A missing key, which no run meets, is the error.\<close>

datatype lifecycle_call =
    ConnectivityChanged pystr ConnectivityState
  | SectorChanged pystr pystr SectorState
  | SalientObserved pystr SalientObservation

text \<open>\<open>sorted(absent_heartbeats)\<close> or the holder of the smallest sector, the first of equal ones; the roster is not empty.\<close>

definition salient_observer :: "FleetScenario \<Rightarrow> pystr" where
  "salient_observer scenario =
     (case sort (map fst (scenario_absent scenario)) of
        drone # rest \<Rightarrow> drone
      | [] \<Rightarrow> start_drone (hd (sort_key start_sector (scenario_drones scenario))))"

definition sighting :: "DroneState \<Rightarrow> pystr \<Rightarrow> SalientObservation" where
  "sighting position sector = \<lparr>observation_kind = SALIENT_OBSERVATION, observation_latitude = at_latitude position,
     observation_longitude = at_longitude position,
     observation_detail = lit ''A high-visibility artifact held across the sweep of '' @ sector @ lit ''.''\<rparr>"

definition connectivity_edge :: "FleetState \<Rightarrow> FleetState \<Rightarrow> DroneStart \<Rightarrow> fleet_error + lifecycle_call list" where
  "connectivity_edge before after start =
     bindE (subscript (fleet_drones before) (start_drone start)) (\<lambda>was.
     bindE (subscript (fleet_drones after) (start_drone start)) (\<lambda>now.
       Inr (if link_state (connectivity now) \<noteq> link_state (connectivity was)
            then [ConnectivityChanged (start_drone start) (link_state (connectivity now))] else [])))"

definition sector_edge :: "FleetScenario \<Rightarrow> FleetState \<Rightarrow> FleetState \<Rightarrow> pystr \<Rightarrow> fleet_error + lifecycle_call list" where
  "sector_edge scenario before after sector =
     (let holder_by_sector = rev (map (\<lambda>drone. (start_sector drone, start_drone drone)) (scenario_drones scenario));
          observer = salient_observer scenario
      in bindE (subscript (fleet_sectors before) sector) (\<lambda>was.
         bindE (subscript (fleet_sectors after) sector) (\<lambda>now.
           if sector_state now = sector_state was then Inr []
           else bindE (subscript holder_by_sector sector) (\<lambda>holder.
             if sector_state now = SEARCHED \<and> holder = observer
             then bindE (subscript (fleet_drones after) observer) (\<lambda>drone.
                    Inr [SectorChanged sector holder (sector_state now), SalientObserved observer (sighting (flight drone) sector)])
             else Inr [SectorChanged sector holder (sector_state now)]))))"

definition publish_transitions :: "FleetScenario \<Rightarrow> FleetState \<Rightarrow> FleetState \<Rightarrow> fleet_error + lifecycle_call list" where
  "publish_transitions scenario before after =
     bindE (mapE (connectivity_edge before after) (ordered_drones scenario)) (\<lambda>links.
     bindE (mapE (sector_edge scenario before after) (sort (map fst (fleet_sectors after)))) (\<lambda>sectors.
       Inr (concat links @ concat sectors)))"

text \<open>A run that announces, as the loop of the service does: ticks and the edges of each until a tick is refused, at most so many.\<close>

fun fleet_announced :: "nat \<Rightarrow> FleetScenario \<Rightarrow> FleetState \<Rightarrow> fleet_error + lifecycle_call list" where
  "fleet_announced 0 scenario before = Inr []"
| "fleet_announced (Suc n) scenario before =
     (case advance_tick scenario before of
        Inl error \<Rightarrow> Inr []
      | Inr t \<Rightarrow> bindE (publish_transitions scenario before (tick_state t)) (\<lambda>calls.
                 bindE (fleet_announced n scenario (tick_state t)) (\<lambda>rest. Inr (calls @ rest))))"

section \<open>What a tick announces\<close>

text \<open>Sector by sector: the change, and the sighting with it when the sector of the observer is searched.\<close>

definition sector_calls :: "FleetScenario \<Rightarrow> nat \<Rightarrow> DroneStart \<Rightarrow> lifecycle_call list" where
  "sector_calls scenario n start =
     (let was = sector_state (sector_at scenario start n); now = sector_state (sector_at scenario start (Suc n))
      in if now = was then []
         else SectorChanged (start_sector start) (start_drone start) now
              # (if now = SEARCHED \<and> start_drone start = salient_observer scenario
                 then [SalientObserved (start_drone start) (sighting (flight_at start (Suc n)) (start_sector start))] else []))"

definition link_calls :: "FleetScenario \<Rightarrow> nat \<Rightarrow> DroneStart \<Rightarrow> lifecycle_call list" where
  "link_calls scenario n start =
     (let was = link_state (status_at scenario start n); now = link_state (status_at scenario start (Suc n))
      in if now = was then [] else [ConnectivityChanged (start_drone start) now])"

lemma connectivity_edge_at:
  assumes "fleet_at scenario n before" "fleet_at scenario (Suc n) after" "start \<in> set (scenario_drones scenario)"
  shows "connectivity_edge before after start = Inr (link_calls scenario n start)"
proof -
  have "subscript (fleet_drones before) (start_drone start) = Inr (runtime_at scenario start n)"
    "subscript (fleet_drones after) (start_drone start) = Inr (runtime_at scenario start (Suc n))"
    using assms tabulates_lookup unfolding fleet_at_def by fast+
  then show ?thesis by (simp add: connectivity_edge_def link_calls_def runtime_at_def Let_def)
qed

lemma sector_edge_at:
  assumes "scenario_valid scenario" "fleet_at scenario n before" "fleet_at scenario (Suc n) after" "start \<in> set (scenario_drones scenario)"
  shows "sector_edge scenario before after (start_sector start) = Inr (sector_calls scenario n start)"
proof -
  have "subscript (fleet_sectors before) (start_sector start) = Inr (sector_at scenario start n)"
    "subscript (fleet_sectors after) (start_sector start) = Inr (sector_at scenario start (Suc n))"
    "subscript (fleet_drones after) (start_drone start) = Inr (runtime_at scenario start (Suc n))"
    using assms tabulates_lookup unfolding fleet_at_def by fast+
  moreover have "map_of (rev (map (\<lambda>drone. (start_sector drone, start_drone drone)) (scenario_drones scenario))) (start_sector start)
      = Some (start_drone start)"
    using assms(1,4) by (intro map_of_is_SomeI) (auto simp: scenario_valid_def comp_def rev_map [symmetric])
  ultimately show ?thesis
    by (cases "start_drone start = salient_observer scenario")
      (simp_all add: sector_edge_def sector_calls_def runtime_at_def subscript_def [of "rev _"] Let_def)
qed

text \<open>The sectors in the order of their identifiers, each by its holder.\<close>

definition by_sector :: "FleetScenario \<Rightarrow> DroneStart list" where
  "by_sector scenario = sort_key start_sector (scenario_drones scenario)"

lemma sectors_sorted:
  assumes "scenario_valid scenario" "fleet_at scenario n fleet"
  shows "sort (map fst (fleet_sectors fleet)) = map start_sector (by_sector scenario)"
proof (rule sorted_distinct_set_unique)
  show "set (sort (map fst (fleet_sectors fleet))) = set (map start_sector (by_sector scenario))"
    using assms(2) by (simp add: fleet_at_def tabulates_def by_sector_def)
qed (use assms in \<open>auto simp: by_sector_def fleet_at_def tabulates_def scenario_valid_def distinct_map\<close>)

lemma publish_transitions_at:
  assumes "scenario_valid scenario" "fleet_at scenario n before" "fleet_at scenario (Suc n) after"
  shows "publish_transitions scenario before after
    = Inr (concat (map (link_calls scenario n) (ordered_drones scenario)) @ concat (map (sector_calls scenario n) (by_sector scenario)))"
proof -
  have "mapE (connectivity_edge before after) (ordered_drones scenario) = Inr (map (link_calls scenario n) (ordered_drones scenario))"
    using connectivity_edge_at [OF assms(2,3)] by (intro mapE_all_Inr) simp
  moreover have "mapE (\<lambda>start. sector_edge scenario before after (start_sector start)) (by_sector scenario)
      = Inr (map (sector_calls scenario n) (by_sector scenario))"
    using sector_edge_at [OF assms] by (intro mapE_all_Inr) (simp add: by_sector_def)
  moreover have "mapE f (map g xs) = mapE (\<lambda>x. f (g x)) xs" for f :: "pystr \<Rightarrow> fleet_error + lifecycle_call list" and g :: "DroneStart \<Rightarrow> pystr" and xs
    by (induction xs) auto
  ultimately show ?thesis by (simp add: publish_transitions_def sectors_sorted [OF assms(1,3)])
qed


text \<open>All that a tick announces.\<close>

definition tick_calls :: "FleetScenario \<Rightarrow> nat \<Rightarrow> lifecycle_call list" where
  "tick_calls scenario n =
     concat (map (link_calls scenario n) (ordered_drones scenario)) @ concat (map (sector_calls scenario n) (by_sector scenario))"

lemma fleet_announced_from:
  assumes "scenario_valid scenario" "fleet_at scenario m before" "fleet_run n scenario before = (final, readings, e)"
  shows "fleet_announced n scenario before = Inr (concat (map (tick_calls scenario) [m..<m + length readings]))"
  using assms(2,3)
proof (induction n arbitrary: m before readings)
  case (Suc n)
  show ?case
  proof (cases "advance_tick scenario before")
    case (Inl error)
    with Suc.prems show ?thesis by simp
  next
    case (Inr t)
    with Suc.prems(1) have "mission_at scenario m \<noteq> EXHAUSTED" by (auto simp: fleet_at_def advance_tick_def)
    from advance_tick_at [OF assms(1) Suc.prems(1) this] Inr have at: "fleet_at scenario (Suc m) (tick_state t)" by auto
    from Suc.prems(2) Inr obtain rest where rest: "fleet_run n scenario (tick_state t) = (final, rest, e)" "readings = tick_readings t # rest"
      by (auto split: prod.splits)
    show ?thesis
      using Suc.IH [OF at rest(1)] publish_transitions_at [OF assms(1) Suc.prems(1) at] Inr rest(2)
      by (simp add: tick_calls_def upt_conv_Cons del: upt_Suc)
  qed
qed simp

section \<open>The sighting of a run\<close>

fun is_sighting :: "lifecycle_call \<Rightarrow> bool" where
  "is_sighting (SalientObserved drone observed) = True"
| "is_sighting call = False"

lemma salient_observer_in_roster:
  assumes "scenario_valid scenario"
  shows "\<exists>start \<in> set (scenario_drones scenario). start_drone start = salient_observer scenario"
proof (cases "sort (map fst (scenario_absent scenario))")
  case Nil
  have "sort_key start_sector (scenario_drones scenario) \<noteq> []" using assms by (metis scenario_valid_def set_empty set_sort)
  then have "hd (sort_key start_sector (scenario_drones scenario)) \<in> set (scenario_drones scenario)" by (metis hd_in_set set_sort)
  with Nil show ?thesis by (auto simp: salient_observer_def)
next
  case (Cons drone rest)
  then have "drone \<in> set (map fst (scenario_absent scenario))" by (metis list.set_intros(1) set_sort)
  with assms Cons show ?thesis by (force simp: scenario_valid_def salient_observer_def)
qed

lemma concat_single:
  assumes "distinct (map key xs)" "x \<in> set xs" "\<And>y. y \<in> set xs \<Longrightarrow> key y \<noteq> key x \<Longrightarrow> f y = []"
  shows "concat (map f xs) = f x"
  using assms
proof (induction xs)
  case (Cons y ys)
  show ?case
  proof (cases "y = x")
    case True
    with Cons.prems have "\<forall>z \<in> set ys. f z = []" by (metis image_eqI list.set_intros(2) list.set_map distinct.simps(2) list.simps(9))
    with True show ?thesis by simp
  next
    case False
    with Cons show ?thesis by (auto simp: image_iff)
  qed
qed simp

lemma tick_sightings:
  assumes "scenario_valid scenario" "start \<in> set (scenario_drones scenario)" "start_drone start = salient_observer scenario"
  shows "filter is_sighting (tick_calls scenario n) =
    (if sector_state (sector_at scenario start (Suc n)) = SEARCHED \<and> sector_state (sector_at scenario start n) \<noteq> SEARCHED
     then [SalientObserved (start_drone start) (sighting (flight_at start (Suc n)) (start_sector start))] else [])"
proof -
  have "filter is_sighting (link_calls scenario n s) = []" for s by (simp add: link_calls_def Let_def)
  then have links: "filter is_sighting (concat (map (link_calls scenario n) xs)) = []" for xs by (induction xs) auto
  have others: "filter is_sighting (sector_calls scenario n s) = []" if "start_drone s \<noteq> start_drone start" for s
    using that assms(3) by (simp add: sector_calls_def Let_def)
  have "distinct (map start_drone (by_sector scenario))" using assms(1) by (auto simp: by_sector_def scenario_valid_def distinct_map)
  then have "concat (map (\<lambda>s. filter is_sighting (sector_calls scenario n s)) (by_sector scenario)) = filter is_sighting (sector_calls scenario n start)"
    by (rule concat_single) (use assms(2) others in \<open>auto simp: by_sector_def\<close>)
  with links assms(3) show ?thesis by (simp add: tick_calls_def filter_concat comp_def sector_calls_def Let_def)
qed

lemma searched_for_good:
  assumes "sector_state (sector_at scenario start n) = SEARCHED"
  shows "sector_state (sector_at scenario start (Suc n)) = SEARCHED"
proof -
  have "swept_at scenario start n \<le> swept_at scenario start (Suc n)" by (simp add: swept_at_def)
  with assms show ?thesis by (auto simp: sector_at_def phase_at_def split: if_splits)
qed

lemma run_sightings:
  assumes "scenario_valid scenario" "start \<in> set (scenario_drones scenario)" "start_drone start = salient_observer scenario"
  shows "length (filter is_sighting (concat (map (tick_calls scenario) [0..<n])))
    = (if sector_state (sector_at scenario start n) = SEARCHED then 1 else 0)"
proof (induction n)
  case 0
  then show ?case by (simp add: sector_at_def)
next
  case (Suc n)
  then show ?case using searched_for_good [of scenario start n] by (simp add: tick_sightings [OF assms])
qed

section \<open>Properties\<close>

lemma tick_after_run:
  assumes "scenario_valid scenario" "fleet_run n scenario (initial_fleet scenario) = (before, readings, None)"
    "advance_tick scenario before = Inr t"
  shows "fleet_at scenario n before \<and> fleet_at scenario (Suc n) (tick_state t)"
proof -
  have at: "fleet_at scenario n before"
    using fleet_run_from [OF assms(1) initial_fleet_at [OF assms(1)] assms(2), unfolded add_0] by auto
  with assms(3) have "mission_at scenario n \<noteq> EXHAUSTED" by (auto simp: fleet_at_def advance_tick_def split: if_splits)
  from advance_tick_at [OF assms(1) at this] assms(3) at show ?thesis by auto
qed

text \<open>Each tick of a run announces exactly the edges that it crossed: first, drone by drone in the order of their identifiers, each link
  whose state changed with the state that the drone's history of heartbeats gives, then, sector by sector in order, each sector whose
  state changed with its holder, followed by the sighting when it is the sector of the observer that became searched, at the
  position that the leg of the observer took it to. Nothing else is announced, and no lookup fails.\<close>

lemma tick_announces_edges:
  assumes "scenario_valid scenario" "fleet_run n scenario (initial_fleet scenario) = (before, readings, None)"
    "advance_tick scenario before = Inr t"
  shows "publish_transitions scenario before (tick_state t)
    = Inr (tick_calls scenario n)"
  using publish_transitions_at [OF assms(1)] tick_after_run [OF assms] unfolding tick_calls_def by blast

text \<open>C17. A run reports one sighting. Every sector of a mission is searched in the end, and yet, however long an accepted scenario is run, at
  most one sighting is announced, and exactly one once the mission is exhausted; the loop never fails.\<close>

theorem one_sighting_per_run:
  assumes "scenario_valid scenario" "fleet_run n scenario (initial_fleet scenario) = (final, readings, e)"
  shows "\<exists>calls. fleet_announced n scenario (initial_fleet scenario) = Inr calls
    \<and> length (filter is_sighting calls) \<le> 1 \<and> (fleet_mission final = EXHAUSTED \<longrightarrow> length (filter is_sighting calls) = 1)"
proof -
  from salient_observer_in_roster [OF assms(1)] obtain start where
    start: "start \<in> set (scenario_drones scenario)" "start_drone start = salient_observer scenario" ..
  note at = initial_fleet_at [OF assms(1)]
  note count = run_sightings [OF assms(1) start, of "length readings"]
  have "fleet_at scenario (length readings) final" using fleet_run_from [OF assms(1) at assms(2), unfolded add_0] by blast
  then have "sector_state (sector_at scenario start (length readings)) = SEARCHED" if "fleet_mission final = EXHAUSTED"
    using that start(1) by (auto simp: fleet_at_def mission_at_def all_swept_def sector_at_def phase_at_def split: if_splits)
  with count fleet_announced_from [OF assms(1) at assms(2), unfolded add_0] show ?thesis by (auto split: if_splits)
qed

theorem one_sighting_per_run_witness:
  "\<exists>calls. fleet_announced 9 pair_scenario (initial_fleet pair_scenario) = Inr calls \<and> length (filter is_sighting calls) = 1"
proof -
  obtain final readings where run: "fleet_run 9 pair_scenario (initial_fleet pair_scenario) = (final, readings, Some (MISSION_ENDED EXHAUSTED))"
    and "fleet_mission final = EXHAUSTED" by (rule pair_run)
  with one_sighting_per_run [OF pair_valid run] show ?thesis by blast
qed

end
