(* ===== verification/Telemetry.thy ===== *)
theory Telemetry
  imports Reports Feed
begin

text \<open>
  What the fleet reports meets those who read it: the dashboard accepts the telemetry of every tick of every run.
\<close>

section \<open>Telemetry\<close>

lemma reading_accepted:
  assumes "scenario_valid scenario" "start \<in> set (scenario_drones scenario)" "in_range start n"
  shows "validate_telemetry (telemetry_payload (scenario_mission scenario) (reading start (flight_at start n))) = Inr ()"
proof -
  have ids: "fullmatch IDENTIFIER_PATTERN (scenario_mission scenario)" "fullmatch IDENTIFIER_PATTERN (start_drone start)"
    and d: "drone_valid start" using assms(1,2) by (auto simp: scenario_valid_def drone_valid_def)
  have "0 \<le> start_drain start" "start_battery start \<le> 1000" using d by (auto simp: drone_valid_def bounded_members_def bound_defs)
  then have "start_battery start - int n * start_drain start \<le> 1000" by (smt (verit) mult_nonneg_nonneg of_nat_0_le_iff)
  then have battery: "0 \<le> Fleet.battery_percent (flight_at start n)" "Fleet.battery_percent (flight_at start n) \<le> 100"
    by (auto simp: Fleet.battery_percent_def flight_at_def PERMILLE_PER_PERCENT_def)
  have others: "- 500 \<le> start_altitude start" "start_altitude start \<le> 20000" "0 \<le> start_heading start" "start_heading start \<le> 359"
    "0 \<le> start_speed start" "start_speed start \<le> 10000"
    using d by (auto simp: drone_valid_def bounded_members_def bound_defs)
  show ?thesis
    using assms(3) ids battery others
    by (simp add: validate_telemetry_def telemetry_payload_def reading_def in_range_def bound_defs closed_members_Inr TELEMETRY_FIELDS_def
        payload_identifier_def payload_integer_def get_Cons)
qed

section \<open>Properties\<close>

text \<open>C19. The telemetry of every run is fit for the dashboard: whatever an accepted scenario says and however long it is run, the payload of each
  reading of each tick satisfies the contract that the dashboard feed checks telemetry against, identifiers and every bound included.\<close>

theorem run_telemetry_accepted:
  assumes "scenario_valid scenario" "fleet_run n scenario (initial_fleet scenario) = (final, readings, e)"
    "batch \<in> set readings" "r \<in> set batch"
  shows "validate_telemetry (telemetry_payload (scenario_mission scenario) r) = Inr ()"
proof -
  note run = fleet_run_from [OF assms(1) initial_fleet_at [OF assms(1)] assms(2), unfolded add_0]
  from assms(3) obtain j where j: "j < length readings" "batch = readings_at scenario (Suc j)"
    using run by (metis (no_types, lifting) in_set_conv_nth length_map nth_map nth_upt add_0)
  with assms(4) obtain start where "start \<in> set (scenario_drones scenario)" "r = reading start (flight_at start (Suc j))"
    by (auto simp: readings_at_def)
  with run j(1) show ?thesis using reading_accepted [OF assms(1)] by blast
qed

theorem run_telemetry_accepted_witness:
  "\<exists>final readings. fleet_run 9 pair_scenario (initial_fleet pair_scenario) = (final, readings, Some (MISSION_ENDED MissionState.EXHAUSTED)) \<and> length readings = 3
     \<and> (\<forall>batch \<in> set readings. \<forall>r \<in> set batch. validate_telemetry (telemetry_payload (scenario_mission pair_scenario) r) = Inr ())"
proof -
  obtain final readings where run: "fleet_run 9 pair_scenario (initial_fleet pair_scenario) = (final, readings, Some (MISSION_ENDED MissionState.EXHAUSTED))"
    and "length readings = 3" by (rule pair_run)
  with run_telemetry_accepted [OF pair_valid run] show ?thesis by blast
qed

end
