(* ===== verification/Spec2Isabelle.thy ===== *)
theory Spec2Isabelle
  imports Mission Sectors Evidence Outbox Commands Connectivity Idempotency Scoring Principals Authority
    Operations Feed Timeline Integration Dispatch Exchange Routing Gateway Telemetry
begin

text \<open>
  A verification of the deterministic core of an aerial search-and-rescue demonstrator. The program is a set of
  services that exchange CloudEvents over a broker and share one database. Drones report what they see; a language-model
  agent may propose an action; the evidence service decides how well the proposal is grounded; an operator approves it; and
  one service, the command gateway, is the only one that may command drones. Two pure packages, \<open>packages/domain\<close> (decisions and
  lifecycles) and \<open>packages/contracts\<close> (the wire contracts), carry the rules; \<open>packages/store\<close> and the services apply them to
  durable rows. File names below are under \<open>src/packages/domain/src/aerial_rescue_domain\<close> and
  \<open>src/packages/contracts/src/aerial_rescue_contracts\<close> unless said.

  \<^bold>\<open>Foundations.\<close>
  \<^item> \<open>Prelude\<close>: Python strings as lists of code points (\<open>lit\<close> writes a literal), UTF-8, decimal digits, \<open>split\<close>/\<open>join\<close>,
    the result type \<open>error + value\<close> with \<open>bindE\<close> and \<open>mapE\<close>, dictionaries as association lists in insertion order.
  \<^item> \<open>PyVal\<close>: the Python values that JSON documents are made of; a key or a value that is none of them is
    kept as an opaque object, so that the type errors of the source are branches of the model.
  \<^item> \<open>Regex\<close>: the patterns of the source with a derivative matcher \<open>fullmatch\<close>, proved equal to the language of the pattern.
  \<^item> \<open>Lifecycle\<close>: the locale \<open>lifecycle\<close> of the table-driven state machines: what a table, its initial and its
    terminal states promise, and the histories it admits.

  \<^bold>\<open>Domain package.\<close> One theory per module, with the names of the source.
  \<^item> \<open>Mission\<close>, \<open>Sectors\<close>, \<open>Evidence\<close>, \<open>Outbox\<close> (\<open>mission.py\<close>, \<open>sectors.py\<close>, \<open>evidence.py\<close>, \<open>outbox.py\<close>): transition tables,
    interpreted as lifecycles; which histories reach the states that matter.
  \<^item> \<open>Commands\<close>, \<open>Connectivity\<close>, \<open>Idempotency\<close>, \<open>Scoring\<close>: the send budget is never exceeded and silence ends in
    abandonment; the heartbeat counters refine a specification over the whole history; a stream judges against the
    maximum it accepted; escalation needs two live sources.
  \<^item> \<open>Approvals\<close>, \<open>Authority\<close>, \<open>Operations\<close>, \<open>Principals\<close>: an executed approval was approved for the same canonical
    proposal, inside its window on both clocks, and at most once; who may publish what.

  \<^bold>\<open>Contracts package.\<close>
  \<^item> \<open>Canonical\<close> (\<open>canonical.py\<close>): the canonical serialization; its bytes determine the value. Unicode
    normalization is the standard library's and is the parameter \<open>nfc\<close>; a property that needs something of it says so
    (ASCII text is unchanged, normalizing twice is normalizing once) and its witness uses the identity.
  \<^item> \<open>Json\<close>, \<open>JsonRoundTrip\<close> (\<open>canonical.py\<close>, \<open>decode\<close>): the JSON reader of the standard library as a scanner and a stack
    machine, total by a measure on the remaining input; decoding canonical bytes gives the value back.
  \<^item> \<open>Sha256\<close>, \<open>Digest\<close> (\<open>digest.py\<close>): the hash is computed in the model; digests of different contexts or payloads differ
    unless the hash collides.
  \<^item> \<open>Topics\<close>, \<open>Instant\<close>, \<open>Envelope\<close>: grammars with round trips in both directions, and the exact set of accepted documents.
  \<^item> \<open>Codec\<close>: the locale \<open>closed_codec\<close> of validator and document builder, interpreted for the envelope, for the gateway
    bodies (\<open>Rpc\<close>, \<open>rpc.py\<close>) and for the agent response (\<open>Integration\<close>, \<open>integration.py\<close>).
  \<^item> \<open>View\<close>, \<open>Reducer\<close>, \<open>Replay\<close>, \<open>Feed\<close>, \<open>Timeline\<close> (\<open>view.py\<close>): projection of envelopes, the reducer of the dashboard with its
    checkpoints and digests, at-least-once replay through the locale \<open>ordinal_fold\<close>, and the timeline.

  \<^bold>\<open>Command gateway\<close> (\<open>src/services/command_gateway/src/aerial_rescue_command_gateway\<close>).
  \<^item> \<open>Dispatch\<close> (\<open>dispatch.py\<close>): the retry schedule and its bounds. \<open>Policy\<close> (\<open>policy.py\<close>): the answer to a request.
  \<^item> \<open>Exchange\<close> (\<open>reply.py\<close>, \<open>record.py\<close>, \<open>exchange.py\<close>): one message in, at most a reply and a record out. The broker is the
    parameter \<open>accepts\<close>, which says whether it takes a publication.

  \<^item> \<open>Ingress\<close> (\<open>ingress.py\<close>, \<open>refusal.py\<close>): the trust boundary. A payload model is a record with the validator that its declaration
    denotes; what is accepted is of its type and came on the topic that its members name.
  \<^item> \<open>Artifacts\<close> (\<open>command_artifacts.py\<close>, \<open>store_adapter.py\<close>), \<open>Authorization\<close> (\<open>authorization.py\<close>): an escalation is released only when the
    durable rows warrant it, the specification \<open>warranted\<close>.
  \<^item> \<open>Progression\<close>, \<open>OperatorApproval\<close>, \<open>Normalization\<close>, \<open>Publication\<close> (the modules of these names, and \<open>agent_response.py\<close>): sends, timeouts
    and results; the approval rebased on the gateway's clock, exact to the millisecond; an agent's answer becomes a proposal; the two
    outboxes are published in batches and reconciled.
  \<^item> \<open>Settlement\<close>: what the handlers share: the unit of work, the durable record of a refusal, the settlement, and the locale
    \<open>guaranteed_consumer\<close>, the contract of a consumer of the inbox (it keeps every completed row, and answers a delivery it
    completed with the same bytes, changing nothing). It is interpreted for commands (\<open>authorizing\<close>), approvals (\<open>approving\<close>), results
    (\<open>resulting\<close>), salient events (\<open>sourcing\<close>) and proposals (\<open>assessing\<close>).
  \<^item> \<open>Service\<close> (\<open>service.py\<close>): stamps, dispatch of deliveries, draining, recovery and readiness, and the decisions of a turn of the loop.
    \<open>Readiness\<close> and \<open>Routing\<close> (\<open>src/packages/broker/src/aerial_rescue_broker\<close>, \<open>messaging.py\<close> and \<open>routing.py\<close>): the lifecycle of a session as a state
    machine over its signals, and which port a publication goes to.

  \<^bold>\<open>Store\<close> (\<open>src/packages/store/src/aerial_rescue_store\<close>). \<open>Calendar\<close> has the arithmetic of instants. \<open>Database\<close> has the rows and the tables;
  a statement is its effect on the tables, a unit of work a function from the tables to a result and the new tables
  or to an error that leaves them as they were. \<open>Repositories\<close> has the operations of the repositories, and \<open>Provenance\<close> those of
  source events and source evidence. Units of work are serial: each runs on the tables that the one before it left.

  \<^bold>\<open>Evidence service\<close> (\<open>src/services/evidence_service/src/aerial_rescue_evidence_service\<close>). \<open>Assessment\<close> (\<open>wire.py\<close>, \<open>source.py\<close>, \<open>evaluation.py\<close>,
  \<open>publication.py\<close>): a proposal is checked against the source it cites, scored, and the decision is built with its events.
  \<open>EvidenceService\<close> (\<open>source_processing.py\<close>, \<open>processing.py\<close>): the two handlers; a corroborated decision rests on a stored event of the
  proposal's drone, the invariant \<open>evidence_sound\<close>.

  \<^bold>\<open>Fleet simulator\<close> (\<open>src/services/fleet_simulator/src/aerial_rescue_fleet_simulator\<close>). \<open>Scenario\<close> (\<open>bounds.py\<close>, \<open>scenario.py\<close>): the checks of a
  scenario, proved equal to the specification \<open>scenario_valid\<close>. \<open>Fleet\<close> (\<open>flight.py\<close>, \<open>fleet.py\<close>): one tick of the fleet over the machines of the
  domain; a run computes the specification \<open>fleet_at\<close>, drone by drone, raises no other error than the two it documents, and ends within
  a bound that is computed from the scenario. \<open>Reports\<close> (\<open>__init__.py\<close>, \<open>telemetry.py\<close>, \<open>results.py\<close>, \<open>lifecycle.py\<close>): the records, and the
  edges that a tick announces, among them one sighting in a run. \<open>Telemetry\<close>: the dashboard's contract accepts every reading.

  \<^bold>\<open>Composition.\<close> \<open>Gateway\<close> lets the steps of the gateway, of the evidence service and the writes of the dashboard and the recorder follow one
  another in any order and with any failures on one database. Every step is one of the cases of the relation \<open>writes\<close>; from it
  follow, for every run, that handled deliveries are answered from the inbox, that an approval releases at most one
  escalation, that progress stays within the send budget, and that an escalation rests on an observation.

  \<^bold>\<open>Conventions.\<close> An exception is a value on the left of a sum; the error types name the refusals of the
  source, and exceptions of Python itself that the source lets through (an encoding error on a lone surrogate, the
  integer-conversion limit, a key that is not there) are constructors of their own. Python integers are \<open>int\<close>; no
  machine arithmetic occurs outside \<open>Sha256\<close>, which works on 32-bit words. All recursive definitions terminate without fuel;
  a run of the fleet is given the number of ticks, and the bound on its length says how many are enough.
  What the environment decides is an argument: whether a commit succeeds (\<open>fate\<close>), whether a settlement reaches the broker and
  when a refusal is observed (\<open>environment\<close>), which publications the broker confirms, the clocks and the stamps.

  \<^bold>\<open>Not modelled.\<close> Of \<open>packages/broker\<close> the vendor SDK, sockets, threads and provisioning; of \<open>packages/store\<close> the engine, the migrations, the
  isolation of concurrent transactions and the queries of the dashboard; \<open>packages/observability\<close>; the consoles and polling loops,
  the evidence service's drain of its outbox; the fleet simulator's command intake, service loop and control plane, the dashboard's HTTP boundary, the recorder and the
  scenario service; the agent mesh; the interpreter's recursion limit; log and error message texts.
\<close>

end
